(* ===== verification/Prelude.thy ===== *)
theory Prelude
  imports Main "HOL-Library.Word"
begin

text \<open>
  Shared vocabulary of the development: the numeric types of libdevcore/Common.h, the
  exceptions the code throws, results of fallible operations, and the generic lemmas on
  lists, words and results that the component theories use.
\<close>

section \<open>Types\<close>

type_synonym byte = "8 word"
type_synonym bytes = "byte list"
type_synonym u256 = "256 word"

text \<open>
  Exceptions (libdevcore/Exceptions.h, libevmasm/Exceptions.h, SemVerHandler.h). The message
  of an \<open>assertThrow\<close> is kept where the code gives one. \<open>OutOfRange\<close> is the
  \<open>std::out_of_range\<close> of a container's \<open>at\<close>. \<open>UndefinedBehaviour\<close> stands for what C++ leaves
  undefined: a null pointer followed, an element past the end of a vector.
\<close>

datatype exn =
    DevException
  | InvalidOpcode
  | InvalidDeposit
  | AssemblyException string
  | OptimizerException string
  | StackTooDeepException
  | ItemNotAvailableException
  | BadHexCharacter
  | InvalidAddress
  | SemVerError
  | SolAssert
  | OutOfRange
  | TypeError string
  | UndefinedBehaviour

type_synonym 'a res = "exn + 'a"

text \<open>\<open>bindR\<close> runs the second computation on the value of the first, and stops at an exception.\<close>

definition bindR :: "'a res \<Rightarrow> ('a \<Rightarrow> 'b res) \<Rightarrow> 'b res" where
  "bindR m f = (case m of Inl e \<Rightarrow> Inl e | Inr x \<Rightarrow> f x)"

definition assertThrow :: "bool \<Rightarrow> exn \<Rightarrow> 'a res \<Rightarrow> 'a res" where
  "assertThrow c e k = (if c then k else Inl e)"

section \<open>Collections of facts\<close>

named_theorems unfold_defs \<open>definitions to unfold when a concrete term is evaluated\<close>
named_theorems word_facts \<open>facts on 256-bit words used by the optimiser proofs\<close>

section \<open>Results\<close>

lemma bindR_simps [simp]:
  "bindR (Inl e) f = Inl e"
  "bindR (Inr x) f = f x"
  by (simp_all add: bindR_def)

lemma bindR_cong: "m = m' \<Longrightarrow> (\<And>x. m' = Inr x \<Longrightarrow> f x = f' x) \<Longrightarrow> bindR m f = bindR m' f'"
  by (auto simp: bindR_def split: sum.split)

lemma bindR_eq_Inr [simp]: "bindR m f = Inr y \<longleftrightarrow> (\<exists>x. m = Inr x \<and> f x = Inr y)"
  by (cases m) auto

lemma assertThrow_eq_Inr [simp]: "assertThrow c e k = Inr x \<longleftrightarrow> c \<and> k = Inr x"
  by (simp add: assertThrow_def)

lemma assertThrow_True [simp]: "assertThrow True e k = k"
  by (simp add: assertThrow_def)

lemma assertThrow_False [simp]: "assertThrow False e k = Inl e"
  by (simp add: assertThrow_def)

section \<open>Bytes and words\<close>

lemma unat_byte_less [simp]: "unat (b :: byte) < 256"
  using unsigned_less [of b] by simp

lemma unat_u256_less: "unat (v :: u256) < 2 ^ 256"
  using unsigned_less [of v] by simp

text \<open>A property of every byte is decided by checking the 256 of them.\<close>

definition all_bytes :: "byte list" where
  "all_bytes = map word_of_nat [0..<256]"

lemma set_all_bytes: "set all_bytes = UNIV"
proof -
  have "b \<in> word_of_nat ` {0..<256}" for b :: byte
    by (rule image_eqI [where x = "unat b"]) simp_all
  then show ?thesis by (auto simp: all_bytes_def)
qed

lemma all_byteI: "list_all P all_bytes \<Longrightarrow> P b"
  by (simp add: list_all_iff set_all_bytes)

section \<open>Ordered maps\<close>

text \<open>
  \<open>std::map\<close> as an association list in the order of its keys. The locale states what the components
  use of it: a lookup after an update, and that an update keeps the keys in order.
\<close>

fun omap_put :: "'k::linorder \<Rightarrow> 'v \<Rightarrow> ('k \<times> 'v) list \<Rightarrow> ('k \<times> 'v) list" where
  "omap_put k v [] = [(k, v)]"
| "omap_put k v ((k', v') # xs) =
     (if k < k' then (k, v) # (k', v') # xs else if k = k' then (k, v) # xs else (k', v') # omap_put k v xs)"

definition omap_insert :: "'k::linorder \<Rightarrow> 'v \<Rightarrow> ('k \<times> 'v) list \<Rightarrow> ('k \<times> 'v) list" where
  "omap_insert k v xs = (case map_of xs k of None \<Rightarrow> omap_put k v xs | Some _ \<Rightarrow> xs)"

definition omap_ok :: "('k::linorder \<times> 'v) list \<Rightarrow> bool" where
  "omap_ok xs \<longleftrightarrow> sorted_wrt (<) (map fst xs)"

locale ordered_map =
  fixes put :: "'k \<Rightarrow> 'v \<Rightarrow> 'm \<Rightarrow> 'm" and get :: "'m \<Rightarrow> 'k \<rightharpoonup> 'v" and invar :: "'m \<Rightarrow> bool" and empty :: 'm
  assumes get_empty: "get empty = Map.empty"
    and get_put: "get (put k v m) = (get m)(k \<mapsto> v)"
    and invar_empty: "invar empty"
    and invar_put: "invar m \<Longrightarrow> invar (put k v m)"
begin

lemma get_fold: "get (fold (\<lambda>(k, v). put k v) kvs m) = get m ++ map_of (rev kvs)"
  by (induction kvs arbitrary: m) (auto simp: get_put map_add_def fun_eq_iff split: option.splits)

lemma invar_fold: "invar m \<Longrightarrow> invar (fold (\<lambda>(k, v). put k v) kvs m)"
  by (induction kvs arbitrary: m) (auto simp: invar_put)

end

lemma map_of_omap_put: "map_of (omap_put k v xs) = (map_of xs)(k \<mapsto> v)"
  by (induction k v xs rule: omap_put.induct) (auto simp: fun_eq_iff)

lemma set_omap_put: "set (map fst (omap_put k v xs)) = insert k (set (map fst xs))"
  by (induction k v xs rule: omap_put.induct) auto

lemma omap_ok_put: "omap_ok xs \<Longrightarrow> omap_ok (omap_put k v xs)"
  unfolding omap_ok_def
proof (induction k v xs rule: omap_put.induct)
  case (2 k v k' v' xs)
  then show ?case using set_omap_put [of k v xs] by auto
qed simp

interpretation omap: ordered_map omap_put map_of omap_ok "[]"
  by unfold_locales (simp_all add: map_of_omap_put omap_ok_put, simp add: omap_ok_def)

end
