(* ===== verification/DevCore.thy ===== *)
theory DevCore
  imports Prelude
begin

text \<open>
  Model of libdevcore/CommonData.h, CommonData.cpp and the signed conversions of Common.h:
  byte counts, big-endian encodings, hexadecimal text, address checksums. A template integer
  of unsigned type is its value, a natural number; a right shift by 8 divides it by 256. The
  hash that the address checksum uses is an argument, so the theorems hold for every hash.
\<close>

section \<open>Definitions\<close>

datatype WhenError = DontThrow | Throw
datatype HexPrefix = DontAdd | Add

subsection \<open>Byte counts and big-endian encodings\<close>

fun bytesRequired :: "nat \<Rightarrow> nat" where
  "bytesRequired i = (if i = 0 then 0 else Suc (bytesRequired (i div 256)))"

declare bytesRequired.simps [simp del]

text \<open>The loop over the output collection, from its last byte to its first.\<close>

fun toBigEndian :: "nat \<Rightarrow> nat \<Rightarrow> bytes" where
  "toBigEndian 0 val = []"
| "toBigEndian (Suc n) val = toBigEndian n (val div 256) @ [word_of_nat (val mod 256)]"

definition toBigEndian_u256 :: "u256 \<Rightarrow> bytes" where
  "toBigEndian_u256 val = toBigEndian 32 (unat val)"

definition fromBigEndian :: "bytes \<Rightarrow> nat" where
  "fromBigEndian bs = foldl (\<lambda>ret i. ret * 256 + unat i) 0 bs"

definition fromBigEndian_u256 :: "bytes \<Rightarrow> u256" where
  "fromBigEndian_u256 bs = foldl (\<lambda>ret i. or (push_bit 8 ret) (ucast i)) 0 bs"

definition toCompactBigEndian :: "nat \<Rightarrow> nat \<Rightarrow> bytes" where
  "toCompactBigEndian val mn = toBigEndian (max mn (bytesRequired val)) val"

subsection \<open>Hexadecimal text\<close>

definition hexChar :: "nat \<Rightarrow> char" where
  "hexChar n = (if n < 10 then char_of (48 + n) else char_of (87 + n))"

fun hexNat :: "nat \<Rightarrow> string" where
  "hexNat n = (if n < 16 then [hexChar n] else hexNat (n div 16) @ [hexChar (n mod 16)])"

declare hexNat.simps [simp del]

definition setw0 :: "nat \<Rightarrow> string \<Rightarrow> string" where
  "setw0 w s = replicate (w - length s) CHR ''0'' @ s"

definition toHex :: "bytes \<Rightarrow> nat \<Rightarrow> HexPrefix \<Rightarrow> string" where
  "toHex data w prefix =
     (let ret = (case data of [] \<Rightarrow> []
                 | b # bs \<Rightarrow> setw0 w (hexNat (unat b)) @ concat (map (\<lambda>i. setw0 2 (hexNat (unat i))) bs))
      in if prefix = Add then ''0x'' @ ret else ret)"

definition toHex_u256 :: "u256 \<Rightarrow> HexPrefix \<Rightarrow> string" where
  "toHex_u256 val prefix =
     (let str = toHex (toBigEndian_u256 val) 2 DontAdd
      in if prefix = Add then ''0x'' @ str else str)"

definition toCompactHexWithPrefix :: "u256 \<Rightarrow> string" where
  "toCompactHexWithPrefix val = ''0x'' @ hexNat (unat val)"

fun decNat :: "nat \<Rightarrow> string" where
  "decNat n = (if n < 10 then [char_of (48 + n)] else decNat (n div 10) @ [char_of (48 + n mod 10)])"

declare decNat.simps [simp del]

definition formatNumber_nat :: "nat \<Rightarrow> string" where
  "formatNumber_nat value =
     (if value > 0x1000000 then toHex (toCompactBigEndian value 0) 2 Add else decNat value)"

definition formatNumber :: "int \<Rightarrow> string" where
  "formatNumber value =
     (if value < 0 then ''-'' @ formatNumber_nat (nat (- value)) else formatNumber_nat (nat value))"

definition fromHexChar :: "char \<Rightarrow> WhenError \<Rightarrow> int res" where
  "fromHexChar i throw =
     (let c = (of_char i :: int)
      in if c \<ge> 48 \<and> c \<le> 57 then Inr (c - 48)
         else if c \<ge> 97 \<and> c \<le> 102 then Inr (c - 97 + 10)
         else if c \<ge> 65 \<and> c \<le> 70 then Inr (c - 65 + 10)
         else if throw = Throw then Inl BadHexCharacter
         else Inr (- 1))"

text \<open>The failure exit of \<open>fromHex\<close>: an exception, or the empty byte array.\<close>

definition hexFailure :: "WhenError \<Rightarrow> bytes res" where
  "hexFailure throw = (if throw = Throw then Inl BadHexCharacter else Inr [])"

text \<open>The digit value as the loop reads it, with \<open>-1\<close> for a bad character.\<close>

definition hexDigit :: "char \<Rightarrow> int" where
  "hexDigit c = (case fromHexChar c DontThrow of Inr h \<Rightarrow> h | Inl _ \<Rightarrow> - 1)"

fun fromHexPairs :: "bytes \<Rightarrow> string \<Rightarrow> WhenError \<Rightarrow> bytes res" where
  "fromHexPairs ret [] throw = Inr ret"
| "fromHexPairs ret [c] throw = hexFailure throw"
| "fromHexPairs ret (c # d # s) throw =
     (let h = hexDigit c; l = hexDigit d
      in if h \<noteq> - 1 \<and> l \<noteq> - 1 then fromHexPairs (ret @ [word_of_int (h * 16 + l)]) s throw
         else hexFailure throw)"

definition fromHex :: "string \<Rightarrow> WhenError \<Rightarrow> bytes res" where
  "fromHex str throw =
     (let s = (if take 2 str = ''0x'' then drop 2 str else str)
      in if odd (length str) then
           (case s of [] \<Rightarrow> hexFailure throw
            | c # s' \<Rightarrow> (let h = hexDigit c
                in if h \<noteq> - 1 then fromHexPairs [word_of_int h] s' throw else hexFailure throw))
         else fromHexPairs [] s throw)"

subsection \<open>Address checksums\<close>

definition isUpperAscii :: "char \<Rightarrow> bool" where
  "isUpperAscii c \<longleftrightarrow> (let n = (of_char c :: nat) in 65 \<le> n \<and> n \<le> 90)"

definition isLowerAscii :: "char \<Rightarrow> bool" where
  "isLowerAscii c \<longleftrightarrow> (let n = (of_char c :: nat) in 97 \<le> n \<and> n \<le> 122)"

definition toLowerAscii :: "char \<Rightarrow> char" where
  "toLowerAscii c = (if isUpperAscii c then char_of ((of_char c :: nat) + 32) else c)"

definition toUpperAscii :: "char \<Rightarrow> char" where
  "toUpperAscii c = (if isLowerAscii c then char_of ((of_char c :: nat) - 32) else c)"

definition stripHexPrefix :: "string \<Rightarrow> string" where
  "stripHexPrefix s = (if take 2 s = ''0x'' then drop 2 s else s)"

definition hexAlphabet :: string where
  "hexAlphabet = ''0123456789abcdefABCDEF''"

text \<open>The nibble of the 32-byte hash that decides the case of character \<open>i\<close>.\<close>

definition hashNibble :: "bytes \<Rightarrow> nat \<Rightarrow> nat" where
  "hashNibble hash i = (unat (hash ! (i div 2)) div (2 ^ (4 * (1 - i mod 2)))) mod 16"

definition checksumChar :: "bytes \<Rightarrow> string \<Rightarrow> nat \<Rightarrow> char" where
  "checksumChar hash s i =
     (if hashNibble hash i \<ge> 8 then toUpperAscii (s ! i) else toLowerAscii (s ! i))"

definition getChecksummedAddress :: "(string \<Rightarrow> bytes) \<Rightarrow> string \<Rightarrow> string res" where
  "getChecksummedAddress keccak256 addr =
     (let s = stripHexPrefix addr
      in assertThrow (length s = 40) InvalidAddress
          (assertThrow (set s \<subseteq> set hexAlphabet) InvalidAddress
            (let hash = keccak256 (map toLowerAscii s)
             in Inr (''0x'' @ map (checksumChar hash s) [0..<40]))))"

definition passesAddressChecksum :: "(string \<Rightarrow> bytes) \<Rightarrow> string \<Rightarrow> bool \<Rightarrow> bool res" where
  "passesAddressChecksum keccak256 str strict =
     (let s = stripHexPrefix str
      in if length s \<noteq> 40 then Inr False
         else if \<not> strict \<and> (set str \<inter> set ''abcdef'' = {} \<or> set str \<inter> set ''ABCDEF'' = {}) then Inr True
         else bindR (getChecksummedAddress keccak256 str) (\<lambda>c. Inr (str = c)))"

subsection \<open>Signed readings of a word (Common.h)\<close>

definition u2s :: "u256 \<Rightarrow> int" where
  "u2s u = (if bit u 255 then - (2 ^ 256 - uint u) else uint u)"

definition s2u :: "int \<Rightarrow> u256" where
  "s2u u = (if u \<ge> 0 then word_of_int u else word_of_int (2 ^ 256 + u))"

section \<open>Byte counts\<close>

lemma bytesRequired_0 [simp]: "bytesRequired 0 = 0"
  by (simp add: bytesRequired.simps)

lemma bytesRequired_pos: "0 < n \<Longrightarrow> bytesRequired n = Suc (bytesRequired (n div 256))"
  by (subst bytesRequired.simps) simp

lemma bytesRequired_le_iff: "bytesRequired n \<le> k \<longleftrightarrow> n < 256 ^ k"
proof (induction k arbitrary: n)
  case 0
  show ?case by (cases "n = 0") (simp_all add: bytesRequired_pos)
next
  case (Suc k)
  show ?case
  proof (cases "n = 0")
    case False
    then have "bytesRequired n \<le> Suc k \<longleftrightarrow> n div 256 < 256 ^ k"
      by (simp add: bytesRequired_pos Suc.IH)
    also have "\<dots> \<longleftrightarrow> n < 256 ^ Suc k"
      by (simp add: div_less_iff_less_mult mult.commute)
    finally show ?thesis .
  qed simp
qed

lemma less_power_bytesRequired: "n < 256 ^ bytesRequired n"
  using bytesRequired_le_iff by blast

lemma bytesRequired_eq_0_iff [simp]: "bytesRequired n = 0 \<longleftrightarrow> n = 0"
  using bytesRequired_le_iff [of n 0] by simp

lemma bytesRequired_mono: "m \<le> n \<Longrightarrow> bytesRequired m \<le> bytesRequired n"
  by (meson bytesRequired_le_iff le_less_trans less_power_bytesRequired)

lemma bytesRequired_less_imp: "bytesRequired m < bytesRequired n \<Longrightarrow> m < n"
  by (metis bytesRequired_mono not_le)

lemma bytesRequired_u256: "bytesRequired (unat (v :: u256)) \<le> 32"
proof -
  have "(256::nat) ^ 32 = 2 ^ 256" by simp
  with unat_u256_less [of v] show ?thesis by (simp add: bytesRequired_le_iff)
qed

section \<open>Big-endian round trips\<close>

lemma length_toBigEndian [simp]: "length (toBigEndian n v) = n"
  by (induction n v rule: toBigEndian.induct) simp_all

lemma fromBigEndian_snoc [simp]: "fromBigEndian (bs @ [b]) = fromBigEndian bs * 256 + unat b"
  by (simp add: fromBigEndian_def)

lemma fromBigEndian_Nil [simp]: "fromBigEndian [] = 0"
  by (simp add: fromBigEndian_def)

lemma fromBigEndian_toBigEndian_mod: "fromBigEndian (toBigEndian n v) = v mod 256 ^ n"
proof (induction n v rule: toBigEndian.induct)
  case (2 n val)
  have "unat (word_of_nat (val mod 256) :: byte) = val mod 256"
    by (simp add: unat_of_nat)
  with 2 show ?case
    by (simp add: mod_mult2_eq [of val 256] mult.commute)
qed simp

lemma fromBigEndian_bound: "fromBigEndian bs < 256 ^ length bs"
proof (induction bs rule: rev_induct)
  case (snoc b bs)
  have "fromBigEndian bs * 256 + unat b < Suc (fromBigEndian bs) * 256"
    using unat_byte_less [of b] by simp
  also have "\<dots> \<le> 256 ^ length bs * 256"
    using snoc by (intro mult_le_mono1) simp
  finally show ?case by (simp add: mult.commute)
qed simp

lemma toBigEndian_fromBigEndian: "toBigEndian (length bs) (fromBigEndian bs) = bs"
proof (induction bs rule: rev_induct)
  case (snoc b bs)
  have "(fromBigEndian bs * 256 + unat b) div 256 = fromBigEndian bs"
    using unat_byte_less [of b] by simp
  moreover have "(fromBigEndian bs * 256 + unat b) mod 256 = unat b"
    using unat_byte_less [of b] by simp
  ultimately show ?case using snoc by simp
qed simp

lemma or_push_bit_byte: "or (push_bit 8 (w :: u256)) (ucast (b :: byte)) = w * 256 + ucast b"
proof -
  have "and (push_bit 8 w) (ucast b :: u256) = 0"
    by (rule bit_eqI) (auto simp: bit_simps dest: bit_imp_le_length)
  then have "or (push_bit 8 w) (ucast b :: u256) = push_bit 8 w + ucast b"
    by (simp add: disjunctive_add_eq_or)
  then show ?thesis by (simp add: push_bit_eq_mult)
qed

lemma fromBigEndian_u256_snoc [simp]:
  "fromBigEndian_u256 (bs @ [b]) = fromBigEndian_u256 bs * 256 + ucast b"
  by (simp add: fromBigEndian_u256_def or_push_bit_byte)

lemma fromBigEndian_u256_eq: "fromBigEndian_u256 bs = word_of_nat (fromBigEndian bs)"
proof (induction bs rule: rev_induct)
  case (snoc b bs)
  have "(word_of_nat (unat b) :: u256) = ucast b" by (simp add: of_nat_unat)
  with snoc show ?case by simp
qed (simp add: fromBigEndian_u256_def)

lemma fromBigEndian_toBigEndian: "v < 256 ^ n \<Longrightarrow> fromBigEndian (toBigEndian n v) = v"
  by (simp add: fromBigEndian_toBigEndian_mod)

lemma length_toCompactBigEndian [simp]:
  "length (toCompactBigEndian v mn) = max mn (bytesRequired v)"
  by (simp add: toCompactBigEndian_def)

section \<open>Hexadecimal round trips\<close>

lemma of_char_hexChar: "n < 16 \<Longrightarrow> (of_char (hexChar n) :: nat) = (if n < 10 then 48 + n else 87 + n)"
  by (simp add: hexChar_def)

lemma hexDigit_hexChar [simp]: "n < 16 \<Longrightarrow> hexDigit (hexChar n) = int n"
proof -
  assume n: "n < 16"
  have "(of_char (hexChar n) :: int) = int (of_char (hexChar n))" by (simp add: of_nat_of_char)
  with of_char_hexChar [OF n] n show ?thesis
    by (simp add: hexDigit_def fromHexChar_def Let_def)
qed

lemma hexChar_not_x [simp]: "n < 16 \<Longrightarrow> hexChar n \<noteq> CHR ''x''"
proof
  assume n: "n < 16" and "hexChar n = CHR ''x''"
  then have "(of_char (hexChar n) :: nat) = of_char (CHR ''x'')" by simp
  then show False using of_char_hexChar [OF n] n by (simp split: if_splits)
qed

lemma char_of_48: "char_of (48 :: nat) = CHR ''0''"
  by code_simp

lemma setw0_hexNat_byte:
  "setw0 2 (hexNat (unat (b :: byte))) = [hexChar (unat b div 16), hexChar (unat b mod 16)]"
proof (cases "unat b < 16")
  case True
  then show ?thesis by (simp add: hexNat.simps setw0_def hexChar_def char_of_48)
next
  case False
  then have "unat b div 16 < 16" using unat_byte_less [of b] by linarith
  with False show ?thesis
    by (simp add: hexNat.simps [of "unat b"] hexNat.simps [of "unat b div 16"] setw0_def)
qed

lemma toHex_2_DontAdd:
  "toHex bs 2 DontAdd = concat (map (\<lambda>b. [hexChar (unat b div 16), hexChar (unat b mod 16)]) bs)"
  by (cases bs) (simp_all add: toHex_def setw0_hexNat_byte)

lemma byte_nibbles: "unat (b :: byte) div 16 < 16" "unat b mod 16 < 16"
  using unat_byte_less [of b] by linarith+

lemma byte_of_nibbles: "word_of_int (int (unat b div 16) * 16 + int (unat b mod 16)) = (b :: byte)"
proof -
  have "int (unat b div 16) * 16 + int (unat b mod 16) = int (unat b)"
    by (metis div_mult_mod_eq of_nat_add of_nat_mult of_nat_numeral)
  then show ?thesis by simp
qed

lemma fromHexPairs_toHex: "fromHexPairs ret (toHex bs 2 DontAdd) throw = Inr (ret @ bs)"
proof (induction bs arbitrary: ret)
  case (Cons b bs)
  have "toHex (b # bs) 2 DontAdd
      = hexChar (unat b div 16) # hexChar (unat b mod 16) # toHex bs 2 DontAdd"
    by (simp add: toHex_2_DontAdd)
  then show ?case
    using byte_nibbles [of b] byte_of_nibbles [of b] by (simp add: Cons.IH)
qed (simp add: toHex_def)

lemma even_length_toHex: "even (length (toHex bs 2 DontAdd))"
  by (simp add: toHex_2_DontAdd length_concat comp_def sum_list_triv)

lemma toHex_no_prefix: "take 2 (toHex bs 2 DontAdd) \<noteq> ''0x''"
  using byte_nibbles by (cases bs) (simp_all add: toHex_2_DontAdd)

lemma toHex_Add: "toHex bs w Add = ''0x'' @ toHex bs w DontAdd"
  by (simp add: toHex_def Let_def)

lemma fromHex_toHex: "fromHex (toHex bs 2 prefix) throw = Inr bs"
  using toHex_no_prefix [of bs] even_length_toHex [of bs]
  by (cases prefix) (simp_all add: fromHex_def toHex_Add fromHexPairs_toHex)

section \<open>Signed conversions\<close>

lemma u2s_eq_sint: "u2s u = sint u"
proof -
  have "sint u = take_bit 256 (uint u) - 2 ^ 256 * of_bool (bit (uint u) 255)"
    by (simp add: sint_uint signed_take_bit_eq_take_bit_minus)
  also have "take_bit 256 (uint u) = uint u"
    using unsigned_less [of u] by (intro take_bit_int_eq_self) simp_all
  finally show ?thesis by (simp add: u2s_def bit_uint_iff)
qed

lemma s2u_eq: "s2u i = word_of_int i"
proof -
  have "(word_of_int (2 ^ 256 + i) :: u256) = word_of_int i"
    by (simp add: word_of_int_eq_iff take_bit_eq_mod)
  then show ?thesis by (simp add: s2u_def)
qed

lemma s2u_u2s [simp]: "s2u (u2s u) = u"
  by (simp add: u2s_eq_sint s2u_eq)

section \<open>Address checksums\<close>

text \<open>The facts on letter case that the checksum rests on, for the characters of a hex string.\<close>

lemma hex_case_facts:
  assumes "c \<in> set hexAlphabet"
  shows "toLowerAscii c \<in> set hexAlphabet"
    and "toUpperAscii c \<in> set hexAlphabet"
    and "toLowerAscii (toLowerAscii c) = toLowerAscii c"
    and "toLowerAscii (toUpperAscii c) = toLowerAscii c"
    and "toUpperAscii (toUpperAscii c) = toUpperAscii c"
proof -
  have "list_all (\<lambda>c. toLowerAscii c \<in> set hexAlphabet
      \<and> toUpperAscii c \<in> set hexAlphabet
      \<and> toLowerAscii (toLowerAscii c) = toLowerAscii c
      \<and> toLowerAscii (toUpperAscii c) = toLowerAscii c
      \<and> toUpperAscii (toUpperAscii c) = toUpperAscii c) hexAlphabet"
    by code_simp
  with assms show "toLowerAscii c \<in> set hexAlphabet"
    and "toUpperAscii c \<in> set hexAlphabet"
    and "toLowerAscii (toLowerAscii c) = toLowerAscii c"
    and "toLowerAscii (toUpperAscii c) = toLowerAscii c"
    and "toUpperAscii (toUpperAscii c) = toUpperAscii c"
    unfolding list_all_iff by blast+
qed

lemma checksumChar_hex:
  assumes "set s \<subseteq> set hexAlphabet" "i < length s"
  shows "checksumChar h s i \<in> set hexAlphabet"
    and "toLowerAscii (checksumChar h s i) = toLowerAscii (s ! i)"
proof -
  have "s ! i \<in> set hexAlphabet" using assms nth_mem by blast
  then show "checksumChar h s i \<in> set hexAlphabet"
    and "toLowerAscii (checksumChar h s i) = toLowerAscii (s ! i)"
    unfolding checksumChar_def by (auto simp only: hex_case_facts split: if_splits)
qed

lemma checksumChar_idem:
  assumes "set s \<subseteq> set hexAlphabet" "length s = 40" "i < 40"
  shows "checksumChar h (map (checksumChar h s) [0..<40]) i = checksumChar h s i"
proof -
  have "i < length s" using assms(2,3) by simp
  then have "s ! i \<in> set hexAlphabet" by (rule subsetD [OF assms(1) nth_mem])
  moreover have "map (checksumChar h s) [0..<40] ! i = checksumChar h s i" using assms(3) by simp
  ultimately show ?thesis
    unfolding checksumChar_def by (auto simp only: hex_case_facts split: if_splits)
qed

lemma getChecksummedAddress_idem:
  assumes "getChecksummedAddress keccak256 addr = Inr c"
  shows "getChecksummedAddress keccak256 c = Inr c"
proof -
  define s where "s = stripHexPrefix addr"
  define h where "h = keccak256 (map toLowerAscii s)"
  define t where "t = map (checksumChar h s) [0..<40]"
  have len: "length s = 40" and hex: "set s \<subseteq> set hexAlphabet"
    and c: "c = ''0x'' @ t"
    using assms by (auto simp: getChecksummedAddress_def Let_def s_def h_def t_def)
  have strip: "stripHexPrefix c = t" by (simp add: c stripHexPrefix_def)
  have "set t \<subseteq> set hexAlphabet"
    using checksumChar_hex(1) [OF hex] len by (auto simp only: t_def set_map image_subset_iff set_upt atLeastLessThan_iff)
  moreover have "map toLowerAscii t = map toLowerAscii s"
    using checksumChar_hex(2) [OF hex] len by (intro nth_equalityI) (simp_all add: t_def)
  moreover have "map (checksumChar h t) [0..<40] = t"
    using checksumChar_idem [OF hex len] by (simp add: t_def)
  ultimately show ?thesis
    unfolding getChecksummedAddress_def strip
    by (simp add: h_def [symmetric] c t_def [symmetric]) (simp add: t_def)
qed

lemma getChecksummedAddress_length: "getChecksummedAddress keccak256 addr = Inr c \<Longrightarrow> length (stripHexPrefix c) = 40"
  by (auto simp: getChecksummedAddress_def Let_def stripHexPrefix_def)

lemma passesAddressChecksum_checksummed:
  assumes "getChecksummedAddress keccak256 addr = Inr c"
  shows "passesAddressChecksum keccak256 c strict = Inr True"
  using getChecksummedAddress_idem [OF assms] getChecksummedAddress_length [OF assms]
  by (simp add: passesAddressChecksum_def Let_def)

end
