(* ===== verification/Instructions.thy ===== *)
theory Instructions
  imports DevCore
begin

text \<open>
  Model of libevmasm/Instruction.h and Instruction.cpp: the opcodes, the two instruction tables,
  the families PUSH, DUP, SWAP and LOG, and the walk over byte code. The enumeration has the
  underlying type \<open>uint8_t\<close> and the code casts any byte to it, so an instruction is a byte and the
  enumerators are names of bytes.
\<close>

section \<open>Opcodes\<close>

type_synonym Instruction = byte

abbreviation STOP :: Instruction where "STOP \<equiv> 0"
abbreviation ADD :: Instruction where "ADD \<equiv> 1"
abbreviation MUL :: Instruction where "MUL \<equiv> 0x02"
abbreviation SUB :: Instruction where "SUB \<equiv> 0x03"
abbreviation DIV :: Instruction where "DIV \<equiv> 0x04"
abbreviation SDIV :: Instruction where "SDIV \<equiv> 0x05"
abbreviation MOD :: Instruction where "MOD \<equiv> 0x06"
abbreviation SMOD :: Instruction where "SMOD \<equiv> 0x07"
abbreviation ADDMOD :: Instruction where "ADDMOD \<equiv> 0x08"
abbreviation MULMOD :: Instruction where "MULMOD \<equiv> 0x09"
abbreviation EXP :: Instruction where "EXP \<equiv> 0x0a"
abbreviation SIGNEXTEND :: Instruction where "SIGNEXTEND \<equiv> 0x0b"
abbreviation LT :: Instruction where "LT \<equiv> 0x10"
abbreviation GT :: Instruction where "GT \<equiv> 0x11"
abbreviation SLT :: Instruction where "SLT \<equiv> 0x12"
abbreviation SGT :: Instruction where "SGT \<equiv> 0x13"
abbreviation EQ :: Instruction where "EQ \<equiv> 0x14"
abbreviation ISZERO :: Instruction where "ISZERO \<equiv> 0x15"
abbreviation AND :: Instruction where "AND \<equiv> 0x16"
abbreviation OR :: Instruction where "OR \<equiv> 0x17"
abbreviation XOR :: Instruction where "XOR \<equiv> 0x18"
abbreviation NOT :: Instruction where "NOT \<equiv> 0x19"
abbreviation BYTE :: Instruction where "BYTE \<equiv> 0x1a"
abbreviation SHL :: Instruction where "SHL \<equiv> 0x1b"
abbreviation SHR :: Instruction where "SHR \<equiv> 0x1c"
abbreviation SAR :: Instruction where "SAR \<equiv> 0x1d"
abbreviation KECCAK256 :: Instruction where "KECCAK256 \<equiv> 0x20"
abbreviation ADDRESS :: Instruction where "ADDRESS \<equiv> 0x30"
abbreviation BALANCE :: Instruction where "BALANCE \<equiv> 0x31"
abbreviation ORIGIN :: Instruction where "ORIGIN \<equiv> 0x32"
abbreviation CALLER :: Instruction where "CALLER \<equiv> 0x33"
abbreviation CALLVALUE :: Instruction where "CALLVALUE \<equiv> 0x34"
abbreviation CALLDATALOAD :: Instruction where "CALLDATALOAD \<equiv> 0x35"
abbreviation CALLDATASIZE :: Instruction where "CALLDATASIZE \<equiv> 0x36"
abbreviation CALLDATACOPY :: Instruction where "CALLDATACOPY \<equiv> 0x37"
abbreviation CODESIZE :: Instruction where "CODESIZE \<equiv> 0x38"
abbreviation CODECOPY :: Instruction where "CODECOPY \<equiv> 0x39"
abbreviation GASPRICE :: Instruction where "GASPRICE \<equiv> 0x3a"
abbreviation EXTCODESIZE :: Instruction where "EXTCODESIZE \<equiv> 0x3b"
abbreviation EXTCODECOPY :: Instruction where "EXTCODECOPY \<equiv> 0x3c"
abbreviation RETURNDATASIZE :: Instruction where "RETURNDATASIZE \<equiv> 0x3d"
abbreviation RETURNDATACOPY :: Instruction where "RETURNDATACOPY \<equiv> 0x3e"
abbreviation BLOCKHASH :: Instruction where "BLOCKHASH \<equiv> 0x40"
abbreviation COINBASE :: Instruction where "COINBASE \<equiv> 0x41"
abbreviation TIMESTAMP :: Instruction where "TIMESTAMP \<equiv> 0x42"
abbreviation NUMBER :: Instruction where "NUMBER \<equiv> 0x43"
abbreviation DIFFICULTY :: Instruction where "DIFFICULTY \<equiv> 0x44"
abbreviation GASLIMIT :: Instruction where "GASLIMIT \<equiv> 0x45"
abbreviation POP :: Instruction where "POP \<equiv> 0x50"
abbreviation MLOAD :: Instruction where "MLOAD \<equiv> 0x51"
abbreviation MSTORE :: Instruction where "MSTORE \<equiv> 0x52"
abbreviation MSTORE8 :: Instruction where "MSTORE8 \<equiv> 0x53"
abbreviation SLOAD :: Instruction where "SLOAD \<equiv> 0x54"
abbreviation SSTORE :: Instruction where "SSTORE \<equiv> 0x55"
abbreviation JUMP :: Instruction where "JUMP \<equiv> 0x56"
abbreviation JUMPI :: Instruction where "JUMPI \<equiv> 0x57"
abbreviation PC :: Instruction where "PC \<equiv> 0x58"
abbreviation MSIZE :: Instruction where "MSIZE \<equiv> 0x59"
abbreviation GAS :: Instruction where "GAS \<equiv> 0x5a"
abbreviation JUMPDEST :: Instruction where "JUMPDEST \<equiv> 0x5b"
abbreviation PUSH1 :: Instruction where "PUSH1 \<equiv> 0x60"
abbreviation PUSH2 :: Instruction where "PUSH2 \<equiv> 0x61"
abbreviation PUSH3 :: Instruction where "PUSH3 \<equiv> 0x62"
abbreviation PUSH4 :: Instruction where "PUSH4 \<equiv> 0x63"
abbreviation PUSH5 :: Instruction where "PUSH5 \<equiv> 0x64"
abbreviation PUSH6 :: Instruction where "PUSH6 \<equiv> 0x65"
abbreviation PUSH7 :: Instruction where "PUSH7 \<equiv> 0x66"
abbreviation PUSH8 :: Instruction where "PUSH8 \<equiv> 0x67"
abbreviation PUSH9 :: Instruction where "PUSH9 \<equiv> 0x68"
abbreviation PUSH10 :: Instruction where "PUSH10 \<equiv> 0x69"
abbreviation PUSH11 :: Instruction where "PUSH11 \<equiv> 0x6a"
abbreviation PUSH12 :: Instruction where "PUSH12 \<equiv> 0x6b"
abbreviation PUSH13 :: Instruction where "PUSH13 \<equiv> 0x6c"
abbreviation PUSH14 :: Instruction where "PUSH14 \<equiv> 0x6d"
abbreviation PUSH15 :: Instruction where "PUSH15 \<equiv> 0x6e"
abbreviation PUSH16 :: Instruction where "PUSH16 \<equiv> 0x6f"
abbreviation PUSH17 :: Instruction where "PUSH17 \<equiv> 0x70"
abbreviation PUSH18 :: Instruction where "PUSH18 \<equiv> 0x71"
abbreviation PUSH19 :: Instruction where "PUSH19 \<equiv> 0x72"
abbreviation PUSH20 :: Instruction where "PUSH20 \<equiv> 0x73"
abbreviation PUSH21 :: Instruction where "PUSH21 \<equiv> 0x74"
abbreviation PUSH22 :: Instruction where "PUSH22 \<equiv> 0x75"
abbreviation PUSH23 :: Instruction where "PUSH23 \<equiv> 0x76"
abbreviation PUSH24 :: Instruction where "PUSH24 \<equiv> 0x77"
abbreviation PUSH25 :: Instruction where "PUSH25 \<equiv> 0x78"
abbreviation PUSH26 :: Instruction where "PUSH26 \<equiv> 0x79"
abbreviation PUSH27 :: Instruction where "PUSH27 \<equiv> 0x7a"
abbreviation PUSH28 :: Instruction where "PUSH28 \<equiv> 0x7b"
abbreviation PUSH29 :: Instruction where "PUSH29 \<equiv> 0x7c"
abbreviation PUSH30 :: Instruction where "PUSH30 \<equiv> 0x7d"
abbreviation PUSH31 :: Instruction where "PUSH31 \<equiv> 0x7e"
abbreviation PUSH32 :: Instruction where "PUSH32 \<equiv> 0x7f"
abbreviation DUP1 :: Instruction where "DUP1 \<equiv> 0x80"
abbreviation DUP2 :: Instruction where "DUP2 \<equiv> 0x81"
abbreviation DUP3 :: Instruction where "DUP3 \<equiv> 0x82"
abbreviation DUP4 :: Instruction where "DUP4 \<equiv> 0x83"
abbreviation DUP5 :: Instruction where "DUP5 \<equiv> 0x84"
abbreviation DUP6 :: Instruction where "DUP6 \<equiv> 0x85"
abbreviation DUP7 :: Instruction where "DUP7 \<equiv> 0x86"
abbreviation DUP8 :: Instruction where "DUP8 \<equiv> 0x87"
abbreviation DUP9 :: Instruction where "DUP9 \<equiv> 0x88"
abbreviation DUP10 :: Instruction where "DUP10 \<equiv> 0x89"
abbreviation DUP11 :: Instruction where "DUP11 \<equiv> 0x8a"
abbreviation DUP12 :: Instruction where "DUP12 \<equiv> 0x8b"
abbreviation DUP13 :: Instruction where "DUP13 \<equiv> 0x8c"
abbreviation DUP14 :: Instruction where "DUP14 \<equiv> 0x8d"
abbreviation DUP15 :: Instruction where "DUP15 \<equiv> 0x8e"
abbreviation DUP16 :: Instruction where "DUP16 \<equiv> 0x8f"
abbreviation SWAP1 :: Instruction where "SWAP1 \<equiv> 0x90"
abbreviation SWAP2 :: Instruction where "SWAP2 \<equiv> 0x91"
abbreviation SWAP3 :: Instruction where "SWAP3 \<equiv> 0x92"
abbreviation SWAP4 :: Instruction where "SWAP4 \<equiv> 0x93"
abbreviation SWAP5 :: Instruction where "SWAP5 \<equiv> 0x94"
abbreviation SWAP6 :: Instruction where "SWAP6 \<equiv> 0x95"
abbreviation SWAP7 :: Instruction where "SWAP7 \<equiv> 0x96"
abbreviation SWAP8 :: Instruction where "SWAP8 \<equiv> 0x97"
abbreviation SWAP9 :: Instruction where "SWAP9 \<equiv> 0x98"
abbreviation SWAP10 :: Instruction where "SWAP10 \<equiv> 0x99"
abbreviation SWAP11 :: Instruction where "SWAP11 \<equiv> 0x9a"
abbreviation SWAP12 :: Instruction where "SWAP12 \<equiv> 0x9b"
abbreviation SWAP13 :: Instruction where "SWAP13 \<equiv> 0x9c"
abbreviation SWAP14 :: Instruction where "SWAP14 \<equiv> 0x9d"
abbreviation SWAP15 :: Instruction where "SWAP15 \<equiv> 0x9e"
abbreviation SWAP16 :: Instruction where "SWAP16 \<equiv> 0x9f"
abbreviation LOG0 :: Instruction where "LOG0 \<equiv> 0xa0"
abbreviation LOG1 :: Instruction where "LOG1 \<equiv> 0xa1"
abbreviation LOG2 :: Instruction where "LOG2 \<equiv> 0xa2"
abbreviation LOG3 :: Instruction where "LOG3 \<equiv> 0xa3"
abbreviation LOG4 :: Instruction where "LOG4 \<equiv> 0xa4"
abbreviation JUMPTO :: Instruction where "JUMPTO \<equiv> 0xb0"
abbreviation JUMPIF :: Instruction where "JUMPIF \<equiv> 0xb1"
abbreviation JUMPV :: Instruction where "JUMPV \<equiv> 0xb2"
abbreviation JUMPSUB :: Instruction where "JUMPSUB \<equiv> 0xb3"
abbreviation JUMPSUBV :: Instruction where "JUMPSUBV \<equiv> 0xb4"
abbreviation BEGINSUB :: Instruction where "BEGINSUB \<equiv> 0xb5"
abbreviation BEGINDATA :: Instruction where "BEGINDATA \<equiv> 0xb6"
abbreviation RETURNSUB :: Instruction where "RETURNSUB \<equiv> 0xb7"
abbreviation PUTLOCAL :: Instruction where "PUTLOCAL \<equiv> 0xb8"
abbreviation GETLOCAL :: Instruction where "GETLOCAL \<equiv> 0xb9"
abbreviation CREATE :: Instruction where "CREATE \<equiv> 0xf0"
abbreviation CALL :: Instruction where "CALL \<equiv> 0xf1"
abbreviation CALLCODE :: Instruction where "CALLCODE \<equiv> 0xf2"
abbreviation RETURN :: Instruction where "RETURN \<equiv> 0xf3"
abbreviation DELEGATECALL :: Instruction where "DELEGATECALL \<equiv> 0xf4"
abbreviation STATICCALL :: Instruction where "STATICCALL \<equiv> 0xfa"
abbreviation CREATE2 :: Instruction where "CREATE2 \<equiv> 0xfb"
abbreviation REVERT :: Instruction where "REVERT \<equiv> 0xfd"
abbreviation INVALID :: Instruction where "INVALID \<equiv> 0xfe"
abbreviation SELFDESTRUCT :: Instruction where "SELFDESTRUCT \<equiv> 0xff"

section \<open>Families of instructions\<close>

definition isPushInstruction :: "Instruction \<Rightarrow> bool" where
  "isPushInstruction inst \<longleftrightarrow> PUSH1 \<le> inst \<and> inst \<le> PUSH32"

definition isDupInstruction :: "Instruction \<Rightarrow> bool" where
  "isDupInstruction inst \<longleftrightarrow> DUP1 \<le> inst \<and> inst \<le> DUP16"

definition isSwapInstruction :: "Instruction \<Rightarrow> bool" where
  "isSwapInstruction inst \<longleftrightarrow> SWAP1 \<le> inst \<and> inst \<le> SWAP16"

text \<open>These three compute with \<open>unsigned\<close>, which wraps around below the first of the family.\<close>

definition getPushNumber :: "Instruction \<Rightarrow> 32 word" where
  "getPushNumber inst = ucast inst - ucast PUSH1 + 1"

definition getDupNumber :: "Instruction \<Rightarrow> 32 word" where
  "getDupNumber inst = ucast inst - ucast DUP1 + 1"

definition getSwapNumber :: "Instruction \<Rightarrow> 32 word" where
  "getSwapNumber inst = ucast inst - ucast SWAP1 + 1"

definition pushInstruction :: "nat \<Rightarrow> Instruction res" where
  "pushInstruction number =
     assertThrow (1 \<le> number \<and> number \<le> 32) InvalidOpcode (Inr (word_of_nat (unat PUSH1 + number - 1)))"

definition dupInstruction :: "nat \<Rightarrow> Instruction res" where
  "dupInstruction number =
     assertThrow (1 \<le> number \<and> number \<le> 16) InvalidOpcode (Inr (word_of_nat (unat DUP1 + number - 1)))"

definition swapInstruction :: "nat \<Rightarrow> Instruction res" where
  "swapInstruction number =
     assertThrow (1 \<le> number \<and> number \<le> 16) InvalidOpcode (Inr (word_of_nat (unat SWAP1 + number - 1)))"

definition logInstruction :: "nat \<Rightarrow> Instruction res" where
  "logInstruction number =
     assertThrow (number \<le> 4) InvalidOpcode (Inr (word_of_nat (unat LOG0 + number)))"

section \<open>The instruction tables\<close>

datatype Tier =
    TierZero | TierBase | TierVeryLow | TierLow | TierMid | TierHigh | TierExt | TierExtCode
  | TierBalance | TierSpecial | TierInvalid

record InstructionInfo =
  info_name :: string
  info_additional :: nat
  info_args :: nat
  info_ret :: nat
  info_sideEffects :: bool
  info_gasPriceTier :: Tier

definition mkInfo :: "string \<Rightarrow> nat \<Rightarrow> nat \<Rightarrow> nat \<Rightarrow> bool \<Rightarrow> Tier \<Rightarrow> InstructionInfo" where
  "mkInfo n a g r s t = \<lparr>info_name = n, info_additional = a, info_args = g, info_ret = r,
     info_sideEffects = s, info_gasPriceTier = t\<rparr>"

definition c_instructions :: "(string \<times> Instruction) list" where
  "c_instructions =
   [(''STOP'', STOP),
    (''ADD'', ADD),
    (''SUB'', SUB),
    (''MUL'', MUL),
    (''DIV'', DIV),
    (''SDIV'', SDIV),
    (''MOD'', MOD),
    (''SMOD'', SMOD),
    (''EXP'', EXP),
    (''NOT'', NOT),
    (''LT'', LT),
    (''GT'', GT),
    (''SLT'', SLT),
    (''SGT'', SGT),
    (''EQ'', EQ),
    (''ISZERO'', ISZERO),
    (''AND'', AND),
    (''OR'', OR),
    (''XOR'', XOR),
    (''BYTE'', BYTE),
    (''SHL'', SHL),
    (''SHR'', SHR),
    (''SAR'', SAR),
    (''ADDMOD'', ADDMOD),
    (''MULMOD'', MULMOD),
    (''SIGNEXTEND'', SIGNEXTEND),
    (''KECCAK256'', KECCAK256),
    (''ADDRESS'', ADDRESS),
    (''BALANCE'', BALANCE),
    (''ORIGIN'', ORIGIN),
    (''CALLER'', CALLER),
    (''CALLVALUE'', CALLVALUE),
    (''CALLDATALOAD'', CALLDATALOAD),
    (''CALLDATASIZE'', CALLDATASIZE),
    (''CALLDATACOPY'', CALLDATACOPY),
    (''CODESIZE'', CODESIZE),
    (''CODECOPY'', CODECOPY),
    (''GASPRICE'', GASPRICE),
    (''EXTCODESIZE'', EXTCODESIZE),
    (''EXTCODECOPY'', EXTCODECOPY),
    (''RETURNDATASIZE'', RETURNDATASIZE),
    (''RETURNDATACOPY'', RETURNDATACOPY),
    (''BLOCKHASH'', BLOCKHASH),
    (''COINBASE'', COINBASE),
    (''TIMESTAMP'', TIMESTAMP),
    (''NUMBER'', NUMBER),
    (''DIFFICULTY'', DIFFICULTY),
    (''GASLIMIT'', GASLIMIT),
    (''POP'', POP),
    (''MLOAD'', MLOAD),
    (''MSTORE'', MSTORE),
    (''MSTORE8'', MSTORE8),
    (''SLOAD'', SLOAD),
    (''SSTORE'', SSTORE),
    (''JUMP'', JUMP),
    (''JUMPI'', JUMPI),
    (''PC'', PC),
    (''MSIZE'', MSIZE),
    (''GAS'', GAS),
    (''JUMPDEST'', JUMPDEST),
    (''PUSH1'', PUSH1),
    (''PUSH2'', PUSH2),
    (''PUSH3'', PUSH3),
    (''PUSH4'', PUSH4),
    (''PUSH5'', PUSH5),
    (''PUSH6'', PUSH6),
    (''PUSH7'', PUSH7),
    (''PUSH8'', PUSH8),
    (''PUSH9'', PUSH9),
    (''PUSH10'', PUSH10),
    (''PUSH11'', PUSH11),
    (''PUSH12'', PUSH12),
    (''PUSH13'', PUSH13),
    (''PUSH14'', PUSH14),
    (''PUSH15'', PUSH15),
    (''PUSH16'', PUSH16),
    (''PUSH17'', PUSH17),
    (''PUSH18'', PUSH18),
    (''PUSH19'', PUSH19),
    (''PUSH20'', PUSH20),
    (''PUSH21'', PUSH21),
    (''PUSH22'', PUSH22),
    (''PUSH23'', PUSH23),
    (''PUSH24'', PUSH24),
    (''PUSH25'', PUSH25),
    (''PUSH26'', PUSH26),
    (''PUSH27'', PUSH27),
    (''PUSH28'', PUSH28),
    (''PUSH29'', PUSH29),
    (''PUSH30'', PUSH30),
    (''PUSH31'', PUSH31),
    (''PUSH32'', PUSH32),
    (''DUP1'', DUP1),
    (''DUP2'', DUP2),
    (''DUP3'', DUP3),
    (''DUP4'', DUP4),
    (''DUP5'', DUP5),
    (''DUP6'', DUP6),
    (''DUP7'', DUP7),
    (''DUP8'', DUP8),
    (''DUP9'', DUP9),
    (''DUP10'', DUP10),
    (''DUP11'', DUP11),
    (''DUP12'', DUP12),
    (''DUP13'', DUP13),
    (''DUP14'', DUP14),
    (''DUP15'', DUP15),
    (''DUP16'', DUP16),
    (''SWAP1'', SWAP1),
    (''SWAP2'', SWAP2),
    (''SWAP3'', SWAP3),
    (''SWAP4'', SWAP4),
    (''SWAP5'', SWAP5),
    (''SWAP6'', SWAP6),
    (''SWAP7'', SWAP7),
    (''SWAP8'', SWAP8),
    (''SWAP9'', SWAP9),
    (''SWAP10'', SWAP10),
    (''SWAP11'', SWAP11),
    (''SWAP12'', SWAP12),
    (''SWAP13'', SWAP13),
    (''SWAP14'', SWAP14),
    (''SWAP15'', SWAP15),
    (''SWAP16'', SWAP16),
    (''LOG0'', LOG0),
    (''LOG1'', LOG1),
    (''LOG2'', LOG2),
    (''LOG3'', LOG3),
    (''LOG4'', LOG4),
    (''CREATE'', CREATE),
    (''CALL'', CALL),
    (''CALLCODE'', CALLCODE),
    (''STATICCALL'', STATICCALL),
    (''RETURN'', RETURN),
    (''DELEGATECALL'', DELEGATECALL),
    (''CREATE2'', CREATE2),
    (''REVERT'', REVERT),
    (''INVALID'', INVALID),
    (''SELFDESTRUCT'', SELFDESTRUCT)]"

definition c_instructionInfo :: "(Instruction \<times> InstructionInfo) list" where
  "c_instructionInfo =
   [(STOP, mkInfo ''STOP'' 0 0 0 True TierZero),
    (ADD, mkInfo ''ADD'' 0 2 1 False TierVeryLow),
    (SUB, mkInfo ''SUB'' 0 2 1 False TierVeryLow),
    (MUL, mkInfo ''MUL'' 0 2 1 False TierLow),
    (DIV, mkInfo ''DIV'' 0 2 1 False TierLow),
    (SDIV, mkInfo ''SDIV'' 0 2 1 False TierLow),
    (MOD, mkInfo ''MOD'' 0 2 1 False TierLow),
    (SMOD, mkInfo ''SMOD'' 0 2 1 False TierLow),
    (EXP, mkInfo ''EXP'' 0 2 1 False TierSpecial),
    (NOT, mkInfo ''NOT'' 0 1 1 False TierVeryLow),
    (LT, mkInfo ''LT'' 0 2 1 False TierVeryLow),
    (GT, mkInfo ''GT'' 0 2 1 False TierVeryLow),
    (SLT, mkInfo ''SLT'' 0 2 1 False TierVeryLow),
    (SGT, mkInfo ''SGT'' 0 2 1 False TierVeryLow),
    (EQ, mkInfo ''EQ'' 0 2 1 False TierVeryLow),
    (ISZERO, mkInfo ''ISZERO'' 0 1 1 False TierVeryLow),
    (AND, mkInfo ''AND'' 0 2 1 False TierVeryLow),
    (OR, mkInfo ''OR'' 0 2 1 False TierVeryLow),
    (XOR, mkInfo ''XOR'' 0 2 1 False TierVeryLow),
    (BYTE, mkInfo ''BYTE'' 0 2 1 False TierVeryLow),
    (SHL, mkInfo ''SHL'' 0 2 1 False TierVeryLow),
    (SHR, mkInfo ''SHR'' 0 2 1 False TierVeryLow),
    (SAR, mkInfo ''SAR'' 0 2 1 False TierVeryLow),
    (ADDMOD, mkInfo ''ADDMOD'' 0 3 1 False TierMid),
    (MULMOD, mkInfo ''MULMOD'' 0 3 1 False TierMid),
    (SIGNEXTEND, mkInfo ''SIGNEXTEND'' 0 2 1 False TierLow),
    (KECCAK256, mkInfo ''KECCAK256'' 0 2 1 True TierSpecial),
    (ADDRESS, mkInfo ''ADDRESS'' 0 0 1 False TierBase),
    (BALANCE, mkInfo ''BALANCE'' 0 1 1 False TierBalance),
    (ORIGIN, mkInfo ''ORIGIN'' 0 0 1 False TierBase),
    (CALLER, mkInfo ''CALLER'' 0 0 1 False TierBase),
    (CALLVALUE, mkInfo ''CALLVALUE'' 0 0 1 False TierBase),
    (CALLDATALOAD, mkInfo ''CALLDATALOAD'' 0 1 1 False TierVeryLow),
    (CALLDATASIZE, mkInfo ''CALLDATASIZE'' 0 0 1 False TierBase),
    (CALLDATACOPY, mkInfo ''CALLDATACOPY'' 0 3 0 True TierVeryLow),
    (CODESIZE, mkInfo ''CODESIZE'' 0 0 1 False TierBase),
    (CODECOPY, mkInfo ''CODECOPY'' 0 3 0 True TierVeryLow),
    (GASPRICE, mkInfo ''GASPRICE'' 0 0 1 False TierBase),
    (EXTCODESIZE, mkInfo ''EXTCODESIZE'' 0 1 1 False TierExtCode),
    (EXTCODECOPY, mkInfo ''EXTCODECOPY'' 0 4 0 True TierExtCode),
    (RETURNDATASIZE, mkInfo ''RETURNDATASIZE'' 0 0 1 False TierBase),
    (RETURNDATACOPY, mkInfo ''RETURNDATACOPY'' 0 3 0 True TierVeryLow),
    (BLOCKHASH, mkInfo ''BLOCKHASH'' 0 1 1 False TierExt),
    (COINBASE, mkInfo ''COINBASE'' 0 0 1 False TierBase),
    (TIMESTAMP, mkInfo ''TIMESTAMP'' 0 0 1 False TierBase),
    (NUMBER, mkInfo ''NUMBER'' 0 0 1 False TierBase),
    (DIFFICULTY, mkInfo ''DIFFICULTY'' 0 0 1 False TierBase),
    (GASLIMIT, mkInfo ''GASLIMIT'' 0 0 1 False TierBase),
    (POP, mkInfo ''POP'' 0 1 0 False TierBase),
    (MLOAD, mkInfo ''MLOAD'' 0 1 1 True TierVeryLow),
    (MSTORE, mkInfo ''MSTORE'' 0 2 0 True TierVeryLow),
    (MSTORE8, mkInfo ''MSTORE8'' 0 2 0 True TierVeryLow),
    (SLOAD, mkInfo ''SLOAD'' 0 1 1 False TierSpecial),
    (SSTORE, mkInfo ''SSTORE'' 0 2 0 True TierSpecial),
    (JUMP, mkInfo ''JUMP'' 0 1 0 True TierMid),
    (JUMPI, mkInfo ''JUMPI'' 0 2 0 True TierHigh),
    (PC, mkInfo ''PC'' 0 0 1 False TierBase),
    (MSIZE, mkInfo ''MSIZE'' 0 0 1 False TierBase),
    (GAS, mkInfo ''GAS'' 0 0 1 False TierBase),
    (JUMPDEST, mkInfo ''JUMPDEST'' 0 0 0 True TierSpecial),
    (PUSH1, mkInfo ''PUSH1'' 1 0 1 False TierVeryLow),
    (PUSH2, mkInfo ''PUSH2'' 2 0 1 False TierVeryLow),
    (PUSH3, mkInfo ''PUSH3'' 3 0 1 False TierVeryLow),
    (PUSH4, mkInfo ''PUSH4'' 4 0 1 False TierVeryLow),
    (PUSH5, mkInfo ''PUSH5'' 5 0 1 False TierVeryLow),
    (PUSH6, mkInfo ''PUSH6'' 6 0 1 False TierVeryLow),
    (PUSH7, mkInfo ''PUSH7'' 7 0 1 False TierVeryLow),
    (PUSH8, mkInfo ''PUSH8'' 8 0 1 False TierVeryLow),
    (PUSH9, mkInfo ''PUSH9'' 9 0 1 False TierVeryLow),
    (PUSH10, mkInfo ''PUSH10'' 10 0 1 False TierVeryLow),
    (PUSH11, mkInfo ''PUSH11'' 11 0 1 False TierVeryLow),
    (PUSH12, mkInfo ''PUSH12'' 12 0 1 False TierVeryLow),
    (PUSH13, mkInfo ''PUSH13'' 13 0 1 False TierVeryLow),
    (PUSH14, mkInfo ''PUSH14'' 14 0 1 False TierVeryLow),
    (PUSH15, mkInfo ''PUSH15'' 15 0 1 False TierVeryLow),
    (PUSH16, mkInfo ''PUSH16'' 16 0 1 False TierVeryLow),
    (PUSH17, mkInfo ''PUSH17'' 17 0 1 False TierVeryLow),
    (PUSH18, mkInfo ''PUSH18'' 18 0 1 False TierVeryLow),
    (PUSH19, mkInfo ''PUSH19'' 19 0 1 False TierVeryLow),
    (PUSH20, mkInfo ''PUSH20'' 20 0 1 False TierVeryLow),
    (PUSH21, mkInfo ''PUSH21'' 21 0 1 False TierVeryLow),
    (PUSH22, mkInfo ''PUSH22'' 22 0 1 False TierVeryLow),
    (PUSH23, mkInfo ''PUSH23'' 23 0 1 False TierVeryLow),
    (PUSH24, mkInfo ''PUSH24'' 24 0 1 False TierVeryLow),
    (PUSH25, mkInfo ''PUSH25'' 25 0 1 False TierVeryLow),
    (PUSH26, mkInfo ''PUSH26'' 26 0 1 False TierVeryLow),
    (PUSH27, mkInfo ''PUSH27'' 27 0 1 False TierVeryLow),
    (PUSH28, mkInfo ''PUSH28'' 28 0 1 False TierVeryLow),
    (PUSH29, mkInfo ''PUSH29'' 29 0 1 False TierVeryLow),
    (PUSH30, mkInfo ''PUSH30'' 30 0 1 False TierVeryLow),
    (PUSH31, mkInfo ''PUSH31'' 31 0 1 False TierVeryLow),
    (PUSH32, mkInfo ''PUSH32'' 32 0 1 False TierVeryLow),
    (DUP1, mkInfo ''DUP1'' 0 1 2 False TierVeryLow),
    (DUP2, mkInfo ''DUP2'' 0 2 3 False TierVeryLow),
    (DUP3, mkInfo ''DUP3'' 0 3 4 False TierVeryLow),
    (DUP4, mkInfo ''DUP4'' 0 4 5 False TierVeryLow),
    (DUP5, mkInfo ''DUP5'' 0 5 6 False TierVeryLow),
    (DUP6, mkInfo ''DUP6'' 0 6 7 False TierVeryLow),
    (DUP7, mkInfo ''DUP7'' 0 7 8 False TierVeryLow),
    (DUP8, mkInfo ''DUP8'' 0 8 9 False TierVeryLow),
    (DUP9, mkInfo ''DUP9'' 0 9 10 False TierVeryLow),
    (DUP10, mkInfo ''DUP10'' 0 10 11 False TierVeryLow),
    (DUP11, mkInfo ''DUP11'' 0 11 12 False TierVeryLow),
    (DUP12, mkInfo ''DUP12'' 0 12 13 False TierVeryLow),
    (DUP13, mkInfo ''DUP13'' 0 13 14 False TierVeryLow),
    (DUP14, mkInfo ''DUP14'' 0 14 15 False TierVeryLow),
    (DUP15, mkInfo ''DUP15'' 0 15 16 False TierVeryLow),
    (DUP16, mkInfo ''DUP16'' 0 16 17 False TierVeryLow),
    (SWAP1, mkInfo ''SWAP1'' 0 2 2 False TierVeryLow),
    (SWAP2, mkInfo ''SWAP2'' 0 3 3 False TierVeryLow),
    (SWAP3, mkInfo ''SWAP3'' 0 4 4 False TierVeryLow),
    (SWAP4, mkInfo ''SWAP4'' 0 5 5 False TierVeryLow),
    (SWAP5, mkInfo ''SWAP5'' 0 6 6 False TierVeryLow),
    (SWAP6, mkInfo ''SWAP6'' 0 7 7 False TierVeryLow),
    (SWAP7, mkInfo ''SWAP7'' 0 8 8 False TierVeryLow),
    (SWAP8, mkInfo ''SWAP8'' 0 9 9 False TierVeryLow),
    (SWAP9, mkInfo ''SWAP9'' 0 10 10 False TierVeryLow),
    (SWAP10, mkInfo ''SWAP10'' 0 11 11 False TierVeryLow),
    (SWAP11, mkInfo ''SWAP11'' 0 12 12 False TierVeryLow),
    (SWAP12, mkInfo ''SWAP12'' 0 13 13 False TierVeryLow),
    (SWAP13, mkInfo ''SWAP13'' 0 14 14 False TierVeryLow),
    (SWAP14, mkInfo ''SWAP14'' 0 15 15 False TierVeryLow),
    (SWAP15, mkInfo ''SWAP15'' 0 16 16 False TierVeryLow),
    (SWAP16, mkInfo ''SWAP16'' 0 17 17 False TierVeryLow),
    (LOG0, mkInfo ''LOG0'' 0 2 0 True TierSpecial),
    (LOG1, mkInfo ''LOG1'' 0 3 0 True TierSpecial),
    (LOG2, mkInfo ''LOG2'' 0 4 0 True TierSpecial),
    (LOG3, mkInfo ''LOG3'' 0 5 0 True TierSpecial),
    (LOG4, mkInfo ''LOG4'' 0 6 0 True TierSpecial),
    (CREATE, mkInfo ''CREATE'' 0 3 1 True TierSpecial),
    (CALL, mkInfo ''CALL'' 0 7 1 True TierSpecial),
    (CALLCODE, mkInfo ''CALLCODE'' 0 7 1 True TierSpecial),
    (RETURN, mkInfo ''RETURN'' 0 2 0 True TierZero),
    (DELEGATECALL, mkInfo ''DELEGATECALL'' 0 6 1 True TierSpecial),
    (STATICCALL, mkInfo ''STATICCALL'' 0 6 1 True TierSpecial),
    (CREATE2, mkInfo ''CREATE2'' 0 4 1 True TierSpecial),
    (REVERT, mkInfo ''REVERT'' 0 2 0 True TierZero),
    (INVALID, mkInfo ''INVALID'' 0 0 0 True TierZero),
    (SELFDESTRUCT, mkInfo ''SELFDESTRUCT'' 0 1 0 True TierSpecial)]"

definition instructionInfo :: "Instruction \<Rightarrow> InstructionInfo" where
  "instructionInfo inst =
     (case map_of c_instructionInfo inst of
        Some info \<Rightarrow> info
      | None \<Rightarrow> mkInfo (''<INVALID_INSTRUCTION: '' @ decNat (unat inst) @ ''>'') 0 0 0 False TierInvalid)"

definition isValidInstruction :: "Instruction \<Rightarrow> bool" where
  "isValidInstruction inst \<longleftrightarrow> map_of c_instructionInfo inst \<noteq> None"

section \<open>Walking over byte code\<close>

text \<open>The operand loop: each round shifts and, while bytes are left, reads one.\<close>

fun readData :: "nat \<Rightarrow> bytes \<Rightarrow> u256 \<Rightarrow> u256" where
  "readData 0 mem data = data"
| "readData (Suc n) mem data =
     (let data = push_bit 8 data
      in case mem of [] \<Rightarrow> readData n [] data | b # bs \<Rightarrow> readData n bs (or data (ucast b)))"

definition additionalBytes :: "Instruction \<Rightarrow> nat" where
  "additionalBytes instr = (if isValidInstruction instr then info_additional (instructionInfo instr) else 0)"

text \<open>The calls of the callback, in order.\<close>

function eachInstruction :: "bytes \<Rightarrow> (Instruction \<times> u256) list" where
  "eachInstruction [] = []"
| "eachInstruction (instr # mem) =
     (instr, readData (additionalBytes instr) mem 0) # eachInstruction (drop (additionalBytes instr) mem)"
  by pat_completeness auto
termination
  by (relation "measure length") auto

definition disassembleItem :: "Instruction \<times> u256 \<Rightarrow> string" where
  "disassembleItem p =
     (case p of (instr, data) \<Rightarrow>
        if \<not> isValidInstruction instr then ''0x'' @ hexNat (unat instr) @ '' ''
        else let info = instructionInfo instr
          in info_name info @ '' '' @ (if info_additional info \<noteq> 0 then ''0x'' @ hexNat (unat data) @ '' '' else []))"

definition disassemble :: "bytes \<Rightarrow> string" where
  "disassemble mem = concat (map disassembleItem (eachInstruction mem))"

section \<open>Facts on the tables\<close>

lemma distinct_opcodes: "distinct (map fst c_instructionInfo)"
  by (simp add: c_instructionInfo_def)

lemma distinct_names: "distinct (map fst c_instructions)"
  by code_simp

lemma length_instructionInfo: "length c_instructionInfo = 139"
  by (simp add: c_instructionInfo_def)

text \<open>The mnemonic table lists the same instructions, with STATICCALL in an earlier place.\<close>

lemma c_instructions_rotated:
  "c_instructions = map (\<lambda>(i, info). (info_name info, i))
     (take 132 c_instructionInfo @ c_instructionInfo ! 134 # take 2 (drop 132 c_instructionInfo)
       @ drop 135 c_instructionInfo)"
  by (simp add: c_instructions_def c_instructionInfo_def mkInfo_def)

lemma set_rotated:
  assumes "a \<le> c" "c < length xs"
  shows "set (take a xs @ xs ! c # take (c - a) (drop a xs) @ drop (Suc c) xs) = set xs"
proof -
  have "xs = take c xs @ xs ! c # drop (Suc c) xs" using assms(2) by (rule id_take_nth_drop)
  also have "take c xs = take a xs @ take (c - a) (drop a xs)"
    using assms(1) by (metis le_add_diff_inverse take_add)
  finally have "set xs = set ((take a xs @ take (c - a) (drop a xs)) @ xs ! c # drop (Suc c) xs)"
    by (rule arg_cong)
  then show ?thesis by auto
qed

lemma set_c_instructions: "set c_instructions = (\<lambda>(i, info). (info_name info, i)) ` set c_instructionInfo"
  unfolding c_instructions_rotated
  using set_rotated [of 132 134 c_instructionInfo]
  by (simp add: length_instructionInfo flip: image_Un image_insert)

lemma instructionInfo_entry:
  "(i, info) \<in> set c_instructionInfo \<Longrightarrow> instructionInfo i = info"
  using distinct_opcodes by (simp add: instructionInfo_def)

lemma isValidInstruction_iff: "isValidInstruction i \<longleftrightarrow> (i, instructionInfo i) \<in> set c_instructionInfo"
  by (auto simp: isValidInstruction_def instructionInfo_def dest: map_of_SomeD weak_map_of_SomeI)

lemma instructionInfo_invalid:
  "\<not> isValidInstruction i \<Longrightarrow> info_args (instructionInfo i) = 0 \<and> info_ret (instructionInfo i) = 0
     \<and> info_additional (instructionInfo i) = 0"
  by (simp add: isValidInstruction_def instructionInfo_def mkInfo_def)

lemma table_fact:
  "list_all (\<lambda>(i, info). P i info) c_instructionInfo \<Longrightarrow> isValidInstruction i \<Longrightarrow> P i (instructionInfo i)"
  by (auto simp: list_all_iff isValidInstruction_iff)

lemma isDupInstruction_number: "isDupInstruction i \<Longrightarrow> \<exists>n\<in>{1..16}. i = word_of_nat (127 + n)"
  by (rule bexI [of _ "unat i - 127"]) (auto simp: isDupInstruction_def word_le_nat_alt)

lemma isSwapInstruction_number: "isSwapInstruction i \<Longrightarrow> \<exists>n\<in>{1..16}. i = word_of_nat (143 + n)"
  by (rule bexI [of _ "unat i - 143"]) (auto simp: isSwapInstruction_def word_le_nat_alt)

lemma isPushInstruction_number: "isPushInstruction i \<Longrightarrow> \<exists>n\<in>{1..32}. i = word_of_nat (95 + n)"
  by (rule bexI [of _ "unat i - 95"]) (auto simp: isPushInstruction_def word_le_nat_alt)

text \<open>The entries of the three numbered families.\<close>

definition infoShape :: "Instruction \<times> InstructionInfo \<Rightarrow> Instruction \<times> nat \<times> nat \<times> nat \<times> bool" where
  "infoShape e = (fst e, info_additional (snd e), info_args (snd e), info_ret (snd e), info_sideEffects (snd e))"

lemma dup_entries:
  "map infoShape (take 16 (drop 92 c_instructionInfo)) = map (\<lambda>n. (word_of_nat (127 + n), 0, n, Suc n, False)) [1..<17]"
  by (simp add: c_instructionInfo_def mkInfo_def infoShape_def upt_rec)

lemma swap_entries:
  "map infoShape (take 16 (drop 108 c_instructionInfo)) = map (\<lambda>n. (word_of_nat (143 + n), 0, Suc n, Suc n, False)) [1..<17]"
  by (simp add: c_instructionInfo_def mkInfo_def infoShape_def upt_rec)

lemma push_entries:
  "map infoShape (take 32 (drop 60 c_instructionInfo)) = map (\<lambda>n. (word_of_nat (95 + n), n, 0, 1, False)) [1..<33]"
  by (simp add: c_instructionInfo_def mkInfo_def infoShape_def upt_rec)

lemma entry_of_shape:
  assumes eq: "map infoShape (take a (drop b c_instructionInfo)) = map f ns"
    and n: "n \<in> set ns" and shape: "f n = (i, d, g, r, s)"
  shows "isValidInstruction i \<and> info_additional (instructionInfo i) = d \<and> info_args (instructionInfo i) = g
    \<and> info_ret (instructionInfo i) = r \<and> info_sideEffects (instructionInfo i) = s"
proof -
  have "f n \<in> infoShape ` set (take a (drop b c_instructionInfo))"
    using arg_cong [OF eq, of set] n by simp
  then obtain j info where e: "(j, info) \<in> set c_instructionInfo" "infoShape (j, info) = f n"
    by (metis (no_types, lifting) imageE in_set_dropD in_set_takeD surj_pair)
  from e(2) shape have "j = i" "info_additional info = d" "info_args info = g" "info_ret info = r"
    "info_sideEffects info = s" by (simp_all add: infoShape_def)
  with e(1) instructionInfo_entry [OF e(1)] show ?thesis by (auto simp: isValidInstruction_iff)
qed

lemma unat_byte_of_nat: "m < 256 \<Longrightarrow> unat (word_of_nat m :: byte) = m"
  by (simp add: unat_of_nat)

lemma dup_info:
  "isDupInstruction i \<Longrightarrow> isValidInstruction i \<and> info_args (instructionInfo i) = unat i - 127
     \<and> info_ret (instructionInfo i) = unat i - 126 \<and> \<not> info_sideEffects (instructionInfo i)"
proof -
  assume "isDupInstruction i"
  then obtain n where n: "n \<in> {1..16}" "i = word_of_nat (127 + n)" using isDupInstruction_number by blast
  have "unat i = 127 + n" unfolding n(2) using n(1) by (intro unat_byte_of_nat) auto
  with n entry_of_shape [OF dup_entries, of n] show ?thesis by auto
qed

lemma swap_info:
  "isSwapInstruction i \<Longrightarrow> isValidInstruction i \<and> info_args (instructionInfo i) = unat i - 142
     \<and> info_ret (instructionInfo i) = unat i - 142 \<and> \<not> info_sideEffects (instructionInfo i)"
proof -
  assume "isSwapInstruction i"
  then obtain n where n: "n \<in> {1..16}" "i = word_of_nat (143 + n)" using isSwapInstruction_number by blast
  have "unat i = 143 + n" unfolding n(2) using n(1) by (intro unat_byte_of_nat) auto
  with n entry_of_shape [OF swap_entries, of n] show ?thesis by auto
qed

lemma push_info:
  "isPushInstruction i \<Longrightarrow> isValidInstruction i \<and> info_additional (instructionInfo i) = unat i - 95
     \<and> info_args (instructionInfo i) = 0 \<and> info_ret (instructionInfo i) = 1"
proof -
  assume "isPushInstruction i"
  then obtain n where n: "n \<in> {1..32}" "i = word_of_nat (95 + n)" using isPushInstruction_number by blast
  have "unat i = 95 + n" unfolding n(2) using n(1) by (intro unat_byte_of_nat) auto
  with n entry_of_shape [OF push_entries, of n] show ?thesis by auto
qed

section \<open>Walking over encoded instructions\<close>

text \<open>The byte code of an instruction with its operand, as the walk reads it back.\<close>

definition encodeInstruction :: "Instruction \<times> u256 \<Rightarrow> bytes" where
  "encodeInstruction p = fst p # toBigEndian (additionalBytes (fst p)) (unat (snd p))"

lemma readData_append:
  "readData (length bs) (bs @ rest) data = foldl (\<lambda>ret i. or (push_bit 8 ret) (ucast i)) data bs"
  by (induction bs arbitrary: data) (simp_all add: Let_def)

lemma readData_toBigEndian:
  assumes "unat data < 256 ^ n"
  shows "readData n (toBigEndian n (unat data) @ rest) 0 = data"
proof -
  have "readData n (toBigEndian n (unat data) @ rest) 0 = fromBigEndian_u256 (toBigEndian n (unat data))"
    using readData_append [of "toBigEndian n (unat data)" rest 0] by (simp add: fromBigEndian_u256_def)
  also have "\<dots> = data"
    using assms by (simp add: fromBigEndian_u256_eq fromBigEndian_toBigEndian)
  finally show ?thesis .
qed

lemma eachInstruction_encode_Cons:
  assumes "unat d < 256 ^ additionalBytes i"
  shows "eachInstruction (encodeInstruction (i, d) @ rest) = (i, d) # eachInstruction rest"
  using readData_toBigEndian [OF assms] by (simp add: encodeInstruction_def)

lemma eachInstruction_encode:
  "\<forall>(i, d)\<in>set ps. unat d < 256 ^ additionalBytes i \<Longrightarrow>
     eachInstruction (concat (map encodeInstruction ps)) = ps"
  by (induction ps) (auto simp: eachInstruction_encode_Cons)

lemma additionalBytes_push: "isPushInstruction i \<Longrightarrow> additionalBytes i = unat i - 95"
  by (simp add: additionalBytes_def push_info)

end
