(* ===== verification/AssemblyItems.thy ===== *)
theory AssemblyItems
  imports Instructions
begin

text \<open>
  Model of libevmasm/AssemblyItem.h, AssemblyItem.cpp and SourceLocation.h: the items of an
  assembly, their comparison, size and stack effect, the packing of sub-assembly tags and the
  assembly text. \<open>size_t\<close> is 64 bits wide, as the code asserts; a conversion of a \<open>u256\<close> to it
  keeps the low 64 bits.
\<close>

section \<open>Source locations\<close>

record SourceLocation =
  loc_start :: int
  loc_end :: int
  loc_sourceName :: "string option"

definition noLocation :: SourceLocation where
  "noLocation = \<lparr>loc_start = - 1, loc_end = - 1, loc_sourceName = None\<rparr>"

definition loc_isEmpty :: "SourceLocation \<Rightarrow> bool" where
  "loc_isEmpty l \<longleftrightarrow> loc_start l = - 1 \<and> loc_end l = - 1"

definition loc_sameSource :: "SourceLocation \<Rightarrow> SourceLocation \<Rightarrow> bool" where
  "loc_sameSource l m \<longleftrightarrow>
     \<not> ((loc_sourceName l = None \<or> loc_sourceName m = None \<or> loc_sourceName l \<noteq> loc_sourceName m)
        \<and> (loc_sourceName l \<noteq> None \<or> loc_sourceName m \<noteq> None))"

definition loc_contains :: "SourceLocation \<Rightarrow> SourceLocation \<Rightarrow> bool" where
  "loc_contains l m =
     (if loc_isEmpty l \<or> loc_isEmpty m \<or> \<not> loc_sameSource l m then False
      else loc_start l \<le> loc_start m \<and> loc_end m \<le> loc_end l)"

definition loc_intersects :: "SourceLocation \<Rightarrow> SourceLocation \<Rightarrow> bool" where
  "loc_intersects l m =
     (if loc_isEmpty l \<or> loc_isEmpty m \<or> \<not> loc_sameSource l m then False
      else loc_start m < loc_end l \<and> loc_start l < loc_end m)"

section \<open>Items\<close>

datatype AssemblyItemType =
    UndefinedItem | Operation | Push | PushString | PushTag | PushSub | PushSubSize
  | PushProgramSize | Tag | PushData | PushLibraryAddress | PushDeployTimeAddress

text \<open>The values of the enumeration, by which \<open>operator<\<close> compares types.\<close>

fun typeIndex :: "AssemblyItemType \<Rightarrow> nat" where
  "typeIndex UndefinedItem = 0"
| "typeIndex Operation = 1"
| "typeIndex Push = 2"
| "typeIndex PushString = 3"
| "typeIndex PushTag = 4"
| "typeIndex PushSub = 5"
| "typeIndex PushSubSize = 6"
| "typeIndex PushProgramSize = 7"
| "typeIndex Tag = 8"
| "typeIndex PushData = 9"
| "typeIndex PushLibraryAddress = 10"
| "typeIndex PushDeployTimeAddress = 11"

lemma typeIndex_inject [simp]: "typeIndex a = typeIndex b \<longleftrightarrow> a = b"
  by (cases a; cases b) simp_all

instantiation AssemblyItemType :: linorder
begin

definition less_eq_AssemblyItemType :: "AssemblyItemType \<Rightarrow> AssemblyItemType \<Rightarrow> bool" where
  "less_eq_AssemblyItemType a b \<longleftrightarrow> typeIndex a \<le> typeIndex b"

definition less_AssemblyItemType :: "AssemblyItemType \<Rightarrow> AssemblyItemType \<Rightarrow> bool" where
  "less_AssemblyItemType a b \<longleftrightarrow> typeIndex a < typeIndex b"

instance
  by standard (auto simp: less_eq_AssemblyItemType_def less_AssemblyItemType_def)

end

datatype JumpType = Ordinary | IntoFunction | OutOfFunction

text \<open>
  \<open>m_instruction\<close> is only meaningful for the type \<open>Operation\<close> and \<open>m_data\<close> for every other type; the
  constructors below leave the other field at zero.
\<close>

record AssemblyItem =
  m_type :: AssemblyItemType
  m_instruction :: Instruction
  m_data :: u256
  m_location :: SourceLocation
  m_jumpType :: JumpType
  m_pushedValue :: "u256 option"

type_synonym AssemblyItems = "AssemblyItem list"

definition opItem :: "Instruction \<Rightarrow> SourceLocation \<Rightarrow> AssemblyItem" where
  "opItem i l = \<lparr>m_type = Operation, m_instruction = i, m_data = 0, m_location = l,
     m_jumpType = Ordinary, m_pushedValue = None\<rparr>"

definition mkItem :: "AssemblyItemType \<Rightarrow> u256 \<Rightarrow> SourceLocation \<Rightarrow> AssemblyItem" where
  "mkItem t d l =
     (if t = Operation then opItem (ucast d) l
      else \<lparr>m_type = t, m_instruction = 0, m_data = d, m_location = l,
        m_jumpType = Ordinary, m_pushedValue = None\<rparr>)"

definition pushItem :: "u256 \<Rightarrow> AssemblyItem" where
  "pushItem v = mkItem Push v noLocation"

text \<open>The accessors \<open>data\<close>, \<open>setData\<close> and \<open>instruction\<close> throw on an item of the other kind.\<close>

definition item_data :: "AssemblyItem \<Rightarrow> u256 res" where
  "item_data i = assertThrow (m_type i \<noteq> Operation) DevException (Inr (m_data i))"

definition item_setData :: "AssemblyItem \<Rightarrow> u256 \<Rightarrow> AssemblyItem res" where
  "item_setData i d = assertThrow (m_type i \<noteq> Operation) DevException (Inr (i\<lparr>m_data := d\<rparr>))"

definition item_instruction :: "AssemblyItem \<Rightarrow> Instruction res" where
  "item_instruction i = assertThrow (m_type i = Operation) DevException (Inr (m_instruction i))"

definition itemEq :: "AssemblyItem \<Rightarrow> AssemblyItem \<Rightarrow> bool" where
  "itemEq a b =
     (if m_type a \<noteq> m_type b then False
      else if m_type a = Operation then m_instruction a = m_instruction b
      else m_data a = m_data b)"

definition itemLess :: "AssemblyItem \<Rightarrow> AssemblyItem \<Rightarrow> bool" where
  "itemLess a b =
     (if m_type a \<noteq> m_type b then m_type a < m_type b
      else if m_type a = Operation then m_instruction a < m_instruction b
      else m_data a < m_data b)"

text \<open>Comparison with an item made from an instruction, as in \<open>_item == Instruction::POP\<close>.\<close>

definition isOp :: "Instruction \<Rightarrow> AssemblyItem \<Rightarrow> bool" where
  "isOp i a \<longleftrightarrow> itemEq a (opItem i noLocation)"

subsection \<open>Tags\<close>

definition isTagItem :: "AssemblyItem \<Rightarrow> bool" where
  "isTagItem i \<longleftrightarrow> m_type i = PushTag \<or> m_type i = Tag"

definition item_tag :: "AssemblyItem \<Rightarrow> AssemblyItem res" where
  "item_tag i = assertThrow (isTagItem i) DevException (Inr (mkItem Tag (m_data i) noLocation))"

definition item_pushTag :: "AssemblyItem \<Rightarrow> AssemblyItem res" where
  "item_pushTag i = assertThrow (isTagItem i) DevException (Inr (mkItem PushTag (m_data i) noLocation))"

definition splitForeignPushTag :: "AssemblyItem \<Rightarrow> (64 word \<times> 64 word) res" where
  "splitForeignPushTag i =
     assertThrow (isTagItem i) DevException
       (let combined = m_data i;
            subId = ucast (drop_bit 64 combined - 1);
            tag = ucast (and combined 0xffffffffffffffff)
        in Inr (subId, tag))"

definition setPushTagSubIdAndTag :: "AssemblyItem \<Rightarrow> 64 word \<Rightarrow> 64 word \<Rightarrow> AssemblyItem res" where
  "setPushTagSubIdAndTag i subId tag =
     assertThrow (isTagItem i) DevException
       (let data = ucast tag;
            data = (if subId \<noteq> - 1 then or data (push_bit 64 (ucast subId + 1)) else data)
        in item_setData i data)"

definition toSubAssemblyTag :: "AssemblyItem \<Rightarrow> 64 word \<Rightarrow> AssemblyItem res" where
  "toSubAssemblyTag i subId =
     bindR (item_data i) (\<lambda>d.
       assertThrow (d < push_bit 64 1) DevException
        (assertThrow (isTagItem i) DevException
          (let tag = ucast (and d 0xffffffffffffffff)
           in setPushTagSubIdAndTag (i\<lparr>m_type := PushTag\<rparr>) subId tag)))"

subsection \<open>Size and stack effect\<close>

definition itemBytesRequired :: "AssemblyItem \<Rightarrow> nat \<Rightarrow> nat res" where
  "itemBytesRequired i addressLength =
     (case m_type i of
        Operation \<Rightarrow> Inr 1
      | Tag \<Rightarrow> Inr 1
      | PushString \<Rightarrow> Inr (1 + 32)
      | Push \<Rightarrow> Inr (1 + max 1 (bytesRequired (unat (m_data i))))
      | PushSubSize \<Rightarrow> Inr (1 + 4)
      | PushProgramSize \<Rightarrow> Inr (1 + 4)
      | PushTag \<Rightarrow> Inr (1 + addressLength)
      | PushData \<Rightarrow> Inr (1 + addressLength)
      | PushSub \<Rightarrow> Inr (1 + addressLength)
      | PushLibraryAddress \<Rightarrow> Inr (1 + 20)
      | PushDeployTimeAddress \<Rightarrow> Inr (1 + 20)
      | UndefinedItem \<Rightarrow> Inl InvalidOpcode)"

fun itemsBytesRequired :: "AssemblyItems \<Rightarrow> nat \<Rightarrow> nat res" where
  "itemsBytesRequired [] addressLength = Inr 0"
| "itemsBytesRequired (i # items) addressLength =
     bindR (itemBytesRequired i addressLength) (\<lambda>n.
       bindR (itemsBytesRequired items addressLength) (\<lambda>m. Inr (n + m)))"

definition arguments :: "AssemblyItem \<Rightarrow> nat" where
  "arguments i = (if m_type i = Operation then info_args (instructionInfo (m_instruction i)) else 0)"

definition returnValues :: "AssemblyItem \<Rightarrow> nat" where
  "returnValues i =
     (case m_type i of
        Operation \<Rightarrow> info_ret (instructionInfo (m_instruction i))
      | Tag \<Rightarrow> 0
      | UndefinedItem \<Rightarrow> 0
      | _ \<Rightarrow> 1)"

definition item_deposit :: "AssemblyItem \<Rightarrow> int" where
  "item_deposit i = int (returnValues i) - int (arguments i)"

definition canBeFunctional :: "AssemblyItem \<Rightarrow> bool" where
  "canBeFunctional i =
     (case m_type i of
        Operation \<Rightarrow> \<not> isDupInstruction (m_instruction i) \<and> \<not> isSwapInstruction (m_instruction i)
      | Tag \<Rightarrow> False
      | UndefinedItem \<Rightarrow> False
      | _ \<Rightarrow> True)"

subsection \<open>Text\<close>

definition getJumpTypeAsString :: "AssemblyItem \<Rightarrow> string" where
  "getJumpTypeAsString i =
     (case m_jumpType i of IntoFunction \<Rightarrow> ''[in]'' | OutOfFunction \<Rightarrow> ''[out]'' | Ordinary \<Rightarrow> [])"

definition sizeToString :: "64 word \<Rightarrow> string" where
  "sizeToString n = decNat (unat n)"

definition toAssemblyText :: "AssemblyItem \<Rightarrow> string res" where
  "toAssemblyText i =
     bindR
       (case m_type i of
          Operation \<Rightarrow>
            assertThrow (isValidInstruction (m_instruction i)) (AssemblyException ''Invalid instruction.'')
              (Inr (map toLowerAscii (info_name (instructionInfo (m_instruction i)))))
        | Push \<Rightarrow> Inr (toHex (toCompactBigEndian (unat (m_data i)) 1) 1 Add)
        | PushString \<Rightarrow> Inr (''data_'' @ toHex_u256 (m_data i) DontAdd)
        | PushTag \<Rightarrow>
            bindR (splitForeignPushTag i) (\<lambda>(sub, tag).
              if sub = - 1 then Inr (''tag_'' @ sizeToString tag)
              else Inr (''tag_'' @ sizeToString sub @ ''_'' @ sizeToString tag))
        | Tag \<Rightarrow>
            assertThrow (m_data i < 0x10000) (AssemblyException ''Declaration of sub-assembly tag.'')
              (Inr (''tag_'' @ sizeToString (ucast (m_data i)) @ '':''))
        | PushData \<Rightarrow> Inr (''data_'' @ toHex_u256 (m_data i) DontAdd)
        | PushSub \<Rightarrow> Inr (''dataOffset(sub_'' @ sizeToString (ucast (m_data i)) @ '')'')
        | PushSubSize \<Rightarrow> Inr (''dataSize(sub_'' @ sizeToString (ucast (m_data i)) @ '')'')
        | PushProgramSize \<Rightarrow> Inr ''bytecodeSize''
        | PushLibraryAddress \<Rightarrow> Inr (''linkerSymbol('' @ [CHR 0x22] @ toHex_u256 (m_data i) DontAdd @ [CHR 0x22] @ '')'')
        | PushDeployTimeAddress \<Rightarrow> Inr ''deployTimeAddress()''
        | UndefinedItem \<Rightarrow> Inl (AssemblyException ''Invalid assembly item.''))
       (\<lambda>text.
          Inr (if m_jumpType i = IntoFunction \<or> m_jumpType i = OutOfFunction
               then text @ [CHR 0x09] @ ''//'' @ (if m_jumpType i = IntoFunction then '' in'' else '' out'')
               else text))"

section \<open>Comparison\<close>

lemma isOp_iff: "isOp i a \<longleftrightarrow> m_type a = Operation \<and> m_instruction a = i"
  by (auto simp: isOp_def itemEq_def opItem_def)

lemma opItem_simps [simp]:
  "m_type (opItem i l) = Operation" "m_instruction (opItem i l) = i"
  by (simp_all add: opItem_def)

lemma mkItem_simps:
  "t \<noteq> Operation \<Longrightarrow> m_type (mkItem t d l) = t" "t \<noteq> Operation \<Longrightarrow> m_data (mkItem t d l) = d"
  by (simp_all add: mkItem_def)

lemma pushItem_simps [simp]: "m_type (pushItem v) = Push" "m_data (pushItem v) = v"
  by (simp_all add: pushItem_def mkItem_def)

lemma itemEq_equivp: "equivp itemEq"
  by (rule equivpI) (auto simp: reflp_def symp_def transp_def itemEq_def split: if_splits)

lemma itemLess_trans: "itemLess a b \<Longrightarrow> itemLess b c \<Longrightarrow> itemLess a c"
  by (auto simp: itemLess_def split: if_splits)

lemma itemLess_trichotomy:
  "(itemLess a b \<and> \<not> itemEq a b \<and> \<not> itemLess b a)
   \<or> (\<not> itemLess a b \<and> itemEq a b \<and> \<not> itemLess b a)
   \<or> (\<not> itemLess a b \<and> \<not> itemEq a b \<and> itemLess b a)"
  by (auto simp: itemLess_def itemEq_def)

section \<open>Sub-assembly tags\<close>

lemma low_mask_ucast: "(ucast (and (w :: u256) 0xffffffffffffffff) :: 64 word) = ucast w"
proof -
  have "(0xffffffffffffffff :: u256) = mask 64" by (simp add: mask_eq_exp_minus_1)
  then have "and w 0xffffffffffffffff = take_bit 64 w" by (simp add: take_bit_eq_mask)
  then show ?thesis by (auto intro!: bit_eqI simp: bit_simps)
qed

lemma ucast_64_256:
  fixes w :: "64 word"
  shows "(ucast (ucast w :: u256) :: 64 word) = w"
    and "uint (ucast w :: u256) = uint w"
    and "(ucast (- 1 :: u256) :: 64 word) = - 1"
proof -
  show "(ucast (ucast w :: u256) :: 64 word) = w"
    by (rule bit_eqI) (auto simp: bit_simps dest: bit_imp_le_length)
  have "take_bit 256 (uint w) = uint w"
    using unsigned_less [of w, where ?'a = int] by (intro take_bit_int_eq_self) simp_all
  then show "uint (ucast w :: u256) = uint w" by (simp add: unsigned_ucast_eq)
  show "(ucast (- 1 :: u256) :: 64 word) = - 1"
    by (rule bit_eqI) (simp add: bit_simps)
qed

text \<open>The packed value of a tag and its unpacking.\<close>

lemma split_packed_tag:
  fixes sub tg :: "64 word"
  shows "drop_bit 64 (or (ucast tg) (push_bit 64 (ucast sub + 1 :: u256))) = (ucast sub + 1 :: u256)"
    and "(ucast (or (ucast tg) (push_bit 64 (ucast sub + 1 :: u256))) :: 64 word) = tg"
proof -
  let ?x = "ucast sub + 1 :: u256"
  have "uint (ucast sub :: u256) < 2 ^ 64"
    using unsigned_less [of sub, where ?'a = int] by (simp add: ucast_64_256)
  then have "uint ?x < 2 ^ 65" by (simp add: uint_word_ariths)
  then have "take_bit 65 (uint ?x) = uint ?x" by (simp add: take_bit_int_eq_self)
  then have "take_bit 65 ?x = ?x" by (metis unsigned_take_bit_eq word_uint_eq_iff)
  then have bound: "bit ?x n \<Longrightarrow> n < 65" for n by (metis bit_take_bit_iff)
  show "drop_bit 64 (or (ucast tg) (push_bit 64 ?x)) = ?x"
    by (rule bit_eqI) (auto simp: bit_simps dest: bound bit_imp_le_length)
  show "(ucast (or (ucast tg) (push_bit 64 ?x)) :: 64 word) = tg"
    by (rule bit_eqI) (simp add: bit_simps)
qed

lemma setPushTag_split:
  assumes "setPushTagSubIdAndTag i sub tg = Inr j"
  shows "splitForeignPushTag j = Inr (sub, tg)"
proof (cases "sub = - 1")
  case True
  have "drop_bit 64 (ucast tg :: u256) = 0"
    by (rule bit_eqI) (auto simp: bit_simps dest: bit_imp_le_length)
  moreover have "m_data j = ucast tg" "isTagItem j"
    using assms True by (auto simp: setPushTagSubIdAndTag_def item_setData_def isTagItem_def)
  ultimately show ?thesis using True
    by (simp add: splitForeignPushTag_def low_mask_ucast ucast_64_256)
next
  case False
  then have "m_data j = or (ucast tg) (push_bit 64 (ucast sub + 1))" "isTagItem j"
    using assms by (auto simp: setPushTagSubIdAndTag_def item_setData_def isTagItem_def)
  then show ?thesis
    using split_packed_tag by (simp add: splitForeignPushTag_def low_mask_ucast ucast_64_256)
qed

section \<open>Sizes\<close>

lemma itemBytesRequired_pos: "itemBytesRequired i n = Inr m \<Longrightarrow> 0 < m"
  by (auto simp: itemBytesRequired_def split: AssemblyItemType.splits)

lemma itemsBytesRequired_append:
  "itemsBytesRequired (xs @ ys) n =
     bindR (itemsBytesRequired xs n) (\<lambda>a. bindR (itemsBytesRequired ys n) (\<lambda>b. Inr (a + b)))"
  by (induction xs) (auto simp: bindR_def add.assoc split: sum.splits)

end
