(* ===== verification/SemanticInfo.thy ===== *)
theory SemanticInfo
  imports AssemblyItems
begin

text \<open>
  Model of libevmasm/SemanticInformation.cpp: the static classification of instructions and items
  that the optimiser and the view/pure checker consult.
\<close>

section \<open>The classification\<close>

definition item_isDup :: "AssemblyItem \<Rightarrow> bool" where
  "item_isDup i = (if m_type i \<noteq> Operation then False else isDupInstruction (m_instruction i))"

definition item_isSwap :: "AssemblyItem \<Rightarrow> bool" where
  "item_isSwap i = (if m_type i \<noteq> Operation then False else isSwapInstruction (m_instruction i))"

definition breaksCSEAnalysisBlock :: "AssemblyItem \<Rightarrow> bool \<Rightarrow> bool" where
  "breaksCSEAnalysisBlock i msizeImportant =
     (case m_type i of
        UndefinedItem \<Rightarrow> True
      | Tag \<Rightarrow> True
      | PushDeployTimeAddress \<Rightarrow> True
      | Operation \<Rightarrow>
          (let inst = m_instruction i; info = instructionInfo inst
           in if item_isSwap i \<or> item_isDup i then False
              else if inst = GAS \<or> inst = PC then True
              else if inst = MSIZE then True
              else if inst = SSTORE then False
              else if inst = MSTORE then False
              else if \<not> msizeImportant \<and> (inst = MLOAD \<or> inst = KECCAK256) then False
              else info_sideEffects info \<or> info_args info > 2)
      | _ \<Rightarrow> False)"

definition isCommutativeOperation :: "AssemblyItem \<Rightarrow> bool" where
  "isCommutativeOperation i =
     (if m_type i \<noteq> Operation then False else m_instruction i \<in> {ADD, MUL, EQ, AND, OR, XOR})"

definition isJumpInstruction :: "AssemblyItem \<Rightarrow> bool" where
  "isJumpInstruction i \<longleftrightarrow> isOp JUMP i \<or> isOp JUMPI i"

definition altersControlFlow :: "AssemblyItem \<Rightarrow> bool" where
  "altersControlFlow i =
     (if m_type i \<noteq> Operation then False
      else m_instruction i \<in> {JUMP, JUMPI, RETURN, SELFDESTRUCT, STOP, INVALID, REVERT})"

definition isDeterministic :: "AssemblyItem \<Rightarrow> bool" where
  "isDeterministic i =
     (if m_type i \<noteq> Operation then True
      else m_instruction i \<notin> {CALL, CALLCODE, DELEGATECALL, STATICCALL, CREATE, CREATE2, GAS, PC,
             MSIZE, BALANCE, EXTCODESIZE, RETURNDATACOPY, RETURNDATASIZE})"

definition movable :: "Instruction \<Rightarrow> bool" where
  "movable inst =
     (if isDupInstruction inst \<or> isSwapInstruction inst then False
      else if info_sideEffects (instructionInfo inst) then False
      else inst \<notin> {KECCAK256, BALANCE, EXTCODESIZE, RETURNDATASIZE, SLOAD, PC, MSIZE, GAS})"

definition invalidatesMemory :: "Instruction \<Rightarrow> bool" where
  "invalidatesMemory inst \<longleftrightarrow>
     inst \<in> {CALLDATACOPY, CODECOPY, EXTCODECOPY, RETURNDATACOPY, MSTORE, MSTORE8, CALL, CALLCODE,
       DELEGATECALL, STATICCALL}"

definition invalidatesStorage :: "Instruction \<Rightarrow> bool" where
  "invalidatesStorage inst \<longleftrightarrow> inst \<in> {CALL, CALLCODE, DELEGATECALL, CREATE, CREATE2, SSTORE}"

definition invalidInViewFunctions :: "Instruction \<Rightarrow> bool" where
  "invalidInViewFunctions inst \<longleftrightarrow>
     inst \<in> {SSTORE, JUMP, JUMPI, LOG0, LOG1, LOG2, LOG3, LOG4, CREATE, CALL, CALLCODE,
       DELEGATECALL, CREATE2, SELFDESTRUCT}"

definition invalidInPureFunctions :: "Instruction \<Rightarrow> bool" where
  "invalidInPureFunctions inst =
     (if inst \<in> {ADDRESS, BALANCE, ORIGIN, CALLER, CALLVALUE, GAS, GASPRICE, EXTCODESIZE, EXTCODECOPY,
          BLOCKHASH, COINBASE, TIMESTAMP, NUMBER, DIFFICULTY, GASLIMIT, STATICCALL, SLOAD}
      then True else invalidInViewFunctions inst)"

section \<open>Consistency of the classification\<close>

text \<open>
  What the table of Instruction.cpp says of the instructions named above, one check over the
  table's entries.
\<close>

lemma sideEffects_table:
  "list_all (\<lambda>(i, info). i \<in> {CALL, CALLCODE, DELEGATECALL, STATICCALL, CREATE, CREATE2, RETURNDATACOPY,
       JUMP, JUMPI, RETURN, SELFDESTRUCT, STOP, INVALID, REVERT, SSTORE, MSTORE, MSTORE8, CALLDATACOPY,
       CODECOPY, EXTCODECOPY, LOG0, LOG1, LOG2, LOG3, LOG4, KECCAK256, MLOAD, JUMPDEST}
     \<longleftrightarrow> info_sideEffects info) c_instructionInfo"
  by (simp add: c_instructionInfo_def mkInfo_def)

lemma sideEffects_iff:
  "info_sideEffects (instructionInfo i) \<longleftrightarrow>
     i \<in> {CALL, CALLCODE, DELEGATECALL, STATICCALL, CREATE, CREATE2, RETURNDATACOPY,
       JUMP, JUMPI, RETURN, SELFDESTRUCT, STOP, INVALID, REVERT, SSTORE, MSTORE, MSTORE8, CALLDATACOPY,
       CODECOPY, EXTCODECOPY, LOG0, LOG1, LOG2, LOG3, LOG4, KECCAK256, MLOAD, JUMPDEST}"
proof (cases "isValidInstruction i")
  case True
  from table_fact [OF sideEffects_table this] show ?thesis by (rule sym)
next
  case False
  have "list_all (\<lambda>i. isValidInstruction i) [CALL, CALLCODE, DELEGATECALL, STATICCALL, CREATE, CREATE2,
       RETURNDATACOPY, JUMP, JUMPI, RETURN, SELFDESTRUCT, STOP, INVALID, REVERT, SSTORE, MSTORE, MSTORE8,
       CALLDATACOPY, CODECOPY, EXTCODECOPY, LOG0, LOG1, LOG2, LOG3, LOG4, KECCAK256, MLOAD, JUMPDEST]"
    by code_simp
  with False have "i \<notin> {CALL, CALLCODE, DELEGATECALL, STATICCALL, CREATE, CREATE2, RETURNDATACOPY,
       JUMP, JUMPI, RETURN, SELFDESTRUCT, STOP, INVALID, REVERT, SSTORE, MSTORE, MSTORE8, CALLDATACOPY,
       CODECOPY, EXTCODECOPY, LOG0, LOG1, LOG2, LOG3, LOG4, KECCAK256, MLOAD, JUMPDEST}"
    unfolding list_all_iff list.set by blast
  moreover have "\<not> info_sideEffects (instructionInfo i)"
    using False by (simp add: isValidInstruction_def instructionInfo_def mkInfo_def)
  ultimately show ?thesis by blast
qed

lemma movable_deterministic: "movable (m_instruction i) \<Longrightarrow> isDeterministic i"
  by (auto simp: movable_def isDeterministic_def sideEffects_iff split: if_splits)

lemma dup_swap_not_special:
  assumes "isDupInstruction i \<or> isSwapInstruction i"
  shows "128 \<le> unat i \<and> unat i < 160"
  using assms by (auto simp: isDupInstruction_def isSwapInstruction_def word_le_nat_alt)

lemma altersControlFlow_breaks:
  assumes "altersControlFlow i"
  shows "breaksCSEAnalysisBlock i msizeImportant"
proof -
  have t: "m_type i = Operation" and m: "m_instruction i \<in> {JUMP, JUMPI, RETURN, SELFDESTRUCT, STOP, INVALID, REVERT}"
    using assms by (auto simp: altersControlFlow_def split: if_splits)
  have "\<not> isDupInstruction (m_instruction i)" "\<not> isSwapInstruction (m_instruction i)"
    using m dup_swap_not_special [of "m_instruction i"] by auto
  with t m show ?thesis
    by (auto simp: breaksCSEAnalysisBlock_def item_isDup_def item_isSwap_def sideEffects_iff)
qed

lemma invalidatesStorage_view: "invalidatesStorage i \<Longrightarrow> invalidInViewFunctions i \<and> info_sideEffects (instructionInfo i)"
  by (auto simp: invalidatesStorage_def invalidInViewFunctions_def sideEffects_iff)

end
