(* ===== verification/JuliaAst.thy ===== *)
theory JuliaAst
  imports SemanticInfo
begin

text \<open>
  The syntax tree of inline assembly and Julia (libsolidity/inlineasm/AsmData.h) and the generic
  passes over it: the walker and the modifier (libjulia/optimiser/ASTWalker.h and .cpp) and the copier
  (ASTCopier.h and .cpp). A virtual operator of a walker is a field of a record that is given the node
  and the behaviour of the base class on it. The shared pointers of the tree are never null but for the
  value of a variable declaration and of a default case.
\<close>

section \<open>The tree\<close>

record AsmTypedName =
  tn_location :: SourceLocation
  tn_name :: string
  tn_type :: string

datatype AsmLiteralKind = NumberLiteral | BooleanLiteral | StringLiteral

record AsmLiteral =
  al_location :: SourceLocation
  al_kind :: AsmLiteralKind
  al_value :: string
  al_type :: string

record AsmIdentifier =
  ai_location :: SourceLocation
  ai_name :: string

datatype AsmExpression =
    AsmFunctionalInstruction SourceLocation Instruction "AsmExpression list"
  | AsmFunctionCall SourceLocation AsmIdentifier "AsmExpression list"
  | AsmIdentifierExpression AsmIdentifier
  | AsmLiteralExpression AsmLiteral

datatype AsmStatement =
    AsmExpressionStatement SourceLocation AsmExpression
  | AsmInstruction SourceLocation Instruction
  | AsmLabel SourceLocation string
  | AsmStackAssignment SourceLocation AsmIdentifier
  | AsmAssignment SourceLocation "AsmIdentifier list" AsmExpression
  | AsmVariableDeclaration SourceLocation "AsmTypedName list" "AsmExpression option"
  | AsmFunctionDefinition SourceLocation string "AsmTypedName list" "AsmTypedName list" AsmBlock
  | AsmIf SourceLocation AsmExpression AsmBlock
  | AsmSwitch SourceLocation AsmExpression "AsmCase list"
  | AsmForLoop SourceLocation AsmBlock AsmExpression AsmBlock AsmBlock
  | AsmBlockStatement AsmBlock
and AsmBlock = AsmBlock (ab_location: SourceLocation) (ab_statements: "AsmStatement list")
and AsmCase = AsmCase SourceLocation "AsmLiteral option" AsmBlock

section \<open>The walker\<close>

text \<open>What \<open>apply_visitor\<close> on nodes that only loose assembly has does.\<close>

definition invalidNode :: "'s \<Rightarrow> 'a res" where
  "invalidNode s = Inl (OptimizerException '''')"

record 's exprWalker =
  ew_literal :: "AsmLiteral \<Rightarrow> 's \<Rightarrow> 's res"
  ew_identifier :: "AsmIdentifier \<Rightarrow> 's \<Rightarrow> 's res"
  ew_operation :: "AsmExpression \<Rightarrow> ('s \<Rightarrow> 's res) \<Rightarrow> 's \<Rightarrow> 's res"
  ew_visit :: "AsmExpression \<Rightarrow> ('s \<Rightarrow> 's res) \<Rightarrow> 's \<Rightarrow> 's res"

record 's walker =
  w_expression :: "'s exprWalker"
  w_statement :: "AsmStatement \<Rightarrow> ('s \<Rightarrow> 's res) \<Rightarrow> 's \<Rightarrow> 's res"
  w_visit :: "AsmStatement \<Rightarrow> ('s \<Rightarrow> 's res) \<Rightarrow> 's \<Rightarrow> 's res"

text \<open>The base class: every operator goes into the parts of its node.\<close>

definition baseExprWalker :: "'s exprWalker" where
  "baseExprWalker =
     \<lparr>ew_literal = (\<lambda>_. Inr), ew_identifier = (\<lambda>_. Inr), ew_operation = (\<lambda>_ base. base), ew_visit = (\<lambda>_ base. base)\<rparr>"

definition baseWalker :: "'s walker" where
  "baseWalker = \<lparr>w_expression = baseExprWalker, w_statement = (\<lambda>_ base. base), w_visit = (\<lambda>_ base. base)\<rparr>"

fun walkExpression :: "'s exprWalker \<Rightarrow> AsmExpression \<Rightarrow> 's \<Rightarrow> 's res"
  and walkArguments :: "'s exprWalker \<Rightarrow> AsmExpression list \<Rightarrow> 's \<Rightarrow> 's res" where
  "walkExpression w (AsmFunctionalInstruction l i args) =
     ew_visit w (AsmFunctionalInstruction l i args)
       (ew_operation w (AsmFunctionalInstruction l i args) (walkArguments w args))"
| "walkExpression w (AsmFunctionCall l f args) =
     ew_visit w (AsmFunctionCall l f args) (ew_operation w (AsmFunctionCall l f args) (walkArguments w args))"
| "walkExpression w (AsmIdentifierExpression i) = ew_visit w (AsmIdentifierExpression i) (ew_identifier w i)"
| "walkExpression w (AsmLiteralExpression c) = ew_visit w (AsmLiteralExpression c) (ew_literal w c)"
| "walkArguments w [] = Inr"
| "walkArguments w (a # args) = (\<lambda>s. bindR (walkArguments w args s) (walkExpression w a))"

primrec walkIdentifiers :: "'s exprWalker \<Rightarrow> AsmIdentifier list \<Rightarrow> 's \<Rightarrow> 's res" where
  "walkIdentifiers w [] = Inr"
| "walkIdentifiers w (i # is) = (\<lambda>s. bindR (ew_identifier w i s) (walkIdentifiers w is))"

fun walkStatement :: "'s walker \<Rightarrow> AsmStatement \<Rightarrow> 's \<Rightarrow> 's res"
  and walkStatements :: "'s walker \<Rightarrow> AsmStatement list \<Rightarrow> 's \<Rightarrow> 's res"
  and walkBlock :: "'s walker \<Rightarrow> AsmBlock \<Rightarrow> 's \<Rightarrow> 's res"
  and walkCases :: "'s walker \<Rightarrow> AsmCase list \<Rightarrow> 's \<Rightarrow> 's res" where
  "walkStatement w (AsmExpressionStatement l e) =
     w_visit w (AsmExpressionStatement l e)
       (w_statement w (AsmExpressionStatement l e) (walkExpression (w_expression w) e))"
| "walkStatement w (AsmInstruction l i) =
     w_visit w (AsmInstruction l i) (w_statement w (AsmInstruction l i) invalidNode)"
| "walkStatement w (AsmLabel l n) = w_visit w (AsmLabel l n) (w_statement w (AsmLabel l n) invalidNode)"
| "walkStatement w (AsmStackAssignment l i) =
     w_visit w (AsmStackAssignment l i) (w_statement w (AsmStackAssignment l i) invalidNode)"
| "walkStatement w (AsmAssignment l is e) =
     w_visit w (AsmAssignment l is e)
       (w_statement w (AsmAssignment l is e)
         (\<lambda>s. bindR (walkIdentifiers (w_expression w) is s) (walkExpression (w_expression w) e)))"
| "walkStatement w (AsmVariableDeclaration l vs v) =
     w_visit w (AsmVariableDeclaration l vs v)
       (w_statement w (AsmVariableDeclaration l vs v)
         (case v of None \<Rightarrow> Inr | Some e \<Rightarrow> walkExpression (w_expression w) e))"
| "walkStatement w (AsmFunctionDefinition l f ps rs b) =
     w_visit w (AsmFunctionDefinition l f ps rs b)
       (w_statement w (AsmFunctionDefinition l f ps rs b) (walkBlock w b))"
| "walkStatement w (AsmIf l c b) =
     w_visit w (AsmIf l c b)
       (w_statement w (AsmIf l c b) (\<lambda>s. bindR (walkExpression (w_expression w) c s) (walkBlock w b)))"
| "walkStatement w (AsmSwitch l e cs) =
     w_visit w (AsmSwitch l e cs)
       (w_statement w (AsmSwitch l e cs) (\<lambda>s. bindR (walkExpression (w_expression w) e s) (walkCases w cs)))"
| "walkStatement w (AsmForLoop l pre c post b) =
     w_visit w (AsmForLoop l pre c post b)
       (w_statement w (AsmForLoop l pre c post b)
         (\<lambda>s. bindR (walkBlock w pre s) (\<lambda>s. bindR (walkExpression (w_expression w) c s) (\<lambda>s.
           bindR (walkBlock w b s) (walkBlock w post)))))"
| "walkStatement w (AsmBlockStatement b) = w_visit w (AsmBlockStatement b) (walkBlock w b)"
| "walkStatements w [] = Inr"
| "walkStatements w (st # sts) = (\<lambda>s. bindR (walkStatement w st s) (walkStatements w sts))"
| "walkBlock w (AsmBlock l sts) = walkStatements w sts"
| "walkCases w [] = Inr"
| "walkCases w (AsmCase l v b # cs) =
     (\<lambda>s. bindR (case v of None \<Rightarrow> Inr s | Some c \<Rightarrow> ew_literal (w_expression w) c s) (\<lambda>s.
       bindR (walkBlock w b s) (walkCases w cs)))"

section \<open>The modifier\<close>

text \<open>
  The in-place walker, with the operators that the passes that use its recursion override: \<open>visit\<close> of an
  expression, which is given the base class's visit and returns the expression in its place, and what a
  pass that keeps a pointer to a function definition sees through it once the definition is modified.
\<close>

type_synonym 's exprModifier = "AsmExpression \<Rightarrow> ('s \<Rightarrow> (AsmExpression \<times> 's) res) \<Rightarrow> 's \<Rightarrow> (AsmExpression \<times> 's) res"

record 's modifier =
  am_expression :: "'s exprModifier"
  am_function :: "AsmStatement \<Rightarrow> 's \<Rightarrow> 's"

definition keepR :: "('a \<Rightarrow> 'b) \<Rightarrow> ('a \<times> 's) res \<Rightarrow> ('b \<times> 's) res" where
  "keepR f r = bindR r (\<lambda>(x, s). Inr (f x, s))"

fun modifyExpression :: "'s exprModifier \<Rightarrow> AsmExpression \<Rightarrow> 's \<Rightarrow> (AsmExpression \<times> 's) res"
  and modifyArguments :: "'s exprModifier \<Rightarrow> AsmExpression list \<Rightarrow> 's \<Rightarrow> (AsmExpression list \<times> 's) res" where
  "modifyExpression m (AsmFunctionalInstruction l i args) =
     m (AsmFunctionalInstruction l i args)
       (\<lambda>s. keepR (AsmFunctionalInstruction l i) (modifyArguments m args s))"
| "modifyExpression m (AsmFunctionCall l f args) =
     m (AsmFunctionCall l f args) (\<lambda>s. keepR (AsmFunctionCall l f) (modifyArguments m args s))"
| "modifyExpression m (AsmIdentifierExpression i) =
     m (AsmIdentifierExpression i) (\<lambda>s. Inr (AsmIdentifierExpression i, s))"
| "modifyExpression m (AsmLiteralExpression c) = m (AsmLiteralExpression c) (\<lambda>s. Inr (AsmLiteralExpression c, s))"
| "modifyArguments m [] s = Inr ([], s)"
| "modifyArguments m (a # args) s =
     bindR (modifyArguments m args s) (\<lambda>(args, s). keepR (\<lambda>a. a # args) (modifyExpression m a s))"

fun modifyStatement :: "'s modifier \<Rightarrow> AsmStatement \<Rightarrow> 's \<Rightarrow> (AsmStatement \<times> 's) res"
  and modifyStatements :: "'s modifier \<Rightarrow> AsmStatement list \<Rightarrow> 's \<Rightarrow> (AsmStatement list \<times> 's) res"
  and modifyBlock :: "'s modifier \<Rightarrow> AsmBlock \<Rightarrow> 's \<Rightarrow> (AsmBlock \<times> 's) res"
  and modifyCases :: "'s modifier \<Rightarrow> AsmCase list \<Rightarrow> 's \<Rightarrow> (AsmCase list \<times> 's) res" where
  "modifyStatement m (AsmExpressionStatement l e) s = keepR (AsmExpressionStatement l) (modifyExpression (am_expression m) e s)"
| "modifyStatement m (AsmInstruction l i) s = invalidNode s"
| "modifyStatement m (AsmLabel l n) s = invalidNode s"
| "modifyStatement m (AsmStackAssignment l i) s = invalidNode s"
| "modifyStatement m (AsmAssignment l is e) s = keepR (AsmAssignment l is) (modifyExpression (am_expression m) e s)"
| "modifyStatement m (AsmVariableDeclaration l vs None) s = Inr (AsmVariableDeclaration l vs None, s)"
| "modifyStatement m (AsmVariableDeclaration l vs (Some e)) s =
     keepR (\<lambda>e. AsmVariableDeclaration l vs (Some e)) (modifyExpression (am_expression m) e s)"
| "modifyStatement m (AsmFunctionDefinition l f ps rs b) s =
     bindR (modifyBlock m b s) (\<lambda>(b, s).
       let st = AsmFunctionDefinition l f ps rs b in Inr (st, am_function m st s))"
| "modifyStatement m (AsmIf l c b) s =
     bindR (modifyExpression (am_expression m) c s) (\<lambda>(c, s). keepR (AsmIf l c) (modifyBlock m b s))"
| "modifyStatement m (AsmSwitch l e cs) s =
     bindR (modifyExpression (am_expression m) e s) (\<lambda>(e, s). keepR (AsmSwitch l e) (modifyCases m cs s))"
| "modifyStatement m (AsmForLoop l pre c post b) s =
     bindR (modifyBlock m pre s) (\<lambda>(pre, s). bindR (modifyExpression (am_expression m) c s) (\<lambda>(c, s).
       bindR (modifyBlock m post s) (\<lambda>(post, s). keepR (AsmForLoop l pre c post) (modifyBlock m b s))))"
| "modifyStatement m (AsmBlockStatement b) s = keepR AsmBlockStatement (modifyBlock m b s)"
| "modifyStatements m [] s = Inr ([], s)"
| "modifyStatements m (st # sts) s =
     bindR (modifyStatement m st s) (\<lambda>(st, s). keepR (\<lambda>sts. st # sts) (modifyStatements m sts s))"
| "modifyBlock m (AsmBlock l sts) s = keepR (AsmBlock l) (modifyStatements m sts s)"
| "modifyCases m [] s = Inr ([], s)"
| "modifyCases m (AsmCase l v b # cs) s =
     bindR (modifyBlock m b s) (\<lambda>(b, s). keepR (\<lambda>cs. AsmCase l v b # cs) (modifyCases m cs s))"

section \<open>The copier\<close>

text \<open>
  A copier of expressions: the translation of identifiers, and \<open>translate\<close> of an expression, which is
  given the base class's copy.
\<close>

record exprCopier =
  ec_identifier :: "string \<Rightarrow> string"
  ec_translate :: "AsmExpression \<Rightarrow> AsmExpression \<Rightarrow> AsmExpression"

definition baseCopier :: exprCopier where
  "baseCopier = \<lparr>ec_identifier = (\<lambda>n. n), ec_translate = (\<lambda>_ copy. copy)\<rparr>"

definition translateIdentifierNode :: "exprCopier \<Rightarrow> AsmIdentifier \<Rightarrow> AsmIdentifier" where
  "translateIdentifierNode c i = i\<lparr>ai_name := ec_identifier c (ai_name i)\<rparr>"

fun translateExpression :: "exprCopier \<Rightarrow> AsmExpression \<Rightarrow> AsmExpression" where
  "translateExpression c (AsmFunctionalInstruction l i args) =
     ec_translate c (AsmFunctionalInstruction l i args)
       (AsmFunctionalInstruction l i (map (translateExpression c) args))"
| "translateExpression c (AsmFunctionCall l f args) =
     ec_translate c (AsmFunctionCall l f args)
       (AsmFunctionCall l (translateIdentifierNode c f) (map (translateExpression c) args))"
| "translateExpression c (AsmIdentifierExpression i) =
     ec_translate c (AsmIdentifierExpression i) (AsmIdentifierExpression (translateIdentifierNode c i))"
| "translateExpression c (AsmLiteralExpression k) =
     ec_translate c (AsmLiteralExpression k) (AsmLiteralExpression k)"

lemma translate_base [simp]: "translateExpression baseCopier e = e"
  by (induction e) (simp_all add: baseCopier_def translateIdentifierNode_def list.map_ident_strong)

end
