(* ===== verification/JuliaTools.thy ===== *)
theory JuliaTools
  imports JuliaAst "HOL-Library.AList"
begin

text \<open>
  The small passes over the tree that the optimiser stages share (libjulia/optimiser): NameCollector,
  NameDispenser, SyntacticalEquality, Semantics (movable expressions), Metrics (code size), Utilities and
  Substitution; and the stages that only move function definitions: FunctionHoister, FunctionGrouper,
  MainFunction.
\<close>

section \<open>Names\<close>

definition nameCollector :: "string set walker" where
  "nameCollector = baseWalker\<lparr>w_statement := \<lambda>st base names.
     case st of
       AsmVariableDeclaration l vs v \<Rightarrow> Inr (names \<union> tn_name ` set vs)
     | AsmFunctionDefinition l f ps rs b \<Rightarrow> base (insert f names \<union> tn_name ` set ps \<union> tn_name ` set rs)
     | _ \<Rightarrow> base names\<rparr>"

definition collectNames :: "AsmBlock \<Rightarrow> string set res" where
  "collectNames b = walkBlock nameCollector b {}"

text \<open>
  A \<open>std::map\<close> from names to numbers as an association list; nothing depends on the order of its keys.
  \<open>++m_references[name]\<close> makes an entry with 0 for a name the map does not hold.
\<close>

type_synonym references = "(string \<times> nat) list"

definition referenceCount :: "references \<Rightarrow> string \<Rightarrow> nat" where
  "referenceCount refs name = (case map_of refs name of None \<Rightarrow> 0 | Some n \<Rightarrow> n)"

definition addReference :: "string \<Rightarrow> references \<Rightarrow> references" where
  "addReference name refs = AList.update name (Suc (referenceCount refs name)) refs"

definition referencesCounter :: "references walker" where
  "referencesCounter = baseWalker\<lparr>w_expression := baseExprWalker
     \<lparr>ew_identifier := \<lambda>i refs. Inr (addReference (ai_name i) refs),
      ew_operation := \<lambda>e base refs.
        case e of AsmFunctionCall l f args \<Rightarrow> base (addReference (ai_name f) refs) | _ \<Rightarrow> base refs\<rparr>\<rparr>"

definition countReferences :: "AsmBlock \<Rightarrow> references res" where
  "countReferences b = walkBlock referencesCounter b []"

definition countReferencesIn :: "AsmExpression \<Rightarrow> references res" where
  "countReferencesIn e = walkExpression (w_expression referencesCounter) e []"

definition assignments :: "string set walker" where
  "assignments = baseWalker\<lparr>w_statement := \<lambda>st base names.
     case st of AsmAssignment l is e \<Rightarrow> Inr (names \<union> ai_name ` set is) | _ \<Rightarrow> base names\<rparr>"

definition assignedNames :: "AsmBlock \<Rightarrow> string set res" where
  "assignedNames b = walkBlock assignments b {}"

text \<open>
  \<open>NameDispenser::newName\<close>: the loop over the suffixes ends because the used names are finitely many;
  the bound given to it is more than their number.
\<close>

fun newNameFrom :: "string list \<Rightarrow> string \<Rightarrow> nat \<Rightarrow> nat \<Rightarrow> string \<Rightarrow> string option" where
  "newNameFrom used prefix suffix 0 name = None"
| "newNameFrom used prefix suffix (Suc fuel) name =
     (if name = [] \<or> name \<in> set used
      then newNameFrom used prefix (suffix + 1) fuel (prefix @ ''_'' @ decNat (suffix + 1))
      else Some name)"

definition newName :: "string \<Rightarrow> string list \<Rightarrow> (string \<times> string list) option" where
  "newName prefix used =
     map_option (\<lambda>name. (name, name # used)) (newNameFrom used prefix 0 (length used + 3) prefix)"

section \<open>Expressions\<close>

text \<open>\<open>SyntacticalEqualityChecker::equal\<close> and \<open>equalVector\<close>.\<close>

fun syntacticallyEqual :: "AsmExpression \<Rightarrow> AsmExpression \<Rightarrow> bool"
  and equalVector :: "AsmExpression list \<Rightarrow> AsmExpression list \<Rightarrow> bool" where
  "syntacticallyEqual (AsmFunctionalInstruction _ i args) (AsmFunctionalInstruction _ i' args') =
     (i = i' \<and> equalVector args args')"
| "syntacticallyEqual (AsmFunctionCall _ f args) (AsmFunctionCall _ f' args') =
     (ai_name f = ai_name f' \<and> equalVector args args')"
| "syntacticallyEqual (AsmIdentifierExpression i) (AsmIdentifierExpression i') = (ai_name i = ai_name i')"
| "syntacticallyEqual (AsmLiteralExpression c) (AsmLiteralExpression c') =
     (al_kind c = al_kind c' \<and> al_value c = al_value c' \<and> al_type c = al_type c')"
| "syntacticallyEqual _ _ = False"
| "equalVector [] [] = True"
| "equalVector (e # es) (e' # es') = (syntacticallyEqual e e' \<and> equalVector es es')"
| "equalVector _ _ = False"

record MovableChecker =
  mc_variableReferences :: "string set"
  mc_movable :: bool

definition movableWalker :: "MovableChecker exprWalker" where
  "movableWalker = baseExprWalker
     \<lparr>ew_identifier := \<lambda>i s. Inr (s\<lparr>mc_variableReferences := insert (ai_name i) (mc_variableReferences s)\<rparr>),
      ew_operation := \<lambda>e base s.
        case e of
          AsmFunctionalInstruction l i args \<Rightarrow> if \<not> movable i then Inr (s\<lparr>mc_movable := False\<rparr>) else base s
        | AsmFunctionCall l f args \<Rightarrow> Inr (s\<lparr>mc_movable := False\<rparr>)
        | _ \<Rightarrow> base s\<rparr>"

definition checkMovable :: "AsmExpression \<Rightarrow> MovableChecker res" where
  "checkMovable e = walkExpression movableWalker e \<lparr>mc_variableReferences = {}, mc_movable = True\<rparr>"

definition codeSizeWalker :: "nat walker" where
  "codeSizeWalker = baseWalker
     \<lparr>w_expression := baseExprWalker\<lparr>ew_visit := \<lambda>e base n. base (Suc n)\<rparr>,
      w_visit := \<lambda>st base n. base (Suc n)\<rparr>"

definition codeSizeExpression :: "AsmExpression \<Rightarrow> nat res" where
  "codeSizeExpression e = walkExpression (w_expression codeSizeWalker) e 0"

definition codeSizeStatement :: "AsmStatement \<Rightarrow> nat res" where
  "codeSizeStatement st = walkStatement codeSizeWalker st 0"

text \<open>\<open>Substitution\<close>: what is put in the place of an identifier is not looked at again.\<close>

definition substitution :: "(string \<rightharpoonup> AsmExpression) \<Rightarrow> exprCopier" where
  "substitution sub = baseCopier\<lparr>ec_translate := \<lambda>e copy.
     case e of
       AsmIdentifierExpression i \<Rightarrow>
         (case sub (ai_name i) of Some e' \<Rightarrow> translateExpression baseCopier e' | None \<Rightarrow> copy)
     | _ \<Rightarrow> copy\<rparr>"

section \<open>Moving function definitions\<close>

fun isEmptyBlock :: "AsmStatement \<Rightarrow> bool" where
  "isEmptyBlock (AsmBlockStatement b) = (ab_statements b = [])"
| "isEmptyBlock _ = False"

definition removeEmptyBlocks :: "AsmStatement list \<Rightarrow> AsmStatement list" where
  "removeEmptyBlocks sts = filter (\<lambda>st. \<not> isEmptyBlock st) sts"

fun isFunctionDefinition :: "AsmStatement \<Rightarrow> bool" where
  "isFunctionDefinition (AsmFunctionDefinition _ _ _ _ _) = True"
| "isFunctionDefinition _ = False"

text \<open>
  \<open>FunctionHoister\<close> at a block that is not the outermost one: the functions found so far are its state.
\<close>

fun hoistStatement :: "AsmStatement \<Rightarrow> AsmStatement list \<Rightarrow> (AsmStatement \<times> AsmStatement list) res"
  and hoistStatements :: "SourceLocation \<Rightarrow> AsmStatement list \<Rightarrow> AsmStatement list \<Rightarrow> (AsmStatement list \<times> AsmStatement list) res"
  and hoistBlock :: "AsmBlock \<Rightarrow> AsmStatement list \<Rightarrow> (AsmBlock \<times> AsmStatement list) res"
  and hoistCases :: "AsmCase list \<Rightarrow> AsmStatement list \<Rightarrow> (AsmCase list \<times> AsmStatement list) res" where
  "hoistStatement (AsmExpressionStatement l e) fs = Inr (AsmExpressionStatement l e, fs)"
| "hoistStatement (AsmInstruction l i) fs = invalidNode fs"
| "hoistStatement (AsmLabel l n) fs = invalidNode fs"
| "hoistStatement (AsmStackAssignment l i) fs = invalidNode fs"
| "hoistStatement (AsmAssignment l is e) fs = Inr (AsmAssignment l is e, fs)"
| "hoistStatement (AsmVariableDeclaration l vs v) fs = Inr (AsmVariableDeclaration l vs v, fs)"
| "hoistStatement (AsmFunctionDefinition l f ps rs b) fs = keepR (AsmFunctionDefinition l f ps rs) (hoistBlock b fs)"
| "hoistStatement (AsmIf l c b) fs = keepR (AsmIf l c) (hoistBlock b fs)"
| "hoistStatement (AsmSwitch l e cs) fs = keepR (AsmSwitch l e) (hoistCases cs fs)"
| "hoistStatement (AsmForLoop l pre c post b) fs =
     bindR (hoistBlock pre fs) (\<lambda>(pre, fs). bindR (hoistBlock post fs) (\<lambda>(post, fs).
       keepR (AsmForLoop l pre c post) (hoistBlock b fs)))"
| "hoistStatement (AsmBlockStatement b) fs = keepR AsmBlockStatement (hoistBlock b fs)"
| "hoistStatements l [] fs = Inr ([], fs)"
| "hoistStatements l (st # sts) fs =
     bindR (hoistStatement st fs) (\<lambda>(st, fs).
       if isFunctionDefinition st
       then keepR (\<lambda>sts. AsmBlockStatement (AsmBlock l []) # sts) (hoistStatements l sts (fs @ [st]))
       else keepR (\<lambda>sts. st # sts) (hoistStatements l sts fs))"
| "hoistBlock (AsmBlock l sts) fs = keepR (\<lambda>sts. AsmBlock l (removeEmptyBlocks sts)) (hoistStatements l sts fs)"
| "hoistCases [] fs = Inr ([], fs)"
| "hoistCases (AsmCase l v b # cs) fs =
     bindR (hoistBlock b fs) (\<lambda>(b, fs). keepR (\<lambda>cs. AsmCase l v b # cs) (hoistCases cs fs))"

definition functionHoister :: "AsmBlock \<Rightarrow> AsmBlock res" where
  "functionHoister b =
     bindR (hoistBlock b []) (\<lambda>(b, fs). Inr (AsmBlock (ab_location b) (ab_statements b @ fs)))"

definition functionGrouper :: "AsmBlock \<Rightarrow> AsmBlock" where
  "functionGrouper b =
     AsmBlock (ab_location b)
       (AsmBlockStatement (AsmBlock (ab_location b) (filter (\<lambda>st. \<not> isFunctionDefinition st) (ab_statements b)))
        # filter isFunctionDefinition (ab_statements b))"

definition mainFunction :: "AsmBlock \<Rightarrow> AsmBlock res" where
  "mainFunction b =
     (case ab_statements b of
        AsmBlockStatement body # sts \<Rightarrow>
          if \<not> list_all isFunctionDefinition sts then Inl (OptimizerException '''')
          else bindR (collectNames b) (\<lambda>names.
            if ''main'' \<in> names then Inl (OptimizerException '''')
            else Inr (AsmBlock (ab_location b)
                   (AsmFunctionDefinition (ab_location body) ''main'' [] [] body # sts)))
      | _ \<Rightarrow> Inl (OptimizerException ''''))"

end
