(* ===== verification/JuliaOptimiser.thy ===== *)
theory JuliaOptimiser
  imports JuliaTools
begin

text \<open>
  Two stages of the Julia optimiser (libjulia/optimiser): UnusedPruner, and ExpressionInliner with
  InlinableExpressionFunctionFinder.
\<close>

section \<open>The pruner\<close>

record UnusedPruner =
  up_shouldRunAgain :: bool
  up_references :: references

definition mkUnusedPruner :: "AsmBlock \<Rightarrow> UnusedPruner res" where
  "mkUnusedPruner ast =
     bindR (countReferences ast) (\<lambda>refs. Inr \<lparr>up_shouldRunAgain = False, up_references = refs\<rparr>)"

definition used :: "UnusedPruner \<Rightarrow> string \<Rightarrow> bool" where
  "used up name = (case map_of (up_references up) name of None \<Rightarrow> False | Some n \<Rightarrow> 0 < n)"

fun subtractReferences :: "references \<Rightarrow> UnusedPruner \<Rightarrow> UnusedPruner res" where
  "subtractReferences [] up = Inr up"
| "subtractReferences ((name, n) # subtrahend) up =
     (case map_of (up_references up) name of
        None \<Rightarrow> Inl (OptimizerException '''')
      | Some m \<Rightarrow>
          assertThrow (n \<le> m) (OptimizerException '''')
            (subtractReferences subtrahend
              (up\<lparr>up_references := AList.update name (m - n) (up_references up), up_shouldRunAgain := True\<rparr>)))"

definition emptyBlockAt :: "SourceLocation \<Rightarrow> AsmStatement" where
  "emptyBlockAt l = AsmBlockStatement (AsmBlock l [])"

text \<open>What the loop over the statements of a block does with one of them.\<close>

definition pruneStatement :: "AsmStatement \<Rightarrow> UnusedPruner \<Rightarrow> (AsmStatement \<times> UnusedPruner) res" where
  "pruneStatement st up =
     (case st of
        AsmFunctionDefinition l f ps rs b \<Rightarrow>
          if \<not> used up f
          then bindR (countReferences b) (\<lambda>refs. bindR (subtractReferences refs up) (\<lambda>up. Inr (emptyBlockAt l, up)))
          else Inr (st, up)
      | AsmVariableDeclaration l vs v \<Rightarrow>
          if list_all (\<lambda>v. \<not> used up (tn_name v)) vs
          then (case v of
                  None \<Rightarrow> Inr (emptyBlockAt l, up)
                | Some e \<Rightarrow> bindR (checkMovable e) (\<lambda>mc.
                    if mc_movable mc
                    then bindR (countReferencesIn e) (\<lambda>refs. bindR (subtractReferences refs up) (\<lambda>up.
                           Inr (emptyBlockAt l, up)))
                    else if length vs = 1
                    then Inr (AsmExpressionStatement l (AsmFunctionalInstruction l POP [e]), up)
                    else Inr (st, up)))
          else Inr (st, up)
      | _ \<Rightarrow> Inr (st, up))"

fun pruneStatements :: "AsmStatement list \<Rightarrow> UnusedPruner \<Rightarrow> (AsmStatement list \<times> UnusedPruner) res" where
  "pruneStatements [] up = Inr ([], up)"
| "pruneStatements (st # sts) up =
     bindR (pruneStatement st up) (\<lambda>(st, up). keepR (\<lambda>sts. st # sts) (pruneStatements sts up))"

text \<open>The weight that bounds the recursion: a statement that is replaced does not get heavier.\<close>

fun statementWeight :: "AsmStatement \<Rightarrow> nat" and blockWeight :: "AsmBlock \<Rightarrow> nat" and caseWeight :: "AsmCase \<Rightarrow> nat" where
  "statementWeight (AsmFunctionDefinition l f ps rs b) = Suc (blockWeight b)"
| "statementWeight (AsmIf l c b) = Suc (blockWeight b)"
| "statementWeight (AsmSwitch l e cs) = 2 + sum_list (map caseWeight cs)"
| "statementWeight (AsmForLoop l pre c post b) = Suc (blockWeight pre + blockWeight post + blockWeight b)"
| "statementWeight (AsmBlockStatement b) = Suc (blockWeight b)"
| "statementWeight _ = 2"
| "blockWeight (AsmBlock l sts) = Suc (sum_list (map statementWeight sts))"
| "caseWeight (AsmCase l v b) = Suc (blockWeight b)"

lemma blockWeight_pos: "0 < blockWeight b"
  by (cases b) simp

lemma statementWeight_ge: "2 \<le> statementWeight st"
  using blockWeight_pos by (cases st) (auto simp: Suc_le_eq)

lemma statementWeight_pos: "0 < statementWeight st"
  using statementWeight_ge [of st] by simp

lemma pruneStatement_weight:
  "pruneStatement st up = Inr (st', up') \<Longrightarrow> statementWeight st' \<le> statementWeight st"
  using statementWeight_ge [of st]
  by (auto simp: pruneStatement_def emptyBlockAt_def split: AsmStatement.splits if_splits option.splits)

lemma pruneStatements_weight:
  "pruneStatements sts up = Inr (sts', up') \<Longrightarrow> sum_list (map statementWeight sts') \<le> sum_list (map statementWeight sts)"
  by (induction sts up arbitrary: sts' up' rule: pruneStatements.induct)
    (auto simp: keepR_def intro!: add_mono dest: pruneStatement_weight)

lemma removeEmptyBlocks_weight:
  "sum_list (map statementWeight (removeEmptyBlocks sts)) \<le> sum_list (map statementWeight sts)"
  by (induction sts) (auto simp: removeEmptyBlocks_def)

declare bindR_cong [fundef_cong]

definition pruneMeasure :: "((AsmBlock \<times> UnusedPruner) + (AsmStatement \<times> UnusedPruner)) +
    ((AsmStatement list \<times> UnusedPruner) + (AsmCase list \<times> UnusedPruner)) \<Rightarrow> nat" where
  "pruneMeasure x =
     (case x of
        Inl (Inl (b, _)) \<Rightarrow> 2 * blockWeight b
      | Inl (Inr (st, _)) \<Rightarrow> 2 * statementWeight st
      | Inr (Inl (sts, _)) \<Rightarrow> 2 * sum_list (map statementWeight sts) + 1
      | Inr (Inr (cs, _)) \<Rightarrow> 2 * sum_list (map caseWeight cs) + 1)"

text \<open>\<open>operator()(Block&)\<close>: the loop, the removal of empty blocks, then the base class.\<close>

function pruneBlock :: "AsmBlock \<Rightarrow> UnusedPruner \<Rightarrow> (AsmBlock \<times> UnusedPruner) res"
  and pruneInside :: "AsmStatement \<Rightarrow> UnusedPruner \<Rightarrow> (AsmStatement \<times> UnusedPruner) res"
  and pruneInsideAll :: "AsmStatement list \<Rightarrow> UnusedPruner \<Rightarrow> (AsmStatement list \<times> UnusedPruner) res"
  and pruneCases :: "AsmCase list \<Rightarrow> UnusedPruner \<Rightarrow> (AsmCase list \<times> UnusedPruner) res" where
  "pruneBlock (AsmBlock l sts) up =
     bindR (pruneStatements sts up) (\<lambda>(sts, up). keepR (AsmBlock l) (pruneInsideAll (removeEmptyBlocks sts) up))"
| "pruneInside (AsmExpressionStatement l e) up = Inr (AsmExpressionStatement l e, up)"
| "pruneInside (AsmInstruction l i) up = invalidNode up"
| "pruneInside (AsmLabel l n) up = invalidNode up"
| "pruneInside (AsmStackAssignment l i) up = invalidNode up"
| "pruneInside (AsmAssignment l is e) up = Inr (AsmAssignment l is e, up)"
| "pruneInside (AsmVariableDeclaration l vs v) up = Inr (AsmVariableDeclaration l vs v, up)"
| "pruneInside (AsmFunctionDefinition l f ps rs b) up = keepR (AsmFunctionDefinition l f ps rs) (pruneBlock b up)"
| "pruneInside (AsmIf l c b) up = keepR (AsmIf l c) (pruneBlock b up)"
| "pruneInside (AsmSwitch l e cs) up = keepR (AsmSwitch l e) (pruneCases cs up)"
| "pruneInside (AsmForLoop l pre c post b) up =
     bindR (pruneBlock pre up) (\<lambda>(pre, up). bindR (pruneBlock post up) (\<lambda>(post, up).
       keepR (AsmForLoop l pre c post) (pruneBlock b up)))"
| "pruneInside (AsmBlockStatement b) up = keepR AsmBlockStatement (pruneBlock b up)"
| "pruneInsideAll [] up = Inr ([], up)"
| "pruneInsideAll (st # sts) up =
     bindR (pruneInside st up) (\<lambda>(st, up). keepR (\<lambda>sts. st # sts) (pruneInsideAll sts up))"
| "pruneCases [] up = Inr ([], up)"
| "pruneCases (AsmCase l v b # cs) up =
     bindR (pruneBlock b up) (\<lambda>(b, up). keepR (\<lambda>cs. AsmCase l v b # cs) (pruneCases cs up))"
  by pat_completeness auto

termination
proof (relation "measure pruneMeasure", goal_cases)
  case (2 l sts up p sts' up')
  then show ?case
    using pruneStatements_weight [of sts up sts' up'] removeEmptyBlocks_weight [of sts']
    by (simp add: pruneMeasure_def)
qed (auto simp: pruneMeasure_def blockWeight_pos statementWeight_pos)

section \<open>Running the pruner until nothing changes\<close>

text \<open>A run that is to be repeated has dropped a statement, so the tree it leaves is lighter.\<close>

lemma subtractReferences_again:
  "subtractReferences refs up = Inr up' \<Longrightarrow> up_shouldRunAgain up' = (up_shouldRunAgain up \<or> refs \<noteq> [])"
  by (induction refs up rule: subtractReferences.induct) (auto split: option.splits)

lemma pruneStatement_again:
  assumes "pruneStatement st up = Inr (st', up')" "\<not> up_shouldRunAgain up" "up_shouldRunAgain up'"
  shows "isEmptyBlock st'"
  using assms
  by (auto simp: pruneStatement_def emptyBlockAt_def dest!: subtractReferences_again
      split: AsmStatement.splits if_splits option.splits)

definition keptWeight :: "AsmStatement list \<Rightarrow> nat" where
  "keptWeight sts = sum_list (map statementWeight (removeEmptyBlocks sts))"

lemma keptWeight_simps [simp]:
  "keptWeight [] = 0"
  "keptWeight (st # sts) = (if isEmptyBlock st then 0 else statementWeight st) + keptWeight sts"
  by (simp_all add: keptWeight_def removeEmptyBlocks_def)

lemma pruneStatements_again:
  assumes "pruneStatements sts up = Inr (sts', up')"
  shows "keptWeight sts' \<le> sum_list (map statementWeight sts) \<and>
    (\<not> up_shouldRunAgain up \<longrightarrow> up_shouldRunAgain up' \<longrightarrow> keptWeight sts' < sum_list (map statementWeight sts))"
  using assms
proof (induction sts up arbitrary: sts' up' rule: pruneStatements.induct)
  case (2 st sts up)
  then obtain st1 up1 sts2 where
    1: "pruneStatement st up = Inr (st1, up1)" "pruneStatements sts up1 = Inr (sts2, up')" "sts' = st1 # sts2"
    by (auto simp: keepR_def)
  have w: "statementWeight st1 \<le> statementWeight st" by (rule pruneStatement_weight [OF 1(1)])
  have "isEmptyBlock st1" if "\<not> up_shouldRunAgain up" "up_shouldRunAgain up1"
    by (rule pruneStatement_again [OF 1(1) that])
  then show ?case
    using 2(1) [OF 1(2)] w 1(3) statementWeight_pos [of st] by (cases "up_shouldRunAgain up1") auto
qed simp

lemma prune_again:
  "pruneBlock b up = Inr (b', up') \<Longrightarrow> blockWeight b' \<le> blockWeight b \<and>
     (\<not> up_shouldRunAgain up \<longrightarrow> up_shouldRunAgain up' \<longrightarrow> blockWeight b' < blockWeight b)"
  "pruneInside st up = Inr (st', up') \<Longrightarrow> statementWeight st' \<le> statementWeight st \<and>
     (\<not> up_shouldRunAgain up \<longrightarrow> up_shouldRunAgain up' \<longrightarrow> statementWeight st' < statementWeight st)"
  "pruneInsideAll sts up = Inr (sts', up') \<Longrightarrow>
     sum_list (map statementWeight sts') \<le> sum_list (map statementWeight sts) \<and>
     (\<not> up_shouldRunAgain up \<longrightarrow> up_shouldRunAgain up' \<longrightarrow>
      sum_list (map statementWeight sts') < sum_list (map statementWeight sts))"
  "pruneCases cs up = Inr (cs', up') \<Longrightarrow> sum_list (map caseWeight cs') \<le> sum_list (map caseWeight cs) \<and>
     (\<not> up_shouldRunAgain up \<longrightarrow> up_shouldRunAgain up' \<longrightarrow>
      sum_list (map caseWeight cs') < sum_list (map caseWeight cs))"
proof (induction b up and st up and sts up and cs up arbitrary: b' up' and st' up' and sts' up' and cs' up'
    rule: pruneBlock_pruneInside_pruneInsideAll_pruneCases.induct)
  case (1 l sts up)
  then obtain sts1 up1 sts2 where
    1: "pruneStatements sts up = Inr (sts1, up1)" "pruneInsideAll (removeEmptyBlocks sts1) up1 = Inr (sts2, up')"
      "b' = AsmBlock l sts2"
    by (auto simp: keepR_def)
  note first = pruneStatements_again [OF 1(1)]
  note second = "1.IH" [OF 1(1) refl 1(2)]
  show ?case using first second 1(3) by (cases "up_shouldRunAgain up1") (auto simp: keptWeight_def)
next
  case (11 l pre c post b up)
  then obtain pre1 up1 post1 up2 b1 where
    1: "pruneBlock pre up = Inr (pre1, up1)" "pruneBlock post up1 = Inr (post1, up2)" "pruneBlock b up2 = Inr (b1, up')"
      "st' = AsmForLoop l pre1 c post1 b1"
    by (auto simp: keepR_def)
  show ?case
    using "11.IH"(1) [OF 1(1)] "11.IH"(2) [OF 1(1) refl 1(2)] "11.IH"(3) [OF 1(1) refl 1(2) refl 1(3)] 1(4)
    by (cases "up_shouldRunAgain up1"; cases "up_shouldRunAgain up2") auto
next
  case (14 st sts up)
  then obtain st1 up1 sts1 where
    1: "pruneInside st up = Inr (st1, up1)" "pruneInsideAll sts up1 = Inr (sts1, up')" "sts' = st1 # sts1"
    by (auto simp: keepR_def)
  show ?case using "14.IH"(1) [OF 1(1)] "14.IH"(2) [OF 1(1) refl 1(2)] 1(3)
    by (cases "up_shouldRunAgain up1") auto
next
  case (16 l v b cs up)
  then obtain b1 up1 cs1 where
    1: "pruneBlock b up = Inr (b1, up1)" "pruneCases cs up1 = Inr (cs1, up')" "cs' = AsmCase l v b1 # cs1"
    by (auto simp: keepR_def)
  show ?case using "16.IH"(1) [OF 1(1)] "16.IH"(2) [OF 1(1) refl 1(2)] 1(3)
    by (cases "up_shouldRunAgain up1") auto
qed (auto simp: keepR_def invalidNode_def)

function runUntilStabilised :: "AsmBlock \<Rightarrow> AsmBlock res" where
  "runUntilStabilised ast =
     bindR (mkUnusedPruner ast) (\<lambda>up. bindR (pruneBlock ast up) (\<lambda>(ast', up').
       if up_shouldRunAgain up' then runUntilStabilised ast' else Inr ast'))"
  by pat_completeness auto
termination
proof (relation "measure blockWeight", goal_cases)
  case (2 ast up p ast' up')
  then have "\<not> up_shouldRunAgain up" by (auto simp: mkUnusedPruner_def)
  then show ?case using prune_again(1) [of ast up ast' up'] 2 by simp
qed simp

declare runUntilStabilised.simps [simp del]

section \<open>Inlining functions into expressions\<close>

text \<open>
  A pointer to an inlinable function definition stands for the names of its parameters and the value its
  body assigns, as they are when they are looked at.
\<close>

type_synonym inlinable = "(string \<times> string list \<times> AsmExpression) list"

record InlinableFinder =
  if_foundDisallowed :: bool
  if_disallowed :: "string list"
  if_inlinable :: inlinable

definition checkAllowed :: "string \<Rightarrow> InlinableFinder \<Rightarrow> InlinableFinder" where
  "checkAllowed name s = (if name \<in> set (if_disallowed s) then s\<lparr>if_foundDisallowed := True\<rparr> else s)"

definition finderExpression :: "InlinableFinder exprWalker" where
  "finderExpression = baseExprWalker
     \<lparr>ew_identifier := \<lambda>i s. Inr (checkAllowed (ai_name i) s),
      ew_operation := \<lambda>e base s.
        case e of AsmFunctionCall l f args \<Rightarrow> base (checkAllowed (ai_name f) s) | _ \<Rightarrow> base s\<rparr>"

text \<open>The test on a function definition: one return variable, which the only statement of the body assigns.\<close>

fun inlinableValue :: "AsmTypedName list \<Rightarrow> AsmBlock \<Rightarrow> AsmExpression option" where
  "inlinableValue [r] (AsmBlock _ [AsmAssignment _ [i] e]) = (if ai_name i = tn_name r then Some e else None)"
| "inlinableValue _ _ = None"

definition visitCandidate :: "string \<Rightarrow> AsmTypedName list \<Rightarrow> AsmTypedName list \<Rightarrow> AsmExpression \<Rightarrow> InlinableFinder \<Rightarrow> InlinableFinder res" where
  "visitCandidate f ps rs e s =
     assertThrow (if_disallowed s = [] \<and> \<not> if_foundDisallowed s) (OptimizerException '''')
       (bindR (walkExpression finderExpression e (s\<lparr>if_disallowed := map tn_name rs @ [f]\<rparr>)) (\<lambda>s.
          Inr (s\<lparr>if_inlinable := (if \<not> if_foundDisallowed s
                   then AList.update f (map tn_name ps, e) (if_inlinable s) else if_inlinable s),
                 if_disallowed := [], if_foundDisallowed := False\<rparr>)))"

definition inlinableFinder :: "InlinableFinder walker" where
  "inlinableFinder = baseWalker
     \<lparr>w_expression := finderExpression,
      w_statement := \<lambda>st base s.
        case st of
          AsmFunctionDefinition l f ps rs b \<Rightarrow>
            (case inlinableValue rs b of
               None \<Rightarrow> base s
             | Some e \<Rightarrow> bindR (visitCandidate f ps rs e s) base)
        | _ \<Rightarrow> base s\<rparr>"

definition inlinableFunctions :: "AsmBlock \<Rightarrow> inlinable res" where
  "inlinableFunctions b =
     bindR (walkBlock inlinableFinder b \<lparr>if_foundDisallowed = False, if_disallowed = [], if_inlinable = []\<rparr>)
       (\<lambda>s. Inr (if_inlinable s))"

primrec allMovable :: "AsmExpression list \<Rightarrow> bool res" where
  "allMovable [] = Inr True"
| "allMovable (e # es) = bindR (checkMovable e) (\<lambda>mc. if mc_movable mc then allMovable es else Inr False)"

text \<open>
  \<open>ExpressionInliner::visit\<close>. The arguments are taken by the places of the parameters, without a check
  that there are as many.
\<close>

definition inlineCall :: "inlinable \<Rightarrow> AsmExpression \<Rightarrow> AsmExpression res" where
  "inlineCall fs e =
     (case e of
        AsmFunctionCall l f args \<Rightarrow>
          bindR (allMovable args) (\<lambda>movable.
            case map_of fs (ai_name f) of
              Some (ps, value) \<Rightarrow>
                if \<not> movable then Inr e
                else if length args < length ps then Inl UndefinedBehaviour
                else Inr (translateExpression (substitution (map_of (rev (zip ps args)))) value)
            | None \<Rightarrow> Inr e)
      | _ \<Rightarrow> Inr e)"

definition inlineExpression :: "inlinable exprModifier" where
  "inlineExpression e base fs = bindR (base fs) (\<lambda>(e, fs). bindR (inlineCall fs e) (\<lambda>e. Inr (e, fs)))"

definition expressionInliner :: "inlinable modifier" where
  "expressionInliner =
     \<lparr>am_expression = inlineExpression,
      am_function = \<lambda>st fs.
        case st of
          AsmFunctionDefinition l f ps rs b \<Rightarrow>
            (case (map_of fs f, inlinableValue rs b) of
               (Some (qs, _), Some e) \<Rightarrow> AList.update f (qs, e) fs
             | _ \<Rightarrow> fs)
        | _ \<Rightarrow> fs\<rparr>"

definition inlineExpressions :: "AsmBlock \<Rightarrow> AsmBlock res" where
  "inlineExpressions b =
     bindR (inlinableFunctions b) (\<lambda>fs. bindR (modifyBlock expressionInliner b fs) (\<lambda>(b, _). Inr b))"

end
