(* ===== verification/JuliaSemantics.thy ===== *)
theory JuliaSemantics
  imports JuliaOptimiser
begin

text \<open>
  The meaning of a program, against which the optimiser stages are stated: an interpreter of the tree. It
  is no part of the repository. Instructions act on a world of their own, which is a parameter; the
  number of nested calls and of loop rounds is bounded by fuel.
\<close>

section \<open>Outcomes\<close>

text \<open>
  \<open>Done\<close> with a value, \<open>Stopped\<close> by an instruction that ends the execution, \<open>Stuck\<close> on a tree that is
  not well-formed, or \<open>NoFuel\<close>.
\<close>

datatype ('w, 'a) juliaRun = Done 'a 'w | Stopped 'w | Stuck | NoFuel

definition bindRun :: "('w, 'a) juliaRun \<Rightarrow> ('a \<Rightarrow> 'w \<Rightarrow> ('w, 'b) juliaRun) \<Rightarrow> ('w, 'b) juliaRun" where
  "bindRun r f = (case r of Done x w \<Rightarrow> f x w | Stopped w \<Rightarrow> Stopped w | Stuck \<Rightarrow> Stuck | NoFuel \<Rightarrow> NoFuel)"

lemma bindRun_simps [simp]:
  "bindRun (Done x w) f = f x w" "bindRun (Stopped w) f = Stopped w" "bindRun Stuck f = Stuck" "bindRun NoFuel f = NoFuel"
  by (simp_all add: bindRun_def)

lemma bindRun_cong [fundef_cong]:
  "r = r' \<Longrightarrow> (\<And>x w. r' = Done x w \<Longrightarrow> f x w = f' x w) \<Longrightarrow> bindRun r f = bindRun r' f'"
  by (cases r') auto

section \<open>The interpreter\<close>

type_synonym variables = "string \<rightharpoonup> u256"

record 'w machine =
  mach_instruction :: "Instruction \<Rightarrow> u256 list \<Rightarrow> 'w \<Rightarrow> ('w, u256 list) juliaRun"
  mach_literal :: "AsmLiteral \<Rightarrow> u256"

text \<open>
  A function: its parameters, its return variables and its body. A block has a frame with the functions
  that are defined in it; a function sees the frames from the one it is found in outwards.
\<close>

type_synonym julia_function = "AsmTypedName list \<times> AsmTypedName list \<times> AsmBlock"

type_synonym frame = "(string \<times> julia_function) list"

fun functionsHere :: "AsmStatement list \<Rightarrow> frame" where
  "functionsHere [] = []"
| "functionsHere (AsmFunctionDefinition l f ps rs b # sts) = (f, ps, rs, b) # functionsHere sts"
| "functionsHere (_ # sts) = functionsHere sts"

primrec lookupFunction :: "frame list \<Rightarrow> string \<Rightarrow> (julia_function \<times> frame list) option" where
  "lookupFunction [] f = None"
| "lookupFunction (fr # frs) f =
     (case map_of fr f of Some d \<Rightarrow> Some (d, fr # frs) | None \<Rightarrow> lookupFunction frs f)"

definition bindAll :: "string list \<Rightarrow> u256 list \<Rightarrow> variables \<Rightarrow> variables" where
  "bindAll names values vars = vars ++ map_of (zip names values)"

definition leaveScope :: "variables \<Rightarrow> variables \<Rightarrow> variables" where
  "leaveScope outer vars = (\<lambda>name. if outer name = None then None else vars name)"

text \<open>
  A call binds the parameters and makes the return variables 0; only they and the function's own
  variables are seen by the body. Arguments are evaluated from the last to the first.
\<close>

definition callEnv :: "AsmTypedName list \<Rightarrow> AsmTypedName list \<Rightarrow> u256 list \<Rightarrow> variables" where
  "callEnv ps rs vs =
     bindAll (map tn_name ps) vs (bindAll (map tn_name rs) (replicate (length rs) 0) Map.empty)"

definition readAll :: "string list \<Rightarrow> variables \<Rightarrow> u256 list option" where
  "readAll names vars = (if \<exists>n\<in>set names. vars n = None then None else Some (map (\<lambda>n. the (vars n)) names))"

definition resultValues :: "AsmTypedName list \<Rightarrow> ('w, variables) juliaRun \<Rightarrow> ('w, u256 list) juliaRun" where
  "resultValues rs r = bindRun r (\<lambda>vars w.
     case readAll (map tn_name rs) vars of None \<Rightarrow> Stuck | Some vs \<Rightarrow> Done vs w)"

text \<open>A value where one is needed.\<close>

definition single :: "('w, u256 list) juliaRun \<Rightarrow> (u256 \<Rightarrow> 'w \<Rightarrow> ('w, 'a) juliaRun) \<Rightarrow> ('w, 'a) juliaRun" where
  "single r f = bindRun r (\<lambda>vs w. case vs of [v] \<Rightarrow> f v w | _ \<Rightarrow> Stuck)"

text \<open>
  What an execution does not change but for the frames: the machine, the meaning of calls (with the frames
  at the call), the rounds a loop may take.
\<close>

record 'w evalContext =
  cx_machine :: "'w machine"
  cx_call :: "frame list \<Rightarrow> string \<Rightarrow> u256 list \<Rightarrow> 'w \<Rightarrow> ('w, u256 list) juliaRun"
  cx_rounds :: nat
  cx_frames :: "frame list"

definition enterScope :: "AsmStatement list \<Rightarrow> 'w evalContext \<Rightarrow> 'w evalContext" where
  "enterScope sts c = c\<lparr>cx_frames := functionsHere sts # cx_frames c\<rparr>"

fun evalExpression :: "'w evalContext \<Rightarrow> variables \<Rightarrow> AsmExpression \<Rightarrow> 'w \<Rightarrow> ('w, u256 list) juliaRun"
  and evalArguments :: "'w evalContext \<Rightarrow> variables \<Rightarrow> AsmExpression list \<Rightarrow> 'w \<Rightarrow> ('w, u256 list) juliaRun" where
  "evalExpression c vars (AsmFunctionalInstruction l i args) w =
     bindRun (evalArguments c vars args w) (\<lambda>vs. mach_instruction (cx_machine c) i vs)"
| "evalExpression c vars (AsmFunctionCall l f args) w =
     bindRun (evalArguments c vars args w) (\<lambda>vs. cx_call c (cx_frames c) (ai_name f) vs)"
| "evalExpression c vars (AsmIdentifierExpression i) w =
     (case vars (ai_name i) of None \<Rightarrow> Stuck | Some v \<Rightarrow> Done [v] w)"
| "evalExpression c vars (AsmLiteralExpression k) w = Done [mach_literal (cx_machine c) k] w"
| "evalArguments c vars [] w = Done [] w"
| "evalArguments c vars (a # args) w =
     bindRun (evalArguments c vars args w) (\<lambda>vs w.
       single (evalExpression c vars a w) (\<lambda>v w. Done (v # vs) w))"

definition assignAll :: "string list \<Rightarrow> u256 list \<Rightarrow> variables \<Rightarrow> 'w \<Rightarrow> ('w, variables) juliaRun" where
  "assignAll names vs vars w =
     (if length vs \<noteq> length names \<or> (\<exists>n\<in>set names. vars n = None) then Stuck else Done (bindAll names vs vars) w)"

definition declareAll :: "string list \<Rightarrow> u256 list \<Rightarrow> variables \<Rightarrow> 'w \<Rightarrow> ('w, variables) juliaRun" where
  "declareAll names vs vars w =
     (if length vs \<noteq> length names \<or> (\<exists>n\<in>set names. vars n \<noteq> None) then Stuck else Done (bindAll names vs vars) w)"

text \<open>The rounds of a for loop: \<open>n\<close> of them at most.\<close>

primrec loopRounds :: "nat \<Rightarrow> (variables \<Rightarrow> 'w \<Rightarrow> ('w, u256 list) juliaRun) \<Rightarrow> (variables \<Rightarrow> 'w \<Rightarrow> ('w, variables) juliaRun) \<Rightarrow>
    (variables \<Rightarrow> 'w \<Rightarrow> ('w, variables) juliaRun) \<Rightarrow> variables \<Rightarrow> 'w \<Rightarrow> ('w, variables) juliaRun" where
  "loopRounds 0 cond body post vars w = NoFuel"
| "loopRounds (Suc n) cond body post vars w =
     single (cond vars w) (\<lambda>v w.
       if v = 0 then Done vars w
       else bindRun (body vars w) (\<lambda>vars w. bindRun (post vars w) (\<lambda>vars w. loopRounds n cond body post vars w)))"

type_synonym 'w exec = "variables \<Rightarrow> 'w \<Rightarrow> ('w, variables) juliaRun"

fun execStatement :: "'w evalContext \<Rightarrow> AsmStatement \<Rightarrow> 'w exec"
  and execStatements :: "'w evalContext \<Rightarrow> AsmStatement list \<Rightarrow> 'w exec"
  and execBlock :: "'w evalContext \<Rightarrow> AsmBlock \<Rightarrow> 'w exec"
  and execCases :: "'w evalContext \<Rightarrow> AsmCase list \<Rightarrow> u256 \<Rightarrow> 'w exec \<Rightarrow> 'w exec" where
  "execStatement c (AsmExpressionStatement l e) = (\<lambda>vars w.
     bindRun (evalExpression c vars e w) (\<lambda>vs w. if vs = [] then Done vars w else Stuck))"
| "execStatement c (AsmInstruction l i) = (\<lambda>vars w. Stuck)"
| "execStatement c (AsmLabel l name) = (\<lambda>vars w. Stuck)"
| "execStatement c (AsmStackAssignment l i) = (\<lambda>vars w. Stuck)"
| "execStatement c (AsmAssignment l is e) = (\<lambda>vars w.
     bindRun (evalExpression c vars e w) (\<lambda>vs. assignAll (map ai_name is) vs vars))"
| "execStatement c (AsmVariableDeclaration l vs v) = (\<lambda>vars w.
     case v of
       None \<Rightarrow> declareAll (map tn_name vs) (replicate (length vs) 0) vars w
     | Some e \<Rightarrow> bindRun (evalExpression c vars e w) (\<lambda>us. declareAll (map tn_name vs) us vars))"
| "execStatement c (AsmFunctionDefinition l f ps rs b) = (\<lambda>vars w. Done vars w)"
| "execStatement c (AsmIf l e b) = (\<lambda>vars w.
     single (evalExpression c vars e w) (\<lambda>v w. if v = 0 then Done vars w else execBlock c b vars w))"
| "execStatement c (AsmSwitch l e cs) = (\<lambda>vars w.
     single (evalExpression c vars e w) (\<lambda>v w. execCases c cs v (\<lambda>vars w. Done vars w) vars w))"
| "execStatement c (AsmForLoop l (AsmBlock l' pre) e post b) = (\<lambda>vars w.
     let c = enterScope pre c
     in bindRun (execStatements c pre vars w) (\<lambda>vars' w.
          bindRun (loopRounds (cx_rounds c) (\<lambda>vars. evalExpression c vars e) (execBlock c b) (execBlock c post) vars' w)
            (\<lambda>vars' w. Done (leaveScope vars vars') w)))"
| "execStatement c (AsmBlockStatement b) = execBlock c b"
| "execStatements c [] = (\<lambda>vars w. Done vars w)"
| "execStatements c (st # sts) = (\<lambda>vars w.
     bindRun (execStatement c st vars w) (\<lambda>vars w. execStatements c sts vars w))"
| "execBlock c (AsmBlock l sts) = (\<lambda>vars w.
     bindRun (execStatements (enterScope sts c) sts vars w) (\<lambda>vars' w. Done (leaveScope vars vars') w))"
| "execCases c [] = (\<lambda>v other. other)"
| "execCases c (AsmCase l k b # cs) = (\<lambda>v other.
     case k of
       None \<Rightarrow> execCases c cs v (execBlock c b)
     | Some k \<Rightarrow> if mach_literal (cx_machine c) k = v then execBlock c b else execCases c cs v other)"

text \<open>A call, nested to the depth \<open>n\<close> at most.\<close>

primrec callFunction :: "'w machine \<Rightarrow> nat \<Rightarrow> frame list \<Rightarrow> string \<Rightarrow> u256 list \<Rightarrow> 'w \<Rightarrow> ('w, u256 list) juliaRun" where
  "callFunction M 0 frs f vs w = NoFuel"
| "callFunction M (Suc n) frs f vs w =
     (case lookupFunction frs f of
        None \<Rightarrow> Stuck
      | Some ((ps, rs, b), frs') \<Rightarrow>
          if length vs \<noteq> length ps then Stuck
          else resultValues rs
            (execBlock \<lparr>cx_machine = M, cx_call = callFunction M n, cx_rounds = n, cx_frames = frs'\<rparr> b (callEnv ps rs vs) w))"

text \<open>The run of a program on a world, with the depth of calls and the rounds of each loop bounded by \<open>n\<close>.\<close>

definition runProgram :: "'w machine \<Rightarrow> nat \<Rightarrow> AsmBlock \<Rightarrow> 'w \<Rightarrow> ('w, unit) juliaRun" where
  "runProgram M n b w =
     bindRun (execBlock \<lparr>cx_machine = M, cx_call = callFunction M n, cx_rounds = n, cx_frames = []\<rparr> b Map.empty w)
       (\<lambda>_ w. Done () w)"

section \<open>Scopes\<close>

lemma map_le_leaveScope: "v' \<subseteq>\<^sub>m v \<Longrightarrow> outer' \<subseteq>\<^sub>m outer \<Longrightarrow> leaveScope outer' v' \<subseteq>\<^sub>m leaveScope outer v"
  by (force simp: map_le_def leaveScope_def dom_def)

end
