(* ===== verification/JuliaFacts.thy ===== *)
theory JuliaFacts
  imports JuliaSemantics
begin

text \<open>
  What the walkers of the small passes compute on strict assembly: the number of references to every name,
  and movable expressions.
\<close>

section \<open>Strict assembly\<close>

text \<open>Trees without the nodes that only loose assembly has.\<close>

fun strictStatement :: "AsmStatement \<Rightarrow> bool" and strictBlock :: "AsmBlock \<Rightarrow> bool" and strictCase :: "AsmCase \<Rightarrow> bool" where
  "strictStatement (AsmInstruction l i) = False"
| "strictStatement (AsmLabel l n) = False"
| "strictStatement (AsmStackAssignment l i) = False"
| "strictStatement (AsmFunctionDefinition l f ps rs b) = strictBlock b"
| "strictStatement (AsmIf l c b) = strictBlock b"
| "strictStatement (AsmSwitch l e cs) = list_all strictCase cs"
| "strictStatement (AsmForLoop l pre c post b) = (strictBlock pre \<and> strictBlock post \<and> strictBlock b)"
| "strictStatement (AsmBlockStatement b) = strictBlock b"
| "strictStatement _ = True"
| "strictBlock (AsmBlock l sts) = list_all strictStatement sts"
| "strictCase (AsmCase l v b) = strictBlock b"

section \<open>Counting references\<close>

text \<open>How often a tree refers to a name.\<close>

definition hit :: "string \<Rightarrow> string \<Rightarrow> nat" where
  "hit name other = (if other = name then 1 else 0)"

fun refsExpression :: "string \<Rightarrow> AsmExpression \<Rightarrow> nat" where
  "refsExpression n (AsmFunctionalInstruction l i args) = sum_list (map (refsExpression n) args)"
| "refsExpression n (AsmFunctionCall l f args) = hit n (ai_name f) + sum_list (map (refsExpression n) args)"
| "refsExpression n (AsmIdentifierExpression i) = hit n (ai_name i)"
| "refsExpression n (AsmLiteralExpression k) = 0"

fun refsStatement :: "string \<Rightarrow> AsmStatement \<Rightarrow> nat"
  and refsBlock :: "string \<Rightarrow> AsmBlock \<Rightarrow> nat"
  and refsCase :: "string \<Rightarrow> AsmCase \<Rightarrow> nat" where
  "refsStatement n (AsmExpressionStatement l e) = refsExpression n e"
| "refsStatement n (AsmAssignment l is e) = sum_list (map (\<lambda>i. hit n (ai_name i)) is) + refsExpression n e"
| "refsStatement n (AsmVariableDeclaration l vs v) = (case v of None \<Rightarrow> 0 | Some e \<Rightarrow> refsExpression n e)"
| "refsStatement n (AsmFunctionDefinition l f ps rs b) = refsBlock n b"
| "refsStatement n (AsmIf l c b) = refsExpression n c + refsBlock n b"
| "refsStatement n (AsmSwitch l e cs) = refsExpression n e + sum_list (map (refsCase n) cs)"
| "refsStatement n (AsmForLoop l pre c post b) = refsBlock n pre + refsExpression n c + refsBlock n post + refsBlock n b"
| "refsStatement n (AsmBlockStatement b) = refsBlock n b"
| "refsStatement n _ = 0"
| "refsBlock n (AsmBlock l sts) = sum_list (map (refsStatement n) sts)"
| "refsCase n (AsmCase l v b) = refsBlock n b"

abbreviation refsArguments :: "string \<Rightarrow> AsmExpression list \<Rightarrow> nat" where
  "refsArguments n args \<equiv> sum_list (map (refsExpression n) args)"

abbreviation refsStatements :: "string \<Rightarrow> AsmStatement list \<Rightarrow> nat" where
  "refsStatements n sts \<equiv> sum_list (map (refsStatement n) sts)"

abbreviation refsCases :: "string \<Rightarrow> AsmCase list \<Rightarrow> nat" where
  "refsCases n cs \<equiv> sum_list (map (refsCase n) cs)"

text \<open>A map of references holds every key once, and no name with 0 references.\<close>

definition properRefs :: "references \<Rightarrow> bool" where
  "properRefs refs = (distinct (map fst refs) \<and> (\<forall>(n, k)\<in>set refs. 0 < k))"

definition addsRefs :: "(string \<Rightarrow> nat) \<Rightarrow> references \<Rightarrow> references res \<Rightarrow> bool" where
  "addsRefs cnt refs r =
     (\<exists>refs'. r = Inr refs' \<and> properRefs refs' \<and> (\<forall>n. referenceCount refs' n = referenceCount refs n + cnt n))"

lemma properRefs_Nil [simp]: "properRefs []"
  by (simp add: properRefs_def)

lemma referenceCount_Nil [simp]: "referenceCount [] n = 0"
  by (simp add: referenceCount_def)

lemma referenceCount_update:
  "referenceCount (AList.update name k refs) n = (if n = name then k else referenceCount refs n)"
  by (simp add: referenceCount_def update_conv')

lemma set_update: "set (AList.update name k refs) \<subseteq> insert (name, k) (set refs)"
  by (induction refs) auto

lemma addReference_adds: "properRefs refs \<Longrightarrow> addsRefs (\<lambda>n. hit n name) refs (Inr (addReference name refs))"
  using set_update [of name "Suc (referenceCount refs name)" refs]
  by (auto simp: addsRefs_def addReference_def properRefs_def referenceCount_update hit_def distinct_update)

lemma addsRefs_none: "properRefs refs \<Longrightarrow> addsRefs (\<lambda>n. 0) refs (Inr refs)"
  by (simp add: addsRefs_def)

lemma addsRefs_bind:
  assumes "addsRefs f refs r" "\<And>refs'. properRefs refs' \<Longrightarrow> addsRefs g refs' (k refs')" "\<And>n. h n = f n + g n"
  shows "addsRefs h refs (bindR r k)"
proof -
  obtain refs1 where 1: "r = Inr refs1" "properRefs refs1" "\<And>n. referenceCount refs1 n = referenceCount refs n + f n"
    using assms(1) by (auto simp: addsRefs_def)
  show ?thesis using assms(2) [OF 1(2)] 1 assms(3) by (auto simp: addsRefs_def)
qed

abbreviation refsWalker :: "references exprWalker" where
  "refsWalker \<equiv> w_expression referencesCounter"

lemma counter_simps [simp]:
  "ew_identifier refsWalker i refs = Inr (addReference (ai_name i) refs)"
  "ew_literal refsWalker c refs = Inr refs"
  "ew_visit refsWalker e base = base"
  "ew_operation refsWalker (AsmFunctionalInstruction l j args) base refs = base refs"
  "ew_operation refsWalker (AsmFunctionCall l f args) base refs = base (addReference (ai_name f) refs)"
  "w_visit referencesCounter st base' = base'"
  "w_statement referencesCounter st base' = base'"
  by (simp_all add: referencesCounter_def baseWalker_def baseExprWalker_def)

lemma walk_refs_expression:
  "properRefs refs \<Longrightarrow> addsRefs (\<lambda>n. refsExpression n e) refs (walkExpression refsWalker e refs)"
  "properRefs refs \<Longrightarrow> addsRefs (\<lambda>n. refsArguments n args) refs (walkArguments refsWalker args refs)"
proof (induction refsWalker e and refsWalker args arbitrary: refs and refs
    rule: walkExpression_walkArguments.induct)
  case (2 l f args)
  have "addsRefs (\<lambda>n. hit n (ai_name f) + refsArguments n args) refs
      (bindR (Inr (addReference (ai_name f) refs)) (walkArguments refsWalker args))"
    by (rule addsRefs_bind [OF addReference_adds [OF 2(2)] 2(1)]) simp_all
  then show ?case by simp
next
  case (6 a args)
  show ?case by simp (rule addsRefs_bind [OF 6(1) [OF 6(3)] 6(2)], simp_all)
qed (simp_all add: addReference_adds addsRefs_none)

lemma walk_refs_identifiers:
  "properRefs refs \<Longrightarrow> addsRefs (\<lambda>n. sum_list (map (\<lambda>i. hit n (ai_name i)) is)) refs (walkIdentifiers refsWalker is refs)"
proof (induction "is" arbitrary: refs)
  case (Cons i "is")
  have "addsRefs (\<lambda>n. hit n (ai_name i) + sum_list (map (\<lambda>i. hit n (ai_name i)) is)) refs
      (bindR (Inr (addReference (ai_name i) refs)) (walkIdentifiers refsWalker is))"
    by (rule addsRefs_bind [OF addReference_adds [OF Cons(2)] Cons(1)]) simp_all
  then show ?case by simp
qed (simp add: addsRefs_none)

lemma walk_refs:
  "strictStatement st \<Longrightarrow> properRefs refs \<Longrightarrow>
     addsRefs (\<lambda>n. refsStatement n st) refs (walkStatement referencesCounter st refs)"
  "list_all strictStatement sts \<Longrightarrow> properRefs refs \<Longrightarrow>
     addsRefs (\<lambda>n. refsStatements n sts) refs (walkStatements referencesCounter sts refs)"
  "strictBlock b \<Longrightarrow> properRefs refs \<Longrightarrow>
     addsRefs (\<lambda>n. refsBlock n b) refs (walkBlock referencesCounter b refs)"
  "list_all strictCase cs \<Longrightarrow> properRefs refs \<Longrightarrow>
     addsRefs (\<lambda>n. refsCases n cs) refs (walkCases referencesCounter cs refs)"
proof (induction referencesCounter st and referencesCounter sts and referencesCounter b and referencesCounter cs
    arbitrary: refs and refs and refs and refs
    rule: walkStatement_walkStatements_walkBlock_walkCases.induct)
  case (5 l "is" e)
  show ?case by simp (rule addsRefs_bind [OF walk_refs_identifiers [OF 5(2)] walk_refs_expression(1)], simp_all)
next
  case (8 l c b)
  show ?case
    by simp (rule addsRefs_bind [OF walk_refs_expression(1) [OF 8(3)] 8(1)], use 8(2) in simp_all)
next
  case (9 l e cs)
  show ?case
    by simp (rule addsRefs_bind [OF walk_refs_expression(1) [OF 9(3)] 9(1)], use 9(2) in simp_all)
next
  case (10 l pre c post b)
  have s: "strictBlock pre" "strictBlock post" "strictBlock b" using 10(4) by simp_all
  have 1: "addsRefs (\<lambda>n. refsBlock n b + refsBlock n post) refs
      (bindR (walkBlock referencesCounter b refs) (walkBlock referencesCounter post))" if "properRefs refs" for refs
    by (rule addsRefs_bind [OF 10(2) [OF s(3) that] 10(3) [OF s(2)]]) simp_all
  have 2: "addsRefs (\<lambda>n. refsExpression n c + (refsBlock n b + refsBlock n post)) refs
      (bindR (walkExpression refsWalker c refs) (\<lambda>refs.
        bindR (walkBlock referencesCounter b refs) (walkBlock referencesCounter post)))" if "properRefs refs" for refs
    by (rule addsRefs_bind [OF walk_refs_expression(1) [OF that] 1]) simp_all
  show ?case by simp (rule addsRefs_bind [OF 10(1) [OF s(1) 10(5)] 2], simp_all)
next
  case (13 st sts)
  show ?case by simp (rule addsRefs_bind [OF 13(1) 13(2)], use 13(3,4) in simp_all)
next
  case (16 l v b cs)
  have 1: "(case v of None \<Rightarrow> Inr refs | Some c \<Rightarrow> ew_literal refsWalker c refs) = Inr refs"
    by (cases v) simp_all
  have "addsRefs (\<lambda>n. refsBlock n b + refsCases n cs) refs
      (bindR (walkBlock referencesCounter b refs) (walkCases referencesCounter cs))"
    by (rule addsRefs_bind [OF 16(1) 16(2)]) (use 16(3,4) in simp_all)
  then show ?case by (simp add: 1)
qed (simp_all add: addsRefs_none walk_refs_expression split: option.splits)

lemma countReferences_counts: "strictBlock b \<Longrightarrow> addsRefs (\<lambda>n. refsBlock n b) [] (countReferences b)"
  by (simp add: countReferences_def walk_refs)

lemma countReferencesIn_counts: "addsRefs (\<lambda>n. refsExpression n e) [] (countReferencesIn e)"
  by (simp add: countReferencesIn_def walk_refs_expression)

section \<open>Movable expressions\<close>

fun movableExpression :: "AsmExpression \<Rightarrow> bool" where
  "movableExpression (AsmFunctionalInstruction l i args) = (movable i \<and> list_all movableExpression args)"
| "movableExpression (AsmFunctionCall l f args) = False"
| "movableExpression _ = True"

lemma movableWalker_simps [simp]:
  "ew_identifier movableWalker j s = Inr (s\<lparr>mc_variableReferences := insert (ai_name j) (mc_variableReferences s)\<rparr>)"
  "ew_literal movableWalker c s = Inr s"
  "ew_visit movableWalker e base = base"
  "ew_operation movableWalker (AsmFunctionalInstruction l i args) base s =
     (if \<not> movable i then Inr (s\<lparr>mc_movable := False\<rparr>) else base s)"
  "ew_operation movableWalker (AsmFunctionCall l f args) base s = Inr (s\<lparr>mc_movable := False\<rparr>)"
  by (simp_all add: movableWalker_def baseExprWalker_def)

definition marksMovable :: "bool \<Rightarrow> MovableChecker \<Rightarrow> MovableChecker res \<Rightarrow> bool" where
  "marksMovable b s r = (\<exists>s'. r = Inr s' \<and> mc_movable s' = (mc_movable s \<and> b))"

lemma walk_movable:
  "marksMovable (movableExpression e) s (walkExpression movableWalker e s)"
  "marksMovable (list_all movableExpression args) s (walkArguments movableWalker args s)"
proof (induction movableWalker e and movableWalker args arbitrary: s and s
    rule: walkExpression_walkArguments.induct)
  case (6 a args)
  obtain s1 where 1: "walkArguments movableWalker args s = Inr s1"
      "mc_movable s1 = (mc_movable s \<and> list_all movableExpression args)"
    using 6(1) [of s] by (auto simp: marksMovable_def)
  obtain s2 where 2: "walkExpression movableWalker a s1 = Inr s2"
      "mc_movable s2 = (mc_movable s1 \<and> movableExpression a)"
    using 6(2) [of s1] by (auto simp: marksMovable_def)
  show ?case using 1 2 by (auto simp: marksMovable_def)
qed (simp_all add: marksMovable_def)

lemma checkMovable_exact: "\<exists>mc. checkMovable e = Inr mc \<and> mc_movable mc = movableExpression e"
  using walk_movable(1) [of e "\<lparr>mc_variableReferences = {}, mc_movable = True\<rparr>"]
  by (auto simp: checkMovable_def marksMovable_def)

end
