(* ===== verification/JuliaPruning.thy ===== *)
theory JuliaPruning
  imports JuliaFacts
begin

text \<open>
  The pruner keeps what a program does. \<open>slim\<close> relates a tree to what is left of it when declarations of
  names that nothing left refers to are dropped; the run of the slimmer tree simulates that of the original one.
\<close>

section \<open>Comparing runs\<close>

text \<open>The second run does what the first one does, as far as the first one is one of a well-formed program.\<close>

definition runLe :: "('a \<Rightarrow> 'b \<Rightarrow> bool) \<Rightarrow> ('w, 'a) juliaRun \<Rightarrow> ('w, 'b) juliaRun \<Rightarrow> bool" where
  "runLe R r r' =
     (case r of
        Done x w \<Rightarrow> (\<exists>x'. r' = Done x' w \<and> R x x')
      | Stopped w \<Rightarrow> r' = Stopped w
      | Stuck \<Rightarrow> True
      | NoFuel \<Rightarrow> True)"

lemma runLe_simps [simp]:
  "runLe R Stuck r'" "runLe R NoFuel r'" "runLe R (Stopped w) r' = (r' = Stopped w)"
  "runLe R (Done x w) r' = (\<exists>x'. r' = Done x' w \<and> R x x')"
  by (simp_all add: runLe_def)

lemma runLe_bind:
  "runLe R r r' \<Longrightarrow> (\<And>x x' w. r = Done x w \<Longrightarrow> R x x' \<Longrightarrow> runLe Q (f x w) (f' x' w)) \<Longrightarrow>
     runLe Q (bindRun r f) (bindRun r' f')"
  by (cases r) auto

lemma runLe_single:
  "runLe (=) r r' \<Longrightarrow> (\<And>v w. runLe Q (f v w) (f' v w)) \<Longrightarrow> runLe Q (single r f) (single r' f')"
  unfolding single_def by (rule runLe_bind, assumption) (simp split: list.splits)

lemma runLe_eq_refl [simp]: "runLe (=) r r"
  by (cases r) simp_all

lemma runLe_eq_trans: "runLe (=) r s \<Longrightarrow> runLe (=) s t \<Longrightarrow> runLe (=) r t"
  by (cases r) auto

text \<open>What is documented of the instructions: a movable one leaves the world alone, POP takes a value.\<close>

definition pureRun :: "'w \<Rightarrow> ('w, 'a) juliaRun \<Rightarrow> bool" where
  "pureRun w r = (case r of Done x w' \<Rightarrow> w' = w | Stopped w' \<Rightarrow> False | Stuck \<Rightarrow> True | NoFuel \<Rightarrow> True)"

definition machineOk :: "'w machine \<Rightarrow> bool" where
  "machineOk M =
     ((\<forall>i vs w. movable i \<longrightarrow> pureRun w (mach_instruction M i vs w)) \<and>
      (\<forall>v w. mach_instruction M POP [v] w = Done [] w))"

lemma pureRun_bind:
  "pureRun w r \<Longrightarrow> (\<And>x. r = Done x w \<Longrightarrow> pureRun w (f x w)) \<Longrightarrow> pureRun w (bindRun r f)"
  by (cases r) (auto simp: pureRun_def)

lemma pureRun_single: "pureRun w r \<Longrightarrow> (\<And>x. pureRun w (f x w)) \<Longrightarrow> pureRun w (single r f)"
  unfolding single_def by (rule pureRun_bind) (auto simp: pureRun_def split: list.splits)

lemma pureRun_done [simp]: "pureRun w (Done x w)" "pureRun w Stuck"
  by (simp_all add: pureRun_def)

lemma movable_pure:
  assumes "machineOk (cx_machine c)"
  shows "movableExpression e \<Longrightarrow> pureRun w (evalExpression c v e w)"
    and "list_all movableExpression args \<Longrightarrow> pureRun w (evalArguments c v args w)"
  using assms
proof (induction c v e w and c v args w rule: evalExpression_evalArguments.induct)
  case (1 c vars l i args w)
  show ?case using 1 by (auto simp: machineOk_def intro!: pureRun_bind)
next
  case (6 c vars a args w)
  have s: "movableExpression a" "list_all movableExpression args" using 6(3) by simp_all
  show ?case
    by simp (rule pureRun_bind [OF 6(1) [OF s(2) 6(4)]], rule pureRun_single [OF 6(2) [OF _ s(1) 6(4)]], simp_all)
qed (simp_all split: option.splits)

section \<open>Slimmer trees\<close>

text \<open>A statement that may go when nothing refers to the names in \<open>U\<close>.\<close>

fun droppable :: "string set \<Rightarrow> AsmStatement \<Rightarrow> bool" where
  "droppable U (AsmFunctionDefinition l f ps rs b) = (f \<in> U)"
| "droppable U (AsmVariableDeclaration l vs v) =
     (tn_name ` set vs \<subseteq> U \<and> (case v of None \<Rightarrow> True | Some e \<Rightarrow> movableExpression e))"
| "droppable U st = isEmptyBlock st"

inductive slimStatement :: "string set \<Rightarrow> AsmStatement \<Rightarrow> AsmStatement \<Rightarrow> bool"
  and slimStatements :: "string set \<Rightarrow> AsmStatement list \<Rightarrow> AsmStatement list \<Rightarrow> bool"
  and slimBlock :: "string set \<Rightarrow> AsmBlock \<Rightarrow> AsmBlock \<Rightarrow> bool"
  and slimCases :: "string set \<Rightarrow> AsmCase list \<Rightarrow> AsmCase list \<Rightarrow> bool" for U :: "string set" where
  slim_expression: "slimStatement U (AsmExpressionStatement l e) (AsmExpressionStatement l e)"
| slim_assignment: "slimStatement U (AsmAssignment l is e) (AsmAssignment l is e)"
| slim_variable: "slimStatement U (AsmVariableDeclaration l vs v) (AsmVariableDeclaration l vs v)"
| slim_pop: "tn_name x \<in> U \<Longrightarrow> slimStatement U (AsmVariableDeclaration l [x] (Some e))
     (AsmExpressionStatement l (AsmFunctionalInstruction l POP [e]))"
| slim_function: "slimBlock U b b' \<Longrightarrow>
     slimStatement U (AsmFunctionDefinition l f ps rs b) (AsmFunctionDefinition l f ps rs b')"
| slim_if: "slimBlock U b b' \<Longrightarrow> slimStatement U (AsmIf l e b) (AsmIf l e b')"
| slim_switch: "slimCases U cs cs' \<Longrightarrow> slimStatement U (AsmSwitch l e cs) (AsmSwitch l e cs')"
| slim_for: "slimStatements U pre pre' \<Longrightarrow> slimBlock U post post' \<Longrightarrow> slimBlock U b b' \<Longrightarrow>
     slimStatement U (AsmForLoop l (AsmBlock l' pre) e post b) (AsmForLoop l (AsmBlock l' pre') e post' b')"
| slim_inner: "slimBlock U b b' \<Longrightarrow> slimStatement U (AsmBlockStatement b) (AsmBlockStatement b')"
| slim_nil: "slimStatements U [] []"
| slim_keep: "slimStatement U st st' \<Longrightarrow> slimStatements U sts sts' \<Longrightarrow> slimStatements U (st # sts) (st' # sts')"
| slim_drop: "droppable U st \<Longrightarrow> slimStatements U sts sts' \<Longrightarrow> slimStatements U (st # sts) sts'"
| slim_block: "slimStatements U sts sts' \<Longrightarrow> slimBlock U (AsmBlock l sts) (AsmBlock l sts')"
| slim_no_case: "slimCases U [] []"
| slim_case: "slimBlock U b b' \<Longrightarrow> slimCases U cs cs' \<Longrightarrow> slimCases U (AsmCase l k b # cs) (AsmCase l k b' # cs')"

inductive_cases slimStatementE: "slimStatement U st st'"
inductive_simps slimStatements_Cons: "slimStatements U (st # sts) sts'"
inductive_simps slimStatements_Nil: "slimStatements U [] sts'"
inductive_cases slimBlockE: "slimBlock U b b'"

text \<open>What counts no reference to a name in \<open>U\<close>.\<close>

definition avoids :: "string set \<Rightarrow> (string \<Rightarrow> nat) \<Rightarrow> bool" where
  "avoids U cnt = (\<forall>n\<in>U. cnt n = 0)"

section \<open>Related states\<close>

definition functionLe :: "string set \<Rightarrow> julia_function \<Rightarrow> julia_function \<Rightarrow> bool" where
  "functionLe U d d' =
     (case (d, d') of ((ps, rs, b), (ps', rs', b')) \<Rightarrow>
        ps' = ps \<and> rs' = rs \<and> slimBlock U b b' \<and> avoids U (\<lambda>n. refsBlock n b'))"

definition frameLe :: "string set \<Rightarrow> frame \<Rightarrow> frame \<Rightarrow> bool" where
  "frameLe U fr fr' = (\<forall>f. f \<notin> U \<longrightarrow> rel_option (functionLe U) (map_of fr f) (map_of fr' f))"

definition callLe :: "string set \<Rightarrow> (frame list \<Rightarrow> string \<Rightarrow> u256 list \<Rightarrow> 'w \<Rightarrow> ('w, u256 list) juliaRun) \<Rightarrow>
    (frame list \<Rightarrow> string \<Rightarrow> u256 list \<Rightarrow> 'w \<Rightarrow> ('w, u256 list) juliaRun) \<Rightarrow> bool" where
  "callLe U call call' =
     (\<forall>frs frs' f vs w. f \<notin> U \<longrightarrow> list_all2 (frameLe U) frs frs' \<longrightarrow> runLe (=) (call frs f vs w) (call' frs' f vs w))"

definition contextLe :: "string set \<Rightarrow> 'w evalContext \<Rightarrow> 'w evalContext \<Rightarrow> bool" where
  "contextLe U c c' =
     (machineOk (cx_machine c) \<and> cx_machine c' = cx_machine c \<and> cx_rounds c' = cx_rounds c \<and>
      callLe U (cx_call c) (cx_call c') \<and> list_all2 (frameLe U) (cx_frames c) (cx_frames c'))"

text \<open>
  The variables of the slimmer program: the same outside \<open>U\<close>, and of those in \<open>U\<close> some, among them the ones in \<open>D\<close>.
\<close>

definition varsLe :: "string set \<Rightarrow> string set \<Rightarrow> variables \<Rightarrow> variables \<Rightarrow> bool" where
  "varsLe U D v v' = (v' \<subseteq>\<^sub>m v \<and> (\<forall>n. n \<notin> U \<longrightarrow> v' n = v n) \<and> D \<subseteq> dom v')"

definition execLe :: "string set \<Rightarrow> string set \<Rightarrow> 'w exec \<Rightarrow> 'w exec \<Rightarrow> bool" where
  "execLe U D x x' = (\<forall>v v' w. varsLe U D v v' \<longrightarrow> runLe (varsLe U D) (x v w) (x' v' w))"

lemma execLeD: "execLe U D x x' \<Longrightarrow> varsLe U D v v' \<Longrightarrow> runLe (varsLe U D) (x v w) (x' v' w)"
  by (simp add: execLe_def)

lemma map_le_value: "v' \<subseteq>\<^sub>m v \<Longrightarrow> v' n = Some x \<Longrightarrow> v n = Some x"
  by (force simp: map_le_def dom_def)

lemma map_le_none: "v' \<subseteq>\<^sub>m v \<Longrightarrow> v n = None \<Longrightarrow> v' n = None"
  by (force simp: map_le_def dom_def)

lemma varsLe_bindAll: "varsLe U D v v' \<Longrightarrow> varsLe U D (bindAll names vs v) (bindAll names vs v')"
  by (force simp: varsLe_def bindAll_def map_le_def map_add_def dom_def split: option.splits)

lemma varsLe_declared:
  "varsLe U D v v' \<Longrightarrow> set names \<subseteq> U \<Longrightarrow> \<forall>n\<in>set names. v n = None \<Longrightarrow> varsLe U D (bindAll names vs v) v'"
  unfolding varsLe_def bindAll_def map_le_def
  by (force simp: map_add_def dom_def dest: map_of_SomeD set_zip_leftD split: option.splits)

lemma varsLe_leaveScope: "varsLe U D v v' \<Longrightarrow> varsLe U D u u' \<Longrightarrow> varsLe U D (leaveScope v u) (leaveScope v' u')"
  using map_le_leaveScope [of u' u v' v] by (auto simp: varsLe_def leaveScope_def)

lemma assign_le:
  assumes "varsLe U D v v'" "set names \<inter> U = {}"
  shows "runLe (varsLe U D) (assignAll names vs v w) (assignAll names vs v' w)"
proof -
  have "v' n = v n" if "n \<in> set names" for n using assms that by (auto simp: varsLe_def)
  then show ?thesis using varsLe_bindAll [OF assms(1)] by (auto simp: assignAll_def)
qed

lemma declare_le:
  assumes "varsLe U D v v'"
  shows "runLe (varsLe U D) (declareAll names vs v w) (declareAll names vs v' w)"
  using varsLe_bindAll [OF assms] assms map_le_none [of v' v] by (auto simp: declareAll_def varsLe_def)

lemma evaluate_le:
  assumes "contextLe U c c'" "varsLe U D v v'"
  shows "avoids U (\<lambda>n. refsExpression n e) \<Longrightarrow> runLe (=) (evalExpression c v e w) (evalExpression c' v' e w)"
    and "avoids U (\<lambda>n. refsArguments n args) \<Longrightarrow> runLe (=) (evalArguments c v args w) (evalArguments c' v' args w)"
  using assms
proof (induction c v e w and c v args w rule: evalExpression_evalArguments.induct)
  case (1 c vars l i args w)
  show ?case using 1(2,3,4) by (simp add: contextLe_def) (rule runLe_bind [OF 1(1)], simp_all add: contextLe_def)
next
  case (2 c vars l f args w)
  have f: "ai_name f \<notin> U" "avoids U (\<lambda>n. refsArguments n args)"
    using 2(2) by (auto simp: avoids_def hit_def)
  show ?case using 2(3) f(1)
    by simp (rule runLe_bind [OF 2(1) [OF f(2) 2(3,4)]], simp add: contextLe_def callLe_def)
next
  case (3 c vars i w)
  have "ai_name i \<notin> U" using 3(1) by (auto simp: avoids_def hit_def)
  then have "vars (ai_name i) = v' (ai_name i)" using 3(3) by (simp add: varsLe_def)
  then show ?case by simp
next
  case (6 c vars a args w)
  have s: "avoids U (\<lambda>n. refsArguments n args)" "avoids U (\<lambda>n. refsExpression n a)"
    using 6(3) by (auto simp: avoids_def)
  show ?case
  proof (simp, rule runLe_bind [OF 6(1) [OF s(1) 6(4,5)]])
    fix x x' :: "u256 list" and w1 assume "evalArguments c vars args w = Done x w1" "x = x'"
    then show "runLe (=) (single (evalExpression c vars a w1) (\<lambda>v. Done (v # x)))
        (single (evalExpression c' v' a w1) (\<lambda>v. Done (v # x')))"
      by (intro runLe_single 6(2) s 6(4,5)) simp_all
  qed
qed (auto simp: contextLe_def)


section \<open>The simulation\<close>

lemma avoids_add [simp]: "avoids U (\<lambda>n. f n + g n) = (avoids U f \<and> avoids U g)"
  by (auto simp: avoids_def)

lemma avoids_hits: "avoids U (\<lambda>n. sum_list (map (\<lambda>i. hit n (ai_name i)) is)) = (ai_name ` set is \<inter> U = {})"
  by (auto simp: avoids_def hit_def split: if_splits)

lemma frameLe_both: "functionLe U d d' \<Longrightarrow> frameLe U fr fr' \<Longrightarrow> frameLe U ((f, d) # fr) ((f, d') # fr')"
  by (simp add: frameLe_def)

lemma frameLe_left: "f \<in> U \<Longrightarrow> frameLe U fr fr' \<Longrightarrow> frameLe U ((f, d) # fr) fr'"
  by (auto simp: frameLe_def)

lemma functionsHere_other: "\<not> isFunctionDefinition st \<Longrightarrow> functionsHere (st # sts) = functionsHere sts"
  by (cases st) simp_all

lemma slim_definition:
  "slimStatement U st st' \<Longrightarrow> \<not> isFunctionDefinition st \<Longrightarrow> \<not> isFunctionDefinition st'"
  by (erule slimStatementE) auto

lemma slim_defined:
  assumes "slimStatement U (AsmFunctionDefinition l f ps rs b) st'"
  obtains b' where "st' = AsmFunctionDefinition l f ps rs b'" "slimBlock U b b'"
  using assms by (auto elim: slimStatementE)

lemma isFunctionDefinitionE:
  assumes "isFunctionDefinition st"
  obtains l f ps rs b where "st = AsmFunctionDefinition l f ps rs b"
  using assms by (cases st) auto

lemma functionsHere_slim:
  "slimStatements U sts sts' \<Longrightarrow> avoids U (\<lambda>n. refsStatements n sts') \<Longrightarrow>
     frameLe U (functionsHere sts) (functionsHere sts')"
proof (induction sts arbitrary: sts')
  case Nil
  then show ?case by (auto simp: slimStatements_Nil frameLe_def)
next
  case (Cons st sts)
  from Cons(2) consider
      (keep) st2 sts2 where "sts' = st2 # sts2" "slimStatement U st st2" "slimStatements U sts sts2"
    | (drop) "droppable U st" "slimStatements U sts sts'"
    by (auto simp: slimStatements_Cons)
  then show ?case
  proof cases
    case keep
    then have rest: "frameLe U (functionsHere sts) (functionsHere sts2)"
      using Cons by simp
    show ?thesis
    proof (cases "isFunctionDefinition st")
      case True
      then obtain l f ps rs b where st: "st = AsmFunctionDefinition l f ps rs b" by (rule isFunctionDefinitionE)
      from keep(2) obtain b' where "st2 = AsmFunctionDefinition l f ps rs b'" "slimBlock U b b'"
        unfolding st by (rule slim_defined)
      then show ?thesis using rest keep(1) Cons(3) st
        by (auto intro!: frameLe_both simp: functionLe_def)
    next
      case False
      then show ?thesis using rest keep slim_definition [OF keep(2)] by (simp add: functionsHere_other)
    qed
  next
    case drop
    then have rest: "frameLe U (functionsHere sts) (functionsHere sts')" using Cons by simp
    show ?thesis
    proof (cases "isFunctionDefinition st")
      case True
      then obtain l f ps rs b where "st = AsmFunctionDefinition l f ps rs b" by (rule isFunctionDefinitionE)
      then show ?thesis using rest drop(1) by (simp add: frameLe_left)
    qed (use rest in \<open>simp add: functionsHere_other\<close>)
  qed
qed

lemma enterScope_le:
  "contextLe U c c' \<Longrightarrow> slimStatements U sts sts' \<Longrightarrow> avoids U (\<lambda>n. refsStatements n sts') \<Longrightarrow>
     contextLe U (enterScope sts c) (enterScope sts' c')"
  by (simp add: contextLe_def enterScope_def functionsHere_slim)

lemma execLe_done: "execLe U D (\<lambda>v w. Done v w) (\<lambda>v w. Done v w)"
  by (simp add: execLe_def)

lemma scope_le:
  assumes "varsLe U D v v'" "runLe (varsLe U D) r r'"
  shows "runLe (varsLe U D) (bindRun r (\<lambda>u w. Done (leaveScope v u) w)) (bindRun r' (\<lambda>u w. Done (leaveScope v' u) w))"
  by (rule runLe_bind [OF assms(2)]) (simp add: varsLe_leaveScope assms(1))

lemma rounds_le:
  assumes cond: "\<And>v v' w. varsLe U D v v' \<Longrightarrow> runLe (=) (cond v w) (cond' v' w)"
    and body: "execLe U D body body'" and post: "execLe U D post post'"
  shows "execLe U D (loopRounds n cond body post) (loopRounds n cond' body' post')"
proof (induction n)
  case (Suc n)
  show ?case unfolding execLe_def
  proof (intro allI impI)
    fix v v' w assume v: "varsLe U D v v'"
    have "runLe (varsLe U D)
        (if a = 0 then Done v w
         else bindRun (body v w) (\<lambda>v w. bindRun (post v w) (\<lambda>v w. loopRounds n cond body post v w)))
        (if a = 0 then Done v' w
         else bindRun (body' v' w) (\<lambda>v w. bindRun (post' v w) (\<lambda>v w. loopRounds n cond' body' post' v w)))" for a w
    proof (cases "a = 0")
      case False
      have "runLe (varsLe U D) (bindRun (post u w) (\<lambda>v w. loopRounds n cond body post v w))
          (bindRun (post' u' w) (\<lambda>v w. loopRounds n cond' body' post' v w))" if "varsLe U D u u'" for u u' w
        by (rule runLe_bind [OF execLeD [OF post that]]) (rule execLeD [OF Suc])
      then show ?thesis using False by (simp add: runLe_bind [OF execLeD [OF body v]])
    qed (simp add: v)
    then show "runLe (varsLe U D) (loopRounds (Suc n) cond body post v w) (loopRounds (Suc n) cond' body' post' v' w)"
      by (simp only: loopRounds.simps) (rule runLe_single [OF cond [OF v]])
  qed
qed (simp add: execLe_def)

text \<open>A statement that is dropped changes nothing but variables in \<open>U\<close>.\<close>

lemma dropped_statement:
  assumes "machineOk (cx_machine c)" "droppable U st" "varsLe U D v v'"
  shows "case execStatement c st v w of
      Done u w' \<Rightarrow> w' = w \<and> varsLe U D u v' | Stopped w' \<Rightarrow> False | Stuck \<Rightarrow> True | NoFuel \<Rightarrow> True"
proof (cases st)
  case (AsmVariableDeclaration l vs val)
  have declared: "case declareAll (map tn_name vs) us v w of
      Done u w' \<Rightarrow> w' = w \<and> varsLe U D u v' | Stopped w' \<Rightarrow> False | Stuck \<Rightarrow> True | NoFuel \<Rightarrow> True" for us
    using varsLe_declared [OF assms(3), of "map tn_name vs"] assms(2) AsmVariableDeclaration
    by (auto simp: declareAll_def)
  show ?thesis
  proof (cases val)
    case (Some e)
    have "pureRun w (evalExpression c v e w)"
      using movable_pure(1) [OF assms(1)] assms(2) AsmVariableDeclaration Some by simp
    then show ?thesis using declared AsmVariableDeclaration Some
      by (cases "evalExpression c v e w") (auto simp: pureRun_def)
  qed (use declared AsmVariableDeclaration in simp)
next
  case (AsmBlockStatement b)
  then show ?thesis using assms varsLe_leaveScope [OF assms(3,3)]
    by (cases b) (auto simp: leaveScope_def varsLe_def map_le_def)
qed (use assms in simp_all)

lemma dropped_le:
  assumes "machineOk (cx_machine c)" "droppable U st" "execLe U D x x'"
  shows "execLe U D (\<lambda>v w. bindRun (execStatement c st v w) x) x'"
  unfolding execLe_def
proof (intro allI impI)
  fix v v' w assume "varsLe U D v v'"
  with dropped_statement [OF assms(1,2) this, of w]
  show "runLe (varsLe U D) (bindRun (execStatement c st v w) x) (x' v' w)"
    by (cases "execStatement c st v w") (auto intro: execLeD [OF assms(3)])
qed


lemma execLe_bind:
  assumes "execLe U D x x'" "execLe U D y y'"
  shows "execLe U D (\<lambda>v w. bindRun (x v w) y) (\<lambda>v w. bindRun (x' v w) y')"
  unfolding execLe_def by (blast intro: runLe_bind execLeD [OF assms(1)] execLeD [OF assms(2)])

lemma popped_le:
  assumes c: "contextLe U c c'" and v: "varsLe U D v v'" and e: "avoids U (\<lambda>n. refsExpression n e)" and x: "tn_name x \<in> U"
  shows "runLe (varsLe U D) (execStatement c (AsmVariableDeclaration l [x] (Some e)) v w)
    (execStatement c' (AsmExpressionStatement l (AsmFunctionalInstruction l POP [e])) v' w)"
proof -
  have pop: "mach_instruction (cx_machine c') POP [a] w = Done [] w" for a w
    using c by (simp add: contextLe_def machineOk_def)
  have le: "runLe (=) (evalExpression c v e w) (evalExpression c' v' e w)" by (rule evaluate_le(1) [OF c v e])
  show ?thesis
  proof (cases "evalExpression c v e w")
    case (Done vs w1)
    then have 1: "evalExpression c' v' e w = Done vs w1" using le by simp
    show ?thesis
    proof (cases "length vs = 1 \<and> v (tn_name x) = None")
      case True
      then obtain a where a: "vs = [a]" by (auto simp: length_Suc_conv)
      show ?thesis using Done 1 True a pop varsLe_declared [OF v, of "[tn_name x]" "[a]"] x
        by (simp add: single_def declareAll_def)
    qed (use Done in \<open>auto simp: declareAll_def\<close>)
  qed (use le in \<open>simp_all add: single_def\<close>)
qed

theorem slim_simulation:
  "slimStatement U st st' \<Longrightarrow> contextLe U c c' \<Longrightarrow> avoids U (\<lambda>n. refsStatement n st') \<Longrightarrow>
     execLe U D (execStatement c st) (execStatement c' st')"
  "slimStatements U sts sts' \<Longrightarrow> contextLe U c c' \<Longrightarrow> avoids U (\<lambda>n. refsStatements n sts') \<Longrightarrow>
     execLe U D (execStatements c sts) (execStatements c' sts')"
  "slimBlock U b b' \<Longrightarrow> contextLe U c c' \<Longrightarrow> avoids U (\<lambda>n. refsBlock n b') \<Longrightarrow>
     execLe U D (execBlock c b) (execBlock c' b')"
  "slimCases U cs cs' \<Longrightarrow> contextLe U c c' \<Longrightarrow> avoids U (\<lambda>n. refsCases n cs') \<Longrightarrow> execLe U D other other' \<Longrightarrow>
     execLe U D (execCases c cs a other) (execCases c' cs' a other')"
proof (induction arbitrary: c c' and c c' and c c' and c c' a other other'
    rule: slimStatement_slimStatements_slimBlock_slimCases.inducts)
  case (slim_expression l e)
  show ?case unfolding execLe_def execStatement.simps
    by (intro allI impI runLe_bind [OF evaluate_le(1) [OF slim_expression(1)]]) (use slim_expression in simp_all)
next
  case (slim_assignment l "is" e)
  then have "avoids U (\<lambda>n. refsExpression n e)" "ai_name ` set is \<inter> U = {}" by (simp_all add: avoids_hits)
  then show ?case unfolding execLe_def execStatement.simps
    by (intro allI impI runLe_bind [OF evaluate_le(1) [OF slim_assignment(1)]]) (simp_all add: assign_le)
next
  case (slim_variable l vs val)
  show ?case
  proof (cases val)
    case (Some e)
    then show ?thesis unfolding execLe_def execStatement.simps
      by (simp, intro allI impI runLe_bind [OF evaluate_le(1) [OF slim_variable(1)]])
        (use slim_variable in \<open>simp_all add: declare_le\<close>)
  qed (simp add: execLe_def declare_le)
next
  case (slim_pop x l e)
  then show ?case unfolding execLe_def by (intro allI impI popped_le) simp_all
next
  case (slim_function b b' l f ps rs)
  show ?case by (simp add: execLe_done)
next
  case (slim_if b b' l e)
  have b: "execLe U D (execBlock c b) (execBlock c' b')" using slim_if by simp
  show ?case unfolding execLe_def execStatement.simps
    by (intro allI impI runLe_single [OF evaluate_le(1) [OF slim_if(3)]])
      (use slim_if(4) in \<open>simp_all add: execLeD [OF b]\<close>)
next
  case (slim_switch cs cs' l e)
  have b: "execLe U D (execCases c cs a (\<lambda>v w. Done v w)) (execCases c' cs' a (\<lambda>v w. Done v w))" for a
    by (rule slim_switch(2) [OF slim_switch(3) _ execLe_done]) (use slim_switch(4) in simp)
  show ?case unfolding execLe_def execStatement.simps
    by (intro allI impI runLe_single [OF evaluate_le(1) [OF slim_switch(3)]])
      (use slim_switch(4) in \<open>simp_all add: execLeD [OF b]\<close>)
next
  case (slim_for pre pre' post post' b b' l l' e)
  have s: "avoids U (\<lambda>n. refsStatements n pre')" "avoids U (\<lambda>n. refsExpression n e)"
      "avoids U (\<lambda>n. refsBlock n post')" "avoids U (\<lambda>n. refsBlock n b')"
    using slim_for(8) by simp_all
  have c: "contextLe U (enterScope pre c) (enterScope pre' c')"
    by (rule enterScope_le [OF slim_for(7,1) s(1)])
  have rounds: "cx_rounds (enterScope pre' c') = cx_rounds (enterScope pre c)" using c by (simp add: contextLe_def)
  note loop = rounds_le [OF evaluate_le(1) [OF c _ s(2)] slim_for(6) [OF c s(4)] slim_for(4) [OF c s(3)]]
  show ?case unfolding execLe_def execStatement.simps Let_def rounds
    by (intro allI impI) (rule runLe_bind [OF execLeD [OF slim_for(2) [OF c s(1)]]], assumption,
      rule scope_le, assumption, rule execLeD [OF loop], assumption)
next
  case (slim_keep st st' sts sts')
  then show ?case by (simp add: execLe_bind)
next
  case (slim_drop st sts sts')
  have "machineOk (cx_machine c)" using slim_drop(4) by (simp add: contextLe_def)
  from dropped_le [OF this slim_drop(1) slim_drop(3) [OF slim_drop(4,5)]] show ?case by simp
next
  case (slim_block sts sts' l)
  have "avoids U (\<lambda>n. refsStatements n sts')" using slim_block(4) by simp
  note le = slim_block(2) [OF enterScope_le [OF slim_block(3,1) this] this]
  show ?case unfolding execLe_def execBlock.simps
    by (intro allI impI scope_le execLeD [OF le])
next
  case (slim_case b b' cs cs' l k)
  have m: "cx_machine c' = cx_machine c" using slim_case(5) by (simp add: contextLe_def)
  have b: "execLe U D (execBlock c b) (execBlock c' b')" using slim_case by simp
  show ?case
  proof (cases k)
    case None
    then show ?thesis using slim_case b by simp
  next
    case (Some q)
    then show ?thesis using slim_case b m by simp
  qed
qed (simp_all add: execLe_done)

section \<open>Calls and programs\<close>

lemma lookup_le:
  assumes "list_all2 (frameLe U) frs frs'" "f \<notin> U"
  shows "rel_option (\<lambda>(d, frs) (d', frs'). functionLe U d d' \<and> list_all2 (frameLe U) frs frs')
    (lookupFunction frs f) (lookupFunction frs' f)"
  using assms
proof (induction rule: list_all2_induct)
  case (Cons fr frs fr' frs')
  then have "rel_option (functionLe U) (map_of fr f) (map_of fr' f)" by (simp add: frameLe_def)
  then show ?case using Cons by (cases rule: option.rel_cases) simp_all
qed simp

lemma varsLe_refl: "D \<subseteq> dom v \<Longrightarrow> varsLe U D v v"
  by (simp add: varsLe_def)

lemma dom_bindAll: "length vs = length names \<Longrightarrow> dom (bindAll names vs v) = set names \<union> dom v"
  by (auto simp: bindAll_def dom_map_of_zip)

lemma readAll_le:
  assumes "varsLe U D v v'" "set names \<subseteq> D"
  shows "readAll names v' = readAll names v"
proof -
  have "v' n = v n" if "n \<in> set names" for n
    using assms that by (force simp: varsLe_def map_le_def)
  then show ?thesis by (auto simp: readAll_def)
qed

lemma callFunction_le: "machineOk M \<Longrightarrow> callLe U (callFunction M n) (callFunction M n)"
proof (induction n)
  case (Suc n)
  show ?case unfolding callLe_def
  proof (intro allI impI)
    fix frs frs' f vs w assume f: "f \<notin> U" and frs: "list_all2 (frameLe U) frs frs'"
    let ?c = "\<lambda>frs. \<lparr>cx_machine = M, cx_call = callFunction M n, cx_rounds = n, cx_frames = frs\<rparr>"
    show "runLe (=) (callFunction M (Suc n) frs f vs w) (callFunction M (Suc n) frs' f vs w)"
    proof (cases "lookupFunction frs f")
      case (Some r)
      obtain ps rs b out where r: "r = ((ps, rs, b), out)" by (cases r) auto
      obtain b' out' where 1: "lookupFunction frs' f = Some ((ps, rs, b'), out')" "slimBlock U b b'"
          "avoids U (\<lambda>n. refsBlock n b')" "list_all2 (frameLe U) out out'"
        using lookup_le [OF frs f] Some r by (auto simp: functionLe_def option_rel_Some1)
      have c: "contextLe U (?c out) (?c out')" using Suc 1(4) by (simp add: contextLe_def)
      show ?thesis
      proof (cases "length vs = length ps")
        case True
        let ?D = "tn_name ` set rs"
        have D: "?D \<subseteq> dom (callEnv ps rs vs)" using True by (auto simp: callEnv_def dom_bindAll)
        have le: "runLe (varsLe U ?D) (execBlock (?c out) b (callEnv ps rs vs) w)
            (execBlock (?c out') b' (callEnv ps rs vs) w)"
          by (rule execLeD [OF slim_simulation(3) [OF 1(2) c 1(3)] varsLe_refl [OF D]])
        have "runLe (=) (resultValues rs (execBlock (?c out) b (callEnv ps rs vs) w))
            (resultValues rs (execBlock (?c out') b' (callEnv ps rs vs) w))"
          unfolding resultValues_def by (rule runLe_bind [OF le]) (auto simp: readAll_le split: option.splits)
        then show ?thesis using Some r 1(1) True by simp
      qed (use Some r in simp)
    qed simp
  qed
qed (simp add: callLe_def)

theorem slim_program:
  assumes "machineOk M" "slimBlock U b b'" "avoids U (\<lambda>n. refsBlock n b')"
  shows "runLe (=) (runProgram M n b w) (runProgram M n b' w)"
proof -
  let ?c = "\<lparr>cx_machine = M, cx_call = callFunction M n, cx_rounds = n, cx_frames = []\<rparr>"
  have "contextLe U ?c ?c" using callFunction_le [OF assms(1)] assms(1) by (simp add: contextLe_def)
  then have "execLe U {} (execBlock ?c b) (execBlock ?c b')" using slim_simulation(3) assms by blast
  then have "runLe (varsLe U {}) (execBlock ?c b Map.empty w) (execBlock ?c b' Map.empty w)"
    by (rule execLeD) (simp add: varsLe_refl)
  then show ?thesis unfolding runProgram_def by (rule runLe_bind) simp
qed

end
