(* ===== verification/JuliaPruner.thy ===== *)
theory JuliaPruner
  imports JuliaPruning
begin

text \<open>
  The pruner on strict assembly: the counts it keeps are those of the tree it has, so no assertion of it
  fails, and the tree it leaves is a slimmer one that refers to nothing it has dropped.
\<close>

abbreviation prunerCount :: "UnusedPruner \<Rightarrow> string \<Rightarrow> nat" where
  "prunerCount up \<equiv> referenceCount (up_references up)"

text \<open>Counts and tree lose the same references.\<close>

definition shrinks :: "UnusedPruner \<Rightarrow> UnusedPruner \<Rightarrow> (string \<Rightarrow> nat) \<Rightarrow> (string \<Rightarrow> nat) \<Rightarrow> bool" where
  "shrinks up up' cnt cnt' =
     (\<forall>n. prunerCount up' n + cnt n = prunerCount up n + cnt' n \<and> prunerCount up' n \<le> prunerCount up n)"

definition prunesTo :: "('a \<Rightarrow> bool) \<Rightarrow> (string \<Rightarrow> 'a \<Rightarrow> nat) \<Rightarrow> (string set \<Rightarrow> 'a \<Rightarrow> 'a \<Rightarrow> bool) \<Rightarrow>
    'a \<Rightarrow> UnusedPruner \<Rightarrow> ('a \<times> UnusedPruner) res \<Rightarrow> bool" where
  "prunesTo strict refs slim x up r =
     (\<exists>x' up'. r = Inr (x', up') \<and> strict x' \<and> shrinks up up' (\<lambda>n. refs n x) (\<lambda>n. refs n x') \<and>
        (\<forall>U. (\<forall>n. prunerCount up' n = 0 \<longrightarrow> n \<in> U) \<longrightarrow> slim U x x'))"

lemma prunesToI:
  assumes "r = Inr (x', up')" "strict x'" "shrinks up up' (\<lambda>n. refs n x) (\<lambda>n. refs n x')"
    and "\<And>U. (\<And>n. prunerCount up' n = 0 \<Longrightarrow> n \<in> U) \<Longrightarrow> slim U x x'"
  shows "prunesTo strict refs slim x up r"
  using assms by (force simp: prunesTo_def)

lemma prunesToE:
  assumes "prunesTo strict refs slim x up r"
  obtains x' up' where "r = Inr (x', up')" "strict x'" "shrinks up up' (\<lambda>n. refs n x) (\<lambda>n. refs n x')"
    "\<And>U. (\<And>n. prunerCount up' n = 0 \<Longrightarrow> n \<in> U) \<Longrightarrow> slim U x x'"
  using assms by (force simp: prunesTo_def)

lemma shrinks_refl: "shrinks up up cnt cnt"
  by (simp add: shrinks_def)

lemma shrinksD: "shrinks up up' c d \<Longrightarrow> prunerCount up' n + c n = prunerCount up n + d n \<and> prunerCount up' n \<le> prunerCount up n"
  by (simp add: shrinks_def)

lemma shrinks_trans:
  assumes "shrinks up up1 c1 d1" "shrinks up1 up2 c2 d2"
  shows "shrinks up up2 (\<lambda>n. c1 n + c2 n) (\<lambda>n. d1 n + d2 n)"
  unfolding shrinks_def
proof
  fix n
  show "prunerCount up2 n + (c1 n + c2 n) = prunerCount up n + (d1 n + d2 n) \<and> prunerCount up2 n \<le> prunerCount up n"
    using shrinksD [OF assms(1), of n] shrinksD [OF assms(2), of n] by linarith
qed

lemma shrinks_then:
  assumes "shrinks up up1 c d" "shrinks up1 up2 d e"
  shows "shrinks up up2 c e"
  unfolding shrinks_def
proof
  fix n
  show "prunerCount up2 n + c n = prunerCount up n + e n \<and> prunerCount up2 n \<le> prunerCount up n"
    using shrinksD [OF assms(1), of n] shrinksD [OF assms(2), of n] by linarith
qed

lemma shrinks_zero: "shrinks up up' c d \<Longrightarrow> prunerCount up n = 0 \<Longrightarrow> prunerCount up' n = 0"
  by (metis shrinksD le_zero_eq)

lemma shrinks_enough: "shrinks up up' c d \<Longrightarrow> c n + e n \<le> prunerCount up n \<Longrightarrow> e n \<le> prunerCount up' n"
  using shrinksD [of up up' c d n] by linarith

lemma shrinks_left: "shrinks up up' c d \<Longrightarrow> c n \<le> prunerCount up n \<Longrightarrow> d n \<le> prunerCount up' n"
  using shrinksD [of up up' c d n] by linarith

lemma used_iff: "used up n = (0 < prunerCount up n)"
  by (auto simp: used_def referenceCount_def split: option.splits)

lemma subtractReferences_ok:
  "properRefs refs \<Longrightarrow> \<forall>n. referenceCount refs n \<le> prunerCount up n \<Longrightarrow>
     \<exists>up'. subtractReferences refs up = Inr up' \<and> (\<forall>n. prunerCount up' n + referenceCount refs n = prunerCount up n)"
proof (induction refs arbitrary: up)
  case (Cons r refs)
  obtain name k where r: "r = (name, k)" by (cases r)
  have proper: "properRefs refs" "0 < k" "name \<notin> fst ` set refs"
    using Cons(2) r by (auto simp: properRefs_def)
  have none: "referenceCount refs name = 0"
    using proper(3) by (simp add: referenceCount_def map_of_eq_None_iff [THEN iffD2])
  have count: "referenceCount (r # refs) n = (if n = name then k else referenceCount refs n)" for n
    by (simp add: r referenceCount_def)
  have k: "k \<le> prunerCount up name" using spec [OF Cons(3), of name] count by simp
  then obtain m where m: "map_of (up_references up) name = Some m" "k \<le> m" "prunerCount up name = m"
    using proper(2) by (auto simp: referenceCount_def split: option.splits)
  let ?up = "up\<lparr>up_references := AList.update name (m - k) (up_references up), up_shouldRunAgain := True\<rparr>"
  have up: "prunerCount ?up n = (if n = name then m - k else prunerCount up n)" for n
    by (simp add: referenceCount_update)
  have "\<forall>n. referenceCount refs n \<le> prunerCount ?up n"
    using Cons(3) none unfolding up count by (auto split: if_splits)
  then obtain up' where 1: "subtractReferences refs ?up = Inr up'"
      "\<And>n. prunerCount up' n + referenceCount refs n = prunerCount ?up n"
    using Cons(1) [OF proper(1)] by blast
  have "prunerCount up' n + referenceCount (r # refs) n = prunerCount up n" for n
    using 1(2) [of n] none m unfolding up count by (auto split: if_splits)
  then show ?case using 1(1) m r by simp
qed simp

lemma subtract_counted:
  assumes "addsRefs cnt [] r" "\<And>n. cnt n \<le> prunerCount up n"
  shows "\<exists>refs up'. r = Inr refs \<and> subtractReferences refs up = Inr up' \<and> shrinks up up' cnt (\<lambda>n. 0)"
proof -
  obtain refs where refs: "r = Inr refs" "properRefs refs" "\<And>n. referenceCount refs n = cnt n"
    using assms(1) by (auto simp: addsRefs_def)
  obtain up' where up': "subtractReferences refs up = Inr up'"
      "\<And>n. prunerCount up' n + cnt n = prunerCount up n"
    using subtractReferences_ok [OF refs(2), of up] assms(2) refs(3) by auto
  have "shrinks up up' cnt (\<lambda>n. 0)"
    unfolding shrinks_def using up'(2) by (metis add.right_neutral le_add1)
  then show ?thesis using refs(1) up'(1) by blast
qed

section \<open>One statement\<close>

text \<open>What the loop over a block puts in the place of a statement.\<close>

definition replacedBy :: "string set \<Rightarrow> AsmStatement \<Rightarrow> AsmStatement \<Rightarrow> bool" where
  "replacedBy U st st' =
     (st' = st \<or> (isEmptyBlock st' \<and> droppable U st) \<or>
      (\<exists>l x e. st = AsmVariableDeclaration l [x] (Some e) \<and> tn_name x \<in> U \<and>
        st' = AsmExpressionStatement l (AsmFunctionalInstruction l POP [e])))"

lemma emptyBlockAt_simps [simp]:
  "strictStatement (emptyBlockAt l)" "refsStatement n (emptyBlockAt l) = 0" "isEmptyBlock (emptyBlockAt l)"
  by (simp_all add: emptyBlockAt_def)

abbreviation prunesStatement :: "AsmStatement \<Rightarrow> UnusedPruner \<Rightarrow> (AsmStatement \<times> UnusedPruner) res \<Rightarrow> bool" where
  "prunesStatement \<equiv> prunesTo strictStatement refsStatement replacedBy"

lemma prunes_same: "strictStatement st \<Longrightarrow> prunesStatement st up (Inr (st, up))"
  by (rule prunesToI [OF refl]) (simp_all add: shrinks_refl replacedBy_def)

lemma prunes_empty:
  assumes "shrinks up up' (\<lambda>n. refsStatement n st) (\<lambda>n. 0)"
    and "\<And>U. (\<And>n. prunerCount up' n = 0 \<Longrightarrow> n \<in> U) \<Longrightarrow> droppable U st"
  shows "prunesStatement st up (Inr (emptyBlockAt l, up'))"
  using assms by (intro prunesToI [OF refl]) (simp_all add: replacedBy_def)

lemma pruneStatement_prunes:
  assumes "strictStatement st" "\<And>n. refsStatement n st \<le> prunerCount up n"
  shows "prunesStatement st up (pruneStatement st up)"
proof (cases st)
  case (AsmFunctionDefinition l f ps rs b)
  show ?thesis
  proof (cases "used up f")
    case False
    have b: "strictBlock b" "\<And>n. refsBlock n b \<le> prunerCount up n"
      using assms AsmFunctionDefinition by simp_all
    obtain refs up' where 1: "countReferences b = Inr refs" "subtractReferences refs up = Inr up'"
        "shrinks up up' (\<lambda>n. refsBlock n b) (\<lambda>n. 0)"
      using subtract_counted [OF countReferences_counts [OF b(1)] b(2)] by blast
    have "prunerCount up' f = 0" using False shrinks_zero [OF 1(3)] by (simp add: used_iff)
    then have "prunesStatement st up (Inr (emptyBlockAt l, up'))"
      using 1(3) AsmFunctionDefinition by (intro prunes_empty) simp_all
    then show ?thesis using 1 False AsmFunctionDefinition by (simp add: pruneStatement_def)
  qed (use prunes_same assms AsmFunctionDefinition in \<open>simp add: pruneStatement_def\<close>)
next
  case (AsmVariableDeclaration l vs v)
  show ?thesis
  proof (cases "list_all (\<lambda>v. \<not> used up (tn_name v)) vs")
    case True
    then have unused: "prunerCount up (tn_name x) = 0" if "x \<in> set vs" for x
      using that by (simp add: list_all_iff used_iff)
    show ?thesis
    proof (cases v)
      case None
      then have "prunesStatement st up (Inr (emptyBlockAt l, up))"
        using AsmVariableDeclaration unused by (intro prunes_empty) (auto simp: shrinks_refl)
      then show ?thesis using None True AsmVariableDeclaration by (simp add: pruneStatement_def)
    next
      case (Some e)
      obtain mc where mc: "checkMovable e = Inr mc" "mc_movable mc = movableExpression e"
        using checkMovable_exact by blast
      show ?thesis
      proof (cases "movableExpression e")
        case movable: True
        have "\<And>n. refsExpression n e \<le> prunerCount up n" using assms(2) AsmVariableDeclaration Some by simp
        from subtract_counted [OF countReferencesIn_counts this]
        obtain refs up' where 1: "countReferencesIn e = Inr refs" "subtractReferences refs up = Inr up'"
            "shrinks up up' (\<lambda>n. refsExpression n e) (\<lambda>n. 0)" by blast
        have "prunerCount up' (tn_name x) = 0" if "x \<in> set vs" for x
          by (rule shrinks_zero [OF 1(3) unused [OF that]])
        then have "prunesStatement st up (Inr (emptyBlockAt l, up'))"
          using 1(3) AsmVariableDeclaration Some movable by (intro prunes_empty) auto
        then show ?thesis using 1 mc movable Some True AsmVariableDeclaration by (simp add: pruneStatement_def)
      next
        case False
        show ?thesis
        proof (cases "length vs = 1")
          case one: True
          then obtain x where x: "vs = [x]" by (auto simp: length_Suc_conv)
          let ?st = "AsmExpressionStatement l (AsmFunctionalInstruction l POP [e])"
          have "prunesStatement st up (Inr (?st, up))"
            by (rule prunesToI [OF refl]) (use AsmVariableDeclaration Some x unused in \<open>simp_all add: shrinks_refl replacedBy_def\<close>)
          then show ?thesis using mc False Some True AsmVariableDeclaration one by (simp add: pruneStatement_def)
        qed (use prunes_same [OF assms(1)] mc False Some True AsmVariableDeclaration in \<open>simp add: pruneStatement_def\<close>)
      qed
    qed
  qed (use prunes_same assms AsmVariableDeclaration in \<open>auto simp: pruneStatement_def\<close>)
qed (use prunes_same [OF assms(1)] in \<open>simp_all add: pruneStatement_def\<close>)


section \<open>Blocks\<close>

abbreviation prunesStatements :: "(string set \<Rightarrow> AsmStatement list \<Rightarrow> AsmStatement list \<Rightarrow> bool) \<Rightarrow>
    AsmStatement list \<Rightarrow> UnusedPruner \<Rightarrow> (AsmStatement list \<times> UnusedPruner) res \<Rightarrow> bool" where
  "prunesStatements \<equiv> prunesTo (list_all strictStatement) (\<lambda>n sts. refsStatements n sts)"

abbreviation prunesInside :: "AsmStatement \<Rightarrow> UnusedPruner \<Rightarrow> (AsmStatement \<times> UnusedPruner) res \<Rightarrow> bool" where
  "prunesInside \<equiv> prunesTo strictStatement refsStatement slimStatement"

abbreviation prunesBlock :: "AsmBlock \<Rightarrow> UnusedPruner \<Rightarrow> (AsmBlock \<times> UnusedPruner) res \<Rightarrow> bool" where
  "prunesBlock \<equiv> prunesTo strictBlock refsBlock slimBlock"

abbreviation prunesCases :: "AsmCase list \<Rightarrow> UnusedPruner \<Rightarrow> (AsmCase list \<times> UnusedPruner) res \<Rightarrow> bool" where
  "prunesCases \<equiv> prunesTo (list_all strictCase) (\<lambda>n cs. refsCases n cs) slimCases"

text \<open>Two parts of a node, one after the other.\<close>

lemma prunesTo_pair:
  assumes "prunesTo P f R x up r" "\<And>x1 up1. r = Inr (x1, up1) \<Longrightarrow> (\<And>n. g n y \<le> prunerCount up1 n) \<Longrightarrow> prunesTo Q g S y up1 (k up1)"
    and "\<And>n. f n x + g n y \<le> prunerCount up n"
    and "\<And>x' y'. P x' \<Longrightarrow> Q y' \<Longrightarrow> V (c x' y')"
    and "\<And>n. h n z = a n + (f n x + g n y)" "\<And>n x' y'. P x' \<Longrightarrow> Q y' \<Longrightarrow> h n (c x' y') = a n + (f n x' + g n y')"
    and "\<And>U x' y'. R U x x' \<Longrightarrow> S U y y' \<Longrightarrow> T U z (c x' y')"
  shows "prunesTo V h T z up (bindR r (\<lambda>(x', up). keepR (c x') (k up)))"
proof -
  from assms(1) obtain x' up1 where 1: "r = Inr (x', up1)" "P x'" "shrinks up up1 (\<lambda>n. f n x) (\<lambda>n. f n x')"
    "\<And>U. (\<And>n. prunerCount up1 n = 0 \<Longrightarrow> n \<in> U) \<Longrightarrow> R U x x'" by (rule prunesToE) blast
  have "g n y \<le> prunerCount up1 n" for n by (rule shrinks_enough [OF 1(3) assms(3)])
  from assms(2) [OF 1(1) this] obtain y' up2 where 2: "k up1 = Inr (y', up2)" "Q y'"
    "shrinks up1 up2 (\<lambda>n. g n y) (\<lambda>n. g n y')"
    "\<And>U. (\<And>n. prunerCount up2 n = 0 \<Longrightarrow> n \<in> U) \<Longrightarrow> S U y y'" by (rule prunesToE) blast
  have "T U z (c x' y')" if "\<And>n. prunerCount up2 n = 0 \<Longrightarrow> n \<in> U" for U
    by (rule assms(7) [OF 1(4) 2(4)]) (use that shrinks_zero [OF 2(3)] in auto)
  moreover have "shrinks up up2 (\<lambda>n. h n z) (\<lambda>n. h n (c x' y'))"
    using shrinks_trans [OF 1(3) 2(3)] assms(5,6) 1(2) 2(2) by (simp add: shrinks_def)
  ultimately show ?thesis
    using 1(1,2) 2(1,2) assms(4) by (intro prunesToI [where x' = "c x' y'" and up' = up2]) (simp_all add: keepR_def)
qed

lemma prunesTo_part:
  assumes "prunesTo P f R x up r"
    and "\<And>x'. P x' \<Longrightarrow> V (c x')" "\<And>n. h n z = a n + f n x" "\<And>n x'. P x' \<Longrightarrow> h n (c x') = a n + f n x'"
    and "\<And>U x'. R U x x' \<Longrightarrow> T U z (c x')"
  shows "prunesTo V h T z up (keepR c r)"
proof -
  from assms(1) obtain x' up1 where 1: "r = Inr (x', up1)" "P x'" "shrinks up up1 (\<lambda>n. f n x) (\<lambda>n. f n x')"
    "\<And>U. (\<And>n. prunerCount up1 n = 0 \<Longrightarrow> n \<in> U) \<Longrightarrow> R U x x'" by (rule prunesToE) blast
  have "shrinks up up1 (\<lambda>n. h n z) (\<lambda>n. h n (c x'))"
    using 1(3) assms(3,4) 1(2) by (simp add: shrinks_def)
  then show ?thesis
    using 1 assms(2,5) by (intro prunesToI [where x' = "c x'" and up' = up1]) (simp_all add: keepR_def)
qed

lemma prunesInside_same: "strictStatement st \<Longrightarrow> (\<And>U. slimStatement U st st) \<Longrightarrow> prunesInside st up (Inr (st, up))"
  by (rule prunesToI [OF refl]) (simp_all add: shrinks_refl)

lemma pruneStatements_prunes:
  "list_all strictStatement sts \<Longrightarrow> (\<And>n. refsStatements n sts \<le> prunerCount up n) \<Longrightarrow>
     prunesStatements (\<lambda>U. list_all2 (replacedBy U)) sts up (pruneStatements sts up)"
proof (induction sts arbitrary: up)
  case (Cons st sts)
  have enough: "refsStatement n st + refsStatements n sts \<le> prunerCount up n" for n
    using Cons(3) [of n] by simp
  have st: "prunesStatement st up (pruneStatement st up)"
    using Cons(2) enough by (intro pruneStatement_prunes) (auto intro: add_leD1)
  show ?case
    by (simp, rule prunesTo_pair [where f = refsStatement and g = "\<lambda>n sts. refsStatements n sts" and c = "(#)" and a = "\<lambda>n. 0", OF st])
      (use Cons(1,2) enough in simp_all)
qed (simp add: prunesTo_def shrinks_refl)

lemma removeEmptyBlocks_refs: "refsStatements n (removeEmptyBlocks sts) = refsStatements n sts"
  by (induction sts) (auto simp: removeEmptyBlocks_def elim!: isEmptyBlock.elims, case_tac b, simp)

lemma droppable_empty: "isEmptyBlock st \<Longrightarrow> droppable U st"
  by (cases st) simp_all

lemma replaced_slim:
  assumes "replacedBy U st st1" "\<not> isEmptyBlock st1" "slimStatement U st1 st2"
  shows "slimStatement U st st2"
  using assms by (auto simp: replacedBy_def elim: slimStatementE intro: slim_pop)

lemma removed_slim:
  "list_all2 (replacedBy U) sts sts1 \<Longrightarrow> slimStatements U (removeEmptyBlocks sts1) sts2 \<Longrightarrow> slimStatements U sts sts2"
proof (induction arbitrary: sts2 rule: list_all2_induct)
  case (Cons st sts st1 sts1)
  show ?case
  proof (cases "isEmptyBlock st1")
    case True
    then have "droppable U st" using Cons(1) droppable_empty by (auto simp: replacedBy_def)
    moreover have "slimStatements U sts sts2" using Cons(3,4) True by (simp add: removeEmptyBlocks_def)
    ultimately show ?thesis by (rule slim_drop)
  next
    case False
    then have "slimStatements U (st1 # removeEmptyBlocks sts1) sts2" using Cons(4) by (simp add: removeEmptyBlocks_def)
    then consider
        (keep) st2 sts3 where "sts2 = st2 # sts3" "slimStatement U st1 st2" "slimStatements U (removeEmptyBlocks sts1) sts3"
      | (drop) "droppable U st1" "slimStatements U (removeEmptyBlocks sts1) sts2"
      by (auto simp: slimStatements_Cons)
    then show ?thesis
    proof cases
      case keep
      then show ?thesis using replaced_slim [OF Cons(1) False] Cons(3) by (auto intro: slim_keep)
    next
      case drop
      then have "droppable U st" using Cons(1) False by (auto simp: replacedBy_def)
      then show ?thesis using drop(2) Cons(3) by (auto intro: slim_drop)
    qed
  qed
qed (simp add: removeEmptyBlocks_def)

lemma prunesBlock_I:
  assumes "prunesStatements (\<lambda>U. list_all2 (replacedBy U)) sts up r"
    and "\<And>sts1 up1. r = Inr (sts1, up1) \<Longrightarrow> list_all strictStatement (removeEmptyBlocks sts1) \<Longrightarrow>
      (\<And>n. refsStatements n (removeEmptyBlocks sts1) \<le> prunerCount up1 n) \<Longrightarrow>
      prunesStatements slimStatements (removeEmptyBlocks sts1) up1 (k sts1 up1)"
    and "\<And>n. refsStatements n sts \<le> prunerCount up n"
  shows "prunesBlock (AsmBlock l sts) up (bindR r (\<lambda>(sts, up). keepR (AsmBlock l) (k sts up)))"
proof -
  from assms(1) obtain sts1 up1 where 1: "r = Inr (sts1, up1)" "list_all strictStatement sts1"
    "shrinks up up1 (\<lambda>n. refsStatements n sts) (\<lambda>n. refsStatements n sts1)"
    "\<And>U. (\<And>n. prunerCount up1 n = 0 \<Longrightarrow> n \<in> U) \<Longrightarrow> list_all2 (replacedBy U) sts sts1" by (rule prunesToE) blast
  have "list_all strictStatement (removeEmptyBlocks sts1)"
    using 1(2) by (auto simp: removeEmptyBlocks_def list_all_iff)
  moreover have "refsStatements n (removeEmptyBlocks sts1) \<le> prunerCount up1 n" for n
    using shrinks_left [OF 1(3) assms(3)] by (simp add: removeEmptyBlocks_refs)
  ultimately have "prunesStatements slimStatements (removeEmptyBlocks sts1) up1 (k sts1 up1)"
    by (rule assms(2) [OF 1(1)])
  then obtain sts2 up2 where 2: "k sts1 up1 = Inr (sts2, up2)" "list_all strictStatement sts2"
    "shrinks up1 up2 (\<lambda>n. refsStatements n (removeEmptyBlocks sts1)) (\<lambda>n. refsStatements n sts2)"
    "\<And>U. (\<And>n. prunerCount up2 n = 0 \<Longrightarrow> n \<in> U) \<Longrightarrow> slimStatements U (removeEmptyBlocks sts1) sts2"
    by (rule prunesToE) blast
  have "slimBlock U (AsmBlock l sts) (AsmBlock l sts2)" if "\<And>n. prunerCount up2 n = 0 \<Longrightarrow> n \<in> U" for U
    by (rule slim_block, rule removed_slim [OF 1(4) 2(4)]) (use that shrinks_zero [OF 2(3)] in auto)
  moreover have "shrinks up up2 (\<lambda>n. refsStatements n sts) (\<lambda>n. refsStatements n sts2)"
    using shrinks_then [OF 1(3)] 2(3) by (simp add: removeEmptyBlocks_refs)
  ultimately show ?thesis using 1(1) 2(1,2)
    by (intro prunesToI [where x' = "AsmBlock l sts2" and up' = up2]) (simp_all add: keepR_def)
qed


lemma slim_for_blocks:
  "slimBlock U pre pre' \<Longrightarrow> slimBlock U post post' \<Longrightarrow> slimBlock U b b' \<Longrightarrow>
     slimStatement U (AsmForLoop l pre c post b) (AsmForLoop l pre' c post' b')"
  by (cases rule: slimBlock.cases, assumption) (simp add: slim_for)

lemma keepR_pair:
  "keepR f (bindR m (\<lambda>(p, s). keepR (Pair p) (k s))) = bindR m (\<lambda>(p, s). keepR (\<lambda>b. f (p, b)) (k s))"
  by (auto simp: keepR_def bindR_def split: sum.splits prod.splits)

lemmas slim_parts = slim_expression slim_assignment slim_variable slim_function slim_if slim_switch slim_inner
  slim_nil slim_keep slim_no_case slim_case slim_for_blocks

theorem prune_prunes:
  "strictBlock b \<Longrightarrow> (\<And>n. refsBlock n b \<le> prunerCount up n) \<Longrightarrow> prunesBlock b up (pruneBlock b up)"
  "strictStatement st \<Longrightarrow> (\<And>n. refsStatement n st \<le> prunerCount up n) \<Longrightarrow> prunesInside st up (pruneInside st up)"
  "list_all strictStatement sts \<Longrightarrow> (\<And>n. refsStatements n sts \<le> prunerCount up n) \<Longrightarrow>
     prunesStatements slimStatements sts up (pruneInsideAll sts up)"
  "list_all strictCase cs \<Longrightarrow> (\<And>n. refsCases n cs \<le> prunerCount up n) \<Longrightarrow> prunesCases cs up (pruneCases cs up)"
proof (induction b up and st up and sts up and cs up rule: pruneBlock_pruneInside_pruneInsideAll_pruneCases.induct)
  case (1 l sts up)
  have s: "list_all strictStatement sts" "\<And>n. refsStatements n sts \<le> prunerCount up n" using 1(2,3) by simp_all
  show ?case unfolding pruneBlock.simps
    by (rule prunesBlock_I [OF pruneStatements_prunes [OF s] _ s(2)]) (rule "1.IH", simp_all)
next
  case (8 l f ps rs b up)
  have "prunesBlock b up (pruneBlock b up)" using 8 by simp
  then show ?case unfolding pruneInside.simps
    by (rule prunesTo_part [where a = "\<lambda>n. 0"]) (simp_all add: slim_function)
next
  case (9 l c b up)
  have "prunesBlock b up (pruneBlock b up)" using 9 by (auto intro: add_leD2)
  then show ?case unfolding pruneInside.simps
    by (rule prunesTo_part [where a = "\<lambda>n. refsExpression n c"]) (simp_all add: slim_if)
next
  case (10 l e cs up)
  have "prunesCases cs up (pruneCases cs up)" using 10 by (auto intro: add_leD2)
  then show ?case unfolding pruneInside.simps
    by (rule prunesTo_part [where a = "\<lambda>n. refsExpression n e"]) (simp_all add: slim_switch)
next
  case (11 l pre c post b up)
  have s: "strictBlock pre" "strictBlock post" "strictBlock b" using 11(4) by simp_all
  have enough: "refsBlock n pre + (refsBlock n post + refsBlock n b) \<le> prunerCount up n" for n
    using 11(5) [of n] by simp
  have pre: "prunesBlock pre up (pruneBlock pre up)"
    by (rule 11(1) [OF s(1)]) (use enough in \<open>rule add_leD1\<close>)
  let ?Q = "\<lambda>(p, b). strictBlock p \<and> strictBlock b" and ?g = "\<lambda>n (p, b). refsBlock n p + refsBlock n b"
  let ?S = "\<lambda>U (p, b) (p', b'). slimBlock U p p' \<and> slimBlock U b b'"
  have rest: "prunesTo ?Q ?g ?S (post, b) up1 (bindR (pruneBlock post up1) (\<lambda>(p, up). keepR (Pair p) (pruneBlock b up)))"
    if 1: "pruneBlock pre up = Inr (pre1, up1)" "\<And>n. ?g n (post, b) \<le> prunerCount up1 n" for pre1 up1
  proof (rule prunesTo_pair [where f = refsBlock and g = refsBlock and c = Pair and a = "\<lambda>n. 0"])
    show "prunesBlock post up1 (pruneBlock post up1)"
      by (rule 11(2) [OF 1(1) refl s(2)]) (use 1(2) in \<open>auto intro: add_leD1\<close>)
    show "prunesBlock b up2 (pruneBlock b up2)"
      if "pruneBlock post up1 = Inr (post2, up2)" "\<And>n. refsBlock n b \<le> prunerCount up2 n" for post2 up2
      by (rule 11(3) [OF 1(1) refl that(1) refl s(3) that(2)])
  qed (use 1(2) in simp_all)
  show ?case unfolding pruneInside.simps keepR_pair [of "\<lambda>(post, b). AsmForLoop l _ c post b", simplified, symmetric]
    by (rule prunesTo_pair [where f = refsBlock and g = ?g and c = "\<lambda>pre (post, b). AsmForLoop l pre c post b" and
          a = "\<lambda>n. refsExpression n c", OF pre rest])
      (use enough in \<open>auto simp: slim_for_blocks add_ac\<close>)
next
  case (12 b up)
  have "prunesBlock b up (pruneBlock b up)" using 12 by simp
  then show ?case unfolding pruneInside.simps
    by (rule prunesTo_part [where a = "\<lambda>n. 0"]) (simp_all add: slim_inner)
next
  case (14 st sts up)
  have enough: "refsStatement n st + refsStatements n sts \<le> prunerCount up n" for n
    using 14(4) [of n] by simp
  have st: "prunesInside st up (pruneInside st up)"
    by (rule 14(1)) (use 14(3) enough in \<open>auto intro: add_leD1\<close>)
  show ?case unfolding pruneInsideAll.simps
  proof (rule prunesTo_pair [where f = refsStatement and g = "\<lambda>n sts. refsStatements n sts" and c = "(#)" and a = "\<lambda>n. 0"])
    show "prunesInside st up (pruneInside st up)" by (rule st)
    show "prunesStatements slimStatements sts up1 (pruneInsideAll sts up1)"
      if "pruneInside st up = Inr (st1, up1)" "\<And>n. refsStatements n sts \<le> prunerCount up1 n" for st1 up1
      using 14(2) [OF that(1) refl _ that(2)] 14(3) by simp
  qed (use 14(3) enough in \<open>simp_all add: slim_keep\<close>)
next
  case (16 l v b cs up)
  have enough: "refsBlock n b + refsCases n cs \<le> prunerCount up n" for n
    using 16(4) [of n] by simp
  have b: "prunesBlock b up (pruneBlock b up)"
    by (rule 16(1)) (use 16(3) enough in \<open>auto intro: add_leD1\<close>)
  show ?case unfolding pruneCases.simps
  proof (rule prunesTo_pair [where f = refsBlock and g = "\<lambda>n cs. refsCases n cs" and c = "\<lambda>b cs. AsmCase l v b # cs" and a = "\<lambda>n. 0"])
    show "prunesBlock b up (pruneBlock b up)" by (rule b)
    show "prunesCases cs up1 (pruneCases cs up1)"
      if "pruneBlock b up = Inr (b1, up1)" "\<And>n. refsCases n cs \<le> prunerCount up1 n" for b1 up1
      using 16(2) [OF that(1) refl _ that(2)] 16(3) by simp
  qed (use 16(3) enough in \<open>simp_all add: slim_case\<close>)
qed (auto intro!: prunesInside_same slim_parts prunesToI [OF refl] shrinks_refl)


section \<open>The whole pass\<close>

lemma mkUnusedPruner_counts:
  "strictBlock b \<Longrightarrow> \<exists>up. mkUnusedPruner b = Inr up \<and> (\<forall>n. prunerCount up n = refsBlock n b)"
  using countReferences_counts [of b] by (auto simp: mkUnusedPruner_def addsRefs_def)

lemma pass_prunes:
  assumes "strictBlock b"
  obtains up b' up' where "mkUnusedPruner b = Inr up" "pruneBlock b up = Inr (b', up')" "strictBlock b'"
    "slimBlock {n. refsBlock n b' = 0} b b'"
proof -
  from mkUnusedPruner_counts [OF assms] obtain up where up: "mkUnusedPruner b = Inr up"
      "\<And>n. prunerCount up n = refsBlock n b" by blast
  from prune_prunes(1) [OF assms, of up] obtain b' up' where
    1: "pruneBlock b up = Inr (b', up')" "strictBlock b'" "shrinks up up' (\<lambda>n. refsBlock n b) (\<lambda>n. refsBlock n b')"
      "\<And>U. (\<And>n. prunerCount up' n = 0 \<Longrightarrow> n \<in> U) \<Longrightarrow> slimBlock U b b'"
    by (rule prunesToE) (simp_all add: up(2))
  have "prunerCount up' n = refsBlock n b'" for n using shrinksD [OF 1(3), of n] up(2) by simp
  then have "slimBlock {n. refsBlock n b' = 0} b b'" by (intro 1(4)) simp
  with up(1) 1(1,2) show thesis by (rule that)
qed

theorem pruning_returns:
  "strictBlock b \<Longrightarrow> \<exists>b'. runUntilStabilised b = Inr b' \<and> strictBlock b' \<and>
     (machineOk M \<longrightarrow> (\<forall>n w. runLe (=) (runProgram M n b w) (runProgram M n b' w)))"
proof (induction b rule: runUntilStabilised.induct)
  case (1 b)
  obtain up b1 up1 where pass: "mkUnusedPruner b = Inr up" "pruneBlock b up = Inr (b1, up1)" "strictBlock b1"
      "slimBlock {n. refsBlock n b1 = 0} b b1"
    using pass_prunes [OF 1(2)] by blast
  have le: "runLe (=) (runProgram M n b w) (runProgram M n b1 w)" if "machineOk M" for n w
    using slim_program [OF that pass(4)] by (simp add: avoids_def)
  show ?case
  proof (cases "up_shouldRunAgain up1")
    case True
    obtain b' where b': "runUntilStabilised b1 = Inr b'" "strictBlock b'"
        "machineOk M \<longrightarrow> (\<forall>n w. runLe (=) (runProgram M n b1 w) (runProgram M n b' w))"
      using 1(1) [OF pass(1,2) refl True pass(3)] by blast
    have "runUntilStabilised b = Inr b'"
      using pass(1,2) True b'(1) by (simp add: runUntilStabilised.simps [of b])
    moreover have "runLe (=) (runProgram M n b w) (runProgram M n b' w)" if "machineOk M" for n w
      using runLe_eq_trans [OF le] b'(3) that by blast
    ultimately show ?thesis using b'(2) by blast
  next
    case False
    then have "runUntilStabilised b = Inr b1" using pass(1,2) by (simp add: runUntilStabilised.simps [of b])
    then show ?thesis using pass(3) le by blast
  qed
qed

lemma runLe_eq: "runLe (=) r r' = (r = r' \<or> r \<in> {Stuck, NoFuel})"
  by (cases r) auto


section \<open>What is left\<close>

text \<open>
  Every function of the tree is one that \<open>u\<close> holds of, and every declaration of variables has such a
  variable or a value that cannot be dropped or popped.
\<close>

fun tidyStatement :: "(string \<Rightarrow> bool) \<Rightarrow> AsmStatement \<Rightarrow> bool"
  and tidyBlock :: "(string \<Rightarrow> bool) \<Rightarrow> AsmBlock \<Rightarrow> bool"
  and tidyCase :: "(string \<Rightarrow> bool) \<Rightarrow> AsmCase \<Rightarrow> bool" where
  "tidyStatement u (AsmVariableDeclaration l vs v) =
     ((\<exists>x\<in>set vs. u (tn_name x)) \<or> (case v of None \<Rightarrow> False | Some e \<Rightarrow> \<not> movableExpression e \<and> length vs \<noteq> 1))"
| "tidyStatement u (AsmFunctionDefinition l f ps rs b) = (u f \<and> tidyBlock u b)"
| "tidyStatement u (AsmIf l c b) = tidyBlock u b"
| "tidyStatement u (AsmSwitch l e cs) = list_all (tidyCase u) cs"
| "tidyStatement u (AsmForLoop l pre c post b) = (tidyBlock u pre \<and> tidyBlock u post \<and> tidyBlock u b)"
| "tidyStatement u (AsmBlockStatement b) = tidyBlock u b"
| "tidyStatement u _ = True"
| "tidyBlock u (AsmBlock l sts) = list_all (tidyStatement u) sts"
| "tidyCase u (AsmCase l v b) = tidyBlock u b"

text \<open>What \<open>tidyStatement\<close> says of the statement itself.\<close>

definition neededStatement :: "(string \<Rightarrow> bool) \<Rightarrow> AsmStatement \<Rightarrow> bool" where
  "neededStatement u st =
     (case st of
        AsmFunctionDefinition l f ps rs b \<Rightarrow> u f
      | AsmVariableDeclaration l vs v \<Rightarrow> tidyStatement u st
      | _ \<Rightarrow> True)"

lemma subtract_unchanged:
  assumes "subtractReferences refs up = Inr up'" "\<not> up_shouldRunAgain up'"
  shows "up' = up"
proof -
  have "refs = []" using subtractReferences_again [OF assms(1)] assms(2) by blast
  then show ?thesis using assms(1) by simp
qed

lemma pruneStatement_needed:
  assumes "pruneStatement st up = Inr (st', up')" "\<not> up_shouldRunAgain up'"
  shows "up' = up \<and> (isEmptyBlock st' \<or> neededStatement (used up) st')"
proof (cases st)
  case (AsmVariableDeclaration l vs v)
  show ?thesis
  proof (cases v)
    case (Some e)
    then show ?thesis using assms AsmVariableDeclaration checkMovable_exact [of e]
      by (auto simp: pruneStatement_def neededStatement_def list_all_iff split: if_splits dest: subtract_unchanged)
  qed (use assms AsmVariableDeclaration in \<open>auto simp: pruneStatement_def neededStatement_def list_all_iff split: if_splits\<close>)
next
  case (AsmFunctionDefinition l f ps rs b)
  then show ?thesis using assms
    by (auto simp: pruneStatement_def neededStatement_def split: if_splits dest: subtract_unchanged)
qed (use assms in \<open>auto simp: pruneStatement_def neededStatement_def\<close>)

lemma pruneStatements_needed:
  "pruneStatements sts up = Inr (sts', up') \<Longrightarrow> \<not> up_shouldRunAgain up' \<Longrightarrow>
     up' = up \<and> list_all (neededStatement (used up)) (removeEmptyBlocks sts')"
proof (induction sts arbitrary: up sts')
  case (Cons st sts)
  then obtain st1 up1 sts2 where
    1: "pruneStatement st up = Inr (st1, up1)" "pruneStatements sts up1 = Inr (sts2, up')" "sts' = st1 # sts2"
    by (auto simp: keepR_def)
  have 2: "up' = up1" "list_all (neededStatement (used up1)) (removeEmptyBlocks sts2)"
    using Cons(1) [OF 1(2) Cons(3)] by simp_all
  then show ?case using pruneStatement_needed [OF 1(1)] Cons(3) 1(3) by (auto simp: removeEmptyBlocks_def)
qed (simp add: removeEmptyBlocks_def)

lemma prune_unchanged:
  "pruneBlock b up = Inr (b', up') \<Longrightarrow> \<not> up_shouldRunAgain up' \<Longrightarrow> up' = up"
  "pruneInside st up = Inr (st', up') \<Longrightarrow> \<not> up_shouldRunAgain up' \<Longrightarrow> up' = up"
  "pruneInsideAll sts up = Inr (sts', up') \<Longrightarrow> \<not> up_shouldRunAgain up' \<Longrightarrow> up' = up"
  "pruneCases cs up = Inr (cs', up') \<Longrightarrow> \<not> up_shouldRunAgain up' \<Longrightarrow> up' = up"
proof (induction b up and st up and sts up and cs up arbitrary: b' up' and st' up' and sts' up' and cs' up'
    rule: pruneBlock_pruneInside_pruneInsideAll_pruneCases.induct)
  case (1 l sts up)
  from "1.prems"(1) obtain sts1 up1 sts2 where
    1: "pruneStatements sts up = Inr (sts1, up1)" "pruneInsideAll (removeEmptyBlocks sts1) up1 = Inr (sts2, up')"
    by (auto simp: keepR_def)
  have "up' = up1" by (rule "1.IH" [OF 1(1) refl 1(2) "1.prems"(2)])
  then show ?case using pruneStatements_needed [OF 1(1)] "1.prems"(2) by simp
next
  case (11 l pre c post b up)
  from "11.prems"(1) obtain pre1 up1 post1 up2 b1 where
    1: "pruneBlock pre up = Inr (pre1, up1)" "pruneBlock post up1 = Inr (post1, up2)" "pruneBlock b up2 = Inr (b1, up')"
    by (auto simp: keepR_def)
  have "up' = up2" by (rule "11.IH"(3) [OF 1(1) refl 1(2) refl 1(3) "11.prems"(2)])
  moreover from this have "up2 = up1" using "11.IH"(2) [OF 1(1) refl 1(2)] "11.prems"(2) by simp
  ultimately show ?case using "11.IH"(1) [OF 1(1)] "11.prems"(2) by simp
next
  case (14 st sts up)
  from "14.prems"(1) obtain st1 up1 sts1 where
    1: "pruneInside st up = Inr (st1, up1)" "pruneInsideAll sts up1 = Inr (sts1, up')"
    by (auto simp: keepR_def)
  have "up' = up1" by (rule "14.IH"(2) [OF 1(1) refl 1(2) "14.prems"(2)])
  then show ?case using "14.IH"(1) [OF 1(1)] "14.prems"(2) by simp
next
  case (16 l v b cs up)
  from "16.prems"(1) obtain b1 up1 cs1 where
    1: "pruneBlock b up = Inr (b1, up1)" "pruneCases cs up1 = Inr (cs1, up')"
    by (auto simp: keepR_def)
  have "up' = up1" by (rule "16.IH"(2) [OF 1(1) refl 1(2) "16.prems"(2)])
  then show ?case using "16.IH"(1) [OF 1(1)] "16.prems"(2) by simp
qed (auto simp: keepR_def invalidNode_def)

lemma prune_tidy:
  "pruneBlock b up = Inr (b', up') \<Longrightarrow> \<not> up_shouldRunAgain up' \<Longrightarrow> tidyBlock (used up) b'"
  "pruneInside st up = Inr (st', up') \<Longrightarrow> \<not> up_shouldRunAgain up' \<Longrightarrow> neededStatement (used up) st \<Longrightarrow>
     tidyStatement (used up) st'"
  "pruneInsideAll sts up = Inr (sts', up') \<Longrightarrow> \<not> up_shouldRunAgain up' \<Longrightarrow> list_all (neededStatement (used up)) sts \<Longrightarrow>
     list_all (tidyStatement (used up)) sts'"
  "pruneCases cs up = Inr (cs', up') \<Longrightarrow> \<not> up_shouldRunAgain up' \<Longrightarrow> list_all (tidyCase (used up)) cs'"
proof (induction b up and st up and sts up and cs up arbitrary: b' up' and st' up' and sts' up' and cs' up'
    rule: pruneBlock_pruneInside_pruneInsideAll_pruneCases.induct)
  case (1 l sts up)
  from "1.prems"(1) obtain sts1 up1 sts2 where
    1: "pruneStatements sts up = Inr (sts1, up1)" "pruneInsideAll (removeEmptyBlocks sts1) up1 = Inr (sts2, up')"
      "b' = AsmBlock l sts2"
    by (auto simp: keepR_def)
  have up: "up' = up1" by (rule prune_unchanged(3) [OF 1(2) "1.prems"(2)])
  have needed: "up1 = up" "list_all (neededStatement (used up)) (removeEmptyBlocks sts1)"
    using pruneStatements_needed [OF 1(1)] "1.prems"(2) up by simp_all
  show ?case using "1.IH" [OF 1(1) refl 1(2) "1.prems"(2)] needed 1(3) by simp
next
  case (11 l pre c post b up)
  from "11.prems"(1) obtain pre1 up1 post1 up2 b1 where
    1: "pruneBlock pre up = Inr (pre1, up1)" "pruneBlock post up1 = Inr (post1, up2)" "pruneBlock b up2 = Inr (b1, up')"
      "st' = AsmForLoop l pre1 c post1 b1"
    by (auto simp: keepR_def)
  have up2: "up' = up2" by (rule prune_unchanged(1) [OF 1(3) "11.prems"(2)])
  then have up1: "up2 = up1" using prune_unchanged(1) [OF 1(2)] "11.prems"(2) by simp
  then have "up1 = up" using prune_unchanged(1) [OF 1(1)] "11.prems"(2) up2 by simp
  then show ?case
    using "11.IH"(1) [OF 1(1)] "11.IH"(2) [OF 1(1) refl 1(2)] "11.IH"(3) [OF 1(1) refl 1(2) refl 1(3)] 1(4) up1 up2 "11.prems"(2)
    by simp
next
  case (14 st sts up)
  from "14.prems"(1) obtain st1 up1 sts1 where
    1: "pruneInside st up = Inr (st1, up1)" "pruneInsideAll sts up1 = Inr (sts1, up')" "sts' = st1 # sts1"
    by (auto simp: keepR_def)
  have up: "up' = up1" by (rule prune_unchanged(3) [OF 1(2) "14.prems"(2)])
  then have "up1 = up" using prune_unchanged(2) [OF 1(1)] "14.prems"(2) by simp
  then show ?case using "14.IH"(1) [OF 1(1)] "14.IH"(2) [OF 1(1) refl 1(2)] 1(3) "14.prems"(2,3) up by simp
next
  case (16 l v b cs up)
  from "16.prems"(1) obtain b1 up1 cs1 where
    1: "pruneBlock b up = Inr (b1, up1)" "pruneCases cs up1 = Inr (cs1, up')" "cs' = AsmCase l v b1 # cs1"
    by (auto simp: keepR_def)
  have up: "up' = up1" by (rule prune_unchanged(4) [OF 1(2) "16.prems"(2)])
  then have "up1 = up" using prune_unchanged(1) [OF 1(1)] "16.prems"(2) by simp
  then show ?case using "16.IH"(1) [OF 1(1)] "16.IH"(2) [OF 1(1) refl 1(2)] 1(3) "16.prems"(2) up by simp
qed (auto simp: keepR_def invalidNode_def neededStatement_def)


theorem pruning_tidies:
  "strictBlock b \<Longrightarrow> runUntilStabilised b = Inr b' \<Longrightarrow> tidyBlock (\<lambda>n. 0 < refsBlock n b') b'"
proof (induction b rule: runUntilStabilised.induct)
  case (1 b)
  obtain up where up: "mkUnusedPruner b = Inr up" "\<And>n. prunerCount up n = refsBlock n b"
    using mkUnusedPruner_counts [OF 1(2)] by blast
  obtain b1 up1 where pass: "pruneBlock b up = Inr (b1, up1)" "strictBlock b1"
      "shrinks up up1 (\<lambda>n. refsBlock n b) (\<lambda>n. refsBlock n b1)"
    by (rule prunesToE [OF prune_prunes(1) [OF 1(2), of up]]) (simp_all add: up(2))
  show ?case
  proof (cases "up_shouldRunAgain up1")
    case True
    then have "runUntilStabilised b1 = Inr b'" using 1(3) up(1) pass(1) by (simp add: runUntilStabilised.simps [of b])
    then show ?thesis using 1(1) [OF up(1) pass(1) refl True pass(2)] by simp
  next
    case False
    then have b': "b' = b1" using 1(3) up(1) pass(1) by (simp add: runUntilStabilised.simps [of b])
    have "used up = (\<lambda>n. 0 < refsBlock n b1)"
      using shrinksD [OF pass(3)] up(2) prune_unchanged(1) [OF pass(1) False] by (auto simp: used_iff fun_eq_iff)
    then show ?thesis using prune_tidy(1) [OF pass(1) False] b' by simp
  qed
qed

end
