(* ===== verification/Tokens.thy ===== *)
theory Tokens
  imports DevCore
begin

text \<open>
  Model of libsolidity/parsing/Token.h and Token.cpp: the tokens, their names, strings and
  precedences, the classes of operators and keywords, the recognition of keywords and sized types,
  and the elementary type name. The code compares tokens with \<open><\<close> and adds to them, so a token is a
  number and the enumerators are names of numbers. \<open>boost::lexical_cast<int>\<close> is a parameter.
\<close>

section \<open>Tokens\<close>

type_synonym Token = int

abbreviation T_EOS :: Token where "T_EOS \<equiv> 0"
abbreviation T_LParen :: Token where "T_LParen \<equiv> 1"
abbreviation T_RParen :: Token where "T_RParen \<equiv> 2"
abbreviation T_LBrack :: Token where "T_LBrack \<equiv> 3"
abbreviation T_RBrack :: Token where "T_RBrack \<equiv> 4"
abbreviation T_LBrace :: Token where "T_LBrace \<equiv> 5"
abbreviation T_RBrace :: Token where "T_RBrace \<equiv> 6"
abbreviation T_Colon :: Token where "T_Colon \<equiv> 7"
abbreviation T_Semicolon :: Token where "T_Semicolon \<equiv> 8"
abbreviation T_Period :: Token where "T_Period \<equiv> 9"
abbreviation T_Conditional :: Token where "T_Conditional \<equiv> 10"
abbreviation T_Arrow :: Token where "T_Arrow \<equiv> 11"
abbreviation T_Assign :: Token where "T_Assign \<equiv> 12"
abbreviation T_AssignBitOr :: Token where "T_AssignBitOr \<equiv> 13"
abbreviation T_AssignBitXor :: Token where "T_AssignBitXor \<equiv> 14"
abbreviation T_AssignBitAnd :: Token where "T_AssignBitAnd \<equiv> 15"
abbreviation T_AssignShl :: Token where "T_AssignShl \<equiv> 16"
abbreviation T_AssignSar :: Token where "T_AssignSar \<equiv> 17"
abbreviation T_AssignShr :: Token where "T_AssignShr \<equiv> 18"
abbreviation T_AssignAdd :: Token where "T_AssignAdd \<equiv> 19"
abbreviation T_AssignSub :: Token where "T_AssignSub \<equiv> 20"
abbreviation T_AssignMul :: Token where "T_AssignMul \<equiv> 21"
abbreviation T_AssignDiv :: Token where "T_AssignDiv \<equiv> 22"
abbreviation T_AssignMod :: Token where "T_AssignMod \<equiv> 23"
abbreviation T_Comma :: Token where "T_Comma \<equiv> 24"
abbreviation T_Or :: Token where "T_Or \<equiv> 25"
abbreviation T_And :: Token where "T_And \<equiv> 26"
abbreviation T_BitOr :: Token where "T_BitOr \<equiv> 27"
abbreviation T_BitXor :: Token where "T_BitXor \<equiv> 28"
abbreviation T_BitAnd :: Token where "T_BitAnd \<equiv> 29"
abbreviation T_SHL :: Token where "T_SHL \<equiv> 30"
abbreviation T_SAR :: Token where "T_SAR \<equiv> 31"
abbreviation T_SHR :: Token where "T_SHR \<equiv> 32"
abbreviation T_Add :: Token where "T_Add \<equiv> 33"
abbreviation T_Sub :: Token where "T_Sub \<equiv> 34"
abbreviation T_Mul :: Token where "T_Mul \<equiv> 35"
abbreviation T_Div :: Token where "T_Div \<equiv> 36"
abbreviation T_Mod :: Token where "T_Mod \<equiv> 37"
abbreviation T_Exp :: Token where "T_Exp \<equiv> 38"
abbreviation T_Equal :: Token where "T_Equal \<equiv> 39"
abbreviation T_NotEqual :: Token where "T_NotEqual \<equiv> 40"
abbreviation T_LessThan :: Token where "T_LessThan \<equiv> 41"
abbreviation T_GreaterThan :: Token where "T_GreaterThan \<equiv> 42"
abbreviation T_LessThanOrEqual :: Token where "T_LessThanOrEqual \<equiv> 43"
abbreviation T_GreaterThanOrEqual :: Token where "T_GreaterThanOrEqual \<equiv> 44"
abbreviation T_Not :: Token where "T_Not \<equiv> 45"
abbreviation T_BitNot :: Token where "T_BitNot \<equiv> 46"
abbreviation T_Inc :: Token where "T_Inc \<equiv> 47"
abbreviation T_Dec :: Token where "T_Dec \<equiv> 48"
abbreviation T_Delete :: Token where "T_Delete \<equiv> 49"
abbreviation T_Anonymous :: Token where "T_Anonymous \<equiv> 50"
abbreviation T_As :: Token where "T_As \<equiv> 51"
abbreviation T_Assembly :: Token where "T_Assembly \<equiv> 52"
abbreviation T_Break :: Token where "T_Break \<equiv> 53"
abbreviation T_Constant :: Token where "T_Constant \<equiv> 54"
abbreviation T_Continue :: Token where "T_Continue \<equiv> 55"
abbreviation T_Contract :: Token where "T_Contract \<equiv> 56"
abbreviation T_Do :: Token where "T_Do \<equiv> 57"
abbreviation T_Else :: Token where "T_Else \<equiv> 58"
abbreviation T_Enum :: Token where "T_Enum \<equiv> 59"
abbreviation T_Event :: Token where "T_Event \<equiv> 60"
abbreviation T_External :: Token where "T_External \<equiv> 61"
abbreviation T_For :: Token where "T_For \<equiv> 62"
abbreviation T_Function :: Token where "T_Function \<equiv> 63"
abbreviation T_Hex :: Token where "T_Hex \<equiv> 64"
abbreviation T_If :: Token where "T_If \<equiv> 65"
abbreviation T_Indexed :: Token where "T_Indexed \<equiv> 66"
abbreviation T_Interface :: Token where "T_Interface \<equiv> 67"
abbreviation T_Internal :: Token where "T_Internal \<equiv> 68"
abbreviation T_Import :: Token where "T_Import \<equiv> 69"
abbreviation T_Is :: Token where "T_Is \<equiv> 70"
abbreviation T_Library :: Token where "T_Library \<equiv> 71"
abbreviation T_Mapping :: Token where "T_Mapping \<equiv> 72"
abbreviation T_Memory :: Token where "T_Memory \<equiv> 73"
abbreviation T_Modifier :: Token where "T_Modifier \<equiv> 74"
abbreviation T_New :: Token where "T_New \<equiv> 75"
abbreviation T_Payable :: Token where "T_Payable \<equiv> 76"
abbreviation T_Public :: Token where "T_Public \<equiv> 77"
abbreviation T_Pragma :: Token where "T_Pragma \<equiv> 78"
abbreviation T_Private :: Token where "T_Private \<equiv> 79"
abbreviation T_Pure :: Token where "T_Pure \<equiv> 80"
abbreviation T_Return :: Token where "T_Return \<equiv> 81"
abbreviation T_Returns :: Token where "T_Returns \<equiv> 82"
abbreviation T_Storage :: Token where "T_Storage \<equiv> 83"
abbreviation T_Struct :: Token where "T_Struct \<equiv> 84"
abbreviation T_Throw :: Token where "T_Throw \<equiv> 85"
abbreviation T_Using :: Token where "T_Using \<equiv> 86"
abbreviation T_Var :: Token where "T_Var \<equiv> 87"
abbreviation T_View :: Token where "T_View \<equiv> 88"
abbreviation T_While :: Token where "T_While \<equiv> 89"
abbreviation T_SubWei :: Token where "T_SubWei \<equiv> 90"
abbreviation T_SubSzabo :: Token where "T_SubSzabo \<equiv> 91"
abbreviation T_SubFinney :: Token where "T_SubFinney \<equiv> 92"
abbreviation T_SubEther :: Token where "T_SubEther \<equiv> 93"
abbreviation T_SubSecond :: Token where "T_SubSecond \<equiv> 94"
abbreviation T_SubMinute :: Token where "T_SubMinute \<equiv> 95"
abbreviation T_SubHour :: Token where "T_SubHour \<equiv> 96"
abbreviation T_SubDay :: Token where "T_SubDay \<equiv> 97"
abbreviation T_SubWeek :: Token where "T_SubWeek \<equiv> 98"
abbreviation T_SubYear :: Token where "T_SubYear \<equiv> 99"
abbreviation T_Int :: Token where "T_Int \<equiv> 100"
abbreviation T_UInt :: Token where "T_UInt \<equiv> 101"
abbreviation T_Bytes :: Token where "T_Bytes \<equiv> 102"
abbreviation T_Byte :: Token where "T_Byte \<equiv> 103"
abbreviation T_String :: Token where "T_String \<equiv> 104"
abbreviation T_Address :: Token where "T_Address \<equiv> 105"
abbreviation T_Bool :: Token where "T_Bool \<equiv> 106"
abbreviation T_Fixed :: Token where "T_Fixed \<equiv> 107"
abbreviation T_UFixed :: Token where "T_UFixed \<equiv> 108"
abbreviation T_IntM :: Token where "T_IntM \<equiv> 109"
abbreviation T_UIntM :: Token where "T_UIntM \<equiv> 110"
abbreviation T_BytesM :: Token where "T_BytesM \<equiv> 111"
abbreviation T_FixedMxN :: Token where "T_FixedMxN \<equiv> 112"
abbreviation T_UFixedMxN :: Token where "T_UFixedMxN \<equiv> 113"
abbreviation T_TypesEnd :: Token where "T_TypesEnd \<equiv> 114"
abbreviation T_TrueLiteral :: Token where "T_TrueLiteral \<equiv> 115"
abbreviation T_FalseLiteral :: Token where "T_FalseLiteral \<equiv> 116"
abbreviation T_Number :: Token where "T_Number \<equiv> 117"
abbreviation T_StringLiteral :: Token where "T_StringLiteral \<equiv> 118"
abbreviation T_CommentLiteral :: Token where "T_CommentLiteral \<equiv> 119"
abbreviation T_Identifier :: Token where "T_Identifier \<equiv> 120"
abbreviation T_Abstract :: Token where "T_Abstract \<equiv> 121"
abbreviation T_After :: Token where "T_After \<equiv> 122"
abbreviation T_Case :: Token where "T_Case \<equiv> 123"
abbreviation T_Catch :: Token where "T_Catch \<equiv> 124"
abbreviation T_Default :: Token where "T_Default \<equiv> 125"
abbreviation T_Final :: Token where "T_Final \<equiv> 126"
abbreviation T_In :: Token where "T_In \<equiv> 127"
abbreviation T_Inline :: Token where "T_Inline \<equiv> 128"
abbreviation T_Let :: Token where "T_Let \<equiv> 129"
abbreviation T_Match :: Token where "T_Match \<equiv> 130"
abbreviation T_NullLiteral :: Token where "T_NullLiteral \<equiv> 131"
abbreviation T_Of :: Token where "T_Of \<equiv> 132"
abbreviation T_Relocatable :: Token where "T_Relocatable \<equiv> 133"
abbreviation T_Static :: Token where "T_Static \<equiv> 134"
abbreviation T_Switch :: Token where "T_Switch \<equiv> 135"
abbreviation T_Try :: Token where "T_Try \<equiv> 136"
abbreviation T_Type :: Token where "T_Type \<equiv> 137"
abbreviation T_TypeOf :: Token where "T_TypeOf \<equiv> 138"
abbreviation T_Illegal :: Token where "T_Illegal \<equiv> 139"
abbreviation T_Whitespace :: Token where "T_Whitespace \<equiv> 140"

definition NUM_TOKENS :: Token where "NUM_TOKENS = 141"

datatype TokenCategory = TokenKind | KeywordKind

definition tokenList :: "(string \<times> string option \<times> int \<times> TokenCategory) list" where
  "tokenList =
    [(''EOS'', Some ''EOS'', 0, TokenKind),
     (''LParen'', Some ''('', 0, TokenKind),
     (''RParen'', Some '')'', 0, TokenKind),
     (''LBrack'', Some ''['', 0, TokenKind),
     (''RBrack'', Some '']'', 0, TokenKind),
     (''LBrace'', Some ''{'', 0, TokenKind),
     (''RBrace'', Some ''}'', 0, TokenKind),
     (''Colon'', Some '':'', 0, TokenKind),
     (''Semicolon'', Some '';'', 0, TokenKind),
     (''Period'', Some ''.'', 0, TokenKind),
     (''Conditional'', Some ''?'', 3, TokenKind),
     (''Arrow'', Some ''=>'', 0, TokenKind),
     (''Assign'', Some ''='', 2, TokenKind),
     (''AssignBitOr'', Some ''|='', 2, TokenKind),
     (''AssignBitXor'', Some ''^='', 2, TokenKind),
     (''AssignBitAnd'', Some ''&='', 2, TokenKind),
     (''AssignShl'', Some ''<<='', 2, TokenKind),
     (''AssignSar'', Some ''>>='', 2, TokenKind),
     (''AssignShr'', Some ''>>>='', 2, TokenKind),
     (''AssignAdd'', Some ''+='', 2, TokenKind),
     (''AssignSub'', Some ''-='', 2, TokenKind),
     (''AssignMul'', Some ''*='', 2, TokenKind),
     (''AssignDiv'', Some ''/='', 2, TokenKind),
     (''AssignMod'', Some ''%='', 2, TokenKind),
     (''Comma'', Some '','', 1, TokenKind),
     (''Or'', Some ''||'', 4, TokenKind),
     (''And'', Some ''&&'', 5, TokenKind),
     (''BitOr'', Some ''|'', 8, TokenKind),
     (''BitXor'', Some ''^'', 9, TokenKind),
     (''BitAnd'', Some ''&'', 10, TokenKind),
     (''SHL'', Some ''<<'', 11, TokenKind),
     (''SAR'', Some ''>>'', 11, TokenKind),
     (''SHR'', Some ''>>>'', 11, TokenKind),
     (''Add'', Some ''+'', 12, TokenKind),
     (''Sub'', Some ''-'', 12, TokenKind),
     (''Mul'', Some ''*'', 13, TokenKind),
     (''Div'', Some ''/'', 13, TokenKind),
     (''Mod'', Some ''%'', 13, TokenKind),
     (''Exp'', Some ''**'', 14, TokenKind),
     (''Equal'', Some ''=='', 6, TokenKind),
     (''NotEqual'', Some ''!='', 6, TokenKind),
     (''LessThan'', Some ''<'', 7, TokenKind),
     (''GreaterThan'', Some ''>'', 7, TokenKind),
     (''LessThanOrEqual'', Some ''<='', 7, TokenKind),
     (''GreaterThanOrEqual'', Some ''>='', 7, TokenKind),
     (''Not'', Some ''!'', 0, TokenKind),
     (''BitNot'', Some ''~'', 0, TokenKind),
     (''Inc'', Some ''++'', 0, TokenKind),
     (''Dec'', Some ''--'', 0, TokenKind),
     (''Delete'', Some ''delete'', 0, KeywordKind),
     (''Anonymous'', Some ''anonymous'', 0, KeywordKind),
     (''As'', Some ''as'', 0, KeywordKind),
     (''Assembly'', Some ''assembly'', 0, KeywordKind),
     (''Break'', Some ''break'', 0, KeywordKind),
     (''Constant'', Some ''constant'', 0, KeywordKind),
     (''Continue'', Some ''continue'', 0, KeywordKind),
     (''Contract'', Some ''contract'', 0, KeywordKind),
     (''Do'', Some ''do'', 0, KeywordKind),
     (''Else'', Some ''else'', 0, KeywordKind),
     (''Enum'', Some ''enum'', 0, KeywordKind),
     (''Event'', Some ''event'', 0, KeywordKind),
     (''External'', Some ''external'', 0, KeywordKind),
     (''For'', Some ''for'', 0, KeywordKind),
     (''Function'', Some ''function'', 0, KeywordKind),
     (''Hex'', Some ''hex'', 0, KeywordKind),
     (''If'', Some ''if'', 0, KeywordKind),
     (''Indexed'', Some ''indexed'', 0, KeywordKind),
     (''Interface'', Some ''interface'', 0, KeywordKind),
     (''Internal'', Some ''internal'', 0, KeywordKind),
     (''Import'', Some ''import'', 0, KeywordKind),
     (''Is'', Some ''is'', 0, KeywordKind),
     (''Library'', Some ''library'', 0, KeywordKind),
     (''Mapping'', Some ''mapping'', 0, KeywordKind),
     (''Memory'', Some ''memory'', 0, KeywordKind),
     (''Modifier'', Some ''modifier'', 0, KeywordKind),
     (''New'', Some ''new'', 0, KeywordKind),
     (''Payable'', Some ''payable'', 0, KeywordKind),
     (''Public'', Some ''public'', 0, KeywordKind),
     (''Pragma'', Some ''pragma'', 0, KeywordKind),
     (''Private'', Some ''private'', 0, KeywordKind),
     (''Pure'', Some ''pure'', 0, KeywordKind),
     (''Return'', Some ''return'', 0, KeywordKind),
     (''Returns'', Some ''returns'', 0, KeywordKind),
     (''Storage'', Some ''storage'', 0, KeywordKind),
     (''Struct'', Some ''struct'', 0, KeywordKind),
     (''Throw'', Some ''throw'', 0, KeywordKind),
     (''Using'', Some ''using'', 0, KeywordKind),
     (''Var'', Some ''var'', 0, KeywordKind),
     (''View'', Some ''view'', 0, KeywordKind),
     (''While'', Some ''while'', 0, KeywordKind),
     (''SubWei'', Some ''wei'', 0, KeywordKind),
     (''SubSzabo'', Some ''szabo'', 0, KeywordKind),
     (''SubFinney'', Some ''finney'', 0, KeywordKind),
     (''SubEther'', Some ''ether'', 0, KeywordKind),
     (''SubSecond'', Some ''seconds'', 0, KeywordKind),
     (''SubMinute'', Some ''minutes'', 0, KeywordKind),
     (''SubHour'', Some ''hours'', 0, KeywordKind),
     (''SubDay'', Some ''days'', 0, KeywordKind),
     (''SubWeek'', Some ''weeks'', 0, KeywordKind),
     (''SubYear'', Some ''years'', 0, KeywordKind),
     (''Int'', Some ''int'', 0, KeywordKind),
     (''UInt'', Some ''uint'', 0, KeywordKind),
     (''Bytes'', Some ''bytes'', 0, KeywordKind),
     (''Byte'', Some ''byte'', 0, KeywordKind),
     (''String'', Some ''string'', 0, KeywordKind),
     (''Address'', Some ''address'', 0, KeywordKind),
     (''Bool'', Some ''bool'', 0, KeywordKind),
     (''Fixed'', Some ''fixed'', 0, KeywordKind),
     (''UFixed'', Some ''ufixed'', 0, KeywordKind),
     (''IntM'', Some ''intM'', 0, TokenKind),
     (''UIntM'', Some ''uintM'', 0, TokenKind),
     (''BytesM'', Some ''bytesM'', 0, TokenKind),
     (''FixedMxN'', Some ''fixedMxN'', 0, TokenKind),
     (''UFixedMxN'', Some ''ufixedMxN'', 0, TokenKind),
     (''TypesEnd'', None, 0, TokenKind),
     (''TrueLiteral'', Some ''true'', 0, KeywordKind),
     (''FalseLiteral'', Some ''false'', 0, KeywordKind),
     (''Number'', None, 0, TokenKind),
     (''StringLiteral'', None, 0, TokenKind),
     (''CommentLiteral'', None, 0, TokenKind),
     (''Identifier'', None, 0, TokenKind),
     (''Abstract'', Some ''abstract'', 0, KeywordKind),
     (''After'', Some ''after'', 0, KeywordKind),
     (''Case'', Some ''case'', 0, KeywordKind),
     (''Catch'', Some ''catch'', 0, KeywordKind),
     (''Default'', Some ''default'', 0, KeywordKind),
     (''Final'', Some ''final'', 0, KeywordKind),
     (''In'', Some ''in'', 0, KeywordKind),
     (''Inline'', Some ''inline'', 0, KeywordKind),
     (''Let'', Some ''let'', 0, KeywordKind),
     (''Match'', Some ''match'', 0, KeywordKind),
     (''NullLiteral'', Some ''null'', 0, KeywordKind),
     (''Of'', Some ''of'', 0, KeywordKind),
     (''Relocatable'', Some ''relocatable'', 0, KeywordKind),
     (''Static'', Some ''static'', 0, KeywordKind),
     (''Switch'', Some ''switch'', 0, KeywordKind),
     (''Try'', Some ''try'', 0, KeywordKind),
     (''Type'', Some ''type'', 0, KeywordKind),
     (''TypeOf'', Some ''typeof'', 0, KeywordKind),
     (''Illegal'', Some ''ILLEGAL'', 0, TokenKind),
     (''Whitespace'', None, 0, TokenKind)]"

definition token_row :: "Token \<Rightarrow> (string \<times> string option \<times> int \<times> TokenCategory) res" where
  "token_row tok = assertThrow (0 \<le> tok \<and> tok < NUM_TOKENS) SolAssert (Inr (tokenList ! nat tok))"

definition token_name :: "Token \<Rightarrow> string res" where
  "token_name tok = bindR (token_row tok) (\<lambda>(name, str, prec, kind). Inr name)"

definition token_toString :: "Token \<Rightarrow> string option res" where
  "token_toString tok = bindR (token_row tok) (\<lambda>(name, str, prec, kind). Inr str)"

definition token_friendlyName :: "Token \<Rightarrow> string res" where
  "token_friendlyName tok =
     bindR (token_toString tok) (\<lambda>str. case str of None \<Rightarrow> token_name tok | Some s \<Rightarrow> Inr s)"

definition token_precedence :: "Token \<Rightarrow> int res" where
  "token_precedence tok = bindR (token_row tok) (\<lambda>(name, str, prec, kind). Inr prec)"

section \<open>Classes\<close>

definition isElementaryTypeName :: "Token \<Rightarrow> bool" where
  "isElementaryTypeName tok \<longleftrightarrow> T_Int \<le> tok \<and> tok < T_TypesEnd"

definition isAssignmentOp :: "Token \<Rightarrow> bool" where
  "isAssignmentOp tok \<longleftrightarrow> T_Assign \<le> tok \<and> tok \<le> T_AssignMod"

definition isBinaryOp :: "Token \<Rightarrow> bool" where
  "isBinaryOp op \<longleftrightarrow> T_Comma \<le> op \<and> op \<le> T_Exp"

definition isCommutativeOp :: "Token \<Rightarrow> bool" where
  "isCommutativeOp op \<longleftrightarrow> op = T_BitOr \<or> op = T_BitXor \<or> op = T_BitAnd \<or>
     op = T_Add \<or> op = T_Mul \<or> op = T_Equal \<or> op = T_NotEqual"

definition isArithmeticOp :: "Token \<Rightarrow> bool" where
  "isArithmeticOp op \<longleftrightarrow> T_Add \<le> op \<and> op \<le> T_Exp"

definition isCompareOp :: "Token \<Rightarrow> bool" where
  "isCompareOp op \<longleftrightarrow> T_Equal \<le> op \<and> op \<le> T_GreaterThanOrEqual"

definition AssignmentToBinaryOp :: "Token \<Rightarrow> Token res" where
  "AssignmentToBinaryOp op =
     assertThrow (isAssignmentOp op \<and> op \<noteq> T_Assign) SolAssert (Inr (op + (T_BitOr - T_AssignBitOr)))"

definition isBitOp :: "Token \<Rightarrow> bool" where
  "isBitOp op \<longleftrightarrow> (T_BitOr \<le> op \<and> op \<le> T_BitAnd) \<or> op = T_BitNot"

definition isBooleanOp :: "Token \<Rightarrow> bool" where
  "isBooleanOp op \<longleftrightarrow> (T_Or \<le> op \<and> op \<le> T_And) \<or> op = T_Not"

definition isUnaryOp :: "Token \<Rightarrow> bool" where
  "isUnaryOp op \<longleftrightarrow> (T_Not \<le> op \<and> op \<le> T_Delete) \<or> op = T_Add \<or> op = T_Sub"

definition isCountOp :: "Token \<Rightarrow> bool" where
  "isCountOp op \<longleftrightarrow> op = T_Inc \<or> op = T_Dec"

definition isShiftOp :: "Token \<Rightarrow> bool" where
  "isShiftOp op \<longleftrightarrow> T_SHL \<le> op \<and> op \<le> T_SHR"

definition isVariableVisibilitySpecifier :: "Token \<Rightarrow> bool" where
  "isVariableVisibilitySpecifier op \<longleftrightarrow> op = T_Public \<or> op = T_Private \<or> op = T_Internal"

definition isVisibilitySpecifier :: "Token \<Rightarrow> bool" where
  "isVisibilitySpecifier op \<longleftrightarrow> isVariableVisibilitySpecifier op \<or> op = T_External"

definition isLocationSpecifier :: "Token \<Rightarrow> bool" where
  "isLocationSpecifier op \<longleftrightarrow> op = T_Memory \<or> op = T_Storage"

definition isStateMutabilitySpecifier :: "Token \<Rightarrow> bool" where
  "isStateMutabilitySpecifier op \<longleftrightarrow> op = T_Pure \<or> op = T_Constant \<or> op = T_View \<or> op = T_Payable"

definition isEtherSubdenomination :: "Token \<Rightarrow> bool" where
  "isEtherSubdenomination op \<longleftrightarrow> op = T_SubWei \<or> op = T_SubSzabo \<or> op = T_SubFinney \<or> op = T_SubEther"

definition isTimeSubdenomination :: "Token \<Rightarrow> bool" where
  "isTimeSubdenomination op \<longleftrightarrow>
     op = T_SubSecond \<or> op = T_SubMinute \<or> op = T_SubHour \<or> op = T_SubDay \<or> op = T_SubWeek \<or> op = T_SubYear"

definition isReservedKeyword :: "Token \<Rightarrow> bool" where
  "isReservedKeyword op \<longleftrightarrow> T_Abstract \<le> op \<and> op \<le> T_TypeOf"

section \<open>Identifiers and keywords\<close>

text \<open>The map \<open>keywords\<close> and its search; a token's value is its place in the list.\<close>

fun keywordsFrom :: "Token \<Rightarrow> (string \<times> string option \<times> int \<times> TokenCategory) list \<Rightarrow> (string \<times> Token) list" where
  "keywordsFrom tok [] = []"
| "keywordsFrom tok ((name, str, prec, kind) # rows) =
     (case (kind, str) of (KeywordKind, Some s) \<Rightarrow> [(s, tok)] | _ \<Rightarrow> []) @ keywordsFrom (tok + 1) rows"

definition keywordByName :: "string \<Rightarrow> Token" where
  "keywordByName name = (case map_of (keywordsFrom 0 tokenList) name of None \<Rightarrow> T_Identifier | Some tok \<Rightarrow> tok)"

definition isdigit :: "char \<Rightarrow> bool" where
  "isdigit c \<longleftrightarrow> 48 \<le> (of_char c :: nat) \<and> (of_char c :: nat) \<le> 57"

definition parseSize :: "(string \<Rightarrow> int option) \<Rightarrow> string \<Rightarrow> int" where
  "parseSize lexical_cast s = (case lexical_cast s of Some m \<Rightarrow> m | None \<Rightarrow> - 1)"

text \<open>The part of \<open>fromIdentifierOrKeyword\<close> for a literal with a digit: \<open>digits\<close> from the first one on, \<open>fromX\<close> after them.\<close>

definition sizedTypeToken :: "(string \<Rightarrow> int option) \<Rightarrow> Token \<Rightarrow> string \<Rightarrow> string \<Rightarrow> Token \<times> nat \<times> nat" where
  "sizedTypeToken lexical_cast keyword digits fromX =
     (let m = parseSize lexical_cast digits
      in if keyword = T_Bytes then
           (if 0 < m \<and> m \<le> 32 \<and> fromX = [] then (T_BytesM, nat m, 0) else (T_Identifier, 0, 0))
         else if keyword = T_UInt \<or> keyword = T_Int then
           (if 0 < m \<and> m \<le> 256 \<and> m mod 8 = 0 \<and> fromX = [] then
              (if keyword = T_UInt then (T_UIntM, nat m, 0) else (T_IntM, nat m, 0))
            else (T_Identifier, 0, 0))
         else if keyword = T_UFixed \<or> keyword = T_Fixed then
           (if digits \<noteq> [] \<and> fromX \<noteq> [] \<and> hd fromX = CHR ''x'' \<and> list_all isdigit (tl fromX) then
              (let n = parseSize lexical_cast (tl fromX)
               in if 8 \<le> m \<and> m \<le> 256 \<and> m mod 8 = 0 \<and> 0 \<le> n \<and> n \<le> 80 then
                    (if keyword = T_UFixed then (T_UFixedMxN, nat m, nat n) else (T_FixedMxN, nat m, nat n))
                  else (T_Identifier, 0, 0))
            else (T_Identifier, 0, 0))
         else (T_Identifier, 0, 0))"

definition fromIdentifierOrKeyword :: "(string \<Rightarrow> int option) \<Rightarrow> string \<Rightarrow> Token \<times> nat \<times> nat" where
  "fromIdentifierOrKeyword lexical_cast literal =
     (let baseType = takeWhile (\<lambda>c. \<not> isdigit c) literal;
          fromM = dropWhile (\<lambda>c. \<not> isdigit c) literal
      in if fromM \<noteq> []
         then sizedTypeToken lexical_cast (keywordByName baseType) (takeWhile isdigit fromM) (dropWhile isdigit fromM)
         else (keywordByName literal, 0, 0))"

section \<open>Elementary type names\<close>

record ElementaryTypeNameToken =
  et_token :: Token
  et_firstNumber :: nat
  et_secondNumber :: nat

text \<open>The constructor runs \<open>assertDetails\<close>.\<close>

definition assertDetails :: "Token \<Rightarrow> nat \<Rightarrow> nat \<Rightarrow> ElementaryTypeNameToken res" where
  "assertDetails baseType first second =
     assertThrow (isElementaryTypeName baseType) SolAssert
       (let this = Inr \<lparr>et_token = baseType, et_firstNumber = first, et_secondNumber = second\<rparr>
        in if baseType = T_BytesM then
             assertThrow (second = 0) SolAssert (assertThrow (first \<le> 32) SolAssert this)
           else if baseType = T_UIntM \<or> baseType = T_IntM then
             assertThrow (second = 0) SolAssert (assertThrow (first \<le> 256 \<and> first mod 8 = 0) SolAssert this)
           else if baseType = T_UFixedMxN \<or> baseType = T_FixedMxN then
             assertThrow (first \<ge> 8 \<and> first \<le> 256 \<and> first mod 8 = 0 \<and> second \<le> 80) SolAssert this
           else this)"

definition et_toString :: "ElementaryTypeNameToken \<Rightarrow> bool \<Rightarrow> string res" where
  "et_toString t tokenValue =
     bindR (token_toString (et_token t)) (\<lambda>str.
       let name = (case str of None \<Rightarrow> [] | Some s \<Rightarrow> s)
       in if tokenValue \<or> (et_firstNumber t = 0 \<and> et_secondNumber t = 0) then Inr name
          else assertThrow (3 \<le> length name) SolAssert
            (if et_token t = T_FixedMxN \<or> et_token t = T_UFixedMxN then
               Inr (take (length name - 3) name @ decNat (et_firstNumber t) @ ''x'' @ decNat (et_secondNumber t))
             else Inr (take (length name - 1) name @ decNat (et_firstNumber t))))"

section \<open>Tables\<close>

lemma tokenList_length: "length tokenList = nat NUM_TOKENS"
  by (simp add: tokenList_def NUM_TOKENS_def)

text \<open>An assignment operator and the operator it applies have the same name but for the prefix.\<close>

lemma assignment_operators_checked:
  "list_all (\<lambda>tok. case (AssignmentToBinaryOp tok, token_name tok) of
       (Inr op, Inr name) \<Rightarrow> isBinaryOp op \<and> (case token_toString op of
           Inr (Some s) \<Rightarrow> token_toString tok = Inr (Some (s @ ''='')) | _ \<Rightarrow> False)
     | _ \<Rightarrow> False) [T_AssignBitOr, T_AssignBitXor, T_AssignBitAnd, T_AssignShl, T_AssignSar, T_AssignShr,
       T_AssignAdd, T_AssignSub, T_AssignMul, T_AssignDiv, T_AssignMod]"
  by code_simp

lemma assignment_operators:
  assumes "isAssignmentOp tok" "tok \<noteq> T_Assign"
  shows "\<exists>op s. AssignmentToBinaryOp tok = Inr op \<and> isBinaryOp op \<and> token_toString op = Inr (Some s) \<and>
    token_toString tok = Inr (Some (s @ ''=''))"
proof -
  from assms have "tok \<in> set [13, 14, 15, 16, 17, 18, 19, 20, 21, 22, 23]" by (simp add: isAssignmentOp_def) presburger
  then show ?thesis
    using assignment_operators_checked
    by (force simp: list_all_iff split: sum.splits option.splits)
qed

section \<open>Decimal numbers\<close>

definition decVal :: "string \<Rightarrow> nat" where
  "decVal s = foldl (\<lambda>v c. v * 10 + (of_char c - 48)) 0 s"

lemma isdigit_char: "d < 10 \<Longrightarrow> isdigit (char_of (48 + d :: nat))"
  by (simp add: isdigit_def)

lemma decNat_digits: "decNat n \<noteq> [] \<and> list_all isdigit (decNat n)"
proof (induction n rule: decNat.induct)
  case (1 n)
  then show ?case by (auto simp: decNat.simps [of n] isdigit_char)
qed

lemma decVal_decNat: "decVal (decNat n) = n"
proof (induction n rule: decNat.induct)
  case (1 n)
  then show ?case by (simp add: decNat.simps [of n] decVal_def)
qed

text \<open>What the parameter promises: the value of a decimal number that fits into an \<open>int\<close>.\<close>

definition lexical_ok :: "(string \<Rightarrow> int option) \<Rightarrow> bool" where
  "lexical_ok lexical_cast \<longleftrightarrow>
     (\<forall>s. list_all isdigit s \<and> s \<noteq> [] \<longrightarrow>
        lexical_cast s = (if decVal s < 2 ^ 31 then Some (int (decVal s)) else None))"

lemma parseSize_decNat: "lexical_ok lc \<Longrightarrow> n < 2 ^ 31 \<Longrightarrow> parseSize lc (decNat n) = int n"
  using decNat_digits [of n] by (simp add: lexical_ok_def parseSize_def decVal_decNat)

section \<open>Keywords\<close>

lemma keywordByName_types:
  "keywordByName ''bytes'' = T_Bytes" "keywordByName ''uint'' = T_UInt" "keywordByName ''int'' = T_Int"
  "keywordByName ''fixed'' = T_Fixed" "keywordByName ''ufixed'' = T_UFixed"
  by code_simp+

lemma keywords_not_sized:
  "list_all (\<lambda>(s, t). t \<notin> {T_IntM, T_UIntM, T_BytesM, T_FixedMxN, T_UFixedMxN}) (keywordsFrom 0 tokenList)"
  by code_simp

lemma keywordByName_not_sized:
  "keywordByName s \<notin> {T_IntM, T_UIntM, T_BytesM, T_FixedMxN, T_UFixedMxN}"
proof (cases "map_of (keywordsFrom 0 tokenList) s")
  case (Some t)
  from bspec [OF keywords_not_sized [unfolded list_all_iff] map_of_SomeD [OF this]] Some show ?thesis
    by (simp add: keywordByName_def)
qed (simp add: keywordByName_def)

text \<open>The sizes a sized type can have.\<close>

definition sizedType :: "Token \<Rightarrow> nat \<Rightarrow> nat \<Rightarrow> bool" where
  "sizedType tok m n \<longleftrightarrow>
     tok = T_BytesM \<and> 0 < m \<and> m \<le> 32 \<and> n = 0 \<or>
     (tok = T_UIntM \<or> tok = T_IntM) \<and> 0 < m \<and> m \<le> 256 \<and> m mod 8 = 0 \<and> n = 0 \<or>
     (tok = T_UFixedMxN \<or> tok = T_FixedMxN) \<and> 8 \<le> m \<and> m \<le> 256 \<and> m mod 8 = 0 \<and> n \<le> 80"

lemma nat_mod_8: "0 \<le> k \<Longrightarrow> k mod 8 = 0 \<Longrightarrow> nat k mod 8 = 0"
  by presburger

lemma sizedTypeToken_cases:
  "sizedTypeToken lc keyword digits fromX = (tok, m, n) \<Longrightarrow> tok = T_Identifier \<or> sizedType tok m n"
  unfolding sizedTypeToken_def sizedType_def Let_def
  by (simp split: if_splits) (use nat_mod_8 in auto)

lemma type_token_accepted:
  assumes "fromIdentifierOrKeyword lc literal = (tok, m, n)" "isElementaryTypeName tok"
  shows "assertDetails tok m n = Inr \<lparr>et_token = tok, et_firstNumber = m, et_secondNumber = n\<rparr>"
proof (cases "dropWhile (\<lambda>c. \<not> isdigit c) literal = []")
  case True
  then have "tok = keywordByName literal" "m = 0" "n = 0"
    using assms(1) unfolding fromIdentifierOrKeyword_def Let_def by simp_all
  with assms(2) keywordByName_not_sized [of literal] show ?thesis by (simp add: assertDetails_def)
next
  case False
  then have "tok = T_Identifier \<or> sizedType tok m n"
    using assms(1) sizedTypeToken_cases unfolding fromIdentifierOrKeyword_def Let_def by simp
  then show ?thesis using assms(2) by (auto simp: sizedType_def assertDetails_def isElementaryTypeName_def)
qed

text \<open>A sized type is read back from its name.\<close>

lemma span_name:
  assumes "list_all (\<lambda>c. \<not> isdigit c) base"
  shows "takeWhile (\<lambda>c. \<not> isdigit c) (base @ decNat m @ rest) = base"
    and "dropWhile (\<lambda>c. \<not> isdigit c) (base @ decNat m @ rest) = decNat m @ rest"
  using assms decNat_digits [of m]
  by (cases "decNat m"; simp add: takeWhile_append2 dropWhile_append2 list_all_iff)+

lemma span_digits:
  assumes "rest = [] \<or> \<not> isdigit (hd rest)"
  shows "takeWhile isdigit (decNat m @ rest) = decNat m" "dropWhile isdigit (decNat m @ rest) = rest"
  using assms decNat_digits [of m]
  by (cases rest; simp add: takeWhile_append2 dropWhile_append2 list_all_iff)+

lemma fromIdentifier_sized:
  assumes "list_all (\<lambda>c. \<not> isdigit c) base" "rest = [] \<or> \<not> isdigit (hd rest)"
  shows "fromIdentifierOrKeyword lc (base @ decNat m @ rest) = sizedTypeToken lc (keywordByName base) (decNat m) rest"
  using decNat_digits [of m]
  unfolding fromIdentifierOrKeyword_def Let_def span_name [OF assms(1)] span_digits [OF assms(2)] by simp

lemma type_strings:
  "token_toString T_BytesM = Inr (Some ''bytesM'')" "token_toString T_UIntM = Inr (Some ''uintM'')"
  "token_toString T_IntM = Inr (Some ''intM'')" "token_toString T_UFixedMxN = Inr (Some ''ufixedMxN'')"
  "token_toString T_FixedMxN = Inr (Some ''fixedMxN'')"
  by code_simp+

lemma type_bases:
  "list_all (list_all (\<lambda>c. \<not> isdigit c)) [''bytes'', ''uint'', ''int'', ''ufixed'', ''fixed'']"
  by code_simp

lemma type_token_printed_read:
  assumes "lexical_ok lc" "sizedType tok m n"
  shows "\<exists>s. et_toString \<lparr>et_token = tok, et_firstNumber = m, et_secondNumber = n\<rparr> False = Inr s \<and>
    fromIdentifierOrKeyword lc s = (tok, m, n)"
proof -
  have small: "m < 2 ^ 31" "n < 2 ^ 31" using assms(2) by (auto simp: sizedType_def)
  have size: "parseSize lc (decNat m) = int m" "parseSize lc (decNat n) = int n"
    using parseSize_decNat [OF assms(1)] small by auto
  have mod: "int m mod 8 = 0" if "m mod 8 = 0" using that by presburger
  have ne: "decNat m \<noteq> []" "list_all isdigit (decNat n)" using decNat_digits by auto
  have x: "''x'' @ decNat n = [] \<or> \<not> isdigit (hd (''x'' @ decNat n))" by (simp add: isdigit_def)
  from assms(2) consider
    (bytes) "tok = T_BytesM" "0 < m" "m \<le> 32" "n = 0" | (uint) "tok = T_UIntM" "0 < m" "m \<le> 256" "m mod 8 = 0" "n = 0"
    | (int) "tok = T_IntM" "0 < m" "m \<le> 256" "m mod 8 = 0" "n = 0"
    | (ufixed) "tok = T_UFixedMxN" "8 \<le> m" "m \<le> 256" "m mod 8 = 0" "n \<le> 80"
    | (fixed) "tok = T_FixedMxN" "8 \<le> m" "m \<le> 256" "m mod 8 = 0" "n \<le> 80" by (auto simp: sizedType_def)
  then show ?thesis
  proof cases
    case bytes
    have "fromIdentifierOrKeyword lc (''bytes'' @ decNat m @ []) = (tok, m, n)"
      using bytes size type_bases by (subst fromIdentifier_sized) (simp_all only: sizedTypeToken_def keywordByName_types, simp_all)
    then show ?thesis using bytes by (simp add: et_toString_def type_strings)
  next
    case uint
    have "fromIdentifierOrKeyword lc (''uint'' @ decNat m @ []) = (tok, m, n)"
      using uint size mod type_bases by (subst fromIdentifier_sized) (simp_all only: sizedTypeToken_def keywordByName_types, simp_all)
    then show ?thesis using uint by (simp add: et_toString_def type_strings)
  next
    case int
    have "fromIdentifierOrKeyword lc (''int'' @ decNat m @ []) = (tok, m, n)"
      using int size mod type_bases by (subst fromIdentifier_sized) (simp_all only: sizedTypeToken_def keywordByName_types, simp_all)
    then show ?thesis using int by (simp add: et_toString_def type_strings)
  next
    case ufixed
    have "fromIdentifierOrKeyword lc (''ufixed'' @ decNat m @ ''x'' @ decNat n) = (tok, m, n)"
      using ufixed size mod ne x type_bases
      by (subst fromIdentifier_sized) (simp_all only: sizedTypeToken_def keywordByName_types, simp_all)
    then show ?thesis using ufixed by (simp add: et_toString_def type_strings)
  next
    case fixed
    have "fromIdentifierOrKeyword lc (''fixed'' @ decNat m @ ''x'' @ decNat n) = (tok, m, n)"
      using fixed size mod ne x type_bases
      by (subst fromIdentifier_sized) (simp_all only: sizedTypeToken_def keywordByName_types, simp_all)
    then show ?thesis using fixed by (simp add: et_toString_def type_strings)
  qed
qed

end
