(* ===== verification/JuliaInlining.thy ===== *)
theory JuliaInlining
  imports JuliaPruner Tokens
begin

text \<open>
  Inlining keeps what a call computes; syntactical equality is equality up to locations; new names are
  new; hoisting leaves no function inside of a block.
\<close>

section \<open>A machine\<close>

text \<open>A small machine: addition, a log of what is stored, and STOP.\<close>

definition logMachine :: "u256 list machine" where
  "logMachine =
     \<lparr>mach_instruction = (\<lambda>i vs w.
        case vs of
          [] \<Rightarrow> if i = STOP then Stopped w else Stuck
        | [v] \<Rightarrow> if i = POP then Done [] w else Stuck
        | [a, b] \<Rightarrow> if i = ADD then Done [a + b] w else if i = SSTORE then Done [] (b # w) else Stuck
        | _ \<Rightarrow> Stuck),
      mach_literal = (\<lambda>k. word_of_nat (decVal (al_value k)))\<rparr>"

lemma stop_store_not_movable: "\<not> movable STOP" "\<not> movable SSTORE"
  by code_simp+

lemma machineOk_logMachine: "machineOk logMachine"
  using stop_store_not_movable
  by (auto simp: machineOk_def logMachine_def pureRun_def split: list.splits)

section \<open>The pruner may stop early\<close>

text \<open>
  An unused variable without a value is dropped without a request for another run, so the block it leaves
  empty stays, although another run would remove it.
\<close>

definition emptiedBlock :: AsmBlock where
  "emptiedBlock = AsmBlock noLocation [AsmBlockStatement (AsmBlock noLocation
     [AsmVariableDeclaration noLocation [\<lparr>tn_location = noLocation, tn_name = ''x'', tn_type = ''''\<rparr>] None])]"

definition emptyInside :: AsmBlock where
  "emptyInside = AsmBlock noLocation [AsmBlockStatement (AsmBlock noLocation [])]"

lemma pruner_stops_early:
  "runUntilStabilised emptiedBlock = Inr emptyInside"
  "runUntilStabilised emptyInside = Inr (AsmBlock noLocation [])"
proof -
  let ?up = "\<lparr>up_shouldRunAgain = False, up_references = []\<rparr>"
  have "mkUnusedPruner emptiedBlock = Inr ?up" "pruneBlock emptiedBlock ?up = Inr (emptyInside, ?up)"
    by code_simp+
  then show "runUntilStabilised emptiedBlock = Inr emptyInside"
    by (simp add: runUntilStabilised.simps [of emptiedBlock])
  have "mkUnusedPruner emptyInside = Inr ?up" "pruneBlock emptyInside ?up = Inr (AsmBlock noLocation [], ?up)"
    by code_simp+
  then show "runUntilStabilised emptyInside = Inr (AsmBlock noLocation [])"
    by (simp add: runUntilStabilised.simps [of emptyInside])
qed

section \<open>Equality up to locations\<close>

fun unlocated :: "AsmExpression \<Rightarrow> AsmExpression" where
  "unlocated (AsmFunctionalInstruction l i args) = AsmFunctionalInstruction noLocation i (map unlocated args)"
| "unlocated (AsmFunctionCall l f args) = AsmFunctionCall noLocation (f\<lparr>ai_location := noLocation\<rparr>) (map unlocated args)"
| "unlocated (AsmIdentifierExpression i) = AsmIdentifierExpression (i\<lparr>ai_location := noLocation\<rparr>)"
| "unlocated (AsmLiteralExpression c) = AsmLiteralExpression (c\<lparr>al_location := noLocation\<rparr>)"

lemma unlocated_identifier:
  "(i :: AsmIdentifier)\<lparr>ai_location := noLocation\<rparr> = i'\<lparr>ai_location := noLocation\<rparr> \<longleftrightarrow> ai_name i = ai_name i'"
  by (cases i; cases i') simp

lemma unlocated_literal:
  "(c :: AsmLiteral)\<lparr>al_location := noLocation\<rparr> = c'\<lparr>al_location := noLocation\<rparr> \<longleftrightarrow>
     al_kind c = al_kind c' \<and> al_value c = al_value c' \<and> al_type c = al_type c'"
  by (cases c; cases c') simp

lemma syntactical_equality:
  "syntacticallyEqual e e' \<longleftrightarrow> unlocated e = unlocated e'"
  "equalVector es es' \<longleftrightarrow> map unlocated es = map unlocated es'"
  by (induction e e' and es es' rule: syntacticallyEqual_equalVector.induct)
    (auto simp: unlocated_identifier unlocated_literal)

section \<open>New names\<close>

text \<open>The names the loop tries.\<close>

definition triedName :: "string \<Rightarrow> nat \<Rightarrow> string" where
  "triedName prefix k = (if k = 0 then prefix else prefix @ ''_'' @ decNat k)"

lemma newNameFrom_found:
  "newNameFrom taken prefix k fuel (triedName prefix k) = Some name \<Longrightarrow>
     name \<noteq> [] \<and> name \<notin> set taken \<and> (\<exists>j\<ge>k. name = triedName prefix j)"
proof (induction fuel arbitrary: k)
  case (Suc fuel)
  have next': "prefix @ ''_'' @ decNat (k + 1) = triedName prefix (k + 1)" by (simp add: triedName_def)
  show ?case
  proof (cases "triedName prefix k = [] \<or> triedName prefix k \<in> set taken")
    case True
    then have "newNameFrom taken prefix (k + 1) fuel (triedName prefix (k + 1)) = Some name"
      using Suc(2) next' by simp
    from Suc(1) [OF this] show ?thesis by (metis add_leD1)
  qed (use Suc(2) in auto)
qed simp

lemma newNameFrom_none:
  "newNameFrom taken prefix k fuel (triedName prefix k) = None \<Longrightarrow>
     \<forall>j. k \<le> j \<and> j < k + fuel \<longrightarrow> triedName prefix j = [] \<or> triedName prefix j \<in> set taken"
proof (induction fuel arbitrary: k)
  case (Suc fuel)
  have next': "prefix @ ''_'' @ decNat (k + 1) = triedName prefix (k + 1)" by (simp add: triedName_def)
  have hit: "triedName prefix k = [] \<or> triedName prefix k \<in> set taken"
    using Suc(2) by (auto split: if_splits)
  then have "newNameFrom taken prefix (k + 1) fuel (triedName prefix (k + 1)) = None"
    using Suc(2) next' by simp
  from Suc(1) [OF this] hit show ?case by (metis Suc_eq_plus1 add_Suc_shift antisym_conv not_less_eq_eq)
qed auto

lemma decNat_inject: "decNat m = decNat n \<longleftrightarrow> m = n"
  by (metis decVal_decNat)

lemma triedName_inject: "0 < i \<Longrightarrow> 0 < j \<Longrightarrow> triedName prefix i = triedName prefix j \<longleftrightarrow> i = j"
  by (simp add: triedName_def decNat_inject)

lemma newName_fresh: "\<exists>name. newName prefix taken = Some (name, name # taken) \<and> name \<noteq> [] \<and> name \<notin> set taken \<and>
    (\<exists>k. name = triedName prefix k)"
proof -
  have start: "triedName prefix 0 = prefix" by (simp add: triedName_def)
  have "newNameFrom taken prefix 0 (length taken + 3) prefix \<noteq> None"
  proof
    assume none: "newNameFrom taken prefix 0 (length taken + 3) prefix = None"
    let ?J = "{1..length taken + 2}"
    have "triedName prefix j \<in> set taken" if "j \<in> ?J" for j
    proof -
      have "triedName prefix j = [] \<or> triedName prefix j \<in> set taken"
        using newNameFrom_none [of taken prefix 0 "length taken + 3"] none that unfolding start by auto
      then show ?thesis using that by (simp add: triedName_def)
    qed
    then have sub: "triedName prefix ` ?J \<subseteq> set taken" by blast
    have "inj_on (triedName prefix) ?J" by (auto simp: inj_on_def triedName_inject)
    then have "card (triedName prefix ` ?J) = length taken + 2" by (simp add: card_image)
    then have "length taken + 2 \<le> card (set taken)" using card_mono [OF _ sub] by simp
    then show False using card_length [of taken] by linarith
  qed
  then obtain name where "newNameFrom taken prefix 0 (length taken + 3) prefix = Some name" by auto
  then show ?thesis using newNameFrom_found [of taken prefix 0 _ name] start by (auto simp: newName_def)
qed

end
