(* ===== verification/JuliaInliner.thy ===== *)
theory JuliaInliner
  imports JuliaInlining
begin

text \<open>
  The expression inliner keeps what a program with unique function names does: the run of the program with
  calls replaced by values simulates the run of the original one.
\<close>

section \<open>Substitution\<close>

abbreviation substituted :: "(string \<rightharpoonup> AsmExpression) \<Rightarrow> AsmExpression \<Rightarrow> AsmExpression" where
  "substituted sub \<equiv> translateExpression (substitution sub)"

lemma substituted_simps [simp]:
  "substituted sub (AsmFunctionalInstruction l i args) = AsmFunctionalInstruction l i (map (substituted sub) args)"
  "substituted sub (AsmFunctionCall l f args) = AsmFunctionCall l f (map (substituted sub) args)"
  "substituted sub (AsmIdentifierExpression j) =
     (case sub (ai_name j) of None \<Rightarrow> AsmIdentifierExpression j | Some e \<Rightarrow> e)"
  "substituted sub (AsmLiteralExpression k) = AsmLiteralExpression k"
  by (simp_all add: substitution_def baseCopier_def translateIdentifierNode_def
      translate_base [unfolded baseCopier_def] split: option.splits)

declare translateExpression.simps [simp del]

lemma substituted_empty [simp]: "substituted Map.empty e = e"
  by (induction e) (simp_all add: list.map_ident_strong)

lemma substituted_twice:
  "substituted sub (substituted sub' e) =
     substituted (\<lambda>n. case sub' n of None \<Rightarrow> sub n | Some a \<Rightarrow> Some (substituted sub a)) e"
  by (induction e) (simp_all split: option.splits)

lemma substituted_movable:
  "movableExpression e \<Longrightarrow> (\<And>n a. sub n = Some a \<Longrightarrow> movableExpression a) \<Longrightarrow> movableExpression (substituted sub e)"
  by (induction e) (auto simp: list_all_iff split: option.splits)

section \<open>Movable expressions in every world\<close>

text \<open>A movable instruction gives the same values in every world.\<close>

definition machineStable :: "'w machine \<Rightarrow> bool" where
  "machineStable M =
     (\<forall>i vs w us w'. movable i \<longrightarrow> mach_instruction M i vs w = Done us w \<longrightarrow> mach_instruction M i vs w' = Done us w')"

lemma machineStable_logMachine: "machineStable logMachine"
  unfolding machineStable_def
proof (intro allI impI)
  fix i vs w us w' assume "movable i" "mach_instruction logMachine i vs w = Done us (w :: u256 list)"
  then show "mach_instruction logMachine i vs w' = Done us w'"
    using stop_store_not_movable by (auto simp: logMachine_def split: list.splits if_splits)
qed

lemma bindRun_done: "bindRun r f = Done x w \<longleftrightarrow> (\<exists>y v. r = Done y v \<and> f y v = Done x w)"
  by (cases r) auto

lemma single_done: "single r f = Done x w \<longleftrightarrow> (\<exists>y v. r = Done [y] v \<and> f y v = Done x w)"
proof (cases r)
  case (Done ys v)
  then show ?thesis by (cases ys rule: remdups_adj.cases) (auto simp: single_def)
qed (auto simp: single_def)

lemma pure_done: "pureRun w r \<Longrightarrow> r = Done x v \<Longrightarrow> v = w"
  by (simp add: pureRun_def)

lemma movable_stable:
  assumes "machineOk (cx_machine c)" "machineStable (cx_machine c)"
  shows "movableExpression e \<Longrightarrow> evalExpression c v e w = Done us w1 \<Longrightarrow> evalExpression c v e w' = Done us w'"
    and "list_all movableExpression args \<Longrightarrow> evalArguments c v args w = Done us w1 \<Longrightarrow>
      evalArguments c v args w' = Done us w'"
  using assms
proof (induction c v e w and c v args w arbitrary: us w1 w' and us w1 w' rule: evalExpression_evalArguments.induct)
  case (1 c vars l i args w)
  from 1(3) obtain vs w2 where a: "evalArguments c vars args w = Done vs w2"
      "mach_instruction (cx_machine c) i vs w2 = Done us w1" by (auto simp: bindRun_done)
  have i: "movable i" "list_all movableExpression args" using 1(2) by simp_all
  have "pureRun w2 (mach_instruction (cx_machine c) i vs w2)" using 1(4) i(1) by (simp add: machineOk_def)
  then have "w1 = w2" using a(2) by (rule pure_done)
  then have "mach_instruction (cx_machine c) i vs w' = Done us w'"
    using 1(5) i(1) a(2) unfolding machineStable_def by blast
  then show ?case using 1(1) [OF i(2) a(1) 1(4,5)] by simp
next
  case (6 c vars a args w)
  from 6(4) obtain vs w2 x where a: "evalArguments c vars args w = Done vs w2" "evalExpression c vars a w2 = Done [x] w1" "us = x # vs"
    by (auto simp: bindRun_done single_done)
  have m: "movableExpression a" "list_all movableExpression args" using 6(3) by simp_all
  show ?case using 6(1) [OF m(2) a(1) 6(5,6)] 6(2) [OF a(1) m(1) a(2) 6(5,6)] a(3)
    by (simp add: single_def)
qed (auto split: option.splits)

lemma movable_values:
  assumes "machineOk (cx_machine c)" "machineStable (cx_machine c)" "list_all movableExpression args"
    and "evalArguments c v args w = Done us w1"
  shows "length us = length args \<and> (\<forall>i<length args. \<forall>w'. evalExpression c v (args ! i) w' = Done [us ! i] w')"
  using assms(3,4)
proof (induction args arbitrary: us w1)
  case (Cons a args)
  then obtain vs w2 x where a: "evalArguments c v args w = Done vs w2" "evalExpression c v a w2 = Done [x] w1" "us = x # vs"
    by (auto simp: bindRun_done single_done)
  have "evalExpression c v a w' = Done [x] w'" for w'
    using movable_stable(1) [OF assms(1,2) _ a(2)] Cons(2) by simp
  moreover have "length vs = length args \<and> (\<forall>i<length args. \<forall>w'. evalExpression c v (args ! i) w' = Done [vs ! i] w')"
    using Cons(1) [OF _ a(1)] Cons(2) by simp
  ultimately show ?case using a(3) by (auto simp: nth_Cons split: nat.splits)
qed simp

section \<open>Function names\<close>

text \<open>All functions that are defined in a tree.\<close>

fun definedStatement :: "AsmStatement \<Rightarrow> frame" and definedBlock :: "AsmBlock \<Rightarrow> frame" and definedCase :: "AsmCase \<Rightarrow> frame" where
  "definedStatement (AsmFunctionDefinition l f ps rs b) = (f, ps, rs, b) # definedBlock b"
| "definedStatement (AsmIf l c b) = definedBlock b"
| "definedStatement (AsmSwitch l e cs) = concat (map definedCase cs)"
| "definedStatement (AsmForLoop l pre c post b) = definedBlock pre @ definedBlock post @ definedBlock b"
| "definedStatement (AsmBlockStatement b) = definedBlock b"
| "definedStatement _ = []"
| "definedBlock (AsmBlock l sts) = concat (map definedStatement sts)"
| "definedCase (AsmCase l k b) = definedBlock b"

text \<open>Function names are unique, and so are the parameters and return variables of a function.\<close>

definition uniqueFunctions :: "AsmBlock \<Rightarrow> bool" where
  "uniqueFunctions b =
     (distinct (map fst (definedBlock b)) \<and>
      (\<forall>(f, ps, rs, b')\<in>set (definedBlock b). distinct (map tn_name (ps @ rs))))"

section \<open>Inlined expressions\<close>

text \<open>\<open>G\<close> holds the functions of the original program.\<close>

inductive inlined :: "(string \<rightharpoonup> julia_function) \<Rightarrow> AsmExpression \<Rightarrow> AsmExpression \<Rightarrow> bool" for G where
  inlined_instruction: "list_all2 (inlined G) args args' \<Longrightarrow>
     inlined G (AsmFunctionalInstruction l i args) (AsmFunctionalInstruction l i args')"
| inlined_call: "list_all2 (inlined G) args args' \<Longrightarrow> inlined G (AsmFunctionCall l f args) (AsmFunctionCall l f args')"
| inlined_identifier: "inlined G (AsmIdentifierExpression i) (AsmIdentifierExpression i)"
| inlined_literal: "inlined G (AsmLiteralExpression k) (AsmLiteralExpression k)"
| inlined_value: "list_all2 (inlined G) args args' \<Longrightarrow> list_all movableExpression args' \<Longrightarrow>
     G (ai_name f) = Some (ps, [r], AsmBlock l0 [AsmAssignment l1 [j] e]) \<Longrightarrow> ai_name j = tn_name r \<Longrightarrow>
     refsExpression (tn_name r) e = 0 \<Longrightarrow> inlined G e e' \<Longrightarrow>
     inlined G (AsmFunctionCall l f args) (substituted (map_of (rev (zip (map tn_name ps) args'))) e')"

lemma inlined_refl: "inlined G e e"
  by (induction e) (auto intro!: inlined.intros simp: list.rel_refl_strong)


inductive inlinedStatement :: "(string \<rightharpoonup> julia_function) \<Rightarrow> AsmStatement \<Rightarrow> AsmStatement \<Rightarrow> bool"
  and inlinedBlock :: "(string \<rightharpoonup> julia_function) \<Rightarrow> AsmBlock \<Rightarrow> AsmBlock \<Rightarrow> bool"
  and inlinedCases :: "(string \<rightharpoonup> julia_function) \<Rightarrow> AsmCase list \<Rightarrow> AsmCase list \<Rightarrow> bool" for G where
  inl_expression: "inlined G e e' \<Longrightarrow> inlinedStatement G (AsmExpressionStatement l e) (AsmExpressionStatement l e')"
| inl_assignment: "inlined G e e' \<Longrightarrow> inlinedStatement G (AsmAssignment l is e) (AsmAssignment l is e')"
| inl_declaration: "inlinedStatement G (AsmVariableDeclaration l vs None) (AsmVariableDeclaration l vs None)"
| inl_variable: "inlined G e e' \<Longrightarrow>
     inlinedStatement G (AsmVariableDeclaration l vs (Some e)) (AsmVariableDeclaration l vs (Some e'))"
| inl_function: "inlinedBlock G b b' \<Longrightarrow>
     inlinedStatement G (AsmFunctionDefinition l f ps rs b) (AsmFunctionDefinition l f ps rs b')"
| inl_if: "inlined G e e' \<Longrightarrow> inlinedBlock G b b' \<Longrightarrow> inlinedStatement G (AsmIf l e b) (AsmIf l e' b')"
| inl_switch: "inlined G e e' \<Longrightarrow> inlinedCases G cs cs' \<Longrightarrow> inlinedStatement G (AsmSwitch l e cs) (AsmSwitch l e' cs')"
| inl_for: "list_all2 (inlinedStatement G) pre pre' \<Longrightarrow> inlined G e e' \<Longrightarrow> inlinedBlock G post post' \<Longrightarrow>
     inlinedBlock G b b' \<Longrightarrow>
     inlinedStatement G (AsmForLoop l (AsmBlock l' pre) e post b) (AsmForLoop l (AsmBlock l' pre') e' post' b')"
| inl_inner: "inlinedBlock G b b' \<Longrightarrow> inlinedStatement G (AsmBlockStatement b) (AsmBlockStatement b')"
| inl_block: "list_all2 (inlinedStatement G) sts sts' \<Longrightarrow> inlinedBlock G (AsmBlock l sts) (AsmBlock l sts')"
| inl_no_case: "inlinedCases G [] []"
| inl_case: "inlinedBlock G b b' \<Longrightarrow> inlinedCases G cs cs' \<Longrightarrow> inlinedCases G (AsmCase l k b # cs) (AsmCase l k b' # cs')"

inductive_cases inlinedFunctionE: "inlinedStatement G (AsmFunctionDefinition l f ps rs b) st'"
inductive_cases inlinedBlockE: "inlinedBlock G (AsmBlock l sts) b'"
inductive_simps inlined_assignment_iff: "inlinedStatement G (AsmAssignment l is e) st'"

section \<open>Frames of functions with unique names\<close>

definition frameNames :: "frame list \<Rightarrow> string list" where
  "frameNames F = map fst (concat F)"

text \<open>The functions in a tree are those of \<open>G\<close>, and none has the name of another one or of one in a frame around it.\<close>

definition namesApart :: "(string \<rightharpoonup> julia_function) \<Rightarrow> frame list \<Rightarrow> frame \<Rightarrow> bool" where
  "namesApart G F fr =
     (distinct (map fst fr) \<and> fst ` set fr \<inter> set (frameNames F) = {} \<and> (\<forall>(f, d)\<in>set fr. G f = Some d))"

primrec wfFrames :: "(string \<rightharpoonup> julia_function) \<Rightarrow> frame list \<Rightarrow> bool" where
  "wfFrames G [] = True"
| "wfFrames G (fr # F) =
     (wfFrames G F \<and> namesApart G F fr \<and> (\<forall>(f, ps, rs, b)\<in>set fr. namesApart G (fr # F) (definedBlock b)))"

text \<open>What is defined inside of a statement, without the function it defines itself.\<close>

definition insideStatement :: "AsmStatement \<Rightarrow> frame" where
  "insideStatement st = (if isFunctionDefinition st then [] else definedStatement st)"

lemma functionsHere_defined: "set (functionsHere sts) \<subseteq> set (concat (map definedStatement sts))"
  by (induction sts rule: functionsHere.induct) auto

lemma functionsHere_names: "f \<in> fst ` set (functionsHere sts) \<Longrightarrow> f \<in> fst ` set (concat (map definedStatement sts))"
  using functionsHere_defined by fastforce

lemma functionsHere_Cons:
  "functionsHere (st # sts) =
     (case st of AsmFunctionDefinition l f ps rs b \<Rightarrow> (f, ps, rs, b) # functionsHere sts | _ \<Rightarrow> functionsHere sts)"
  by (cases st) simp_all

lemma functionsHere_bodies:
  "(f, ps, rs, b) \<in> set (functionsHere sts) \<Longrightarrow> set (definedBlock b) \<subseteq> set (concat (map definedStatement sts))"
  by (induction sts rule: functionsHere.induct) auto

lemma insideStatement_defined: "st \<in> set sts \<Longrightarrow> set (insideStatement st) \<subseteq> set (concat (map definedStatement sts))"
  by (auto simp: insideStatement_def)

text \<open>Unique names in the statements of a block are unique names in each of its parts.\<close>

definition partsApart :: "AsmStatement list \<Rightarrow> bool" where
  "partsApart sts =
     (distinct (map fst (functionsHere sts)) \<and>
      (\<forall>st\<in>set sts. distinct (map fst (insideStatement st)) \<and>
         fst ` set (insideStatement st) \<inter> fst ` set (functionsHere sts) = {}) \<and>
      (\<forall>(f, ps, rs, b)\<in>set (functionsHere sts). distinct (map fst (definedBlock b)) \<and>
         fst ` set (definedBlock b) \<inter> fst ` set (functionsHere sts) = {}))"

lemma partsApart_here: "partsApart sts \<Longrightarrow> distinct (map fst (functionsHere sts))"
  by (simp add: partsApart_def)

lemma partsApart_inside:
  "partsApart sts \<Longrightarrow> st \<in> set sts \<Longrightarrow> distinct (map fst (insideStatement st)) \<and>
     fst ` set (insideStatement st) \<inter> fst ` set (functionsHere sts) = {}"
  by (simp add: partsApart_def)

lemma partsApart_body:
  "partsApart sts \<Longrightarrow> (f, ps, rs, b) \<in> set (functionsHere sts) \<Longrightarrow> distinct (map fst (definedBlock b)) \<and>
     fst ` set (definedBlock b) \<inter> fst ` set (functionsHere sts) = {}"
  unfolding partsApart_def by (elim conjE) (drule (1) bspec, simp)

lemma partsApart_function:
  assumes "partsApart sts" "f \<notin> N" "distinct (map fst (definedBlock b))" "f \<notin> fst ` set (definedBlock b)"
    "fst ` set (definedBlock b) \<inter> N = {}" "N = fst ` set (concat (map definedStatement sts))"
  shows "partsApart (AsmFunctionDefinition l f ps rs b # sts)"
proof -
  have here: "fst ` set (functionsHere sts) \<subseteq> N" using functionsHere_names assms(6) by blast
  have inside: "fst ` set (insideStatement st) \<subseteq> N" if "st \<in> set sts" for st
    unfolding assms(6) by (rule image_mono [OF insideStatement_defined [OF that]])
  have bodies: "fst ` set (definedBlock b') \<subseteq> N" if "(g, qs, ss, b') \<in> set (functionsHere sts)" for g qs ss b'
    unfolding assms(6) by (rule image_mono [OF functionsHere_bodies [OF that]])
  have own: "insideStatement (AsmFunctionDefinition l f ps rs b) = []" by (simp add: insideStatement_def)
  have new: "f \<notin> fst ` set (functionsHere sts)" using here assms(2) by blast
  show ?thesis unfolding partsApart_def
  proof (intro conjI ballI)
    show "distinct (map fst (functionsHere (AsmFunctionDefinition l f ps rs b # sts)))"
      using assms(1) new by (simp add: partsApart_def)
  next
    fix st assume st: "st \<in> set (AsmFunctionDefinition l f ps rs b # sts)"
    show "distinct (map fst (insideStatement st))"
      using st own assms(1) by (auto simp: partsApart_def)
    show "fst ` set (insideStatement st) \<inter> fst ` set (functionsHere (AsmFunctionDefinition l f ps rs b # sts)) = {}"
    proof (cases "st \<in> set sts")
      case True
      have "fst ` set (insideStatement st) \<inter> fst ` set (functionsHere sts) = {}"
        using assms(1) True by (simp add: partsApart_def)
      then show ?thesis using inside [OF True] assms(2) by auto
    qed (use st own in simp)
  next
    fix x assume x: "x \<in> set (functionsHere (AsmFunctionDefinition l f ps rs b # sts))"
    show "case x of (g, qs, ss, b') \<Rightarrow> distinct (map fst (definedBlock b')) \<and>
        fst ` set (definedBlock b') \<inter> fst ` set (functionsHere (AsmFunctionDefinition l f ps rs b # sts)) = {}"
    proof (cases "x \<in> set (functionsHere sts)")
      case True
      obtain g qs ss b' where x': "x = (g, qs, ss, b')" by (cases x) auto
      have "distinct (map fst (definedBlock b')) \<and> fst ` set (definedBlock b') \<inter> fst ` set (functionsHere sts) = {}"
        by (rule partsApart_body [OF assms(1)]) (use True x' in simp)
      then show ?thesis using bodies [of g qs ss b'] True x' assms(2) by auto
    next
      case False
      then have "x = (f, ps, rs, b)" using x by simp
      then show ?thesis using assms(3,4,5) here by auto
    qed
  qed
qed

lemma distinct_parts: "distinct (map fst (concat (map definedStatement sts))) \<Longrightarrow> partsApart sts"
proof (induction sts)
  case (Cons st sts)
  let ?N = "fst ` set (concat (map definedStatement sts))"
  have d: "distinct (map fst (definedStatement st))" "partsApart sts" "fst ` set (definedStatement st) \<inter> ?N = {}"
    using Cons by auto
  show ?case
  proof (cases "isFunctionDefinition st")
    case True
    then obtain l f ps rs b where st: "st = AsmFunctionDefinition l f ps rs b" by (rule isFunctionDefinitionE)
    show ?thesis unfolding st by (rule partsApart_function [OF d(2) _ _ _ _ refl]) (use d(1,3) st in auto)
  next
    case False
    have "fst ` set (functionsHere sts) \<subseteq> ?N" using functionsHere_names by blast
    then have "fst ` set (insideStatement st) \<inter> fst ` set (functionsHere sts) = {}"
      using d(3) False by (auto simp: insideStatement_def)
    then show ?thesis using d(1,2) False
      by (auto simp: partsApart_def functionsHere_other insideStatement_def)
  qed
qed (simp add: partsApart_def)

lemma frameNames_Cons [simp]: "set (frameNames (fr # F)) = fst ` set fr \<union> set (frameNames F)"
  by (simp add: frameNames_def)

lemma apartI:
  "distinct (map fst fr) \<Longrightarrow> fst ` set fr \<inter> set (frameNames F) = {} \<Longrightarrow> (\<And>f d. (f, d) \<in> set fr \<Longrightarrow> G f = Some d) \<Longrightarrow>
     namesApart G F fr"
  by (auto simp: namesApart_def)

lemma apartD:
  assumes "namesApart G F fr"
  shows "distinct (map fst fr)" "fst ` set fr \<inter> set (frameNames F) = {}" "(f, d) \<in> set fr \<Longrightarrow> G f = Some d"
  using assms by (auto simp: namesApart_def)

lemma apart_enter:
  assumes "wfFrames G F" "namesApart G F (concat (map definedStatement sts))"
  shows "wfFrames G (functionsHere sts # F)"
    and "st \<in> set sts \<Longrightarrow> namesApart G (functionsHere sts # F) (insideStatement st)"
proof -
  let ?all = "concat (map definedStatement sts)"
  note all = apartD [OF assms(2)]
  have p: "partsApart sts" by (rule distinct_parts [OF all(1)])
  have outer: "fst ` set fr \<inter> set (frameNames F) = {}" if "set fr \<subseteq> set ?all" for fr
    using all(2) image_mono [OF that, of fst] by blast
  have "namesApart G F (functionsHere sts)"
    by (rule apartI [OF partsApart_here [OF p] outer [OF functionsHere_defined] all(3)])
      (use functionsHere_defined [of sts] in blast)
  moreover have "namesApart G (functionsHere sts # F) (definedBlock b)" if x: "(f, ps, rs, b) \<in> set (functionsHere sts)" for f ps rs b
  proof (rule apartI)
    note b = partsApart_body [OF p x]
    show "distinct (map fst (definedBlock b))" using b by blast
    show "fst ` set (definedBlock b) \<inter> set (frameNames (functionsHere sts # F)) = {}"
      using b outer [OF functionsHere_bodies [OF x]] by auto
    show "G g = Some d" if "(g, d) \<in> set (definedBlock b)" for g d
      by (rule all(3)) (use functionsHere_bodies [OF x] that in blast)
  qed
  ultimately show "wfFrames G (functionsHere sts # F)" using assms(1) by auto
  show "namesApart G (functionsHere sts # F) (insideStatement st)" if st: "st \<in> set sts"
  proof (rule apartI)
    note b = partsApart_inside [OF p st]
    show "distinct (map fst (insideStatement st))" using b by blast
    show "fst ` set (insideStatement st) \<inter> set (frameNames (functionsHere sts # F)) = {}"
      using b outer [OF insideStatement_defined [OF st]] by auto
    show "G g = Some d" if "(g, d) \<in> set (insideStatement st)" for g d
      by (rule all(3)) (use insideStatement_defined [OF st] that in blast)
  qed
qed

lemma map_of_name: "map_of fr f = Some d \<Longrightarrow> f \<in> fst ` set fr"
  by (force dest: map_of_SomeD)

lemma lookup_frameNames: "lookupFunction F f = Some x \<Longrightarrow> f \<in> set (frameNames F)"
  by (induction F) (auto simp: map_of_name split: option.splits)

text \<open>A function is found in the frames as it is in the program, with frames in which nothing is hidden.\<close>

lemma lookup_wf:
  "wfFrames G F \<Longrightarrow> lookupFunction F f = Some ((ps, rs, b), H) \<Longrightarrow>
     wfFrames G H \<and> namesApart G H (definedBlock b) \<and> G f = Some (ps, rs, b) \<and>
     (\<forall>g x. lookupFunction H g = Some x \<longrightarrow> lookupFunction F g = Some x)"
proof (induction F)
  case (Cons fr F)
  show ?case
  proof (cases "map_of fr f")
    case None
    then have 1: "lookupFunction F f = Some ((ps, rs, b), H)" using Cons(3) by simp
    have IH: "wfFrames G H" "namesApart G H (definedBlock b)" "G f = Some (ps, rs, b)"
        "\<And>g x. lookupFunction H g = Some x \<Longrightarrow> lookupFunction F g = Some x"
      using Cons(1) [OF _ 1] Cons(2) by auto
    have "lookupFunction (fr # F) g = Some x" if g: "lookupFunction H g = Some x" for g x
    proof -
      have "g \<in> set (frameNames F)" using lookup_frameNames IH(4) [OF g] by blast
      then have "g \<notin> fst ` set fr" using apartD(2) [of G F fr] Cons(2) by auto
      then have "map_of fr g = None" by (simp add: map_of_eq_None_iff)
      then show ?thesis using IH(4) [OF g] by simp
    qed
    then show ?thesis using IH by blast
  next
    case (Some d)
    then have H: "d = (ps, rs, b)" "H = fr # F" using Cons(3) by simp_all
    have m: "(f, ps, rs, b) \<in> set fr" using map_of_SomeD [OF Some] H by simp
    have "namesApart G F fr" using Cons(2) by simp
    from apartD(3) [OF this m] have "G f = Some (ps, rs, b)" .
    moreover have "namesApart G H (definedBlock b)" using Cons(2) m H(2) by auto
    ultimately show ?thesis using Cons(2) H(2) by simp
  qed
qed simp


section \<open>Related contexts\<close>

definition frameInl :: "(string \<rightharpoonup> julia_function) \<Rightarrow> frame \<Rightarrow> frame \<Rightarrow> bool" where
  "frameInl G = list_all2 (\<lambda>(f, ps, rs, b) (f', ps', rs', b'). f' = f \<and> ps' = ps \<and> rs' = rs \<and> inlinedBlock G b b')"

text \<open>What the first frames define, the second ones define too, inlined, and frames inside of which it was defined.\<close>

definition sees :: "(string \<rightharpoonup> julia_function) \<Rightarrow> frame list \<Rightarrow> frame list \<Rightarrow> bool" where
  "sees G F F' =
     (\<forall>f ps rs b H. lookupFunction F f = Some ((ps, rs, b), H) \<longrightarrow>
        G f = Some (ps, rs, b) \<and> wfFrames G H \<and> namesApart G H (definedBlock b) \<and>
        (\<exists>b' H'. lookupFunction F' f = Some ((ps, rs, b'), H') \<and> inlinedBlock G b b' \<and> list_all2 (frameInl G) H H'))"

definition callInl :: "(string \<rightharpoonup> julia_function) \<Rightarrow> (frame list \<Rightarrow> string \<Rightarrow> u256 list \<Rightarrow> 'w \<Rightarrow> ('w, u256 list) juliaRun) \<Rightarrow>
    (frame list \<Rightarrow> string \<Rightarrow> u256 list \<Rightarrow> 'w \<Rightarrow> ('w, u256 list) juliaRun) \<Rightarrow> bool" where
  "callInl G call call' = (\<forall>F F' f vs w. sees G F F' \<longrightarrow> runLe (=) (call F f vs w) (call' F' f vs w))"

lemma frameInl_lookup:
  "frameInl G fr fr' \<Longrightarrow>
     (case map_of fr f of
        None \<Rightarrow> map_of fr' f = None
      | Some (ps, rs, b) \<Rightarrow> \<exists>b'. map_of fr' f = Some (ps, rs, b') \<and> inlinedBlock G b b')"
  unfolding frameInl_def by (induction rule: list_all2_induct) (auto split: option.splits)

lemma frames_lookup:
  "list_all2 (frameInl G) F F' \<Longrightarrow> lookupFunction F f = Some ((ps, rs, b), H) \<Longrightarrow>
     \<exists>b' H'. lookupFunction F' f = Some ((ps, rs, b'), H') \<and> inlinedBlock G b b' \<and> list_all2 (frameInl G) H H'"
proof (induction rule: list_all2_induct)
  case (Cons fr F fr' F')
  show ?case
  proof (cases "map_of fr f")
    case None
    then show ?thesis using frameInl_lookup [OF Cons(1), of f] Cons(3,4) by simp
  next
    case (Some d)
    then show ?thesis using frameInl_lookup [OF Cons(1), of f] Cons(1,2,4) by auto
  qed
qed simp

lemma frames_see: "wfFrames G F \<Longrightarrow> list_all2 (frameInl G) F F' \<Longrightarrow> sees G F F'"
  unfolding sees_def
proof (intro allI impI)
  fix f ps rs b H assume F: "wfFrames G F" "list_all2 (frameInl G) F F'" "lookupFunction F f = Some ((ps, rs, b), H)"
  show "G f = Some (ps, rs, b) \<and> wfFrames G H \<and> namesApart G H (definedBlock b) \<and>
      (\<exists>b' H'. lookupFunction F' f = Some ((ps, rs, b'), H') \<and> inlinedBlock G b b' \<and> list_all2 (frameInl G) H H')"
    using lookup_wf [OF F(1,3)] frames_lookup [OF F(2,3)] by simp
qed

lemma sees_inner:
  assumes "sees G F F'" "\<And>g x. lookupFunction H g = Some x \<Longrightarrow> lookupFunction F g = Some x"
  shows "sees G H F'"
  using assms unfolding sees_def by blast

text \<open>
  The second variables give what the first ones hold: an expression that is put in the place of a name, or the
  variable itself. The names in \<open>R\<close> are not looked at.
\<close>

definition stands :: "'w evalContext \<Rightarrow> variables \<Rightarrow> (string \<rightharpoonup> AsmExpression) \<Rightarrow> string \<Rightarrow> u256 \<Rightarrow> bool" where
  "stands c v sub n x =
     (case sub n of None \<Rightarrow> v n = Some x | Some a \<Rightarrow> \<forall>w. evalExpression c v a w = Done [x] w)"

definition inlineEnv :: "(string \<rightharpoonup> julia_function) \<Rightarrow> nat \<Rightarrow> 'w evalContext \<Rightarrow> variables \<Rightarrow> 'w evalContext \<Rightarrow> variables \<Rightarrow>
    (string \<rightharpoonup> AsmExpression) \<Rightarrow> string set \<Rightarrow> bool" where
  "inlineEnv G n cl vl c v sub R =
     (cx_machine cl = cx_machine c \<and> cx_call cl = callFunction (cx_machine c) n \<and>
      (\<forall>m\<le>n. callInl G (callFunction (cx_machine c) m) (cx_call c)) \<and>
      wfFrames G (cx_frames cl) \<and> sees G (cx_frames cl) (cx_frames c) \<and> (\<forall>x a. sub x = Some a \<longrightarrow> movableExpression a) \<and>
      (\<forall>x val. x \<notin> R \<longrightarrow> vl x = Some val \<longrightarrow> stands c v sub x val))"

definition evalInl :: "(string \<rightharpoonup> julia_function) \<Rightarrow> 'w evalContext \<Rightarrow> variables \<Rightarrow> AsmExpression \<Rightarrow> AsmExpression \<Rightarrow> bool" where
  "evalInl G c v e e' =
     (\<forall>n cl vl sub R w. inlineEnv G n cl vl c v sub R \<longrightarrow> avoids R (\<lambda>x. refsExpression x e) \<longrightarrow>
        runLe (=) (evalExpression cl vl e w) (evalExpression c v (substituted sub e') w))"

lemma arguments_inl:
  assumes "list_all2 (evalInl G c v) args args'" "inlineEnv G n cl vl c v sub R" "avoids R (\<lambda>x. refsArguments x args)"
  shows "runLe (=) (evalArguments cl vl args w) (evalArguments c v (map (substituted sub) args') w)"
  using assms
proof (induction args args' rule: list_all2_induct)
  case (Cons a args a' args')
  have av: "avoids R (\<lambda>x. refsExpression x a)" "avoids R (\<lambda>x. refsArguments x args)" using Cons(5) by simp_all
  have a: "runLe (=) (evalExpression cl vl a w) (evalExpression c v (substituted sub a') w)" for w
    using Cons(1,4) av(1) unfolding evalInl_def by blast
  show ?case
  proof (simp, rule runLe_bind [OF Cons(3) [OF Cons(4) av(2)]])
    fix x x' :: "u256 list" and w1 assume "x = x'"
    then show "runLe (=) (single (evalExpression cl vl a w1) (\<lambda>u. Done (u # x)))
        (single (evalExpression c v (substituted sub a') w1) (\<lambda>u. Done (u # x')))"
      by (intro runLe_single a) simp
  qed
qed simp

text \<open>The values of a call of a function that only assigns its return variable.\<close>

lemma callee_value:
  assumes "ai_name j = tn_name r" "env (tn_name r) \<noteq> None"
  shows "resultValues [r] (execBlock c (AsmBlock l0 [AsmAssignment l1 [j] e]) env w) =
    bindRun (evalExpression (enterScope [AsmAssignment l1 [j] e] c) env e w) (\<lambda>vs w. if length vs = 1 then Done vs w else Stuck)"
proof (cases "evalExpression (enterScope [AsmAssignment l1 [j] e] c) env e w")
  case (Done vs w1)
  show ?thesis
  proof (cases "length vs = 1")
    case True
    then obtain x where "vs = [x]" by (auto simp: length_Suc_conv)
    then show ?thesis using Done assms by (simp add: resultValues_def assignAll_def readAll_def leaveScope_def bindAll_def)
  qed (use Done in \<open>simp add: resultValues_def assignAll_def\<close>)
qed (simp_all add: resultValues_def)

lemma map_of_rev_zip:
  assumes "distinct ns"
  shows "map_of (rev (zip ns xs)) = map_of (zip ns xs)"
proof -
  have "distinct (map fst (zip ns xs))" using assms(1) by (simp add: map_fst_zip_take)
  then have "distinct (map fst (rev (zip ns xs)))" by (simp add: rev_map [symmetric])
  with \<open>distinct (map fst (zip ns xs))\<close> show ?thesis by (simp add: map_of_inject_set)
qed


definition properParameters :: "(string \<rightharpoonup> julia_function) \<Rightarrow> bool" where
  "properParameters G = (\<forall>f ps rs b. G f = Some (ps, rs, b) \<longrightarrow> distinct (map tn_name (ps @ rs)))"

lemma callEnv_parameter:
  assumes "distinct (map tn_name (ps @ [r]))" "length vs = length ps" "callEnv ps [r] vs x = Some val" "x \<noteq> tn_name r"
  obtains i where "i < length ps" "x = tn_name (ps ! i)" "val = vs ! i"
proof -
  have "map_of (zip (map tn_name ps) vs) x = Some val"
    using assms(3,4) by (simp add: callEnv_def bindAll_def map_add_Some_iff split: if_splits)
  then obtain i where "i < length ps" "x = tn_name (ps ! i)" "val = vs ! i"
    using assms(2) map_of_SomeD by (fastforce simp: set_zip)
  then show thesis by (rule that)
qed

lemma inlined_body:
  assumes G: "G f = Some (ps, [r], AsmBlock l0 [AsmAssignment l1 [j] e])" and j: "ai_name j = tn_name r"
    and r: "avoids {tn_name r} (\<lambda>x. refsExpression x e)" and IH: "evalInl G c v e e'"
    and proper: "distinct (map tn_name (ps @ [r]))" and env: "inlineEnv G n cl vl c v sub R"
    and movable: "\<And>a. a \<in> set args' \<Longrightarrow> movableExpression (substituted sub a)"
    and vs: "length vs = length args'"
      "\<And>i w'. i < length args' \<Longrightarrow> evalExpression c v (substituted sub (args' ! i)) w' = Done [vs ! i] w'"
  shows "runLe (=) (callFunction (cx_machine c) n (cx_frames cl) f vs w)
    (evalExpression c v (substituted (\<lambda>x. case map_of (rev (zip (map tn_name ps) args')) x of
        None \<Rightarrow> sub x | Some a \<Rightarrow> Some (substituted sub a)) e') w)"
    (is "runLe (=) ?call (evalExpression c v (substituted ?sub e') w)")
proof (cases n)
  case (Suc m)
  have F: "wfFrames G (cx_frames cl)" "sees G (cx_frames cl) (cx_frames c)"
    "\<And>k. k \<le> n \<Longrightarrow> callInl G (callFunction (cx_machine c) k) (cx_call c)"
    "\<And>x a. sub x = Some a \<Longrightarrow> movableExpression a"
    using env by (auto simp: inlineEnv_def)
  show ?thesis
  proof (cases "lookupFunction (cx_frames cl) f")
    case (Some y)
    obtain ps' rs' b' H where y: "y = ((ps', rs', b'), H)" by (cases y) auto
    have found: "lookupFunction (cx_frames cl) f = Some ((ps', rs', b'), H)" using Some y by simp
    have here: "wfFrames G H" "(ps', rs', b') = (ps, [r], AsmBlock l0 [AsmAssignment l1 [j] e])"
      using lookup_wf [OF F(1) found] G by simp_all
    have outer: "lookupFunction (cx_frames cl) g = Some x" if "lookupFunction H g = Some x" for g x
      using lookup_wf [OF F(1) found] that by blast
    show ?thesis
    proof (cases "length vs = length ps")
      case True
      let ?c = "\<lparr>cx_machine = cx_machine c, cx_call = callFunction (cx_machine c) m, cx_rounds = m, cx_frames = [] # H\<rparr>"
      let ?env = "callEnv ps [r] vs"
      have tau: "map_of (rev (zip (map tn_name ps) args')) = map_of (zip (map tn_name ps) args')"
        using proper by (intro map_of_rev_zip) simp
      have "stands c v ?sub x val" if x: "x \<notin> {tn_name r}" "?env x = Some val" for x val
      proof -
        obtain i where i: "i < length ps" "x = tn_name (ps ! i)" "val = vs ! i"
          using callEnv_parameter [OF proper True x(2)] x(1) by blast
        have "map_of (zip (map tn_name ps) args') x = Some (args' ! i)"
          using map_of_zip_nth [of "map tn_name ps" args' i] i proper True vs(1) by simp
        then show ?thesis using i vs True by (simp add: stands_def tau)
      qed
      moreover have "movableExpression a" if "?sub x = Some a" for x a
        using that movable F(4) by (auto split: option.splits dest!: map_of_SomeD set_zip_rightD)
      moreover have "sees G ([] # H) (cx_frames c)" by (rule sees_inner [OF F(2)]) (simp add: outer)
      moreover have "wfFrames G ([] # H)" using here(1) by (simp add: namesApart_def)
      ultimately have "inlineEnv G m ?c ?env c v ?sub {tn_name r}"
        using F(3) Suc by (simp add: inlineEnv_def)
      then have le: "runLe (=) (evalExpression ?c ?env e w) (evalExpression c v (substituted ?sub e') w)"
        using IH r unfolding evalInl_def by blast
      have "?env (tn_name r) \<noteq> None" by (simp add: callEnv_def bindAll_def map_add_def split: option.splits)
      then have result: "resultValues [r] (execBlock (?c\<lparr>cx_frames := H\<rparr>) (AsmBlock l0 [AsmAssignment l1 [j] e]) ?env w) =
          bindRun (evalExpression ?c ?env e w) (\<lambda>vs w. if length vs = 1 then Done vs w else Stuck)"
        by (subst callee_value [OF j]) (simp_all add: enterScope_def)
      have "?call = resultValues [r] (execBlock (?c\<lparr>cx_frames := H\<rparr>) (AsmBlock l0 [AsmAssignment l1 [j] e]) ?env w)"
        using Suc Some y here(2) True by (simp del: execBlock.simps)
      with result have "?call = bindRun (evalExpression ?c ?env e w) (\<lambda>vs w. if length vs = 1 then Done vs w else Stuck)"
        by simp
      moreover have "runLe (=) (bindRun (evalExpression ?c ?env e w) (\<lambda>vs w. if length vs = 1 then Done vs w else Stuck))
          (evalExpression c v (substituted ?sub e') w)"
        using le by (cases "evalExpression ?c ?env e w") simp_all
      ultimately show ?thesis by simp
    qed (use Suc Some y here(2) in simp)
  qed (use Suc in simp)
qed simp

lemma evaluate_inlined:
  assumes "machineOk (cx_machine c)" "machineStable (cx_machine c)" "properParameters G"
  shows "inlined G e e' \<Longrightarrow> evalInl G c v e e'"
proof (induction rule: inlined.induct)
  case (inlined_instruction args args' l i)
  have args: "list_all2 (evalInl G c v) args args'"
    by (rule list_all2_mono [OF inlined_instruction]) simp
  show ?case unfolding evalInl_def
  proof (intro allI impI)
    fix n cl vl sub R w assume env: "inlineEnv G n cl vl c v sub R" "avoids R (\<lambda>x. refsExpression x (AsmFunctionalInstruction l i args))"
    have "runLe (=) (evalArguments cl vl args w) (evalArguments c v (map (substituted sub) args') w)"
      by (rule arguments_inl [OF args env(1)]) (use env(2) in simp)
    then show "runLe (=) (evalExpression cl vl (AsmFunctionalInstruction l i args) w)
        (evalExpression c v (substituted sub (AsmFunctionalInstruction l i args')) w)"
      using env(1) by (simp add: runLe_bind inlineEnv_def)
  qed
next
  case (inlined_call args args' l f)
  have args: "list_all2 (evalInl G c v) args args'"
    by (rule list_all2_mono [OF inlined_call]) simp
  show ?case unfolding evalInl_def
  proof (intro allI impI)
    fix n cl vl sub R w assume env: "inlineEnv G n cl vl c v sub R" "avoids R (\<lambda>x. refsExpression x (AsmFunctionCall l f args))"
    have a: "runLe (=) (evalArguments cl vl args w) (evalArguments c v (map (substituted sub) args') w)"
      by (rule arguments_inl [OF args env(1)]) (use env(2) in simp)
    have "runLe (=) (cx_call cl (cx_frames cl) (ai_name f) vs w1) (cx_call c (cx_frames c) (ai_name f) vs w1)" for vs w1
      using env(1) by (simp add: inlineEnv_def callInl_def)
    then show "runLe (=) (evalExpression cl vl (AsmFunctionCall l f args) w)
        (evalExpression c v (substituted sub (AsmFunctionCall l f args')) w)"
      by (simp add: runLe_bind [OF a])
  qed
next
  case (inlined_identifier i)
  show ?case unfolding evalInl_def
  proof (intro allI impI)
    fix n cl vl sub R w assume env: "inlineEnv G n cl vl c v sub R" "avoids R (\<lambda>x. refsExpression x (AsmIdentifierExpression i))"
    show "runLe (=) (evalExpression cl vl (AsmIdentifierExpression i) w)
        (evalExpression c v (substituted sub (AsmIdentifierExpression i)) w)"
    proof (cases "vl (ai_name i)")
      case (Some val)
      have "ai_name i \<notin> R" using env(2) by (auto simp: avoids_def hit_def)
      then have "stands c v sub (ai_name i) val" using env(1) Some by (simp add: inlineEnv_def)
      then show ?thesis using Some by (auto simp: stands_def split: option.splits)
    qed simp
  qed
next
  case (inlined_literal k)
  show ?case by (simp add: evalInl_def inlineEnv_def)
next
  case (inlined_value args args' f ps r l0 l1 j e e' l)
  have G: "G (ai_name f) = Some (ps, [r], AsmBlock l0 [AsmAssignment l1 [j] e])" by fact
  have j: "ai_name j = tn_name r" by fact
  have r: "avoids {tn_name r} (\<lambda>x. refsExpression x e)" using inlined_value by (simp add: avoids_def)
  have IH: "evalInl G c v e e'" by fact
  have args': "list_all movableExpression args'" by fact
  have args: "list_all2 (evalInl G c v) args args'"
    by (rule list_all2_mono [OF inlined_value(1)]) simp
  have proper: "distinct (map tn_name (ps @ [r]))"
    using assms(3) G unfolding properParameters_def by blast
  show ?case unfolding evalInl_def
  proof (intro allI impI)
    fix n cl vl sub R w assume env: "inlineEnv G n cl vl c v sub R" "avoids R (\<lambda>x. refsExpression x (AsmFunctionCall l f args))"
    let ?args = "map (substituted sub) args'"
    let ?tau = "map_of (rev (zip (map tn_name ps) args'))"
    let ?sub = "\<lambda>x. case ?tau x of None \<Rightarrow> sub x | Some a \<Rightarrow> Some (substituted sub a)"
    have le: "runLe (=) (evalArguments cl vl args w) (evalArguments c v ?args w)"
      by (rule arguments_inl [OF args env(1)]) (use env(2) in simp)
    have sub: "movableExpression (substituted sub a)" if "a \<in> set args'" for a
      using args' env(1) that by (auto simp: list_all_iff inlineEnv_def intro!: substituted_movable)
    then have movable: "list_all movableExpression ?args" by (simp add: list_all_iff)
    have pure: "pureRun w (evalArguments c v ?args w)" by (rule movable_pure(2) [OF assms(1) movable])
    show "runLe (=) (evalExpression cl vl (AsmFunctionCall l f args) w)
        (evalExpression c v (substituted sub (substituted ?tau e')) w)"
    proof (cases "evalArguments cl vl args w")
      case (Done vs w1)
      then have right: "evalArguments c v ?args w = Done vs w1" using le by simp
      then have w1: "w1 = w" using pure by (simp add: pureRun_def)
      have vs: "length vs = length args'" "\<And>i w'. i < length args' \<Longrightarrow> evalExpression c v (substituted sub (args' ! i)) w' = Done [vs ! i] w'"
        using movable_values [OF assms(1,2) movable right] by simp_all
      have "runLe (=) (callFunction (cx_machine c) n (cx_frames cl) (ai_name f) vs w) (evalExpression c v (substituted ?sub e') w)"
        by (rule inlined_body [OF G j r IH proper env(1) sub vs])
      then show ?thesis using Done w1 env(1) by (simp add: substituted_twice inlineEnv_def)
    next
      case (Stopped w1)
      then show ?thesis using le pure by (simp add: pureRun_def)
    qed simp_all
  qed
qed


section \<open>Statements\<close>

definition contextInl :: "(string \<rightharpoonup> julia_function) \<Rightarrow> nat \<Rightarrow> 'w evalContext \<Rightarrow> 'w evalContext \<Rightarrow> bool" where
  "contextInl G n cl c =
     (machineOk (cx_machine c) \<and> machineStable (cx_machine c) \<and> properParameters G \<and>
      cx_machine cl = cx_machine c \<and> cx_call cl = callFunction (cx_machine c) n \<and>
      (\<forall>m\<le>n. callInl G (callFunction (cx_machine c) m) (cx_call c)) \<and> cx_rounds cl \<le> cx_rounds c \<and>
      wfFrames G (cx_frames cl) \<and> list_all2 (frameInl G) (cx_frames cl) (cx_frames c))"

lemma evaluate_same:
  assumes "contextInl G n cl c" "inlined G e e'"
  shows "runLe (=) (evalExpression cl v e w) (evalExpression c v e' w)"
proof -
  have "evalInl G c v e e'" using assms evaluate_inlined unfolding contextInl_def by blast
  moreover have "inlineEnv G n cl v c v Map.empty {}"
    using assms(1) frames_see by (simp add: inlineEnv_def contextInl_def stands_def)
  ultimately show ?thesis unfolding evalInl_def by (fastforce simp: avoids_def)
qed

definition execInl :: "'w exec \<Rightarrow> 'w exec \<Rightarrow> bool" where
  "execInl x x' = (\<forall>v w. runLe (=) (x v w) (x' v w))"

lemma execInlD: "execInl x x' \<Longrightarrow> runLe (=) (x v w) (x' v w)"
  by (simp add: execInl_def)

lemma execInlI: "(\<And>v w. runLe (=) (x v w) (x' v w)) \<Longrightarrow> execInl x x'"
  by (simp add: execInl_def)

lemma runLe_bind_eq:
  "runLe (=) r r' \<Longrightarrow> (\<And>x w. runLe (=) (f x w) (f' x w)) \<Longrightarrow> runLe (=) (bindRun r f) (bindRun r' f')"
  by (rule runLe_bind [where R = "(=)"]) auto

lemma execInl_bind: "execInl x x' \<Longrightarrow> execInl y y' \<Longrightarrow> execInl (\<lambda>v w. bindRun (x v w) y) (\<lambda>v w. bindRun (x' v w) y')"
  by (auto simp: execInl_def intro: runLe_bind_eq)

lemma loopRounds_inl:
  assumes "\<And>v w. runLe (=) (cond v w) (cond' v w)" "execInl body body'" "execInl post post'"
  shows "k \<le> k' \<Longrightarrow> execInl (loopRounds k cond body post) (loopRounds k' cond' body' post')"
proof (induction k arbitrary: k')
  case (Suc k)
  then obtain k1 where k': "k' = Suc k1" "k \<le> k1" by (cases k') auto
  have round': "runLe (=)
      (bindRun (body v w) (\<lambda>v w. bindRun (post v w) (\<lambda>v w. loopRounds k cond body post v w)))
      (bindRun (body' v w) (\<lambda>v w. bindRun (post' v w) (\<lambda>v w. loopRounds k1 cond' body' post' v w)))" for v w
    by (intro runLe_bind_eq execInlD assms Suc(1) k')
  show ?case unfolding k' loopRounds.simps
    by (intro execInlI runLe_single assms(1)) (simp add: round')
qed (simp add: execInl_def)

lemma functionsHere_inl:
  "list_all2 (inlinedStatement G) sts sts' \<Longrightarrow> frameInl G (functionsHere sts) (functionsHere sts')"
proof (induction rule: list_all2_induct)
  case (Cons st sts st' sts')
  show ?case
  proof (cases "isFunctionDefinition st")
    case True
    then obtain l f ps rs b where st: "st = AsmFunctionDefinition l f ps rs b" by (rule isFunctionDefinitionE)
    from Cons(1) show ?thesis unfolding st
      by (rule inlinedFunctionE) (use Cons(3) in \<open>simp add: frameInl_def\<close>)
  next
    case False
    then have "\<not> isFunctionDefinition st'" using Cons(1) by - (erule inlinedStatement.cases, auto)
    then show ?thesis using False Cons(3) by (simp add: functionsHere_other)
  qed
qed (simp add: frameInl_def)

lemma enter_inl:
  assumes "contextInl G n cl c" "list_all2 (inlinedStatement G) sts sts'"
    "namesApart G (cx_frames cl) (concat (map definedStatement sts))"
  shows "contextInl G n (enterScope sts cl) (enterScope sts' c)"
  using assms functionsHere_inl [OF assms(2)] apart_enter(1) [OF _ assms(3)]
  by (simp add: contextInl_def enterScope_def del: wfFrames.simps)

lemma apart_append:
  "namesApart G F (fr @ fr') \<longleftrightarrow> namesApart G F fr \<and> namesApart G F fr' \<and> fst ` set fr \<inter> fst ` set fr' = {}"
  by (simp add: namesApart_def Int_Un_distrib2 ball_Un) blast

lemma apart_over: "namesApart G F fr \<Longrightarrow> fst ` set hr \<inter> fst ` set fr = {} \<Longrightarrow> namesApart G (hr # F) fr"
  by (simp add: namesApart_def Int_Un_distrib) blast

lemma cx_enterScope [simp]:
  "cx_machine (enterScope sts c) = cx_machine c" "cx_rounds (enterScope sts c) = cx_rounds c"
  "cx_frames (enterScope sts c) = functionsHere sts # cx_frames c"
  by (simp_all add: enterScope_def)

lemma statements_inl:
  assumes "list_all2 (\<lambda>st st'. execInl (execStatement cl st) (execStatement c st')) sts sts'"
  shows "execInl (execStatements cl sts) (execStatements c sts')"
  using assms
proof (induction rule: list_all2_induct)
  case (Cons st sts st' sts')
  then show ?case by (simp add: execInl_bind)
qed (simp add: execInl_def)


text \<open>The relation of the runs of two parts, in all related contexts.\<close>

definition partInl :: "(string \<rightharpoonup> julia_function) \<Rightarrow> frame \<Rightarrow> ('w evalContext \<Rightarrow> 'w exec) \<Rightarrow> ('w evalContext \<Rightarrow> 'w exec) \<Rightarrow> bool" where
  "partInl G fr x x' =
     (\<forall>n cl c. contextInl G n cl c \<longrightarrow> namesApart G (cx_frames cl) fr \<longrightarrow> execInl (x cl) (x' c))"

lemma partInlD: "partInl G fr x x' \<Longrightarrow> contextInl G n cl c \<Longrightarrow> namesApart G (cx_frames cl) fr \<Longrightarrow> execInl (x cl) (x' c)"
  unfolding partInl_def by blast

lemma partInlI: "(\<And>n cl c. contextInl G n cl c \<Longrightarrow> namesApart G (cx_frames cl) fr \<Longrightarrow> execInl (x cl) (x' c)) \<Longrightarrow> partInl G fr x x'"
  unfolding partInl_def by blast

abbreviation statementInl :: "(string \<rightharpoonup> julia_function) \<Rightarrow> AsmStatement \<Rightarrow> AsmStatement \<Rightarrow> 'w itself \<Rightarrow> bool" where
  "statementInl G st st' T \<equiv>
     partInl G (insideStatement st) (\<lambda>c :: 'w evalContext. execStatement c st) (\<lambda>c. execStatement c st')"

text \<open>The statements of a scope, in the contexts inside of it.\<close>

lemma scope_statements:
  assumes "contextInl G n (cl :: 'w evalContext) c" "namesApart G (cx_frames cl) (concat (map definedStatement sts))"
    "list_all2 (\<lambda>st st'. inlinedStatement G st st' \<and> statementInl G st st' TYPE('w)) sts sts'"
  shows "contextInl G n (enterScope sts cl) (enterScope sts' c)"
    and "execInl (execStatements (enterScope sts cl) sts) (execStatements (enterScope sts' c) sts')"
proof -
  have rel: "list_all2 (inlinedStatement G) sts sts'" by (rule list_all2_mono [OF assms(3)]) blast
  show inner: "contextInl G n (enterScope sts cl) (enterScope sts' c)" by (rule enter_inl [OF assms(1) rel assms(2)])
  have wf: "wfFrames G (cx_frames cl)" using assms(1) by (simp add: contextInl_def)
  show "execInl (execStatements (enterScope sts cl) sts) (execStatements (enterScope sts' c) sts')"
  proof (rule statements_inl, rule list_all2_all_nthI)
    show "length sts = length sts'" using rel by (rule list_all2_lengthD)
    fix i assume i: "i < length sts"
    have "statementInl G (sts ! i) (sts' ! i) TYPE('w)" using list_all2_nthD [OF assms(3) i] by blast
    then show "execInl (execStatement (enterScope sts cl) (sts ! i)) (execStatement (enterScope sts' c) (sts' ! i))"
      by (rule partInlD [OF _ inner]) (use apart_enter(2) [OF wf assms(2)] i in simp)
  qed
qed

lemma scope_inl:
  assumes "execInl x x'"
  shows "execInl (\<lambda>v w. bindRun (x v w) (\<lambda>v' w. Done (leaveScope v v') w)) (\<lambda>v w. bindRun (x' v w) (\<lambda>v' w. Done (leaveScope v v') w))"
  by (intro execInlI runLe_bind_eq execInlD [OF assms]) simp

theorem inlined_simulation:
  "inlinedStatement G st st' \<Longrightarrow> statementInl G st st' TYPE('w)"
  "inlinedBlock G b b' \<Longrightarrow> partInl G (definedBlock b) (\<lambda>c :: 'w evalContext. execBlock c b) (\<lambda>c. execBlock c b')"
  "inlinedCases G cs cs' \<Longrightarrow> execInl other other' \<Longrightarrow>
     partInl G (concat (map definedCase cs)) (\<lambda>c :: 'w evalContext. execCases c cs a other) (\<lambda>c. execCases c cs' a other')"
proof (induction arbitrary: and and a other other' rule: inlinedStatement_inlinedBlock_inlinedCases.inducts)
  case (inl_expression e e' l)
  show ?case
    by (intro partInlI execInlI) (simp, intro runLe_bind_eq evaluate_same [OF _ inl_expression], simp_all)
next
  case (inl_assignment e e' l "is")
  show ?case
    by (intro partInlI execInlI) (simp, intro runLe_bind_eq evaluate_same [OF _ inl_assignment], simp_all)
next
  case (inl_declaration l vs)
  show ?case by (intro partInlI execInlI) simp
next
  case (inl_variable e e' l vs)
  show ?case
    by (intro partInlI execInlI) (simp, intro runLe_bind_eq evaluate_same [OF _ inl_variable], simp_all)
next
  case (inl_function b b' l f ps rs)
  show ?case by (intro partInlI execInlI) simp
next
  case (inl_if e e' b b' l)
  show ?case
  proof (intro partInlI execInlI)
    fix n and cl c :: "'w evalContext" and v w assume c: "contextInl G n cl c" "namesApart G (cx_frames cl) (insideStatement (AsmIf l e b))"
    have b: "execInl (execBlock cl b) (execBlock c b')"
      by (rule partInlD [OF inl_if(3) c(1)]) (use c(2) in \<open>simp add: insideStatement_def\<close>)
    show "runLe (=) (execStatement cl (AsmIf l e b) v w) (execStatement c (AsmIf l e' b') v w)"
      by simp (intro runLe_single evaluate_same [OF c(1) inl_if(1)], simp add: execInlD [OF b])
  qed
next
  case (inl_switch e e' cs cs' l)
  show ?case
  proof (intro partInlI execInlI)
    fix n and cl c :: "'w evalContext" and v w assume c: "contextInl G n cl c" "namesApart G (cx_frames cl) (insideStatement (AsmSwitch l e cs))"
    have b: "execInl (execCases cl cs a (\<lambda>v w. Done v w)) (execCases c cs' a (\<lambda>v w. Done v w))" for a
      by (rule partInlD [OF inl_switch(3) c(1)]) (use c(2) in \<open>simp_all add: insideStatement_def execInl_def\<close>)
    show "runLe (=) (execStatement cl (AsmSwitch l e cs) v w) (execStatement c (AsmSwitch l e' cs') v w)"
      by simp (intro runLe_single evaluate_same [OF c(1) inl_switch(1)], simp add: execInlD [OF b])
  qed
next
  case (inl_for pre pre' e e' post post' b b' l l')
  show ?case
  proof (intro partInlI)
    fix n and cl c :: "'w evalContext"
    assume c: "contextInl G n cl c" "namesApart G (cx_frames cl) (insideStatement (AsmForLoop l (AsmBlock l' pre) e post b))"
    have ap: "namesApart G (cx_frames cl) (concat (map definedStatement pre))" "namesApart G (cx_frames cl) (definedBlock post)"
      "namesApart G (cx_frames cl) (definedBlock b)"
      "fst ` set (concat (map definedStatement pre)) \<inter> fst ` set (definedBlock post @ definedBlock b) = {}"
      using c(2) by (auto simp: insideStatement_def apart_append)
    have here: "fst ` set (functionsHere pre) \<subseteq> fst ` set (concat (map definedStatement pre))"
      using functionsHere_names by blast
    have out: "fst ` set (functionsHere pre) \<inter> fst ` set (definedBlock post) = {}"
      "fst ` set (functionsHere pre) \<inter> fst ` set (definedBlock b) = {}"
      using ap(4) here unfolding set_append image_Un by blast+
    note pre = scope_statements [OF c(1) ap(1) inl_for(1)]
    have post: "execInl (execBlock (enterScope pre cl) post) (execBlock (enterScope pre' c) post')"
      by (rule partInlD [OF inl_for(4) pre(1)]) (simp add: apart_over [OF ap(2) out(1)])
    have b: "execInl (execBlock (enterScope pre cl) b) (execBlock (enterScope pre' c) b')"
      by (rule partInlD [OF inl_for(6) pre(1)]) (simp add: apart_over [OF ap(3) out(2)])
    have k: "cx_rounds cl \<le> cx_rounds c" using c(1) by (simp add: contextInl_def)
    show "execInl (execStatement cl (AsmForLoop l (AsmBlock l' pre) e post b)) (execStatement c (AsmForLoop l (AsmBlock l' pre') e' post' b'))"
      unfolding execStatement.simps Let_def cx_enterScope
      by (intro execInlI runLe_bind_eq execInlD [OF pre(2)] execInlD [OF loopRounds_inl [OF _ b post k]]
          evaluate_same [OF pre(1) inl_for(2)]) simp
  qed
next
  case (inl_inner b b')
  then show ?case by (simp add: insideStatement_def)
next
  case (inl_block sts sts' l)
  show ?case
  proof (intro partInlI)
    fix n and cl c :: "'w evalContext" assume c: "contextInl G n cl c" "namesApart G (cx_frames cl) (definedBlock (AsmBlock l sts))"
    have "execInl (execStatements (enterScope sts cl) sts) (execStatements (enterScope sts' c) sts')"
      by (rule scope_statements(2) [OF c(1) _ inl_block]) (use c(2) in simp)
    then show "execInl (execBlock cl (AsmBlock l sts)) (execBlock c (AsmBlock l sts'))"
      unfolding execBlock.simps by (rule scope_inl)
  qed
next
  case inl_no_case
  then show ?case by (intro partInlI) simp
next
  case (inl_case b b' cs cs' l k)
  show ?case
  proof (intro partInlI)
    fix n and cl c :: "'w evalContext" assume c: "contextInl G n cl c" "namesApart G (cx_frames cl) (concat (map definedCase (AsmCase l k b # cs)))"
    have ap: "namesApart G (cx_frames cl) (definedBlock b)" "namesApart G (cx_frames cl) (concat (map definedCase cs))"
      using c(2) by (simp_all add: apart_append)
    have b: "execInl (execBlock cl b) (execBlock c b')" by (rule partInlD [OF inl_case(2) c(1) ap(1)])
    have m: "cx_machine cl = cx_machine c" using c(1) by (simp add: contextInl_def)
    have cs: "execInl (execCases cl cs a x) (execCases c cs' a x')" if "execInl x x'" for x x'
      by (rule partInlD [OF inl_case(4) c(1) ap(2)]) (use that in simp)
    show "execInl (execCases cl (AsmCase l k b # cs) a other) (execCases c (AsmCase l k b' # cs') a other')"
      using b m cs inl_case(5) by (cases k) simp_all
  qed
qed


section \<open>Calls and programs\<close>

lemma callFunction_inl:
  assumes "machineOk M" "machineStable M" "properParameters G"
  shows "n \<le> n' \<Longrightarrow> callInl G (callFunction M n) (callFunction M n')"
proof (induction n arbitrary: n' rule: less_induct)
  case (less n)
  show ?case
  proof (cases n)
    case (Suc m)
    then obtain m' where m': "n' = Suc m'" "m \<le> m'" using less(2) by (cases n') auto
    show ?thesis unfolding callInl_def
    proof (intro allI impI)
      fix F F' f vs w assume F: "sees G F F'"
      show "runLe (=) (callFunction M n F f vs w) (callFunction M n' F' f vs w)"
      proof (cases "lookupFunction F f")
        case (Some y)
        obtain ps rs b H where y: "lookupFunction F f = Some ((ps, rs, b), H)" using Some by (cases y) auto
        obtain b' H' where 1: "G f = Some (ps, rs, b)" "wfFrames G H" "namesApart G H (definedBlock b)"
            "lookupFunction F' f = Some ((ps, rs, b'), H')" "inlinedBlock G b b'" "list_all2 (frameInl G) H H'"
          using F y unfolding sees_def by blast
        let ?c = "\<lambda>m H. \<lparr>cx_machine = M, cx_call = callFunction M m, cx_rounds = m, cx_frames = H\<rparr>"
        have "contextInl G m (?c m H) (?c m' H')"
          using assms 1(2,6) m'(2) less(1) Suc by (simp add: contextInl_def)
        from partInlD [OF inlined_simulation(2) [OF 1(5)] this] 1(3)
        have "execInl (execBlock (?c m H) b) (execBlock (?c m' H') b')" by simp
        then have "runLe (=) (resultValues rs (execBlock (?c m H) b (callEnv ps rs vs) w))
            (resultValues rs (execBlock (?c m' H') b' (callEnv ps rs vs) w))"
          unfolding resultValues_def by (intro runLe_bind_eq execInlD) simp_all
        then show ?thesis using Suc m'(1) y 1(4) by simp
      qed (use Suc in simp)
    qed
  qed (simp add: callInl_def)
qed

lemma unique_proper: "uniqueFunctions b \<Longrightarrow> properParameters (map_of (definedBlock b))"
  unfolding uniqueFunctions_def properParameters_def by (blast dest: map_of_SomeD)

theorem inlined_program:
  assumes "machineOk M" "machineStable M" "uniqueFunctions b" "inlinedBlock (map_of (definedBlock b)) b b'"
  shows "runLe (=) (runProgram M n b w) (runProgram M n b' w)"
proof -
  let ?G = "map_of (definedBlock b)"
  let ?c = "\<lparr>cx_machine = M, cx_call = callFunction M n, cx_rounds = n, cx_frames = []\<rparr>"
  have proper: "properParameters ?G" by (rule unique_proper [OF assms(3)])
  have "contextInl ?G n ?c ?c"
    using assms(1,2) proper callFunction_inl [OF assms(1,2) proper] by (simp add: contextInl_def)
  moreover have "namesApart ?G [] (definedBlock b)"
    using assms(3) by (auto simp: namesApart_def uniqueFunctions_def frameNames_def)
  ultimately have "execInl (execBlock ?c b) (execBlock ?c b')"
    using partInlD [OF inlined_simulation(2) [OF assms(4)], of n ?c ?c] by simp
  then show ?thesis unfolding runProgram_def by (intro runLe_bind_eq execInlD) simp_all
qed

section \<open>What the inliner makes of a tree\<close>

text \<open>An entry of the inlinable functions: a function of the program and a value that its own value was inlined to.\<close>

definition entryOk :: "(string \<rightharpoonup> julia_function) \<Rightarrow> string \<Rightarrow> string list \<Rightarrow> AsmExpression \<Rightarrow> bool" where
  "entryOk G f ns val =
     (\<exists>ps r l0 l1 j e. G f = Some (ps, [r], AsmBlock l0 [AsmAssignment l1 [j] e]) \<and> ns = map tn_name ps \<and>
        ai_name j = tn_name r \<and> refsExpression (tn_name r) e = 0 \<and> inlined G e val)"

definition entriesOk :: "(string \<rightharpoonup> julia_function) \<Rightarrow> inlinable \<Rightarrow> bool" where
  "entriesOk G fs = (\<forall>f ns val. map_of fs f = Some (ns, val) \<longrightarrow> entryOk G f ns val)"

lemma entriesOk_Nil: "entriesOk G []"
  by (simp add: entriesOk_def)

lemma entriesOk_update: "entriesOk G fs \<Longrightarrow> entryOk G f ns val \<Longrightarrow> entriesOk G (AList.update f (ns, val) fs)"
  by (simp add: entriesOk_def update_conv')

lemma allMovable_exact: "allMovable args = Inr (list_all movableExpression args)"
proof (induction args)
  case (Cons a args)
  obtain mc where "checkMovable a = Inr mc" "mc_movable mc = movableExpression a" using checkMovable_exact by blast
  then show ?case using Cons by simp
qed simp

lemma inlineCall_inlined:
  assumes "entriesOk G fs" "inlineCall fs (AsmFunctionCall l f args') = Inr e'" "list_all2 (inlined G) args args'"
  shows "inlined G (AsmFunctionCall l f args) e'"
proof (cases "list_all movableExpression args' \<and> map_of fs (ai_name f) \<noteq> None")
  case True
  then obtain ns val where f: "map_of fs (ai_name f) = Some (ns, val)" by auto
  obtain ps r l0 l1 j e where 1: "G (ai_name f) = Some (ps, [r], AsmBlock l0 [AsmAssignment l1 [j] e])"
      "ns = map tn_name ps" "ai_name j = tn_name r" "refsExpression (tn_name r) e = 0" "inlined G e val"
    using assms(1) f unfolding entriesOk_def entryOk_def by blast
  have "e' = substituted (map_of (rev (zip (map tn_name ps) args'))) val"
    using assms(2) f True 1(2) by (auto simp: inlineCall_def allMovable_exact split: if_splits)
  then show ?thesis using inlined_value [OF assms(3) _ 1(1,3,4,5)] True by simp
next
  case False
  then have "e' = AsmFunctionCall l f args'"
    using assms(2) by (auto simp: inlineCall_def allMovable_exact split: if_splits option.splits)
  then show ?thesis using assms(3) by (simp add: inlined_call)
qed

lemma inlineCall_other:
  "inlineCall fs (AsmFunctionalInstruction l i args) = Inr (AsmFunctionalInstruction l i args)"
  "inlineCall fs (AsmIdentifierExpression j) = Inr (AsmIdentifierExpression j)"
  "inlineCall fs (AsmLiteralExpression k) = Inr (AsmLiteralExpression k)"
  by (simp_all add: inlineCall_def)

lemma modify_inlined:
  shows "modifyExpression inlineExpression e fs = Inr (e', fs') \<Longrightarrow> entriesOk G fs \<Longrightarrow> inlined G e e' \<and> fs' = fs"
    and "modifyArguments inlineExpression args fs = Inr (args', fs') \<Longrightarrow> entriesOk G fs \<Longrightarrow>
      list_all2 (inlined G) args args' \<and> fs' = fs"
proof (induction inlineExpression e and inlineExpression args fs
    arbitrary: fs e' fs' and args' fs' rule: modifyExpression_modifyArguments.induct)
  case (1 l i args)
  then show ?case
    by (auto simp: inlineExpression_def keepR_def inlineCall_other intro!: inlined_instruction)
next
  case (2 l f args)
  then show ?case
    by (auto simp: inlineExpression_def keepR_def intro!: inlineCall_inlined)
next
  case (6 a args fs)
  then show ?case by (fastforce simp: keepR_def)
qed (auto simp: inlineExpression_def inlineCall_other inlined_identifier inlined_literal)


lemma inlined_assignment_body:
  assumes "inlinedBlock G (AsmBlock l0 [AsmAssignment l1 [j] e]) b'"
  shows "\<exists>e'. b' = AsmBlock l0 [AsmAssignment l1 [j] e'] \<and> inlined G e e'"
  using assms by (auto elim!: inlinedBlockE simp: list_all2_Cons1 inlined_assignment_iff)

definition functionsOf :: "(string \<rightharpoonup> julia_function) \<Rightarrow> frame \<Rightarrow> bool" where
  "functionsOf G fr = (\<forall>(f, d)\<in>set fr. G f = Some d)"

lemma functionsOf_simps [simp]:
  "functionsOf G []" "functionsOf G ((f, d) # fr) = (G f = Some d \<and> functionsOf G fr)"
  "functionsOf G (fr @ fr') = (functionsOf G fr \<and> functionsOf G fr')"
  by (auto simp: functionsOf_def)

lemma function_entry:
  assumes "entriesOk G fs" "G f = Some (ps, rs, b)" "inlinedBlock G b b'"
  shows "entriesOk G (am_function expressionInliner (AsmFunctionDefinition l f ps rs b') fs)"
proof (cases "map_of fs f")
  case (Some x)
  then obtain qs val where x: "map_of fs f = Some (qs, val)" by (cases x) auto
  obtain r l0 l1 j e where 1: "rs = [r]" "b = AsmBlock l0 [AsmAssignment l1 [j] e]" "qs = map tn_name ps"
      "ai_name j = tn_name r" "refsExpression (tn_name r) e = 0"
    using assms(1,2) x unfolding entriesOk_def entryOk_def by fastforce
  obtain e' where e': "b' = AsmBlock l0 [AsmAssignment l1 [j] e']" "inlined G e e'"
    using inlined_assignment_body assms(3) 1(2) by blast
  have "entryOk G f qs e'" unfolding entryOk_def using assms(2) 1 e'(2) by blast
  then show ?thesis using assms(1) x 1 e'(1) by (simp add: expressionInliner_def entriesOk_update)
qed (simp add: expressionInliner_def assms(1))

lemma am_expression_inliner [simp]: "am_expression expressionInliner = inlineExpression"
  by (simp add: expressionInliner_def)

lemma inlinedBlock_sts: "inlinedBlock G (AsmBlock l sts) (AsmBlock l' sts') \<longleftrightarrow> l' = l \<and> list_all2 (inlinedStatement G) sts sts'"
  by (auto elim: inlinedBlockE intro: inl_block)

lemma inl_for_blocks:
  "inlinedBlock G pre pre' \<Longrightarrow> inlined G e e' \<Longrightarrow> inlinedBlock G post post' \<Longrightarrow> inlinedBlock G b b' \<Longrightarrow>
     inlinedStatement G (AsmForLoop l pre e post b) (AsmForLoop l pre' e' post' b')"
  by (cases pre; cases pre') (simp add: inlinedBlock_sts inl_for)

lemma modify_statement_inlined:
  "modifyStatement expressionInliner st fs = Inr (st', fs') \<Longrightarrow> entriesOk G fs \<Longrightarrow> functionsOf G (definedStatement st) \<Longrightarrow>
     inlinedStatement G st st' \<and> entriesOk G fs'"
  "modifyStatements expressionInliner sts fs = Inr (sts', fs') \<Longrightarrow> entriesOk G fs \<Longrightarrow>
     functionsOf G (concat (map definedStatement sts)) \<Longrightarrow> list_all2 (inlinedStatement G) sts sts' \<and> entriesOk G fs'"
  "modifyBlock expressionInliner b fs = Inr (b', fs') \<Longrightarrow> entriesOk G fs \<Longrightarrow> functionsOf G (definedBlock b) \<Longrightarrow>
     inlinedBlock G b b' \<and> entriesOk G fs'"
  "modifyCases expressionInliner cs fs = Inr (cs', fs') \<Longrightarrow> entriesOk G fs \<Longrightarrow>
     functionsOf G (concat (map definedCase cs)) \<Longrightarrow> inlinedCases G cs cs' \<and> entriesOk G fs'"
proof (induction expressionInliner st fs and expressionInliner sts fs and expressionInliner b fs and expressionInliner cs fs
    arbitrary: st' fs' and sts' fs' and b' fs' and cs' fs'
    rule: modifyStatement_modifyStatements_modifyBlock_modifyCases.induct)
  case (1 l e s)
  then show ?case by (auto simp: keepR_def dest!: modify_inlined(1) [where G = G] intro: inl_expression)
next
  case (5 l "is" e s)
  then show ?case by (auto simp: keepR_def dest!: modify_inlined(1) [where G = G] intro: inl_assignment)
next
  case (6 l vs s)
  then show ?case by (auto intro: inl_declaration)
next
  case (7 l vs e s)
  then show ?case by (auto simp: keepR_def dest!: modify_inlined(1) [where G = G] intro: inl_variable)
next
  case (8 l f ps rs b s)
  from "8.prems"(1) obtain b1 fs1 where 1: "modifyBlock expressionInliner b s = Inr (b1, fs1)"
      "st' = AsmFunctionDefinition l f ps rs b1" "fs' = am_function expressionInliner st' fs1"
    by (auto simp: Let_def)
  have "inlinedBlock G b b1 \<and> entriesOk G fs1" using "8.hyps"(1) [OF 1(1) "8.prems"(2)] "8.prems"(3) by simp
  then show ?case using 1(2,3) "8.prems"(3) function_entry [of G fs1 f ps rs b b1 l] by (simp add: inl_function)
next
  case (9 l c b s)
  from "9.prems"(1) obtain c1 fs1 b1 where 1: "modifyExpression inlineExpression c s = Inr (c1, fs1)"
      "modifyBlock expressionInliner b fs1 = Inr (b1, fs')" "st' = AsmIf l c1 b1"
    by (auto simp: keepR_def)
  note c = modify_inlined(1) [OF 1(1) "9.prems"(2)]
  have "inlinedBlock G b b1 \<and> entriesOk G fs'" by (rule "9.hyps") (use 1 c "9.prems" in auto)
  then show ?case using c 1(3) by (simp add: inl_if)
next
  case (10 l e cs s)
  from "10.prems"(1) obtain e1 fs1 cs1 where 1: "modifyExpression inlineExpression e s = Inr (e1, fs1)"
      "modifyCases expressionInliner cs fs1 = Inr (cs1, fs')" "st' = AsmSwitch l e1 cs1"
    by (auto simp: keepR_def)
  note c = modify_inlined(1) [OF 1(1) "10.prems"(2)]
  have "inlinedCases G cs cs1 \<and> entriesOk G fs'" by (rule "10.hyps") (use 1 c "10.prems" in auto)
  then show ?case using c 1(3) by (simp add: inl_switch)
next
  case (11 l pre c post b s)
  from "11.prems"(1) obtain pre1 fs1 c1 fs2 post1 fs3 b1 where 1: "modifyBlock expressionInliner pre s = Inr (pre1, fs1)"
      "modifyExpression inlineExpression c fs1 = Inr (c1, fs2)" "modifyBlock expressionInliner post fs2 = Inr (post1, fs3)"
      "modifyBlock expressionInliner b fs3 = Inr (b1, fs')" "st' = AsmForLoop l pre1 c1 post1 b1"
    by (auto simp: keepR_def)
  have pre: "inlinedBlock G pre pre1 \<and> entriesOk G fs1" by (rule "11.hyps"(1)) (use 1 "11.prems" in auto)
  then have c: "inlined G c c1 \<and> fs2 = fs1" using modify_inlined(1) [OF 1(2)] by blast
  then have post: "inlinedBlock G post post1 \<and> entriesOk G fs3" using "11.hyps"(2) [OF 1(3)] c pre "11.prems"(3) by simp
  then have "inlinedBlock G b b1 \<and> entriesOk G fs'"
    using "11.hyps"(3) [OF 1(4)] "11.prems"(3) by simp
  then show ?case using pre c post 1(5) by (simp add: inl_for_blocks)
next
  case (12 b s)
  then show ?case by (auto simp: keepR_def intro: inl_inner)
next
  case (14 st sts s)
  from "14.prems"(1) obtain st1 fs1 sts1 where 1: "modifyStatement expressionInliner st s = Inr (st1, fs1)"
      "modifyStatements expressionInliner sts fs1 = Inr (sts1, fs')" "sts' = st1 # sts1"
    by (auto simp: keepR_def)
  have st: "inlinedStatement G st st1 \<and> entriesOk G fs1" by (rule "14.hyps"(1)) (use 1 "14.prems" in auto)
  then have "list_all2 (inlinedStatement G) sts sts1 \<and> entriesOk G fs'" using "14.hyps"(2) [OF 1(2)] "14.prems"(3) by simp
  then show ?case using st 1(3) by simp
next
  case (15 l sts s)
  then show ?case by (auto simp: keepR_def intro: inl_block)
next
  case (17 l v b cs s)
  from "17.prems"(1) obtain b1 fs1 cs1 where 1: "modifyBlock expressionInliner b s = Inr (b1, fs1)"
      "modifyCases expressionInliner cs fs1 = Inr (cs1, fs')" "cs' = AsmCase l v b1 # cs1"
    by (auto simp: keepR_def)
  have b: "inlinedBlock G b b1 \<and> entriesOk G fs1" by (rule "17.hyps"(1)) (use 1 "17.prems" in auto)
  then have "inlinedCases G cs cs1 \<and> entriesOk G fs'" using "17.hyps"(2) [OF 1(2)] "17.prems"(3) by simp
  then show ?case using b 1(3) by (simp add: inl_case)
qed (auto simp: invalidNode_def inl_no_case)


section \<open>What the finder finds\<close>

lemma finder_simps [simp]:
  "ew_identifier finderExpression i s = Inr (checkAllowed (ai_name i) s)"
  "ew_literal finderExpression c s = Inr s"
  "ew_visit finderExpression e base = base"
  "ew_operation finderExpression (AsmFunctionalInstruction l j args) base s = base s"
  "ew_operation finderExpression (AsmFunctionCall l f args) base s = base (checkAllowed (ai_name f) s)"
  by (simp_all add: finderExpression_def baseExprWalker_def)

text \<open>Looking at an expression: whether it refers to a name that is not allowed.\<close>

definition looksFor :: "(string \<Rightarrow> nat) \<Rightarrow> InlinableFinder \<Rightarrow> InlinableFinder res \<Rightarrow> bool" where
  "looksFor cnt s r =
     (r = Inr (s\<lparr>if_foundDisallowed := if_foundDisallowed s \<or> (\<exists>n\<in>set (if_disallowed s). 0 < cnt n)\<rparr>))"

lemma looksFor_none: "looksFor (\<lambda>n. 0) s (Inr s)"
  by (simp add: looksFor_def)

lemma looksFor_name: "looksFor (\<lambda>n. hit n name) s (Inr (checkAllowed name s))"
  by (auto simp: looksFor_def checkAllowed_def hit_def)

lemma looksFor_bind:
  assumes "looksFor f s r" "\<And>s. looksFor g s (k s)" "\<And>n. h n = f n + g n"
  shows "looksFor h s (bindR r k)"
  using assms(1) assms(2) [of "s\<lparr>if_foundDisallowed := if_foundDisallowed s \<or> (\<exists>n\<in>set (if_disallowed s). 0 < f n)\<rparr>"]
  by (simp add: looksFor_def assms(3) bex_disj_distrib disj_assoc)

lemma finder_looks:
  "looksFor (\<lambda>n. refsExpression n e) s (walkExpression finderExpression e s)"
  "looksFor (\<lambda>n. refsArguments n args) s (walkArguments finderExpression args s)"
proof (induction finderExpression e and finderExpression args arbitrary: s and s
    rule: walkExpression_walkArguments.induct)
  case (2 l f args)
  have "looksFor (\<lambda>n. hit n (ai_name f) + refsArguments n args) s
      (bindR (Inr (checkAllowed (ai_name f) s)) (walkArguments finderExpression args))"
    by (rule looksFor_bind [OF looksFor_name 2]) simp
  then show ?case by simp
next
  case (6 a args)
  show ?case by simp (rule looksFor_bind [OF 6], simp)
qed (simp_all add: looksFor_none looksFor_name)

definition finderOk :: "(string \<rightharpoonup> julia_function) \<Rightarrow> InlinableFinder \<Rightarrow> bool" where
  "finderOk G s = (if_disallowed s = [] \<and> \<not> if_foundDisallowed s \<and> entriesOk G (if_inlinable s))"

definition finds :: "(string \<rightharpoonup> julia_function) \<Rightarrow> InlinableFinder res \<Rightarrow> bool" where
  "finds G r = (\<exists>s. r = Inr s \<and> finderOk G s)"

lemma finds_bind: "finds G r \<Longrightarrow> (\<And>s. finderOk G s \<Longrightarrow> finds G (k s)) \<Longrightarrow> finds G (bindR r k)"
  by (auto simp: finds_def)

lemma finds_done: "finderOk G s \<Longrightarrow> finds G (Inr s)"
  by (simp add: finds_def)

lemma finds_expression: "finderOk G s \<Longrightarrow> finds G (walkExpression finderExpression e s)"
  using finder_looks(1) [of e s] by (simp add: looksFor_def finds_def finderOk_def)

lemma finds_identifiers: "finderOk G s \<Longrightarrow> finds G (walkIdentifiers finderExpression is s)"
proof (induction "is" arbitrary: s)
  case (Cons i "is")
  then show ?case by (simp add: checkAllowed_def finderOk_def)
qed (simp add: finds_done)

lemma inlinableValue_Some:
  assumes "inlinableValue rs b = Some e"
  obtains r l0 l1 j where "rs = [r]" "b = AsmBlock l0 [AsmAssignment l1 [j] e]" "ai_name j = tn_name r"
  using assms by (elim inlinableValue.elims) (auto split: if_splits)

lemma finds_candidate:
  assumes "finderOk G s" "G f = Some (ps, rs, b)" "inlinableValue rs b = Some e"
  shows "finds G (visitCandidate f ps rs e s)"
proof -
  obtain r l0 l1 j where b: "rs = [r]" "b = AsmBlock l0 [AsmAssignment l1 [j] e]" "ai_name j = tn_name r"
    by (rule inlinableValue_Some [OF assms(3)])
  let ?s = "s\<lparr>if_disallowed := map tn_name rs @ [f]\<rparr>"
  have walk: "walkExpression finderExpression e ?s =
      Inr (?s\<lparr>if_foundDisallowed := \<exists>n\<in>{tn_name r, f}. 0 < refsExpression n e\<rparr>)"
    using finder_looks(1) [of e ?s] assms(1) b(1) by (simp add: looksFor_def finderOk_def)
  show ?thesis
  proof (cases "\<exists>n\<in>{tn_name r, f}. 0 < refsExpression n e")
    case False
    then have "entryOk G f (map tn_name ps) e"
      using assms(2) b inlined_refl [of G e] unfolding entryOk_def by simp
    then show ?thesis using assms(1) walk False
      by (simp add: visitCandidate_def finds_def finderOk_def entriesOk_update)
  qed (use assms(1) walk in \<open>auto simp: visitCandidate_def finds_def finderOk_def\<close>)
qed

lemma inlinableFinder_simps [simp]:
  "w_expression inlinableFinder = finderExpression" "w_visit inlinableFinder st base = base"
  "w_statement inlinableFinder st base s =
     (case st of
        AsmFunctionDefinition l f ps rs b \<Rightarrow>
          (case inlinableValue rs b of
             None \<Rightarrow> base s
           | Some e \<Rightarrow> bindR (visitCandidate f ps rs e s) base)
      | _ \<Rightarrow> base s)"
  by (simp_all add: inlinableFinder_def baseWalker_def)

lemma finder_finds:
  "strictStatement st \<Longrightarrow> functionsOf G (definedStatement st) \<Longrightarrow> finderOk G s \<Longrightarrow>
     finds G (walkStatement inlinableFinder st s)"
  "list_all strictStatement sts \<Longrightarrow> functionsOf G (concat (map definedStatement sts)) \<Longrightarrow> finderOk G s \<Longrightarrow>
     finds G (walkStatements inlinableFinder sts s)"
  "strictBlock b \<Longrightarrow> functionsOf G (definedBlock b) \<Longrightarrow> finderOk G s \<Longrightarrow>
     finds G (walkBlock inlinableFinder b s)"
  "list_all strictCase cs \<Longrightarrow> functionsOf G (concat (map definedCase cs)) \<Longrightarrow> finderOk G s \<Longrightarrow>
     finds G (walkCases inlinableFinder cs s)"
proof (induction inlinableFinder st and inlinableFinder sts and inlinableFinder b and inlinableFinder cs
    arbitrary: s and s and s and s
    rule: walkStatement_walkStatements_walkBlock_walkCases.induct)
  case (5 l "is" e)
  then show ?case by (auto intro!: finds_bind finds_expression finds_identifiers)
next
  case (7 l f ps rs b)
  have body: "finds G (walkBlock inlinableFinder b s)" if "finderOk G s" for s
    using 7 that by simp
  have "finds G (visitCandidate f ps rs e s)" if "inlinableValue rs b = Some e" for e
    using finds_candidate [OF 7(4) _ that] 7(3) by simp
  then show ?case using body 7(4) by (auto split: option.splits intro: finds_bind)
next
  case (10 l pre c post b)
  then show ?case by (auto intro!: finds_bind finds_expression)
next
  case (16 l v b cs)
  have "(case v of None \<Rightarrow> Inr s | Some c \<Rightarrow> ew_literal (w_expression inlinableFinder) c s) = Inr s"
    by (cases v) simp_all
  then show ?case using 16 by (auto intro!: finds_bind)
qed (auto intro!: finds_bind finds_expression finds_done split: option.splits)

lemma inlinableFunctions_ok:
  assumes "strictBlock b" "functionsOf G (definedBlock b)"
  shows "\<exists>fs. inlinableFunctions b = Inr fs \<and> entriesOk G fs"
proof -
  have "finds G (walkBlock inlinableFinder b \<lparr>if_foundDisallowed = False, if_disallowed = [], if_inlinable = []\<rparr>)"
    by (rule finder_finds(3) [OF assms]) (simp add: finderOk_def entriesOk_Nil)
  then show ?thesis by (auto simp: finds_def inlinableFunctions_def finderOk_def)
qed


section \<open>The inliner returns\<close>

text \<open>Every call of a function of the program has as many arguments as the function has parameters.\<close>

definition fitsCall :: "(string \<rightharpoonup> julia_function) \<Rightarrow> string \<Rightarrow> AsmExpression list \<Rightarrow> bool" where
  "fitsCall G f args = (case G f of None \<Rightarrow> True | Some (ps, rs, b) \<Rightarrow> length ps = length args)"

fun fitExpression :: "(string \<rightharpoonup> julia_function) \<Rightarrow> AsmExpression \<Rightarrow> bool" where
  "fitExpression G (AsmFunctionalInstruction l i args) = list_all (fitExpression G) args"
| "fitExpression G (AsmFunctionCall l f args) = (fitsCall G (ai_name f) args \<and> list_all (fitExpression G) args)"
| "fitExpression G _ = True"

fun fitStatement :: "(string \<rightharpoonup> julia_function) \<Rightarrow> AsmStatement \<Rightarrow> bool"
  and fitBlock :: "(string \<rightharpoonup> julia_function) \<Rightarrow> AsmBlock \<Rightarrow> bool"
  and fitCase :: "(string \<rightharpoonup> julia_function) \<Rightarrow> AsmCase \<Rightarrow> bool" where
  "fitStatement G (AsmExpressionStatement l e) = fitExpression G e"
| "fitStatement G (AsmAssignment l is e) = fitExpression G e"
| "fitStatement G (AsmVariableDeclaration l vs v) = (case v of None \<Rightarrow> True | Some e \<Rightarrow> fitExpression G e)"
| "fitStatement G (AsmFunctionDefinition l f ps rs b) = fitBlock G b"
| "fitStatement G (AsmIf l c b) = (fitExpression G c \<and> fitBlock G b)"
| "fitStatement G (AsmSwitch l e cs) = (fitExpression G e \<and> list_all (fitCase G) cs)"
| "fitStatement G (AsmForLoop l pre c post b) = (fitBlock G pre \<and> fitExpression G c \<and> fitBlock G post \<and> fitBlock G b)"
| "fitStatement G (AsmBlockStatement b) = fitBlock G b"
| "fitStatement G _ = True"
| "fitBlock G (AsmBlock l sts) = list_all (fitStatement G) sts"
| "fitCase G (AsmCase l v b) = fitBlock G b"

lemma inlineCall_returns:
  assumes "entriesOk G fs" "fitsCall G (ai_name f) args" "length args' = length args"
  shows "\<exists>e'. inlineCall fs (AsmFunctionCall l f args') = Inr e'"
proof (cases "map_of fs (ai_name f)")
  case (Some x)
  obtain ns val where x: "x = (ns, val)" by (cases x) auto
  then have "length ns = length args"
    using assms(1,2) Some unfolding entriesOk_def entryOk_def fitsCall_def by fastforce
  then show ?thesis using Some x assms(3) by (simp add: inlineCall_def allMovable_exact)
qed (simp add: inlineCall_def allMovable_exact)

lemma modify_returns:
  "fitExpression G e \<Longrightarrow> entriesOk G fs \<Longrightarrow> \<exists>e'. modifyExpression inlineExpression e fs = Inr (e', fs)"
  "list_all (fitExpression G) args \<Longrightarrow> entriesOk G fs \<Longrightarrow>
     \<exists>args'. modifyArguments inlineExpression args fs = Inr (args', fs) \<and> length args' = length args"
proof (induction inlineExpression e and inlineExpression args fs
    arbitrary: fs and rule: modifyExpression_modifyArguments.induct)
  case (1 l i args)
  then obtain args' where "modifyArguments inlineExpression args fs = Inr (args', fs)" by fastforce
  then show ?case by (simp add: inlineExpression_def keepR_def inlineCall_other)
next
  case (2 l f args)
  then obtain args' where 3: "modifyArguments inlineExpression args fs = Inr (args', fs)" "length args' = length args" by fastforce
  obtain e' where "inlineCall fs (AsmFunctionCall l f args') = Inr e'"
    using inlineCall_returns [OF "2.prems"(2) _ 3(2)] "2.prems"(1) by auto
  then show ?case using 3 by (simp add: inlineExpression_def keepR_def)
next
  case (6 a args fs)
  obtain args' where 7: "modifyArguments inlineExpression args fs = Inr (args', fs)" "length args' = length args"
    using 6(1) 6(3,4) by auto
  obtain a' where "modifyExpression inlineExpression a fs = Inr (a', fs)"
    using "6.hyps"(2) "6.prems" by auto
  then show ?case using 7 by (simp add: keepR_def)
qed (simp_all add: inlineExpression_def inlineCall_other)

definition modifies :: "(string \<rightharpoonup> julia_function) \<Rightarrow> ('a \<times> inlinable) res \<Rightarrow> bool" where
  "modifies G r = (\<exists>x fs. r = Inr (x, fs) \<and> entriesOk G fs)"

lemma modifies_bind: "modifies G r \<Longrightarrow> (\<And>x fs. entriesOk G fs \<Longrightarrow> modifies G (k x fs)) \<Longrightarrow> modifies G (bindR r (\<lambda>(x, fs). k x fs))"
  by (auto simp: modifies_def)

lemma modifies_keep: "modifies G r \<Longrightarrow> modifies G (keepR f r)"
  by (auto simp: modifies_def keepR_def)

lemma modifies_done: "entriesOk G fs \<Longrightarrow> modifies G (Inr (x, fs))"
  by (simp add: modifies_def)

lemma modifies_expression: "fitExpression G e \<Longrightarrow> entriesOk G fs \<Longrightarrow> modifies G (modifyExpression inlineExpression e fs)"
  using modify_returns(1) [of G e fs] by (auto simp: modifies_def)

lemma modify_statement_returns:
  "strictStatement st \<Longrightarrow> fitStatement G st \<Longrightarrow> functionsOf G (definedStatement st) \<Longrightarrow> entriesOk G fs \<Longrightarrow>
     modifies G (modifyStatement expressionInliner st fs)"
  "list_all strictStatement sts \<Longrightarrow> list_all (fitStatement G) sts \<Longrightarrow> functionsOf G (concat (map definedStatement sts)) \<Longrightarrow>
     entriesOk G fs \<Longrightarrow> modifies G (modifyStatements expressionInliner sts fs)"
  "strictBlock b \<Longrightarrow> fitBlock G b \<Longrightarrow> functionsOf G (definedBlock b) \<Longrightarrow> entriesOk G fs \<Longrightarrow>
     modifies G (modifyBlock expressionInliner b fs)"
  "list_all strictCase cs \<Longrightarrow> list_all (fitCase G) cs \<Longrightarrow> functionsOf G (concat (map definedCase cs)) \<Longrightarrow>
     entriesOk G fs \<Longrightarrow> modifies G (modifyCases expressionInliner cs fs)"
proof (induction expressionInliner st fs and expressionInliner sts fs and expressionInliner b fs and expressionInliner cs fs
    rule: modifyStatement_modifyStatements_modifyBlock_modifyCases.induct)
  case (8 l f ps rs b fs)
  have "modifies G (modifyBlock expressionInliner b fs)" using 8 by simp
  then obtain b1 fs1 where 1: "modifyBlock expressionInliner b fs = Inr (b1, fs1)" by (auto simp: modifies_def)
  have "inlinedBlock G b b1 \<and> entriesOk G fs1" by (rule modify_statement_inlined(3) [OF 1]) (use 8 in simp_all)
  then show ?case using 1 function_entry [of G fs1 f ps rs b b1 l] 8(4) by (simp add: modifies_def Let_def)
next
  case (9 l c b fs)
  then show ?case by (auto intro!: modifies_bind modifies_keep modifies_expression)
next
  case (10 l e cs fs)
  then show ?case by (auto intro!: modifies_bind modifies_keep modifies_expression)
next
  case (11 l pre c post b fs)
  then show ?case by (auto intro!: modifies_bind modifies_keep modifies_expression)
qed (auto intro!: modifies_bind modifies_keep modifies_expression modifies_done)

theorem inlining_keeps:
  assumes "strictBlock b" "uniqueFunctions b" "fitBlock (map_of (definedBlock b)) b"
  shows "\<exists>b'. inlineExpressions b = Inr b' \<and>
    (machineOk M \<longrightarrow> machineStable M \<longrightarrow> (\<forall>n w. runLe (=) (runProgram M n b w) (runProgram M n b' w)))"
proof -
  let ?G = "map_of (definedBlock b)"
  have fns: "functionsOf ?G (definedBlock b)" using assms(2) by (auto simp: functionsOf_def uniqueFunctions_def)
  obtain fs where fs: "inlinableFunctions b = Inr fs" "entriesOk ?G fs"
    using inlinableFunctions_ok [OF assms(1) fns] by blast
  have "modifies ?G (modifyBlock expressionInliner b fs)"
    by (rule modify_statement_returns(3) [OF assms(1,3) fns fs(2)])
  then obtain b' fs' where b': "modifyBlock expressionInliner b fs = Inr (b', fs')" by (auto simp: modifies_def)
  have "inlinedBlock ?G b b'" using modify_statement_inlined(3) [OF b' fs(2) fns] by blast
  then have "runLe (=) (runProgram M n b w) (runProgram M n b' w)" if "machineOk M" "machineStable M" for n w
    using inlined_program [OF that assms(2)] \<open>inlinedBlock ?G b b'\<close> by simp
  moreover have "inlineExpressions b = Inr b'" using fs(1) b' by (simp add: inlineExpressions_def)
  ultimately show ?thesis by blast
qed

end
