(* ===== verification/JuliaHoisting.thy ===== *)
theory JuliaHoisting
  imports JuliaInliner "HOL-Library.Multiset"
begin

text \<open>
  Hoisting, grouping and making a main function, one after the other: what is left is a row of functions
  without functions inside, the first of which is main and holds the rest of the program.
\<close>

fun functionName :: "AsmStatement \<Rightarrow> string" where
  "functionName (AsmFunctionDefinition l f ps rs b) = f"
| "functionName _ = ''''"

text \<open>A function definition without function definitions inside.\<close>

fun flatFunction :: "AsmStatement \<Rightarrow> bool" where
  "flatFunction (AsmFunctionDefinition l f ps rs b) = (definedBlock b = [] \<and> strictBlock b)"
| "flatFunction _ = False"

text \<open>The names that a tree declares.\<close>

fun declaredStatement :: "AsmStatement \<Rightarrow> string set"
  and declaredBlock :: "AsmBlock \<Rightarrow> string set"
  and declaredCase :: "AsmCase \<Rightarrow> string set" where
  "declaredStatement (AsmVariableDeclaration l vs v) = tn_name ` set vs"
| "declaredStatement (AsmFunctionDefinition l f ps rs b) =
     insert f (tn_name ` set ps \<union> tn_name ` set rs) \<union> declaredBlock b"
| "declaredStatement (AsmIf l c b) = declaredBlock b"
| "declaredStatement (AsmSwitch l e cs) = \<Union> (set (map declaredCase cs))"
| "declaredStatement (AsmForLoop l pre c post b) = declaredBlock pre \<union> declaredBlock post \<union> declaredBlock b"
| "declaredStatement (AsmBlockStatement b) = declaredBlock b"
| "declaredStatement _ = {}"
| "declaredBlock (AsmBlock l sts) = \<Union> (set (map declaredStatement sts))"
| "declaredCase (AsmCase l k b) = declaredBlock b"

abbreviation declaredStatements :: "AsmStatement list \<Rightarrow> string set" where
  "declaredStatements sts \<equiv> \<Union> (set (map declaredStatement sts))"

abbreviation declaredCases :: "AsmCase list \<Rightarrow> string set" where
  "declaredCases cs \<equiv> \<Union> (set (map declaredCase cs))"

text \<open>
  What hoisting a part gives: the part without functions, and flat functions with the names of those it
  had; together they declare what the part declared.
\<close>

definition hoists :: "frame \<Rightarrow> string set \<Rightarrow> AsmStatement list \<Rightarrow> ('a \<Rightarrow> bool) \<Rightarrow> ('a \<Rightarrow> string set) \<Rightarrow>
    ('a \<times> AsmStatement list) res \<Rightarrow> bool" where
  "hoists fr ns fs flat decl r =
     (\<exists>x gs. r = Inr (x, fs @ gs) \<and> flat x \<and> list_all flatFunction gs \<and>
        mset (map functionName gs) = mset (map fst fr) \<and> decl x \<union> declaredStatements gs = ns)"

lemma hoistsI:
  "r = Inr (x, fs @ gs) \<Longrightarrow> flat x \<Longrightarrow> list_all flatFunction gs \<Longrightarrow> mset (map functionName gs) = mset (map fst fr) \<Longrightarrow>
     decl x \<union> declaredStatements gs = ns \<Longrightarrow> hoists fr ns fs flat decl r"
  unfolding hoists_def by blast

lemma hoistsE:
  assumes "hoists fr ns fs flat decl r"
  obtains x gs where "r = Inr (x, fs @ gs)" "flat x" "list_all flatFunction gs"
    "mset (map functionName gs) = mset (map fst fr)" "decl x \<union> declaredStatements gs = ns"
  using assms unfolding hoists_def by blast

lemma hoists_none: "flat x \<Longrightarrow> decl x = ns \<Longrightarrow> hoists [] ns fs flat decl (Inr (x, fs))"
  by (rule hoistsI [where gs = "[]"]) simp_all

lemma hoists_keep:
  assumes "hoists fr ns fs flat decl r" "\<And>x. flat x \<Longrightarrow> flat' (f x)" "\<And>x. decl' (f x) = decl x \<union> ms" "ns' = ns \<union> ms"
  shows "hoists fr ns' fs flat' decl' (keepR f r)"
proof -
  from assms(1) obtain x gs where 1: "r = Inr (x, fs @ gs)" "flat x" "list_all flatFunction gs"
    "mset (map functionName gs) = mset (map fst fr)" "decl x \<union> declaredStatements gs = ns" by (rule hoistsE)
  show ?thesis
    by (rule hoistsI [where x = "f x" and gs = gs]) (use 1 assms(2-4) in \<open>auto simp: keepR_def\<close>)
qed

lemma hoists_weaken: "hoists fr ns fs flat decl r \<Longrightarrow> (\<And>x. flat x \<Longrightarrow> flat' x) \<Longrightarrow> hoists fr ns fs flat' decl r"
  unfolding hoists_def by blast

text \<open>Two parts of a node: the second one keeps the first one, of which the names are known.\<close>

lemma hoists_bind:
  assumes "hoists fr ns fs flat decl r"
    and "\<And>x fs' ms. flat x \<Longrightarrow> hoists fr' (decl x \<union> ms') fs' flat' decl' (k x fs')"
    and "mset (map fst fr'') = mset (map fst (fr @ fr'))" "ns'' = ns \<union> ms'"
  shows "hoists fr'' ns'' fs flat' decl' (bindR r (\<lambda>(x, fs'). k x fs'))"
proof -
  from assms(1) obtain x gs where 1: "r = Inr (x, fs @ gs)" "flat x" "list_all flatFunction gs"
    "mset (map functionName gs) = mset (map fst fr)" "decl x \<union> declaredStatements gs = ns" by (rule hoistsE)
  from assms(2) [OF 1(2), of "fs @ gs"] obtain y hs where
    2: "k x (fs @ gs) = Inr (y, (fs @ gs) @ hs)" "flat' y" "list_all flatFunction hs"
      "mset (map functionName hs) = mset (map fst fr')" "decl' y \<union> declaredStatements hs = decl x \<union> ms'" by (rule hoistsE)
  show ?thesis
    by (rule hoistsI [where x = y and gs = "gs @ hs"]) (use 1 2 assms(3,4) in auto)
qed

definition bare :: "AsmStatement \<Rightarrow> bool" where
  "bare st = (definedStatement st = [] \<and> strictStatement st)"

lemma bare_not_function: "bare st \<Longrightarrow> \<not> isFunctionDefinition st"
  by (cases st) (simp_all add: bare_def)

definition bareOrFlat :: "AsmStatement \<Rightarrow> bool" where
  "bareOrFlat st = (bare st \<or> flatFunction st)"

lemma flatFunction_iff: "flatFunction st \<Longrightarrow> isFunctionDefinition st"
  by (cases st) simp_all

lemma definedStatements_bare: "list_all bare sts \<Longrightarrow> concat (map definedStatement sts) = [] \<and> list_all strictStatement sts"
  by (induction sts) (auto simp: bare_def)

lemma bare_removeEmptyBlocks: "list_all bare sts \<Longrightarrow> list_all bare (removeEmptyBlocks sts)"
  by (auto simp: removeEmptyBlocks_def list_all_iff)

lemma declared_removeEmptyBlocks: "declaredStatements (removeEmptyBlocks sts) = declaredStatements sts"
proof -
  have "declaredStatement st = {}" if "isEmptyBlock st" for st
    using that by (elim isEmptyBlock.elims) (case_tac b, simp)
  then show ?thesis by (auto simp: removeEmptyBlocks_def)
qed

definition bareBlock :: "AsmBlock \<Rightarrow> AsmBlock \<Rightarrow> bool" where
  "bareBlock b b' = (definedBlock b' = [] \<and> strictBlock b' \<and> ab_location b' = ab_location b)"

text \<open>The functions that a statement adds, without itself.\<close>

lemma hoist_hoists:
  "strictStatement st \<Longrightarrow> hoists (if isFunctionDefinition st then tl (definedStatement st) else definedStatement st)
     (declaredStatement st) fs
     (\<lambda>st'. if isFunctionDefinition st then flatFunction st' \<and> functionName st' = functionName st else bare st')
     declaredStatement (hoistStatement st fs)"
  "list_all strictStatement sts \<Longrightarrow> hoists (concat (map definedStatement sts)) (declaredStatements sts) fs (list_all bare)
     (\<lambda>sts. declaredStatements sts) (hoistStatements l sts fs)"
  "strictBlock b \<Longrightarrow> hoists (definedBlock b) (declaredBlock b) fs (bareBlock b) declaredBlock (hoistBlock b fs)"
  "list_all strictCase cs \<Longrightarrow> hoists (concat (map definedCase cs)) (declaredCases cs) fs (\<lambda>cs. concat (map definedCase cs) = [] \<and> list_all strictCase cs)
     (\<lambda>cs. declaredCases cs) (hoistCases cs fs)"
proof (induction st fs and l sts fs and b fs and cs fs
    rule: hoistStatement_hoistStatements_hoistBlock_hoistCases.induct)
  case (7 l f ps rs b fs)
  then show ?case
    by (auto intro!: hoists_keep [where ms = "insert f (tn_name ` set ps \<union> tn_name ` set rs)"] simp: bareBlock_def)
next
  case (8 l c b fs)
  then show ?case by (auto intro!: hoists_keep [where ms = "{}"] simp: bare_def bareBlock_def)
next
  case (9 l e cs fs)
  then show ?case by (auto intro!: hoists_keep [where ms = "{}"] simp: bare_def)
next
  case (10 l pre c post b fs)
  have s: "strictBlock pre" "strictBlock post" "strictBlock b" using 10(4) by simp_all
  have "hoists (definedBlock pre @ definedBlock post @ definedBlock b) (declaredBlock pre \<union> (declaredBlock post \<union> declaredBlock b)) fs bare
      declaredStatement (bindR (hoistBlock pre fs) (\<lambda>(pre, fs). bindR (hoistBlock post fs) (\<lambda>(post, fs).
        keepR (AsmForLoop l pre c post) (hoistBlock b fs))))"
  proof (rule hoists_bind [OF 10(1) [OF s(1)]])
    fix pre' fs1 assume pre': "bareBlock pre pre'"
    show "hoists (definedBlock post @ definedBlock b) (declaredBlock pre' \<union> (declaredBlock post \<union> declaredBlock b)) fs1 bare
        declaredStatement (bindR (hoistBlock post fs1) (\<lambda>(post, fs). keepR (AsmForLoop l pre' c post) (hoistBlock b fs)))"
    proof (rule hoists_bind [OF 10(2) [OF s(2)]])
      fix post' fs2 assume "bareBlock post post'"
      then show "hoists (definedBlock b) (declaredBlock post' \<union> (declaredBlock pre' \<union> declaredBlock b)) fs2 bare
          declaredStatement (keepR (AsmForLoop l pre' c post') (hoistBlock b fs2))"
        using pre' by (intro hoists_keep [OF 10(3) [OF s(3)], where ms = "declaredBlock pre' \<union> declaredBlock post'"])
          (auto simp: bare_def bareBlock_def)
    qed auto
  qed auto
  then show ?case by (simp add: Un_assoc)
next
  case (11 b fs)
  then show ?case by (auto intro!: hoists_keep [where ms = "{}"] simp: bare_def bareBlock_def)
next
  case (13 l st sts fs)
  have strict: "strictStatement st" "list_all strictStatement sts" using 13(4) by simp_all
  show ?case
  proof (cases "isFunctionDefinition st")
    case True
    then obtain l' f ps rs b where st: "st = AsmFunctionDefinition l' f ps rs b" by (rule isFunctionDefinitionE)
    have "hoists (definedBlock b) (declaredStatement st) fs (\<lambda>st'. flatFunction st' \<and> functionName st' = f) declaredStatement (hoistStatement st fs)"
      using 13(1) [OF strict(1)] st by simp
    then obtain st1 gs where 1: "hoistStatement st fs = Inr (st1, fs @ gs)" "flatFunction st1 \<and> functionName st1 = f"
        "list_all flatFunction gs" "mset (map functionName gs) = mset (map fst (definedBlock b))"
        "declaredStatement st1 \<union> declaredStatements gs = declaredStatement st"
      by (rule hoistsE)
    have f1: "isFunctionDefinition st1" using 1(2) flatFunction_iff by blast
    have "hoists (concat (map definedStatement sts)) (declaredStatements sts) ((fs @ gs) @ [st1]) (list_all bare)
        (\<lambda>sts. declaredStatements sts) (hoistStatements l sts ((fs @ gs) @ [st1]))"
      by (rule 13(2)) (use f1 strict in simp_all)
    then obtain sts1 hs where 2: "hoistStatements l sts ((fs @ gs) @ [st1]) = Inr (sts1, ((fs @ gs) @ [st1]) @ hs)"
        "list_all bare sts1" "list_all flatFunction hs" "mset (map functionName hs) = mset (map fst (concat (map definedStatement sts)))"
        "declaredStatements sts1 \<union> declaredStatements hs = declaredStatements sts"
      by (rule hoistsE)
    have step: "hoistStatements l (st # sts) fs = Inr (AsmBlockStatement (AsmBlock l []) # sts1, fs @ (gs @ st1 # hs))"
      using 1(1) 2(1) f1 by (simp add: keepR_def)
    show ?thesis
    proof (rule hoistsI [OF step])
      show "list_all bare (AsmBlockStatement (AsmBlock l []) # sts1)" using 2(2) by (simp add: bare_def [of "AsmBlockStatement _"])
      show "mset (map functionName (gs @ st1 # hs)) = mset (map fst (concat (map definedStatement (st # sts))))"
        using 1(2,4) 2(4) st by simp
      show "declaredStatements (AsmBlockStatement (AsmBlock l []) # sts1) \<union> declaredStatements (gs @ st1 # hs) = declaredStatements (st # sts)"
        using 1(5) 2(5) by auto
    qed (use 1(2,3) 2(3) in simp)
  next
    case False
    then have "hoists (definedStatement st) (declaredStatement st) fs bare declaredStatement (hoistStatement st fs)"
      using 13(1) [OF strict(1)] by simp
    then show ?thesis unfolding hoistStatements.simps
    proof (rule hoists_bind [where fr' = "concat (map definedStatement sts)"])
      fix st1 fs1 assume st1: "bare st1"
      then have "\<not> isFunctionDefinition st1" by (rule bare_not_function)
      then show "hoists (concat (map definedStatement sts)) (declaredStatement st1 \<union> declaredStatements sts) fs1 (list_all bare)
          (\<lambda>sts. declaredStatements sts)
          (if isFunctionDefinition st1
           then keepR (\<lambda>sts. AsmBlockStatement (AsmBlock l []) # sts) (hoistStatements l sts (fs1 @ [st1]))
           else keepR (\<lambda>sts. st1 # sts) (hoistStatements l sts fs1))"
        using st1 by (auto intro!: hoists_keep [OF 13(3) [OF _ strict(2)], where ms = "declaredStatement st1"])
    qed simp_all
  qed
next
  case (14 l sts fs)
  have "list_all strictStatement sts" using 14(2) by simp
  from 14(1) [OF this] show ?case unfolding hoistBlock.simps definedBlock.simps declaredBlock.simps
    by (rule hoists_keep [where ms = "{}"])
      (simp_all add: bareBlock_def definedStatements_bare bare_removeEmptyBlocks declared_removeEmptyBlocks del: set_map)
next
  case (16 l v b cs fs)
  have s: "strictBlock b" "list_all strictCase cs" using 16(3) by simp_all
  show ?case unfolding hoistCases.simps
  proof (rule hoists_bind [OF 16(1) [OF s(1)], where ms' = "declaredCases cs" and fr' = "concat (map definedCase cs)"])
    fix b' fs' assume b': "bareBlock b b'"
    show "hoists (concat (map definedCase cs)) (declaredBlock b' \<union> declaredCases cs) fs' (\<lambda>cs. concat (map definedCase cs) = [] \<and> list_all strictCase cs)
        (\<lambda>cs. declaredCases cs) (keepR (\<lambda>cs. AsmCase l v b' # cs) (hoistCases cs fs'))"
      by (rule hoists_keep [OF 16(2) [OF s(2)], where ms = "declaredBlock b'"]) (use b' in \<open>auto simp: bareBlock_def\<close>)
  qed simp_all
qed (auto intro!: hoists_none simp: bare_def)

section \<open>The three passes\<close>

lemma functionHoister_flat:
  assumes "strictBlock b"
  shows "\<exists>sts fs. functionHoister b = Inr (AsmBlock (ab_location b) (sts @ fs)) \<and> list_all bare sts \<and> list_all flatFunction fs \<and>
    mset (map functionName fs) = mset (map fst (definedBlock b)) \<and> declaredStatements sts \<union> declaredStatements fs = declaredBlock b"
proof -
  from hoist_hoists(3) [OF assms, of "[]"] obtain b' fs where 1: "hoistBlock b [] = Inr (b', [] @ fs)" "bareBlock b b'"
      "list_all flatFunction fs" "mset (map functionName fs) = mset (map fst (definedBlock b))"
      "declaredBlock b' \<union> declaredStatements fs = declaredBlock b" by (rule hoistsE)
  have "list_all bare (ab_statements b')" using 1(2) by (cases b') (auto simp: list_all_iff bare_def bareBlock_def)
  moreover have "declaredStatements (ab_statements b') = declaredBlock b'" by (cases b') simp
  ultimately show ?thesis using 1
    by (intro exI [of _ "ab_statements b'"] exI [of _ fs]) (simp add: functionHoister_def bareBlock_def)
qed

lemma functionGrouper_groups:
  assumes "list_all bare sts" "list_all flatFunction fs"
  shows "functionGrouper (AsmBlock l (sts @ fs)) = AsmBlock l (AsmBlockStatement (AsmBlock l sts) # fs)"
proof -
  have "\<forall>st\<in>set sts. \<not> isFunctionDefinition st" "\<forall>st\<in>set fs. isFunctionDefinition st"
    using assms bare_not_function flatFunction_iff by (auto simp: list_all_iff)
  then have "filter (\<lambda>st. \<not> isFunctionDefinition st) sts = sts" "filter isFunctionDefinition sts = []"
      "filter (\<lambda>st. \<not> isFunctionDefinition st) fs = []" "filter isFunctionDefinition fs = fs"
    by (simp_all add: filter_id_conv filter_empty_conv)
  then show ?thesis by (simp add: functionGrouper_def)
qed


lemma base_expression: "walkExpression baseExprWalker e s = Inr s" "walkArguments baseExprWalker args s = Inr s"
  by (induction "baseExprWalker :: 'a exprWalker" e and "baseExprWalker :: 'a exprWalker" args arbitrary: s and s
      rule: walkExpression_walkArguments.induct) (simp_all add: baseExprWalker_def)

lemma base_identifiers: "walkIdentifiers baseExprWalker is s = Inr s"
  by (induction "is" arbitrary: s) (simp_all add: baseExprWalker_def)

lemma collector_simps [simp]:
  "w_expression nameCollector = baseExprWalker" "w_visit nameCollector st base = base"
  "w_statement nameCollector st base names =
     (case st of
       AsmVariableDeclaration l vs v \<Rightarrow> Inr (names \<union> tn_name ` set vs)
     | AsmFunctionDefinition l f ps rs b \<Rightarrow> base (insert f names \<union> tn_name ` set ps \<union> tn_name ` set rs)
     | _ \<Rightarrow> base names)"
  by (simp_all add: nameCollector_def baseWalker_def)

lemma base_literal: "ew_literal baseExprWalker c s = Inr s"
  by (simp add: baseExprWalker_def)

lemma collects_names:
  "strictStatement st \<Longrightarrow> walkStatement nameCollector st names = Inr (names \<union> declaredStatement st)"
  "list_all strictStatement sts \<Longrightarrow> walkStatements nameCollector sts names = Inr (names \<union> declaredStatements sts)"
  "strictBlock b \<Longrightarrow> walkBlock nameCollector b names = Inr (names \<union> declaredBlock b)"
  "list_all strictCase cs \<Longrightarrow> walkCases nameCollector cs names = Inr (names \<union> declaredCases cs)"
  by (induction "nameCollector" st and "nameCollector" sts and "nameCollector" b and "nameCollector" cs
    arbitrary: names and names and names and names
    rule: walkStatement_walkStatements_walkBlock_walkCases.induct)
   (simp_all add: base_expression base_identifiers base_literal Un_assoc Un_commute Un_left_commute split: option.splits)

text \<open>The three passes in a row: an error exactly if the program declares main already.\<close>

lemma hoist_group_main:
  assumes "strictBlock b"
  shows "\<exists>sts fs. bindR (functionHoister b) (\<lambda>b. mainFunction (functionGrouper b)) =
      (if ''main'' \<in> declaredBlock b then Inl (OptimizerException '''')
       else Inr (AsmBlock (ab_location b)
         (AsmFunctionDefinition (ab_location b) ''main'' [] [] (AsmBlock (ab_location b) sts) # fs))) \<and>
    concat (map definedStatement sts) = [] \<and> list_all flatFunction fs \<and>
    mset (map functionName fs) = mset (map fst (definedBlock b))"
proof -
  obtain sts fs where 1: "functionHoister b = Inr (AsmBlock (ab_location b) (sts @ fs))" "list_all bare sts" "list_all flatFunction fs"
    "mset (map functionName fs) = mset (map fst (definedBlock b))" "declaredStatements sts \<union> declaredStatements fs = declaredBlock b"
    using functionHoister_flat [OF assms] by blast
  let ?l = "ab_location b"
  let ?b = "AsmBlock ?l (AsmBlockStatement (AsmBlock ?l sts) # fs)"
  have "strictStatement st" if "flatFunction st" for st using that by (cases st) simp_all
  then have "strictBlock ?b" using 1(2,3) definedStatements_bare [OF 1(2)] by (auto simp: list_all_iff)
  then have "collectNames ?b = Inr (declaredBlock ?b)" by (simp add: collectNames_def collects_names(3) del: walkBlock.simps)
  moreover have "declaredBlock ?b = declaredBlock b" using 1(5) by simp
  moreover have "list_all isFunctionDefinition fs" using 1(3) flatFunction_iff by (auto simp: list_all_iff)
  ultimately have "mainFunction ?b = (if ''main'' \<in> declaredBlock b then Inl (OptimizerException '''')
       else Inr (AsmBlock ?l (AsmFunctionDefinition ?l ''main'' [] [] (AsmBlock ?l sts) # fs)))"
    by (simp add: mainFunction_def)
  then show ?thesis using 1 functionGrouper_groups [OF 1(2,3)] definedStatements_bare [OF 1(2)]
    by (intro exI [of _ sts] exI [of _ fs]) simp
qed

end
