(* ===== verification/Scanner.thy ===== *)
theory Scanner
  imports Tokens AssemblyItems
begin

text \<open>
  Model of libsolidity/parsing/Scanner.h and Scanner.cpp: the character stream, the literal buffers,
  the skipping of white space and comments, the scanning of strings, numbers and identifiers, and the
  scanner with its token of look-ahead. A \<open>char\<close> is one of the 256 characters; the code compares them
  as signed numbers with bounds that are all below 128, which no negative one reaches.
  \<open>std::string\<close> gives the character 0 at its end. \<open>m_position\<close> is a \<open>size_t\<close> and is never past the
  end of the source; \<open>position()\<close> narrows it to an \<open>int\<close> of 32 bits, which is written out.
\<close>

section \<open>Characters\<close>

definition between :: "char \<Rightarrow> char \<Rightarrow> char \<Rightarrow> bool" where
  "between a c b \<longleftrightarrow> (of_char a :: nat) \<le> of_char c \<and> (of_char c :: nat) \<le> of_char b"

definition isDecimalDigit :: "char \<Rightarrow> bool" where
  "isDecimalDigit c \<longleftrightarrow> between CHR ''0'' c CHR ''9''"

definition isHexDigit :: "char \<Rightarrow> bool" where
  "isHexDigit c \<longleftrightarrow> isDecimalDigit c \<or> between CHR ''a'' c CHR ''f'' \<or> between CHR ''A'' c CHR ''F''"

abbreviation newline :: char where "newline \<equiv> CHR 0x0A"

definition isLineTerminator :: "char \<Rightarrow> bool" where
  "isLineTerminator c \<longleftrightarrow> c = newline"

definition isWhiteSpace :: "char \<Rightarrow> bool" where
  "isWhiteSpace c \<longleftrightarrow> c = CHR '' '' \<or> c = newline \<or> c = CHR 0x09 \<or> c = CHR 0x0D"

definition isIdentifierStart :: "char \<Rightarrow> bool" where
  "isIdentifierStart c \<longleftrightarrow> c = CHR ''_'' \<or> c = CHR ''$'' \<or> between CHR ''a'' c CHR ''z'' \<or> between CHR ''A'' c CHR ''Z''"

definition isIdentifierPart :: "char \<Rightarrow> bool" where
  "isIdentifierPart c \<longleftrightarrow> isIdentifierStart c \<or> isDecimalDigit c"

definition hexValue :: "char \<Rightarrow> int" where
  "hexValue c =
     (if between CHR ''0'' c CHR ''9'' then int (of_char c) - int (of_char CHR ''0'')
      else if between CHR ''a'' c CHR ''f'' then int (of_char c) - int (of_char CHR ''a'') + 10
      else if between CHR ''A'' c CHR ''F'' then int (of_char c) - int (of_char CHR ''A'') + 10
      else - 1)"

section \<open>The character stream\<close>

record CharStream =
  cs_source :: string
  cs_position :: nat

definition cs_int_position :: "CharStream \<Rightarrow> int" where
  "cs_int_position s = sint (word_of_nat (cs_position s) :: 32 word)"

definition isPastEndOfInput :: "CharStream \<Rightarrow> nat \<Rightarrow> bool" where
  "isPastEndOfInput s n \<longleftrightarrow> length (cs_source s) \<le> cs_position s + n"

definition cs_get :: "CharStream \<Rightarrow> nat \<Rightarrow> char" where
  "cs_get s n = (if cs_position s + n < length (cs_source s) then cs_source s ! (cs_position s + n) else CHR 0x00)"

definition advanceAndGet :: "nat \<Rightarrow> CharStream \<Rightarrow> char \<times> CharStream" where
  "advanceAndGet n s =
     (if isPastEndOfInput s 0 then (CHR 0x00, s)
      else let s = s\<lparr>cs_position := cs_position s + n\<rparr>
           in if isPastEndOfInput s 0 then (CHR 0x00, s) else (cs_source s ! cs_position s, s))"

definition cs_rollback :: "nat \<Rightarrow> CharStream \<Rightarrow> (char \<times> CharStream) res" where
  "cs_rollback n s =
     assertThrow (n \<le> cs_position s) SolAssert
       (let s = s\<lparr>cs_position := cs_position s - n\<rparr> in Inr (cs_get s 0, s))"

definition cs_reset :: "CharStream \<Rightarrow> CharStream" where
  "cs_reset s = s\<lparr>cs_position := 0\<rparr>"

text \<open>\<open>rfind\<close> of a character: the last place of it not after \<open>i\<close>. \<open>find\<close>: the first place from \<open>i\<close> on.\<close>

fun rfindChar :: "char \<Rightarrow> string \<Rightarrow> nat \<Rightarrow> nat option" where
  "rfindChar c s 0 = (if s \<noteq> [] \<and> s ! 0 = c then Some 0 else None)"
| "rfindChar c s (Suc i) = (if Suc i < length s \<and> s ! Suc i = c then Some (Suc i) else rfindChar c s i)"

definition findChar :: "char \<Rightarrow> string \<Rightarrow> nat \<Rightarrow> nat option" where
  "findChar c s i =
     (let n = length (takeWhile (\<lambda>d. d \<noteq> c) (drop i s))
      in if i + n < length s then Some (i + n) else None)"

text \<open>\<open>min<size_type>\<close> converts the \<open>int\<close> to 64 bits, so a negative position is a large one.\<close>

definition clampPosition :: "string \<Rightarrow> int \<Rightarrow> nat" where
  "clampPosition s p = min (length s) (unat (word_of_int p :: 64 word))"

definition lineAtPosition :: "CharStream \<Rightarrow> int \<Rightarrow> string" where
  "lineAtPosition s p =
     (let source = cs_source s;
          searchStart = clampPosition source p;
          searchStart = (if 0 < searchStart then searchStart - 1 else searchStart);
          lineStart = (case rfindChar newline source searchStart of None \<Rightarrow> 0 | Some i \<Rightarrow> i + 1);
          lineEnd = (case findChar newline source lineStart of None \<Rightarrow> length source | Some i \<Rightarrow> min i (length source))
      in take (lineEnd - lineStart) (drop lineStart source))"

definition translatePositionToLineColumn :: "CharStream \<Rightarrow> int \<Rightarrow> nat \<times> nat" where
  "translatePositionToLineColumn s p =
     (let source = cs_source s;
          searchPosition = clampPosition source p;
          lineNumber = count_list (take searchPosition source) newline;
          lineStart = (if searchPosition = 0 then 0
                       else case rfindChar newline source (searchPosition - 1) of None \<Rightarrow> 0 | Some i \<Rightarrow> i + 1)
      in (lineNumber, searchPosition - lineStart))"

section \<open>The scanner's state\<close>

text \<open>
  \<open>scanToken\<close> stores its variables \<open>m\<close> and \<open>n\<close> for every token but sets them for identifiers and
  keywords only: \<open>None\<close> is the value of two variables that were not set.
\<close>

record TokenDesc =
  td_token :: Token
  td_location :: SourceLocation
  td_literal :: string
  td_extendedTokenInfo :: "(nat \<times> nat) option"

record Scanner =
  sc_skippedComment :: TokenDesc
  sc_nextSkippedComment :: TokenDesc
  sc_currentToken :: TokenDesc
  sc_nextToken :: TokenDesc
  sc_source :: CharStream
  sc_sourceName :: string
  sc_char :: char

definition currentToken :: "Scanner \<Rightarrow> Token" where
  "currentToken st = td_token (sc_currentToken st)"

definition currentLocation :: "Scanner \<Rightarrow> SourceLocation" where
  "currentLocation st = td_location (sc_currentToken st)"

definition currentLiteral :: "Scanner \<Rightarrow> string" where
  "currentLiteral st = td_literal (sc_currentToken st)"

definition currentTokenInfo :: "Scanner \<Rightarrow> (nat \<times> nat) option" where
  "currentTokenInfo st = td_extendedTokenInfo (sc_currentToken st)"

definition currentElementaryTypeNameToken :: "Scanner \<Rightarrow> ElementaryTypeNameToken res" where
  "currentElementaryTypeNameToken st =
     (case currentTokenInfo st of
        None \<Rightarrow> Inl UndefinedBehaviour
      | Some (firstSize, secondSize) \<Rightarrow> assertDetails (currentToken st) firstSize secondSize)"

definition currentCommentLocation :: "Scanner \<Rightarrow> SourceLocation" where
  "currentCommentLocation st = td_location (sc_skippedComment st)"

definition currentCommentLiteral :: "Scanner \<Rightarrow> string" where
  "currentCommentLiteral st = td_literal (sc_skippedComment st)"

definition clearCurrentCommentLiteral :: "Scanner \<Rightarrow> Scanner" where
  "clearCurrentCommentLiteral st = st\<lparr>sc_skippedComment := (sc_skippedComment st)\<lparr>td_literal := []\<rparr>\<rparr>"

definition peekNextToken :: "Scanner \<Rightarrow> Token" where
  "peekNextToken st = td_token (sc_nextToken st)"

definition peekLocation :: "Scanner \<Rightarrow> SourceLocation" where
  "peekLocation st = td_location (sc_nextToken st)"

definition peekLiteral :: "Scanner \<Rightarrow> string" where
  "peekLiteral st = td_literal (sc_nextToken st)"

definition sourcePos :: "Scanner \<Rightarrow> int" where
  "sourcePos st = cs_int_position (sc_source st)"

definition isSourcePastEndOfInput :: "Scanner \<Rightarrow> bool" where
  "isSourcePastEndOfInput st \<longleftrightarrow> isPastEndOfInput (sc_source st) 0"

section \<open>Literal buffers and moves\<close>

definition addLiteralChar :: "char \<Rightarrow> Scanner \<Rightarrow> Scanner" where
  "addLiteralChar c st =
     st\<lparr>sc_nextToken := (sc_nextToken st)\<lparr>td_literal := td_literal (sc_nextToken st) @ [c]\<rparr>\<rparr>"

definition addCommentLiteralChar :: "char \<Rightarrow> Scanner \<Rightarrow> Scanner" where
  "addCommentLiteralChar c st =
     st\<lparr>sc_nextSkippedComment := (sc_nextSkippedComment st)\<lparr>td_literal := td_literal (sc_nextSkippedComment st) @ [c]\<rparr>\<rparr>"

text \<open>What a \<open>LiteralScope\<close> does when it opens, and when it closes without having been completed.\<close>

definition clearLiteral :: "Scanner \<Rightarrow> Scanner" where
  "clearLiteral st = st\<lparr>sc_nextToken := (sc_nextToken st)\<lparr>td_literal := []\<rparr>\<rparr>"

definition clearCommentLiteral :: "Scanner \<Rightarrow> Scanner" where
  "clearCommentLiteral st =
     st\<lparr>sc_nextSkippedComment := (sc_nextSkippedComment st)\<lparr>td_literal := []\<rparr>\<rparr>"

definition advanceBy :: "nat \<Rightarrow> Scanner \<Rightarrow> Scanner" where
  "advanceBy n st = (let (c, s) = advanceAndGet n (sc_source st) in st\<lparr>sc_source := s, sc_char := c\<rparr>)"

definition advance :: "Scanner \<Rightarrow> bool \<times> Scanner" where
  "advance st = (let st = advanceBy 1 st in (\<not> isPastEndOfInput (sc_source st) 0, st))"

abbreviation advanced :: "Scanner \<Rightarrow> Scanner" where
  "advanced st \<equiv> snd (advance st)"

definition addLiteralCharAndAdvance :: "Scanner \<Rightarrow> Scanner" where
  "addLiteralCharAndAdvance st = advanced (addLiteralChar (sc_char st) st)"

definition scanner_rollback :: "nat \<Rightarrow> Scanner \<Rightarrow> Scanner res" where
  "scanner_rollback n st =
     bindR (cs_rollback n (sc_source st)) (\<lambda>(c, s). Inr (st\<lparr>sc_source := s, sc_char := c\<rparr>))"

definition selectToken :: "Token \<Rightarrow> Scanner \<Rightarrow> Token \<times> Scanner" where
  "selectToken tok st = (tok, advanced st)"

definition selectTokenIf :: "char \<Rightarrow> Token \<Rightarrow> Token \<Rightarrow> Scanner \<Rightarrow> Token \<times> Scanner" where
  "selectTokenIf c thn els st =
     (let st = advanced st in if sc_char st = c then selectToken thn st else (els, st))"

text \<open>\<open>remaining\<close> bounds the loops: twice the characters left, and one for a character of look-ahead.\<close>

definition remaining :: "Scanner \<Rightarrow> nat" where
  "remaining st =
     2 * (length (cs_source (sc_source st)) - cs_position (sc_source st)) + (if sc_char st = CHR 0x00 then 0 else 1)"

lemma remaining_buffers [simp]:
  "remaining (addLiteralChar c st) = remaining st"
  "remaining (addCommentLiteralChar c st) = remaining st"
  "remaining (clearLiteral st) = remaining st"
  "remaining (clearCommentLiteral st) = remaining st"
  by (simp_all add: remaining_def addLiteralChar_def addCommentLiteralChar_def clearLiteral_def clearCommentLiteral_def)

lemma char_buffers [simp]:
  "sc_char (addLiteralChar c st) = sc_char st"
  "sc_char (addCommentLiteralChar c st) = sc_char st"
  "sc_char (clearLiteral st) = sc_char st"
  "sc_char (clearCommentLiteral st) = sc_char st"
  by (simp_all add: addLiteralChar_def addCommentLiteralChar_def clearLiteral_def clearCommentLiteral_def)

lemma source_buffers [simp]:
  "sc_source (addLiteralChar c st) = sc_source st"
  "sc_source (addCommentLiteralChar c st) = sc_source st"
  "sc_source (clearLiteral st) = sc_source st"
  "sc_source (clearCommentLiteral st) = sc_source st"
  by (simp_all add: addLiteralChar_def addCommentLiteralChar_def clearLiteral_def clearCommentLiteral_def)

lemmas stream_defs = advance_def advanceBy_def advanceAndGet_def isPastEndOfInput_def Let_def

lemma remaining_advance_char: "sc_char st \<noteq> CHR 0x00 \<Longrightarrow> remaining (advanced st) < remaining st"
  by (auto simp: remaining_def stream_defs)

lemma remaining_advance_source: "\<not> isSourcePastEndOfInput st \<Longrightarrow> remaining (advanced st) < remaining st"
  by (auto simp: remaining_def isSourcePastEndOfInput_def stream_defs)

lemma remaining_advance_le: "remaining (advanced st) \<le> remaining st"
  by (auto simp: remaining_def stream_defs)

lemma remaining_advance_more: "fst (advance st) \<Longrightarrow> remaining (advanced st) < remaining st"
  by (auto simp: remaining_def stream_defs)

lemma remaining_add_advance: "sc_char st \<noteq> CHR 0x00 \<Longrightarrow> remaining (addLiteralCharAndAdvance st) < remaining st"
  using remaining_advance_char [of "addLiteralChar (sc_char st) st"] by (simp add: addLiteralCharAndAdvance_def)

lemma classes_nonzero:
  "isDecimalDigit c \<Longrightarrow> c \<noteq> CHR 0x00" "isHexDigit c \<Longrightarrow> c \<noteq> CHR 0x00" "isWhiteSpace c \<Longrightarrow> c \<noteq> CHR 0x00"
  "isIdentifierStart c \<Longrightarrow> c \<noteq> CHR 0x00" "isIdentifierPart c \<Longrightarrow> c \<noteq> CHR 0x00" "0 \<le> hexValue c \<Longrightarrow> c \<noteq> CHR 0x00"
  by (auto simp: isDecimalDigit_def isHexDigit_def isWhiteSpace_def isIdentifierStart_def isIdentifierPart_def
      hexValue_def between_def)

section \<open>White space and line breaks\<close>

definition isUnicodeLinebreak :: "Scanner \<Rightarrow> bool" where
  "isUnicodeLinebreak st =
     (let s = sc_source st; byte = (\<lambda>i. of_char (cs_get s i) :: nat)
      in if between CHR 0x0A (sc_char st) CHR 0x0D then True
         else if \<not> isPastEndOfInput s 1 \<and> byte 0 = 0xC2 \<and> byte 1 = 0x85 then True
         else if \<not> isPastEndOfInput s 2 \<and> byte 0 = 0xE2 \<and> byte 1 = 0x80 \<and> (byte 2 = 0xA8 \<or> byte 2 = 0xA9) then True
         else False)"

function skipSpaces :: "Scanner \<Rightarrow> Scanner" where
  "skipSpaces st = (if isWhiteSpace (sc_char st) then skipSpaces (advanced st) else st)"
  by pat_completeness auto
termination by (relation "measure remaining") (auto simp: classes_nonzero remaining_advance_char)

definition skipWhitespace :: "Scanner \<Rightarrow> bool \<times> Scanner" where
  "skipWhitespace st =
     (let startPosition = sourcePos st; st = skipSpaces st in (sourcePos st \<noteq> startPosition, st))"

function skipWhitespaceExceptUnicodeLinebreak :: "Scanner \<Rightarrow> Scanner" where
  "skipWhitespaceExceptUnicodeLinebreak st =
     (if isWhiteSpace (sc_char st) \<and> \<not> isUnicodeLinebreak st
      then skipWhitespaceExceptUnicodeLinebreak (advanced st) else st)"
  by pat_completeness auto
termination by (relation "measure remaining") (auto simp: classes_nonzero remaining_advance_char)

declare skipSpaces.simps [simp del] skipWhitespaceExceptUnicodeLinebreak.simps [simp del]

section \<open>Comments\<close>

function skipToLinebreak :: "Scanner \<Rightarrow> Scanner" where
  "skipToLinebreak st =
     (if isUnicodeLinebreak st then st
      else if fst (advance st) then skipToLinebreak (advanced st) else advanced st)"
  by pat_completeness auto
termination by (relation "measure remaining") (auto simp: remaining_advance_more)

definition skipSingleLineComment :: "Scanner \<Rightarrow> Token \<times> Scanner" where
  "skipSingleLineComment st = (T_Whitespace, skipToLinebreak st)"

declare skipToLinebreak.simps [simp del]

text \<open>
  Facts on what a move leaves: the source stays, the position does not go back, and a loop that has
  seen a character of the source and moves on has less left.
\<close>

definition forward :: "Scanner \<Rightarrow> Scanner \<Rightarrow> bool" where
  "forward st st' \<longleftrightarrow> cs_source (sc_source st') = cs_source (sc_source st) \<and>
     cs_position (sc_source st) \<le> cs_position (sc_source st') \<and>
     (cs_position (sc_source st) < cs_position (sc_source st') \<longrightarrow>
      cs_position (sc_source st) < length (cs_source (sc_source st)))"

lemma forward_refl [simp]: "forward st st"
  by (simp add: forward_def)

lemma forward_trans [trans]: "forward st st1 \<Longrightarrow> forward st1 st2 \<Longrightarrow> forward st st2"
  by (auto simp: forward_def)

lemma forward_advanceBy [simp]: "forward st (advanceBy n st)"
  by (simp add: forward_def stream_defs)

lemma forward_advanced [simp]: "forward st (advanced st)"
  by (simp add: advance_def Let_def)

lemma forward_step [simp]:
  "forward st st' \<Longrightarrow> forward st (advanceBy n st')" "forward st st' \<Longrightarrow> forward st (advanced st')"
  by (auto elim: forward_trans)

lemma forward_from_advanced: "forward (advanced st) st' \<Longrightarrow> forward st st'"
  by (rule forward_trans [OF forward_advanced])

lemma forward_buffers [simp]:
  "forward st (addLiteralChar c st') = forward st st'" "forward st (addCommentLiteralChar c st') = forward st st'"
  "forward st (clearLiteral st') = forward st st'" "forward st (clearCommentLiteral st') = forward st st'"
  "forward (addLiteralChar c st) st' = forward st st'" "forward (addCommentLiteralChar c st) st' = forward st st'"
  "forward (clearLiteral st) st' = forward st st'" "forward (clearCommentLiteral st) st' = forward st st'"
  by (simp_all add: forward_def)

lemma forward_add_advance [simp]: "forward st (addLiteralCharAndAdvance st') = forward st (advanced st')"
  by (simp add: addLiteralCharAndAdvance_def forward_def stream_defs)

lemma remaining_forward:
  "forward st st' \<Longrightarrow> \<not> isSourcePastEndOfInput st \<Longrightarrow> remaining (advanced st') < remaining st"
  by (auto simp: forward_def remaining_def isSourcePastEndOfInput_def stream_defs split: if_splits)

text \<open>The contract of the loops that repeat a step while a condition holds, and of those that look at one character.\<close>

locale scan_loop =
  fixes cond :: "Scanner \<Rightarrow> bool" and step loop :: "Scanner \<Rightarrow> Scanner"
  assumes unfold: "loop st = (if cond st then loop (step st) else st)"
    and progress: "cond st \<Longrightarrow> remaining (step st) < remaining st"
    and step_forward: "cond st \<Longrightarrow> forward st (step st)"
begin

lemma loop_induct [consumes 0, case_names stop round]:
  assumes "\<And>st. \<not> cond st \<Longrightarrow> Q st st" "\<And>st st'. cond st \<Longrightarrow> Q (step st) st' \<Longrightarrow> Q st st'"
  shows "Q st (loop st)"
proof (induction "remaining st" arbitrary: st rule: less_induct)
  case less
  show ?case
  proof (cases "cond st")
    case True
    from assms(2) [OF True less [OF progress [OF True]]] show ?thesis by (simp add: unfold [of st] True)
  qed (simp add: unfold [of st] assms(1))
qed

lemma loop_forward: "forward st (loop st)"
  by (induction st rule: loop_induct) (auto intro: forward_trans step_forward)

lemma loop_remaining: "remaining (loop st) \<le> remaining st"
proof (induction st rule: loop_induct)
  case (round st st')
  then show ?case using progress [of st] by simp
qed simp

lemma loop_ends: "\<not> cond (loop st)"
  by (induction st rule: loop_induct)

end

interpretation spaces: scan_loop "\<lambda>st. isWhiteSpace (sc_char st)" advanced skipSpaces
  by unfold_locales (simp_all add: skipSpaces.simps classes_nonzero remaining_advance_char)

interpretation blanks_to_linebreak:
  scan_loop "\<lambda>st. isWhiteSpace (sc_char st) \<and> \<not> isUnicodeLinebreak st" advanced skipWhitespaceExceptUnicodeLinebreak
  by unfold_locales
    (simp_all add: skipWhitespaceExceptUnicodeLinebreak.simps classes_nonzero remaining_advance_char)

lemmas forward_skipSpaces [simp] = forward_trans [OF _ spaces.loop_forward]

lemma forward_skipSpaces_refl [simp]: "forward st (skipSpaces st)"
  by (rule spaces.loop_forward)

definition docLineContinues :: "Scanner \<Rightarrow> bool" where
  "docLineContinues st \<longleftrightarrow> \<not> isPastEndOfInput (sc_source st) 3 \<and> cs_get (sc_source st) 0 = CHR ''/'' \<and>
     cs_get (sc_source st) 1 = CHR ''/'' \<and> cs_get (sc_source st) 2 = CHR ''/''"

function singleLineDocLoop :: "Scanner \<Rightarrow> Scanner" where
  "singleLineDocLoop st =
     (if isSourcePastEndOfInput st then st
      else if isLineTerminator (sc_char st) then
        (let st' = snd (skipWhitespace st)
         in if docLineContinues st'
            then (let st' = advanceBy 3 (addCommentLiteralChar newline st')
                  in singleLineDocLoop (advanced (addCommentLiteralChar (sc_char st') st')))
            else st')
      else if isUnicodeLinebreak st then st
      else singleLineDocLoop (advanced (addCommentLiteralChar (sc_char st) st)))"
  by pat_completeness auto
termination
proof (relation "measure remaining", goal_cases)
  case (2 st st' st'')
  have "forward st (addCommentLiteralChar (sc_char st'') st'')"
    using 2 by (simp add: skipWhitespace_def Let_def)
  then show ?case using 2 by (simp add: remaining_forward)
qed (simp_all add: remaining_forward)

definition scanSingleLineDocComment :: "Scanner \<Rightarrow> Token \<times> Scanner" where
  "scanSingleLineDocComment st =
     (T_CommentLiteral,
      singleLineDocLoop (skipWhitespaceExceptUnicodeLinebreak (advanced (clearCommentLiteral st))))"

function multiLineLoop :: "Scanner \<Rightarrow> Token \<times> Scanner" where
  "multiLineLoop st =
     (if isSourcePastEndOfInput st then (T_Illegal, st)
      else let ch = sc_char st; st' = advanced st
           in if ch = CHR ''*'' \<and> sc_char st' = CHR ''/'' then (T_Whitespace, st'\<lparr>sc_char := CHR '' ''\<rparr>)
              else multiLineLoop st')"
  by pat_completeness auto
termination by (relation "measure remaining") (auto simp: remaining_advance_source)

definition skipMultiLineComment :: "Scanner \<Rightarrow> Token \<times> Scanner" where
  "skipMultiLineComment st = multiLineLoop (advanced st)"

function skipBlanks :: "Scanner \<Rightarrow> Scanner" where
  "skipBlanks st =
     (if isWhiteSpace (sc_char st) \<and> \<not> isLineTerminator (sc_char st) then skipBlanks (advanced st) else st)"
  by pat_completeness auto
termination by (relation "measure remaining") (auto simp: classes_nonzero remaining_advance_char)

declare singleLineDocLoop.simps [simp del] multiLineLoop.simps [simp del] skipBlanks.simps [simp del]

interpretation blanks: scan_loop "\<lambda>st. isWhiteSpace (sc_char st) \<and> \<not> isLineTerminator (sc_char st)" advanced skipBlanks
  by unfold_locales (simp_all add: skipBlanks.simps classes_nonzero remaining_advance_char)

text \<open>What the loop of \<open>scanMultiLineDocComment\<close> does at a line terminator; the first component is \<open>endFound\<close>.\<close>

definition docCommentNewline :: "bool \<Rightarrow> Scanner \<Rightarrow> bool \<times> Scanner" where
  "docCommentNewline charsAdded st =
     (let st = snd (skipWhitespace st); s = sc_source st
      in if \<not> isPastEndOfInput s 1 \<and> cs_get s 0 = CHR ''*'' \<and> cs_get s 1 = CHR ''*'' then
           (False, advanced (addCommentLiteralChar CHR ''*'' st))
         else if \<not> isPastEndOfInput s 1 \<and> cs_get s 0 = CHR ''*'' \<and> cs_get s 1 \<noteq> CHR ''/'' then
           (False, advanceBy 2 (if charsAdded then addCommentLiteralChar newline st else st))
         else if \<not> isPastEndOfInput s 1 \<and> cs_get s 0 = CHR ''*'' \<and> cs_get s 1 = CHR ''/'' then
           (True, advanceBy 2 st)
         else (False, if charsAdded then addCommentLiteralChar newline st else st))"

lemma forward_docCommentNewline: "docCommentNewline charsAdded st = (b, st') \<Longrightarrow> forward st st'"
  by (auto simp: docCommentNewline_def Let_def skipWhitespace_def split: if_splits)

function multiLineDocLoop :: "bool \<Rightarrow> Scanner \<Rightarrow> bool \<times> Scanner" where
  "multiLineDocLoop charsAdded st =
     (if isSourcePastEndOfInput st then (False, st)
      else case (if isLineTerminator (sc_char st) then docCommentNewline charsAdded st else (False, st)) of
             (True, st') \<Rightarrow> (True, st')
           | (False, st') \<Rightarrow>
               if \<not> isPastEndOfInput (sc_source st') 1 \<and> cs_get (sc_source st') 0 = CHR ''*'' \<and>
                  cs_get (sc_source st') 1 = CHR ''/''
               then (True, advanceBy 2 st')
               else multiLineDocLoop True (advanced (addCommentLiteralChar (sc_char st') st')))"
  by pat_completeness auto
termination
proof (relation "measure (\<lambda>(_, st). remaining st)", goal_cases)
  case (2 charsAdded st b st')
  have "forward st (addCommentLiteralChar (sc_char st') st')"
    using 2(2) by (auto split: if_splits dest: forward_docCommentNewline [OF sym])
  then show ?case using 2(1) by (simp add: remaining_forward)
qed simp

declare multiLineDocLoop.simps [simp del]

definition scanMultiLineDocComment :: "Scanner \<Rightarrow> Token \<times> Scanner" where
  "scanMultiLineDocComment st =
     (let (endFound, st) = multiLineDocLoop False (skipBlanks (clearCommentLiteral st))
      in (if \<not> endFound then T_Illegal else T_CommentLiteral, st))"

definition setCommentStart :: "int \<Rightarrow> Scanner \<Rightarrow> Scanner" where
  "setCommentStart p st =
     st\<lparr>sc_nextSkippedComment := (sc_nextSkippedComment st)
         \<lparr>td_location := (td_location (sc_nextSkippedComment st))\<lparr>loc_start := p\<rparr>\<rparr>\<rparr>"

definition setCommentEnd :: "Token \<Rightarrow> Scanner \<Rightarrow> Scanner" where
  "setCommentEnd comment st =
     st\<lparr>sc_nextSkippedComment := (sc_nextSkippedComment st)
         \<lparr>td_location := (td_location (sc_nextSkippedComment st))\<lparr>loc_end := sourcePos st\<rparr>, td_token := comment\<rparr>\<rparr>"

definition scanSlash :: "Scanner \<Rightarrow> Token \<times> Scanner" where
  "scanSlash st =
     (let firstSlashPosition = sourcePos st; st = advanced st
      in if sc_char st = CHR ''/'' then
           (case advance st of
              (False, st) \<Rightarrow> (T_Whitespace, st)
            | (True, st) \<Rightarrow>
                if sc_char st = CHR ''/'' then
                  (let (comment, st) = scanSingleLineDocComment (setCommentStart firstSlashPosition st)
                   in (T_Whitespace, setCommentEnd comment st))
                else skipSingleLineComment st)
         else if sc_char st = CHR ''*'' then
           (case advance st of
              (False, st) \<Rightarrow> (T_Illegal, st)
            | (True, st) \<Rightarrow>
                if sc_char st = CHR ''*'' then
                  (let st = advanced st
                   in if sc_char st = CHR ''/'' then (T_Whitespace, advanced st)
                      else (let (comment, st) = scanMultiLineDocComment (setCommentStart firstSlashPosition st);
                                st = setCommentEnd comment st
                            in (if comment = T_Illegal then T_Illegal else T_Whitespace, st)))
                else skipMultiLineComment st)
         else if sc_char st = CHR ''='' then selectToken T_AssignDiv st
         else (T_Div, st))"

text \<open>
  The contract of what skips white space and comments: any relation between states that these moves
  respect holds from before to after.
\<close>

locale scanner_moves =
  fixes R :: "Scanner \<Rightarrow> Scanner \<Rightarrow> bool"
  assumes refl: "R st st"
    and trans: "R st st1 \<Longrightarrow> R st1 st2 \<Longrightarrow> R st st2"
    and by_one: "R st (advanced st)"
    and by_more: "\<not> isPastEndOfInput (sc_source st) k \<Longrightarrow> n \<le> Suc k \<Longrightarrow> R st (advanceBy n st)"
    and comment_char: "R st (addCommentLiteralChar c st)"
    and comment_clear: "R st (clearCommentLiteral st)"
    and comment_start: "R st (setCommentStart p st)"
    and comment_end: "R st (setCommentEnd tok st)"
    and comment_closed: "sc_char st = CHR ''/'' \<Longrightarrow> R st (st\<lparr>sc_char := CHR '' ''\<rparr>)"
begin

lemma advanced_after: "R st st' \<Longrightarrow> R st (advanced st')"
  by (rule trans [OF _ by_one])

lemma char_after: "R st st' \<Longrightarrow> R st (addCommentLiteralChar c st')"
  by (rule trans [OF _ comment_char])

lemma skipSpaces: "R st (skipSpaces st)"
  by (induction st rule: spaces.loop_induct) (auto intro: refl trans by_one)

lemma skipWhitespace: "R st (snd (skipWhitespace st))"
  by (simp add: skipWhitespace_def Let_def skipSpaces)

lemma blanks_to_linebreak: "R st (skipWhitespaceExceptUnicodeLinebreak st)"
  by (induction st rule: blanks_to_linebreak.loop_induct) (auto intro: refl trans by_one)

lemma blanks: "R st (skipBlanks st)"
  by (induction st rule: blanks.loop_induct) (auto intro: refl trans by_one)

lemma skipToLinebreak: "R st (skipToLinebreak st)"
proof (induction st rule: skipToLinebreak.induct)
  case (1 st)
  then show ?case by (subst skipToLinebreak.simps) (auto intro: refl by_one trans [OF by_one])
qed

lemma singleLineDocLoop: "R st (singleLineDocLoop st)"
proof (induction st rule: singleLineDocLoop.induct)
  case (1 st)
  show ?case
  proof (cases "isSourcePastEndOfInput st")
    case False
    let ?st = "snd (skipWhitespace st)" and ?add = "\<lambda>st. advanced (addCommentLiteralChar (sc_char st) st)"
    let ?line = "advanceBy 3 (addCommentLiteralChar newline ?st)"
    have line: "R st (singleLineDocLoop (?add ?line))" if "isLineTerminator (sc_char st)" "docLineContinues ?st"
    proof (rule trans [OF advanced_after [OF char_after] 1(1) [OF False that(1) HOL.refl that(2) HOL.refl]])
      show "R st ?line"
        using trans [OF char_after [OF skipWhitespace] by_more, of "newline" st 3 3] that(2)
        by (simp add: docLineContinues_def)
    qed
    have char: "R st (singleLineDocLoop (?add st))" if "\<not> isLineTerminator (sc_char st)" "\<not> isUnicodeLinebreak st"
      by (rule trans [OF advanced_after [OF comment_char] 1(2) [OF False that]])
    show ?thesis using False line char
      by (subst singleLineDocLoop.simps) (simp add: Let_def skipWhitespace refl)
  qed (simp add: singleLineDocLoop.simps refl)
qed

lemma singleLineDoc: "R st (snd (scanSingleLineDocComment st))"
  unfolding scanSingleLineDocComment_def snd_conv
  by (rule trans [OF trans [OF advanced_after [OF comment_clear] blanks_to_linebreak] singleLineDocLoop])

lemma multiLineLoop: "R st (snd (multiLineLoop st))"
proof (induction st rule: multiLineLoop.induct)
  case (1 st)
  then show ?case
    by (subst multiLineLoop.simps)
      (auto simp: Let_def intro: refl trans [OF by_one] trans [OF by_one comment_closed])
qed

lemma docCommentNewline: "R st (snd (docCommentNewline b st))"
proof -
  let ?st = "snd (skipWhitespace st)"
  have st: "R st ?st" by (rule skipWhitespace)
  have "\<not> isPastEndOfInput (sc_source st') 1 \<Longrightarrow> R st st' \<Longrightarrow> R st (advanceBy 2 st')" for st'
    using trans [OF _ by_more] by fastforce
  from this [of ?st] this [of "addCommentLiteralChar newline ?st"] show ?thesis
    by (simp add: docCommentNewline_def Let_def st char_after advanced_after)
qed

lemma multiLineDocLoop: "R st (snd (multiLineDocLoop b st))"
proof (induction b st rule: multiLineDocLoop.induct)
  case (1 b st)
  let ?r = "if isLineTerminator (sc_char st) then docCommentNewline b st else (False, st)"
  obtain e st1 where r: "?r = (e, st1)" by fastforce
  have st1: "R st st1" using r docCommentNewline [of st b] by (auto simp: refl split: if_splits)
  have close: "\<not> isPastEndOfInput (sc_source st1) 1 \<Longrightarrow> R st (advanceBy 2 st1)"
    using trans [OF st1 by_more] by fastforce
  show ?case
  proof (cases "isSourcePastEndOfInput st \<or> e")
    case True
    then show ?thesis using r st1 by (subst multiLineDocLoop.simps) (auto simp: refl split: bool.splits)
  next
    case False
    note 1 [OF _ r [symmetric] _]
    then show ?thesis
      using False r close trans [OF advanced_after [OF char_after [OF st1]]]
      by (subst multiLineDocLoop.simps) (simp, blast)
  qed
qed

lemma multiLineDoc: "R st (snd (scanMultiLineDocComment st))"
  using trans [OF trans [OF comment_clear blanks] multiLineDocLoop, of st False]
  by (simp add: scanMultiLineDocComment_def split_beta)

lemma scanSlash: "R (advanced st) (snd (scanSlash st))"
proof -
  let ?a = "advanced st"
  obtain more b where adv: "advance ?a = (more, b)" by fastforce
  then have b: "R ?a b" using by_one [of ?a] by simp
  let ?d = "setCommentStart (sourcePos st) b" and ?e = "setCommentStart (sourcePos st) (advanced b)"
  have doc: "R ?a (setCommentEnd tok (snd (scanSingleLineDocComment ?d)))" for tok
    by (rule trans [OF trans [OF trans [OF b comment_start] singleLineDoc] comment_end])
  have multi: "R ?a (setCommentEnd tok (snd (scanMultiLineDocComment ?e)))" for tok
    by (rule trans [OF trans [OF trans [OF advanced_after [OF b] comment_start] multiLineDoc] comment_end])
  note skip = trans [OF b skipToLinebreak] trans [OF advanced_after [OF b] multiLineLoop]
  show ?thesis
    using adv b doc multi skip advanced_after [OF b] advanced_after [OF advanced_after [OF b]] by_one [of ?a]
    by (simp add: scanSlash_def Let_def skipSingleLineComment_def skipMultiLineComment_def selectToken_def refl
        split_beta split: bool.splits)
qed

end

abbreviation position :: "Scanner \<Rightarrow> nat" where
  "position st \<equiv> cs_position (sc_source st)"

interpretation forward: scanner_moves forward
proof (unfold_locales, goal_cases)
  case (2 st st1 st2)
  then show ?case by (rule forward_trans)
qed (simp_all add: forward_def addCommentLiteralChar_def clearCommentLiteral_def setCommentStart_def
    setCommentEnd_def stream_defs)

lemma forward_past:
  assumes "forward (advanced st) st'" "sc_char (advanced st) \<noteq> CHR 0x00"
  shows "position st < position st'"
  using assms by (auto simp: forward_def stream_defs split: if_splits)

section \<open>Strings\<close>

text \<open>
  \<open>scanHexByte\<close> and \<open>scanUnicode\<close> read \<open>k\<close> hexadecimal digits and go back to the first one when one is
  missing. The result is converted to a \<open>char\<close>, of 8 bits, or is an \<open>unsigned\<close>. In the bytes of
  \<open>addUnicodeAsUTF8\<close> the operands of \<open>|\<close> have no bit in common: it is written as a sum.
\<close>

fun scanHexDigits :: "nat \<Rightarrow> nat \<Rightarrow> nat \<Rightarrow> Scanner \<Rightarrow> (nat option \<times> Scanner) res" where
  "scanHexDigits 0 i x st = Inr (Some x, st)"
| "scanHexDigits (Suc k) i x st =
     (let d = hexValue (sc_char st)
      in if d < 0 then bindR (scanner_rollback i st) (\<lambda>st. Inr (None, st))
         else scanHexDigits k (i + 1) (x * 16 + nat d) (advanced st))"

definition scanHexByte :: "Scanner \<Rightarrow> (char option \<times> Scanner) res" where
  "scanHexByte st =
     bindR (scanHexDigits 2 0 0 st) (\<lambda>(x, st). Inr (map_option (\<lambda>x. char_of (x mod 256)) x, st))"

definition scanUnicode :: "Scanner \<Rightarrow> (nat option \<times> Scanner) res" where
  "scanUnicode st = scanHexDigits 4 0 0 st"

definition addUnicodeAsUTF8 :: "nat \<Rightarrow> Scanner \<Rightarrow> Scanner" where
  "addUnicodeAsUTF8 codepoint st =
     (if codepoint \<le> 0x7F then addLiteralChar (char_of codepoint) st
      else if codepoint \<le> 0x7FF then
        addLiteralChar (char_of (0x80 + codepoint mod 64)) (addLiteralChar (char_of (0xC0 + codepoint div 64)) st)
      else
        addLiteralChar (char_of (0x80 + codepoint mod 64))
          (addLiteralChar (char_of (0x80 + codepoint div 64 mod 64))
            (addLiteralChar (char_of (0xE0 + codepoint div 4096)) st)))"

definition scanEscape :: "Scanner \<Rightarrow> (bool \<times> Scanner) res" where
  "scanEscape st =
     (let c = sc_char st; st = advanced st
      in if isLineTerminator c then Inr (True, st)
         else if c = CHR 0x27 \<or> c = CHR 0x22 \<or> c = CHR 0x5C then Inr (True, addLiteralChar c st)
         else if c = CHR ''b'' then Inr (True, addLiteralChar CHR 0x08 st)
         else if c = CHR ''f'' then Inr (True, addLiteralChar CHR 0x0C st)
         else if c = CHR ''n'' then Inr (True, addLiteralChar CHR 0x0A st)
         else if c = CHR ''r'' then Inr (True, addLiteralChar CHR 0x0D st)
         else if c = CHR ''t'' then Inr (True, addLiteralChar CHR 0x09 st)
         else if c = CHR ''v'' then Inr (True, addLiteralChar CHR 0x0B st)
         else if c = CHR ''u'' then
           bindR (scanUnicode st) (\<lambda>(codepoint, st). case codepoint of
             None \<Rightarrow> Inr (False, st) | Some codepoint \<Rightarrow> Inr (True, addUnicodeAsUTF8 codepoint st))
         else if c = CHR ''x'' then
           bindR (scanHexByte st) (\<lambda>(byte, st). case byte of
             None \<Rightarrow> Inr (False, st) | Some c \<Rightarrow> Inr (True, addLiteralChar c st))
         else Inr (False, st))"

lemma forward_scanHexDigits: "scanHexDigits k i x st = Inr (Some y, st') \<Longrightarrow> forward st st'"
  by (induction k i x st rule: scanHexDigits.induct)
    (auto simp: Let_def split: if_splits intro: forward_trans [OF forward_advanced])

lemma forward_scanHexByte: "scanHexByte st = Inr (Some c, st') \<Longrightarrow> forward st st'"
  by (auto simp: scanHexByte_def forward_scanHexDigits)

lemma forward_addUnicode [simp]: "forward st (addUnicodeAsUTF8 c st') = forward st st'"
  by (simp add: addUnicodeAsUTF8_def)

lemma forward_scanEscape: "scanEscape st = Inr (True, st') \<Longrightarrow> forward st st'"
  by (auto simp: scanEscape_def scanUnicode_def Let_def split: if_splits option.splits
      dest!: forward_scanHexDigits [THEN forward_from_advanced] forward_scanHexByte [THEN forward_from_advanced])

text \<open>The loops of the strings stop with \<open>False\<close> at a \<open>return Token::Illegal\<close> inside them.\<close>

function scanStringLoop :: "char \<Rightarrow> Scanner \<Rightarrow> (bool \<times> Scanner) res" where
  "scanStringLoop quote st =
     (if sc_char st \<noteq> quote \<and> \<not> isSourcePastEndOfInput st \<and> \<not> isUnicodeLinebreak st then
        (let c = sc_char st; st' = advanced st
         in if c = CHR 0x5C then
              (if isSourcePastEndOfInput st' then Inr (False, st')
               else case scanEscape st' of
                      Inl e \<Rightarrow> Inl e
                    | Inr (False, st'') \<Rightarrow> Inr (False, st'')
                    | Inr (True, st'') \<Rightarrow> scanStringLoop quote st'')
            else scanStringLoop quote (addLiteralChar c st'))
      else Inr (True, st))"
  by pat_completeness auto

lemma remaining_forward_advanced:
  "forward (advanced st) st' \<Longrightarrow> \<not> isSourcePastEndOfInput st \<Longrightarrow> remaining st' < remaining st"
  by (auto simp: forward_def remaining_def isSourcePastEndOfInput_def stream_defs split: if_splits)

termination scanStringLoop
  by (relation "measure (\<lambda>(_, st). remaining st)")
    (auto simp: remaining_advance_source intro!: remaining_forward_advanced forward_scanEscape)

declare scanStringLoop.simps [simp del]

definition scanString :: "Scanner \<Rightarrow> (Token \<times> Scanner) res" where
  "scanString st =
     (let quote = sc_char st; st = clearLiteral (advanced st)
      in bindR (scanStringLoop quote st) (\<lambda>(ok, st).
           if \<not> ok then Inr (T_Illegal, clearLiteral st)
           else if sc_char st \<noteq> quote then Inr (T_Illegal, clearLiteral st)
           else Inr (T_StringLiteral, advanced st)))"

function scanHexStringLoop :: "char \<Rightarrow> Scanner \<Rightarrow> (bool \<times> Scanner) res" where
  "scanHexStringLoop quote st =
     (if sc_char st \<noteq> quote \<and> \<not> isSourcePastEndOfInput st then
        (case scanHexByte st of
           Inl e \<Rightarrow> Inl e
         | Inr (None, st') \<Rightarrow> Inr (False, st')
         | Inr (Some c, st') \<Rightarrow> scanHexStringLoop quote (addLiteralChar c st'))
      else Inr (True, st))"
  by pat_completeness auto

lemma scanHexByte_remaining:
  assumes "scanHexByte st = Inr (Some c, st')" "\<not> isSourcePastEndOfInput st"
  shows "remaining st' < remaining st"
proof -
  obtain x where "scanHexDigits 2 0 0 st = Inr (Some x, st')"
    using assms(1) by (auto simp: scanHexByte_def)
  then have "scanHexDigits 1 1 (nat (hexValue (sc_char st))) (advanced st) = Inr (Some x, st')"
    by (auto simp: numeral_2_eq_2 Let_def split: if_splits)
  then show ?thesis using assms(2) forward_scanHexDigits remaining_forward_advanced by blast
qed

termination scanHexStringLoop
  by (relation "measure (\<lambda>(_, st). remaining st)") (auto simp: scanHexByte_remaining)

declare scanHexStringLoop.simps [simp del]

definition scanHexString :: "Scanner \<Rightarrow> (Token \<times> Scanner) res" where
  "scanHexString st =
     (let quote = sc_char st; st = clearLiteral (advanced st)
      in bindR (scanHexStringLoop quote st) (\<lambda>(ok, st).
           if \<not> ok then Inr (T_Illegal, clearLiteral st)
           else if sc_char st \<noteq> quote then Inr (T_Illegal, clearLiteral st)
           else Inr (T_StringLiteral, advanced st)))"

section \<open>Numbers and identifiers\<close>

function scanDecimalDigits :: "Scanner \<Rightarrow> Scanner" where
  "scanDecimalDigits st =
     (if isDecimalDigit (sc_char st) then scanDecimalDigits (addLiteralCharAndAdvance st) else st)"
  by pat_completeness auto
termination by (relation "measure remaining") (auto simp: classes_nonzero remaining_add_advance)

function scanHexNumberDigits :: "Scanner \<Rightarrow> Scanner" where
  "scanHexNumberDigits st =
     (if isHexDigit (sc_char st) then scanHexNumberDigits (addLiteralCharAndAdvance st) else st)"
  by pat_completeness auto
termination by (relation "measure remaining") (auto simp: classes_nonzero remaining_add_advance)

function scanIdentifierParts :: "Scanner \<Rightarrow> Scanner" where
  "scanIdentifierParts st =
     (if isIdentifierPart (sc_char st) then scanIdentifierParts (addLiteralCharAndAdvance st) else st)"
  by pat_completeness auto
termination by (relation "measure remaining") (auto simp: classes_nonzero remaining_add_advance)

interpretation decimal_digits: scan_loop "\<lambda>st. isDecimalDigit (sc_char st)" addLiteralCharAndAdvance scanDecimalDigits
  by unfold_locales (auto simp: classes_nonzero remaining_add_advance)

interpretation hex_digits: scan_loop "\<lambda>st. isHexDigit (sc_char st)" addLiteralCharAndAdvance scanHexNumberDigits
  by unfold_locales (auto simp: classes_nonzero remaining_add_advance)

interpretation identifier_parts: scan_loop "\<lambda>st. isIdentifierPart (sc_char st)" addLiteralCharAndAdvance scanIdentifierParts
  by unfold_locales (auto simp: classes_nonzero remaining_add_advance)

declare scanDecimalDigits.simps [simp del] scanHexNumberDigits.simps [simp del] scanIdentifierParts.simps [simp del]

datatype NumberKind = DECIMAL | HEX | BINARY

text \<open>\<open>None\<close> is a \<open>return Token::Illegal\<close>, at which the literal is dropped.\<close>

definition scanMantissa :: "char \<Rightarrow> Scanner \<Rightarrow> ((NumberKind option) \<times> Scanner) res" where
  "scanMantissa charSeen st =
     (let decimal = (\<lambda>st.
            let st = scanDecimalDigits st
            in if sc_char st = CHR ''.'' then (Some DECIMAL, scanDecimalDigits (addLiteralCharAndAdvance st))
               else (Some DECIMAL, st))
      in if charSeen = CHR ''.'' then Inr (Some DECIMAL, scanDecimalDigits (addLiteralChar CHR ''.'' st))
         else assertThrow (charSeen = CHR 0x00) SolAssert
           (if sc_char st = CHR ''0'' then
              (let st = addLiteralCharAndAdvance st
               in if sc_char st = CHR ''x'' \<or> sc_char st = CHR ''X'' then
                    (let st = addLiteralCharAndAdvance st
                     in if \<not> isHexDigit (sc_char st) then Inr (None, st)
                        else Inr (Some HEX, scanHexNumberDigits st))
                  else if isDecimalDigit (sc_char st) then Inr (None, st)
                  else Inr (decimal st))
            else Inr (decimal st)))"

definition scanExponent :: "NumberKind \<Rightarrow> Scanner \<Rightarrow> (bool \<times> Scanner) res" where
  "scanExponent kind st =
     (if sc_char st = CHR ''e'' \<or> sc_char st = CHR ''E'' then
        assertThrow (kind \<noteq> HEX) SolAssert
          (if kind \<noteq> DECIMAL then Inr (False, st)
           else let st = addLiteralCharAndAdvance st;
                    st = (if sc_char st = CHR ''+'' \<or> sc_char st = CHR ''-'' then addLiteralCharAndAdvance st else st)
                in if \<not> isDecimalDigit (sc_char st) then Inr (False, st) else Inr (True, scanDecimalDigits st))
      else Inr (True, st))"

definition scanNumber :: "char \<Rightarrow> Scanner \<Rightarrow> (Token \<times> Scanner) res" where
  "scanNumber charSeen st =
     bindR (scanMantissa charSeen (clearLiteral st)) (\<lambda>(kind, st).
       case kind of
         None \<Rightarrow> Inr (T_Illegal, clearLiteral st)
       | Some kind \<Rightarrow> bindR (scanExponent kind st) (\<lambda>(ok, st).
           if \<not> ok then Inr (T_Illegal, clearLiteral st)
           else if isDecimalDigit (sc_char st) \<or> isIdentifierStart (sc_char st) then Inr (T_Illegal, clearLiteral st)
           else Inr (T_Number, st)))"

definition scanIdentifierOrKeyword :: "(string \<Rightarrow> int option) \<Rightarrow> Scanner \<Rightarrow> ((Token \<times> nat \<times> nat) \<times> Scanner) res" where
  "scanIdentifierOrKeyword lexical_cast st =
     assertThrow (isIdentifierStart (sc_char st)) SolAssert
       (let st = scanIdentifierParts (addLiteralCharAndAdvance (clearLiteral st))
        in Inr (fromIdentifierOrKeyword lexical_cast (td_literal (sc_nextToken st)), st))"

section \<open>Tokens\<close>

definition scanLess :: "Scanner \<Rightarrow> Token \<times> Scanner" where
  "scanLess st =
     (let st = advanced st
      in if sc_char st = CHR ''='' then selectToken T_LessThanOrEqual st
         else if sc_char st = CHR ''<'' then selectTokenIf CHR ''='' T_AssignShl T_SHL st
         else (T_LessThan, st))"

definition scanGreater :: "Scanner \<Rightarrow> Token \<times> Scanner" where
  "scanGreater st =
     (let st = advanced st
      in if sc_char st = CHR ''='' then selectToken T_GreaterThanOrEqual st
         else if sc_char st = CHR ''>'' then
           (let st = advanced st
            in if sc_char st = CHR ''='' then selectToken T_AssignSar st
               else if sc_char st = CHR ''>'' then selectTokenIf CHR ''='' T_AssignShr T_SHR st
               else (T_SAR, st))
         else (T_GreaterThan, st))"

text \<open>The cases of \<open>=\<close>, \<open>!\<close>, \<open>+\<close>, \<open>-\<close>, \<open>*\<close>, \<open>&\<close>, \<open>|\<close>: after the first character, up to two others and their tokens.\<close>

definition scanOneOf :: "(char \<times> Token) list \<Rightarrow> Token \<Rightarrow> Scanner \<Rightarrow> Token \<times> Scanner" where
  "scanOneOf choices alone st =
     (let st = advanced st
      in case map_of choices (sc_char st) of Some tok \<Rightarrow> selectToken tok st | None \<Rightarrow> (alone, st))"

text \<open>
  The operators and the punctuation of the \<open>switch\<close> of \<open>scanToken\<close>; \<open>None\<close> for the characters of
  other cases.
\<close>

definition scanOperator :: "Scanner \<Rightarrow> (Token \<times> Scanner) option" where
  "scanOperator st =
     (let c = sc_char st
      in if c = CHR ''<'' then Some (scanLess st)
         else if c = CHR ''>'' then Some (scanGreater st)
         else if c = CHR ''='' then Some (scanOneOf [(CHR ''='', T_Equal), (CHR ''>'', T_Arrow)] T_Assign st)
         else if c = CHR ''!'' then Some (scanOneOf [(CHR ''='', T_NotEqual)] T_Not st)
         else if c = CHR ''+'' then Some (scanOneOf [(CHR ''+'', T_Inc), (CHR ''='', T_AssignAdd)] T_Add st)
         else if c = CHR ''-'' then Some (scanOneOf [(CHR ''-'', T_Dec), (CHR ''='', T_AssignSub)] T_Sub st)
         else if c = CHR ''*'' then Some (scanOneOf [(CHR ''*'', T_Exp), (CHR ''='', T_AssignMul)] T_Mul st)
         else if c = CHR ''%'' then Some (selectTokenIf CHR ''='' T_AssignMod T_Mod st)
         else if c = CHR ''&'' then Some (scanOneOf [(CHR ''&'', T_And), (CHR ''='', T_AssignBitAnd)] T_BitAnd st)
         else if c = CHR ''|'' then Some (scanOneOf [(CHR ''|'', T_Or), (CHR ''='', T_AssignBitOr)] T_BitOr st)
         else if c = CHR ''^'' then Some (selectTokenIf CHR ''='' T_AssignBitXor T_BitXor st)
         else if c = CHR '':'' then Some (selectToken T_Colon st)
         else if c = CHR '';'' then Some (selectToken T_Semicolon st)
         else if c = CHR '','' then Some (selectToken T_Comma st)
         else if c = CHR ''('' then Some (selectToken T_LParen st)
         else if c = CHR '')'' then Some (selectToken T_RParen st)
         else if c = CHR ''['' then Some (selectToken T_LBrack st)
         else if c = CHR '']'' then Some (selectToken T_RBrack st)
         else if c = CHR ''{'' then Some (selectToken T_LBrace st)
         else if c = CHR ''}'' then Some (selectToken T_RBrace st)
         else if c = CHR ''?'' then Some (selectToken T_Conditional st)
         else if c = CHR ''~'' then Some (selectToken T_BitNot st)
         else None)"

definition setTokenStart :: "Scanner \<Rightarrow> Scanner" where
  "setTokenStart st =
     st\<lparr>sc_nextToken := (sc_nextToken st)
         \<lparr>td_location := (td_location (sc_nextToken st))\<lparr>loc_start := sourcePos st\<rparr>\<rparr>\<rparr>"

text \<open>One round of the loop of \<open>scanToken\<close>: the token, the variables \<open>m\<close> and \<open>n\<close>, the state.\<close>

type_synonym scanned = "Token \<times> (nat \<times> nat) option \<times> Scanner"

definition unsized :: "(Token \<times> Scanner) res \<Rightarrow> scanned res" where
  "unsized r = bindR r (\<lambda>(tok, st). Inr (tok, None, st))"

definition scanWord :: "(string \<Rightarrow> int option) \<Rightarrow> Scanner \<Rightarrow> scanned res" where
  "scanWord lexical_cast st =
     bindR (scanIdentifierOrKeyword lexical_cast st) (\<lambda>((tok, m, n), st).
       if tok = T_Hex then
         (if sc_char st = CHR 0x22 \<or> sc_char st = CHR 0x27
          then bindR (scanHexString st) (\<lambda>(tok, st). Inr (tok, Some (0, 0), st))
          else Inr (T_Illegal, Some (0, 0), st))
       else Inr (tok, Some (m, n), st))"

definition scanOther :: "(string \<Rightarrow> int option) \<Rightarrow> Scanner \<Rightarrow> scanned res" where
  "scanOther lexical_cast st =
     (if isIdentifierStart (sc_char st) then scanWord lexical_cast st
      else if isDecimalDigit (sc_char st) then unsized (scanNumber CHR 0x00 st)
      else let (skipped, st) = skipWhitespace st
           in if skipped then unsized (Inr (T_Whitespace, st))
              else if isSourcePastEndOfInput st then unsized (Inr (T_EOS, st))
              else unsized (Inr (selectToken T_Illegal st)))"

definition scanOnce :: "(string \<Rightarrow> int option) \<Rightarrow> Scanner \<Rightarrow> scanned res" where
  "scanOnce lexical_cast st =
     (let st = setTokenStart st
      in if sc_char st = CHR 0x22 \<or> sc_char st = CHR 0x27 then unsized (scanString st)
         else if sc_char st = CHR ''/'' then unsized (Inr (scanSlash st))
         else if sc_char st = CHR ''.'' then
           (let st = advanced st
            in if isDecimalDigit (sc_char st) then unsized (scanNumber CHR ''.'' st)
               else unsized (Inr (T_Period, st)))
         else case scanOperator st of
                Some r \<Rightarrow> unsized (Inr r)
              | None \<Rightarrow> scanOther lexical_cast st)"

text \<open>A round that ends with white space has moved on: the loop of \<open>scanToken\<close> ends.\<close>

lemma remaining_forward_past: "forward st st' \<Longrightarrow> position st < position st' \<Longrightarrow> remaining st' < remaining st"
  by (auto simp: forward_def remaining_def)

lemma scanSlash_remaining:
  assumes "scanSlash st = (T_Whitespace, st')"
  shows "remaining st' < remaining st"
proof -
  have "sc_char (advanced st) \<noteq> CHR 0x00"
    using assms by (auto simp: scanSlash_def Let_def selectToken_def split: if_splits)
  then show ?thesis
    using forward.scanSlash [of st] assms remaining_forward_past forward_past forward_from_advanced
    by fastforce
qed

lemma skipWhitespace_remaining: "skipWhitespace st = (True, st') \<Longrightarrow> remaining st' < remaining st"
  using spaces.loop_forward [of st]
  by (auto simp: skipWhitespace_def Let_def sourcePos_def cs_int_position_def forward_def
      intro!: remaining_forward_past intro: le_neq_implies_less)

lemma scanWord_remaining:
  assumes "scanWord lexical_cast st = Inr (T_Whitespace, info, st')"
  shows "remaining st' < remaining st"
proof -
  let ?st = "scanIdentifierParts (addLiteralCharAndAdvance (clearLiteral st))"
  have "isIdentifierStart (sc_char st)" "st' = ?st"
    using assms
    by (auto simp: scanWord_def scanIdentifierOrKeyword_def scanHexString_def Let_def split: if_splits prod.splits)
  then show ?thesis
    using identifier_parts.loop_remaining [of "addLiteralCharAndAdvance (clearLiteral st)"]
      remaining_add_advance [of "clearLiteral st"] classes_nonzero(4) by fastforce
qed

lemma scanOperator_not_whitespace: "scanOperator st = Some (tok, st') \<Longrightarrow> tok \<noteq> T_Whitespace"
  by (auto simp: scanOperator_def scanLess_def scanGreater_def scanOneOf_def selectTokenIf_def selectToken_def Let_def
      split: if_splits option.splits)

lemma scanString_token: "scanString st = Inr (tok, st') \<Longrightarrow> tok = T_Illegal \<or> tok = T_StringLiteral"
  by (auto simp: scanString_def Let_def split: if_splits)

lemma scanNumber_token: "scanNumber c st = Inr (tok, st') \<Longrightarrow> tok = T_Illegal \<or> tok = T_Number"
  by (auto simp: scanNumber_def split: if_splits option.splits)

lemma remaining_setTokenStart [simp]: "remaining (setTokenStart st) = remaining st"
  by (simp add: setTokenStart_def remaining_def)

lemma scanOther_remaining: "scanOther lexical_cast st = Inr (T_Whitespace, info, st') \<Longrightarrow> remaining st' < remaining st"
  using scanWord_remaining [of lexical_cast st info st'] scanNumber_token [of "CHR 0x00" st T_Whitespace st']
    skipWhitespace_remaining [of st st']
  by (auto simp: scanOther_def unsized_def selectToken_def split: if_splits prod.splits)

lemma scanOnce_remaining:
  assumes "scanOnce lexical_cast st = Inr (T_Whitespace, info, st')"
  shows "remaining st' < remaining st"
  using assms scanString_token [of "setTokenStart st" T_Whitespace st']
    scanNumber_token [of "CHR ''.''" "advanced (setTokenStart st)" T_Whitespace st']
    scanSlash_remaining [of "setTokenStart st" st'] scanOperator_not_whitespace [of "setTokenStart st" T_Whitespace st']
    scanOther_remaining [of lexical_cast "setTokenStart st" info st']
  by (auto simp: scanOnce_def unsized_def Let_def split: if_splits option.splits prod.splits)

function scanRounds :: "(string \<Rightarrow> int option) \<Rightarrow> Scanner \<Rightarrow> scanned res" where
  "scanRounds lexical_cast st =
     (case scanOnce lexical_cast st of
        Inl e \<Rightarrow> Inl e
      | Inr (tok, info, st') \<Rightarrow>
          if tok = T_Whitespace then scanRounds lexical_cast st' else Inr (tok, info, st'))"
  by pat_completeness auto
termination by (relation "measure (\<lambda>(_, st). remaining st)") (auto simp: scanOnce_remaining)

declare scanRounds.simps [simp del]

definition clearNextToken :: "Scanner \<Rightarrow> Scanner" where
  "clearNextToken st =
     st\<lparr>sc_nextToken := (sc_nextToken st)\<lparr>td_literal := [], td_extendedTokenInfo := Some (0, 0)\<rparr>,
        sc_nextSkippedComment := (sc_nextSkippedComment st)\<lparr>td_literal := [], td_extendedTokenInfo := Some (0, 0)\<rparr>\<rparr>"

definition setNextToken :: "Token \<Rightarrow> (nat \<times> nat) option \<Rightarrow> Scanner \<Rightarrow> Scanner" where
  "setNextToken tok info st =
     st\<lparr>sc_nextToken := (sc_nextToken st)
         \<lparr>td_location := (td_location (sc_nextToken st))\<lparr>loc_end := sourcePos st\<rparr>,
          td_token := tok, td_extendedTokenInfo := info\<rparr>\<rparr>"

definition scanToken :: "(string \<Rightarrow> int option) \<Rightarrow> Scanner \<Rightarrow> Scanner res" where
  "scanToken lexical_cast st =
     bindR (scanRounds lexical_cast (clearNextToken st)) (\<lambda>(tok, info, st). Inr (setNextToken tok info st))"

definition scanner_next :: "(string \<Rightarrow> int option) \<Rightarrow> Scanner \<Rightarrow> (Token \<times> Scanner) res" where
  "scanner_next lexical_cast st =
     bindR (scanToken lexical_cast
       (st\<lparr>sc_currentToken := sc_nextToken st, sc_skippedComment := sc_nextSkippedComment st\<rparr>))
       (\<lambda>st. Inr (currentToken st, st))"

definition scanner_reset :: "(string \<Rightarrow> int option) \<Rightarrow> Scanner \<Rightarrow> Scanner res" where
  "scanner_reset lexical_cast st =
     (let source = cs_reset (sc_source st);
          st = snd (skipWhitespace (st\<lparr>sc_source := source, sc_char := cs_get source 0\<rparr>))
      in bindR (scanToken lexical_cast st) (\<lambda>st. bindR (scanner_next lexical_cast st) (\<lambda>(_, st). Inr st)))"

text \<open>The scanner has a source and a name of its own from then on; its other members keep what they held.\<close>

definition scanner_resetTo :: "(string \<Rightarrow> int option) \<Rightarrow> CharStream \<Rightarrow> string \<Rightarrow> Scanner \<Rightarrow> Scanner res" where
  "scanner_resetTo lexical_cast source name st =
     scanner_reset lexical_cast (st\<lparr>sc_source := source, sc_sourceName := name\<rparr>)"

end
