(* ===== verification/ScannerFacts.thy ===== *)
theory ScannerFacts
  imports Scanner
begin

text \<open>
  What the scanner does on any source: every call returns, the scanner stays inside the source and
  goes forward, a token that is not an error is spelled by the characters it covers, and the end of
  the source is reached.
\<close>

section \<open>The unread text\<close>

definition unread :: "Scanner \<Rightarrow> string" where
  "unread st = drop (position st) (cs_source (sc_source st))"

fun first :: "string \<Rightarrow> char" where
  "first [] = CHR 0x00"
| "first (c # w) = c"

text \<open>
  The look-ahead is the first unread character, 0 at the end. After a comment of several lines it is a
  space that stands for the slash the comment ends with.
\<close>

definition held :: "Scanner \<Rightarrow> bool" where
  "held st \<longleftrightarrow> position st \<le> length (cs_source (sc_source st)) \<and> sc_char st = first (unread st)"

definition loose :: "Scanner \<Rightarrow> bool" where
  "loose st \<longleftrightarrow> held st \<or> (sc_char st = CHR '' '' \<and> unread st \<noteq> [])"

definition scannedLiteral :: "Scanner \<Rightarrow> string" where
  "scannedLiteral st = td_literal (sc_nextToken st)"

definition same_tokens :: "Scanner \<Rightarrow> Scanner \<Rightarrow> bool" where
  "same_tokens st st' \<longleftrightarrow> td_location (sc_nextToken st') = td_location (sc_nextToken st) \<and>
     sc_currentToken st' = sc_currentToken st \<and> sc_skippedComment st' = sc_skippedComment st"

lemma held_loose: "held st \<Longrightarrow> loose st"
  by (simp add: loose_def)

lemma loose_inside: "loose st \<Longrightarrow> position st \<le> length (cs_source (sc_source st))"
  by (auto simp: loose_def held_def unread_def)

lemma held_nonempty: "held st \<Longrightarrow> sc_char st \<noteq> CHR 0x00 \<Longrightarrow> unread st = sc_char st # tl (unread st)"
  by (cases "unread st") (auto simp: held_def)

lemma past_end: "isSourcePastEndOfInput st \<longleftrightarrow> unread st = []"
  by (simp add: isSourcePastEndOfInput_def isPastEndOfInput_def unread_def)

lemma first_drop: "i < length w \<Longrightarrow> first (drop i w) = w ! i"
  by (metis Cons_nth_drop_Suc first.simps(2))

lemma held_advanced:
  assumes "position st \<le> length (cs_source (sc_source st))"
  shows "held (advanced st)" and "unread (advanced st) = tl (unread st)"
  using assms by (auto simp: held_def unread_def stream_defs first_drop tl_drop drop_Suc [symmetric])

lemma same_tokens_simps [simp]:
  "same_tokens st st" "same_tokens st (advanced st') = same_tokens st st'"
  "same_tokens st (advanceBy n st') = same_tokens st st'" "same_tokens (advanced st) st' = same_tokens st st'"
  "same_tokens st (addLiteralChar c st') = same_tokens st st'" "same_tokens st (clearLiteral st') = same_tokens st st'"
  "same_tokens (clearLiteral st) st' = same_tokens st st'" "same_tokens (addLiteralChar c st) st' = same_tokens st st'"
  by (auto simp: same_tokens_def stream_defs addLiteralChar_def clearLiteral_def)

lemma same_tokens_trans: "same_tokens st st1 \<Longrightarrow> same_tokens st1 st2 \<Longrightarrow> same_tokens st st2"
  by (simp add: same_tokens_def)

lemma unread_buffers [simp]:
  "unread (addLiteralChar c st) = unread st" "unread (clearLiteral st) = unread st"
  "held (addLiteralChar c st) = held st" "held (clearLiteral st) = held st"
  "scannedLiteral (addLiteralChar c st) = scannedLiteral st @ [c]" "scannedLiteral (clearLiteral st) = []"
  "scannedLiteral (advanced st) = scannedLiteral st"
  by (simp_all add: unread_def held_def scannedLiteral_def addLiteralChar_def clearLiteral_def stream_defs)

section \<open>White space and comments\<close>

definition walks :: "Scanner \<Rightarrow> Scanner \<Rightarrow> bool" where
  "walks st st' \<longleftrightarrow> (loose st \<longrightarrow> forward st st' \<and> loose st' \<and> same_tokens st st')"

interpretation walk: scanner_moves walks
proof (unfold_locales, goal_cases)
  case (2 st st1 st2)
  then show ?case by (auto simp: walks_def intro: forward_trans same_tokens_trans)
next
  case (3 st)
  then show ?case using held_advanced [of st] by (simp add: walks_def held_loose loose_inside)
next
  case (4 st k n)
  then have "held (advanceBy n st)" by (auto simp: held_def unread_def stream_defs first_drop)
  then show ?case by (simp add: walks_def held_loose)
next
  case (9 st)
  then show ?case
    by (auto simp: walks_def loose_def held_def unread_def forward_def same_tokens_def)
qed (auto simp: walks_def forward_def loose_def held_def unread_def same_tokens_def addCommentLiteralChar_def
    clearCommentLiteral_def setCommentStart_def setCommentEnd_def)

section \<open>Recorded characters\<close>

definition records :: "string \<Rightarrow> Scanner \<Rightarrow> Scanner \<Rightarrow> bool" where
  "records w st st' \<longleftrightarrow> held st' \<and> forward st st' \<and> same_tokens st st' \<and>
     unread st = w @ unread st' \<and> scannedLiteral st' = scannedLiteral st @ w"

lemma records_nil [simp]: "held st \<Longrightarrow> records [] st st"
  by (simp add: records_def)

lemma records_trans: "records v st st1 \<Longrightarrow> records w st1 st2 \<Longrightarrow> records (v @ w) st st2"
  by (auto simp: records_def intro: forward_trans same_tokens_trans)

lemma records_one:
  assumes "held st" "sc_char st \<noteq> CHR 0x00"
  shows "records [sc_char st] st (addLiteralCharAndAdvance st)"
  using held_nonempty [OF assms] held_advanced [of "addLiteralChar (sc_char st) st"] assms(1)
  by (simp add: records_def addLiteralCharAndAdvance_def held_def)

locale recording_loop = scan_loop "\<lambda>st. P (sc_char st)" addLiteralCharAndAdvance loop
  for P :: "char \<Rightarrow> bool" and loop :: "Scanner \<Rightarrow> Scanner" +
  assumes nonzero: "\<not> P (CHR 0x00)"
begin

lemma loop_records: "held st \<Longrightarrow> records (takeWhile P (unread st)) st (loop st)"
proof (induction st rule: loop_induct)
  case (stop st)
  then show ?case by (cases "unread st") (auto simp: held_def records_def)
next
  case (round st st')
  have char: "sc_char st \<noteq> CHR 0x00" using round(1) nonzero by metis
  note one = records_one [OF round(3) char]
  have "unread st = sc_char st # unread (addLiteralCharAndAdvance st)"
    using one by (simp add: records_def)
  then show ?case
    using records_trans [OF one round(2)] one round(1) by (simp add: records_def)
qed

lemma loop_stops: "\<not> P (sc_char (loop st))"
  by (rule loop_ends)

end

interpretation decimal: recording_loop isDecimalDigit scanDecimalDigits
  by unfold_locales (use classes_nonzero in blast)

interpretation hexadecimal: recording_loop isHexDigit scanHexNumberDigits
  by unfold_locales (use classes_nonzero in blast)

interpretation ident: recording_loop isIdentifierPart scanIdentifierParts
  by unfold_locales (use classes_nonzero in blast)

section \<open>Digits of escapes\<close>

definition shifted :: "nat \<Rightarrow> Scanner \<Rightarrow> Scanner" where
  "shifted n st = st\<lparr>sc_source := (sc_source st)\<lparr>cs_position := position st + n\<rparr>, sc_char := first (drop n (unread st))\<rparr>"

definition hexNumber :: "nat \<Rightarrow> string \<Rightarrow> nat" where
  "hexNumber x w = foldl (\<lambda>x c. x * 16 + nat (hexValue c)) x w"

lemma shifted_0: "held st \<Longrightarrow> shifted 0 st = st"
  by (simp add: shifted_def held_def)

lemma shifted_advanced:
  "n < length (unread st) \<Longrightarrow> advanced (shifted n st) = shifted (Suc n) st"
  by (auto simp: shifted_def stream_defs unread_def first_drop add.commute)

lemma shifted_back: "held st \<Longrightarrow> n \<le> length (unread st) \<Longrightarrow> scanner_rollback n (shifted n st) = Inr st"
  by (auto simp: scanner_rollback_def cs_rollback_def shifted_def cs_get_def held_def unread_def first_drop Let_def)

lemma shifted_char: "sc_char (shifted n st) = first (drop n (unread st))"
  by (simp add: shifted_def)

lemma hexValue_hex: "hexValue c < 0 \<longleftrightarrow> \<not> isHexDigit c"
  by (auto simp: hexValue_def isHexDigit_def isDecimalDigit_def between_def)

lemma scanHexDigits_shifted:
  assumes "held st" "i \<le> length (unread st)"
  shows "scanHexDigits k i x (shifted i st) =
    (let w = take k (drop i (unread st))
     in if length w = k \<and> list_all isHexDigit w then Inr (Some (hexNumber x w), shifted (i + k) st) else Inr (None, st))"
  using assms(2)
proof (induction k arbitrary: i x)
  case 0
  then show ?case by (simp add: hexNumber_def)
next
  case (Suc k)
  show ?case
  proof (cases "drop i (unread st)")
    case Nil
    then show ?thesis using Suc.prems shifted_back [OF assms(1)] classes_nonzero(2)
      by (simp add: Let_def shifted_char hexValue_hex) blast
  next
    case (Cons c w)
    then have i: "i < length (unread st)" and w: "drop (Suc i) (unread st) = w"
      using Suc.prems by (metis drop_all not_less list.distinct(1), metis drop_Suc tl_drop list.sel(3))
    show ?thesis
      using Suc.IH [of "Suc i" "x * 16 + nat (hexValue c)"] i w Cons shifted_back [OF assms(1)] Suc.prems
      by (simp add: Let_def shifted_char hexValue_hex shifted_advanced hexNumber_def)
  qed
qed

lemma scanHexDigits_held:
  assumes "held st"
  shows "scanHexDigits k 0 0 st =
    (let w = take k (unread st)
     in if length w = k \<and> list_all isHexDigit w then Inr (Some (hexNumber 0 w), shifted k st) else Inr (None, st))"
  using scanHexDigits_shifted [OF assms, of 0 k 0] shifted_0 [OF assms] by (simp add: Let_def)

lemma shifted_held:
  assumes "held st" "n \<le> length (unread st)"
  shows "held (shifted n st)" "forward st (shifted n st)" "same_tokens st (shifted n st)"
    "unread (shifted n st) = drop n (unread st)" "scannedLiteral (shifted n st) = scannedLiteral st"
  using assms by (auto simp: held_def shifted_def forward_def same_tokens_def unread_def scannedLiteral_def add.commute)

section \<open>Strings\<close>

definition moves :: "Scanner \<Rightarrow> Scanner \<Rightarrow> bool" where
  "moves st st' \<longleftrightarrow> held st' \<and> forward st st' \<and> same_tokens st st'"

lemma moves_trans: "moves st st1 \<Longrightarrow> moves st1 st2 \<Longrightarrow> moves st st2"
  by (auto simp: moves_def intro: forward_trans same_tokens_trans)

lemma moves_refl: "held st \<Longrightarrow> moves st st"
  by (simp add: moves_def)

lemma moves_advanced: "held st \<Longrightarrow> moves st (advanced st)"
  using held_advanced [of st] by (simp add: moves_def held_def)

lemma moves_buffers [simp]:
  "moves st (addLiteralChar c st') = moves st st'" "moves st (clearLiteral st') = moves st st'"
  "moves (addLiteralChar c st) st' = moves st st'" "moves (clearLiteral st) st' = moves st st'"
  by (simp_all add: moves_def)

lemma moves_unicode [simp]: "moves st (addUnicodeAsUTF8 n st') = moves st st'"
  by (simp add: addUnicodeAsUTF8_def)

lemma moves_held: "moves st st' \<Longrightarrow> held st'"
  by (simp add: moves_def)

lemma records_moves: "records w st st' \<Longrightarrow> moves st st'"
  by (simp add: records_def moves_def)

lemma scanHexDigits_moves:
  "held st \<Longrightarrow> \<exists>x st'. scanHexDigits k 0 0 st = Inr (x, st') \<and> moves st st'"
  by (simp add: scanHexDigits_held Let_def moves_refl) (auto simp: moves_def shifted_held)

lemma scanEscape_moves:
  assumes "held st"
  shows "\<exists>b st'. scanEscape st = Inr (b, st') \<and> moves st st'"
proof -
  have adv: "moves st (advanced st)" using assms by (rule moves_advanced)
  then have "held (advanced st)" by (rule moves_held)
  then obtain x st2 y st4
    where x: "scanHexDigits 2 0 0 (advanced st) = Inr (x, st2)" and "moves (advanced st) st2"
      and y: "scanHexDigits 4 0 0 (advanced st) = Inr (y, st4)" and "moves (advanced st) st4"
    using scanHexDigits_moves by metis
  with adv have "moves st st2" "moves st st4" using moves_trans by blast+
  then show ?thesis using adv
    by (cases x; cases y) (auto simp: scanEscape_def scanUnicode_def scanHexByte_def Let_def x y)
qed

lemma scanStringLoop_moves:
  "held st \<Longrightarrow> \<exists>b st'. scanStringLoop q st = Inr (b, st') \<and> moves st st' \<and>
     (b \<longrightarrow> sc_char st' \<noteq> q \<longrightarrow> unread st' = [] \<or> isUnicodeLinebreak st')"
proof (induction q st rule: scanStringLoop.induct)
  case (1 q st)
  show ?case
  proof (cases "sc_char st \<noteq> q \<and> \<not> isSourcePastEndOfInput st \<and> \<not> isUnicodeLinebreak st")
    case False
    then show ?thesis using 1(3) by (subst scanStringLoop.simps) (auto simp: moves_refl past_end)
  next
    case True
    have adv: "moves st (advanced st)" using 1(3) by (rule moves_advanced)
    then obtain b st' where esc: "scanEscape (advanced st) = Inr (b, st')" "moves st st'"
      using scanEscape_moves moves_held moves_trans by blast
    let ?loop = "\<lambda>st st'. \<exists>b st''. scanStringLoop q st' = Inr (b, st'') \<and> moves st st'' \<and>
      (b \<longrightarrow> sc_char st'' \<noteq> q \<longrightarrow> unread st'' = [] \<or> isUnicodeLinebreak st'')"
    have escaped: "?loop st st'" if "sc_char st = CHR 0x5C" "\<not> isSourcePastEndOfInput (advanced st)" b
    proof -
      have "scanEscape (advanced st) = Inr (True, st')" using esc(1) that(3) by simp
      from 1(1) [OF True refl refl that(1,2) this refl refl moves_held [OF esc(2)]] moves_trans [OF esc(2)]
      show ?thesis by blast
    qed
    have plain: "?loop st (addLiteralChar (sc_char st) (advanced st))" if "sc_char st \<noteq> CHR 0x5C"
    proof -
      have "held (addLiteralChar (sc_char st) (advanced st))" using moves_held [OF adv] by simp
      from 1(2) [OF True refl refl that this] moves_trans [OF adv] show ?thesis by (simp, blast)
    qed
    show ?thesis
      using True esc adv escaped plain
      by (subst (1) scanStringLoop.simps) (auto simp: Let_def split: bool.splits)
  qed
qed

lemma scanHexStringLoop_moves:
  "held st \<Longrightarrow> \<exists>b st'. scanHexStringLoop q st = Inr (b, st') \<and> moves st st'"
proof (induction q st rule: scanHexStringLoop.induct)
  case (1 q st)
  obtain x st' where hex: "scanHexDigits 2 0 0 st = Inr (x, st')" "moves st st'"
    using scanHexDigits_moves [OF 1(2)] by blast
  show ?case
    using 1 hex moves_held [OF hex(2)] moves_trans [OF hex(2)]
    by (subst scanHexStringLoop.simps) (fastforce simp: scanHexByte_def moves_refl split: option.splits)
qed

lemma scanString_moves:
  assumes "held st"
  shows "\<exists>tok st'. scanString st = Inr (tok, st') \<and> moves (advanced st) st' \<and> (tok = T_Illegal \<or> tok = T_StringLiteral)"
proof -
  have "held (clearLiteral (advanced st))" using moves_held [OF moves_advanced [OF assms]] by simp
  from scanStringLoop_moves [OF this] obtain b st'
    where "scanStringLoop (sc_char st) (clearLiteral (advanced st)) = Inr (b, st')" "moves (advanced st) st'"
    by fastforce
  then show ?thesis
    using moves_trans [OF _ moves_advanced [OF moves_held]] by (simp add: scanString_def Let_def)
qed

lemma scanHexString_moves:
  assumes "held st"
  shows "\<exists>tok st'. scanHexString st = Inr (tok, st') \<and> moves (advanced st) st' \<and> (tok = T_Illegal \<or> tok = T_StringLiteral)"
proof -
  have "held (clearLiteral (advanced st))" using moves_held [OF moves_advanced [OF assms]] by simp
  from scanHexStringLoop_moves [OF this] obtain b st'
    where "scanHexStringLoop (sc_char st) (clearLiteral (advanced st)) = Inr (b, st')" "moves (advanced st) st'"
    by fastforce
  then show ?thesis
    using moves_trans [OF _ moves_advanced [OF moves_held]] by (simp add: scanHexString_def Let_def)
qed

section \<open>Numbers\<close>

text \<open>
  The parts of a number as the scanner reads them: \<open>step\<close> records what it reads; \<open>None\<close> and \<open>False\<close>
  leave the rest to the caller, which drops the literal.
\<close>

definition recorded :: "Scanner \<Rightarrow> Scanner \<Rightarrow> bool" where
  "recorded st st' \<longleftrightarrow> (\<exists>w. records w st st')"

lemma recorded_refl: "held st \<Longrightarrow> recorded st st"
  unfolding recorded_def using records_nil by blast

lemma recorded_trans: "recorded st st1 \<Longrightarrow> recorded st1 st2 \<Longrightarrow> recorded st st2"
  unfolding recorded_def using records_trans by blast

lemma recorded_held: "recorded st st' \<Longrightarrow> held st'"
  by (auto simp: recorded_def records_def)

lemma recorded_one: "held st \<Longrightarrow> sc_char st \<noteq> CHR 0x00 \<Longrightarrow> recorded st (addLiteralCharAndAdvance st)"
  unfolding recorded_def using records_one by blast

lemma recorded_digits:
  "held st \<Longrightarrow> recorded st (scanDecimalDigits st)" "held st \<Longrightarrow> recorded st (scanHexNumberDigits st)"
  unfolding recorded_def using decimal.loop_records hexadecimal.loop_records by blast+

lemma recorded_after:
  "recorded st st' \<Longrightarrow> sc_char st' \<noteq> CHR 0x00 \<Longrightarrow> recorded st (addLiteralCharAndAdvance st')"
  "recorded st st' \<Longrightarrow> recorded st (scanDecimalDigits st')" "recorded st st' \<Longrightarrow> recorded st (scanHexNumberDigits st')"
  using recorded_held recorded_one recorded_digits recorded_trans by blast+

definition numberStart :: "char \<Rightarrow> Scanner \<Rightarrow> Scanner" where
  "numberStart charSeen st =
     (if charSeen = CHR ''.'' then addLiteralChar CHR ''.'' st else addLiteralCharAndAdvance st)"

lemma numberStart_held: "held st \<Longrightarrow> held (numberStart charSeen st)"
  using held_advanced(1) [of "addLiteralChar (sc_char st) st"]
  by (simp add: numberStart_def addLiteralCharAndAdvance_def held_def)

lemma scanMantissa_records:
  assumes "held st" "charSeen = CHR 0x00 \<and> isDecimalDigit (sc_char st) \<or> charSeen = CHR ''.''"
  shows "\<exists>kind st'. scanMantissa charSeen st = Inr (kind, st') \<and> recorded (numberStart charSeen st) st' \<and>
    (kind = Some HEX \<longrightarrow> \<not> isHexDigit (sc_char st'))"
proof -
  obtain start where start: "numberStart charSeen st = start" by blast
  have r: "recorded start start" using recorded_refl numberStart_held [OF assms(1)] start by blast
  show ?thesis
  proof (cases "charSeen = CHR ''.''")
    case True
    then show ?thesis using r start by (simp add: scanMantissa_def numberStart_def recorded_after)
  next
    case False
    with assms(2) start have "charSeen = CHR 0x00" "isDecimalDigit (sc_char st)" "addLiteralCharAndAdvance st = start"
      by (auto simp: numberStart_def)
    moreover from this have "scanDecimalDigits st = scanDecimalDigits start" by (simp add: scanDecimalDigits.simps [of st])
    ultimately show ?thesis
      using r hexadecimal.loop_stops unfolding start by (simp add: scanMantissa_def Let_def recorded_after)
  qed
qed

lemma scanExponent_records:
  assumes "held st" "kind = HEX \<longrightarrow> \<not> isHexDigit (sc_char st)"
  shows "\<exists>b st'. scanExponent kind st = Inr (b, st') \<and> recorded st st'"
proof -
  have "isHexDigit CHR ''e''" "isHexDigit CHR ''E''"
    by (simp_all add: isHexDigit_def isDecimalDigit_def between_def)
  then show ?thesis
    using assms recorded_refl [OF assms(1)]
    by (auto simp: scanExponent_def Let_def intro!: recorded_after)
qed

lemma scanNumber_records:
  assumes "held st" "charSeen = CHR 0x00 \<and> isDecimalDigit (sc_char st) \<or> charSeen = CHR ''.''"
  defines "start \<equiv> numberStart charSeen (clearLiteral st)"
  shows "\<exists>tok st'. scanNumber charSeen st = Inr (tok, st') \<and> moves start st' \<and>
    (tok = T_Illegal \<or> tok = T_Number \<and> recorded start st' \<and> \<not> isIdentifierPart (sc_char st'))"
proof -
  have "held (clearLiteral st)" using assms by simp
  from scanMantissa_records [OF this, of charSeen] assms(2) obtain kind st1
    where m: "scanMantissa charSeen (clearLiteral st) = Inr (kind, st1)" "recorded start st1"
      "kind = Some HEX \<longrightarrow> \<not> isHexDigit (sc_char st1)" by (auto simp: start_def)
  have moves: "recorded start st' \<Longrightarrow> moves start st'" for st'
    by (auto simp: recorded_def dest!: records_moves)
  show ?thesis
  proof (cases kind)
    case None
    then show ?thesis using m moves [OF m(2)] by (simp add: scanNumber_def)
  next
    case (Some k)
    with scanExponent_records [OF recorded_held [OF m(2)], of k] m(3) obtain b st2
      where e: "scanExponent k st1 = Inr (b, st2)" "recorded st1 st2" by auto
    have "recorded start st2" using recorded_trans [OF m(2) e(2)] .
    then show ?thesis
      using Some m e moves by (auto simp: scanNumber_def isIdentifierPart_def)
  qed
qed

section \<open>The text of a token\<close>

definition covered :: "Scanner \<Rightarrow> Scanner \<Rightarrow> string" where
  "covered st st' = take (position st' - position st) (unread st)"

definition reads :: "string \<Rightarrow> Scanner \<Rightarrow> Scanner \<Rightarrow> bool" where
  "reads w st st' \<longleftrightarrow> moves st st' \<and> unread st = w @ unread st'"

lemma reads_position: "reads w st st' \<Longrightarrow> position st' = position st + length w"
proof -
  assume r: "reads w st st'"
  then have "length (unread st) = length w + length (unread st')"
    "position st \<le> position st'" "position st' \<le> length (cs_source (sc_source st))"
    "cs_source (sc_source st') = cs_source (sc_source st)"
    by (auto simp: reads_def moves_def forward_def held_def)
  then show ?thesis by (auto simp: unread_def)
qed

lemma reads_covered: "reads w st st' \<Longrightarrow> covered st st' = w"
proof -
  assume r: "reads w st st'"
  note reads_position [OF this]
  then show ?thesis using r by (simp add: covered_def reads_def)
qed

lemma moves_reads: "held st \<Longrightarrow> moves st st' \<Longrightarrow> reads (covered st st') st st'"
  by (auto simp: reads_def moves_def forward_def covered_def unread_def held_def)
    (metis append_take_drop_id drop_drop le_add_diff_inverse2)

lemma reads_trans: "reads v st st1 \<Longrightarrow> reads w st1 st2 \<Longrightarrow> reads (v @ w) st st2"
  by (auto simp: reads_def intro: moves_trans)

lemma records_reads: "records w st st' \<Longrightarrow> reads w st st'"
  by (auto simp: reads_def records_def moves_def)

lemma reads_next: "held st \<Longrightarrow> unread st \<noteq> [] \<Longrightarrow> reads [sc_char st] st (advanced st)"
  using held_advanced(2) [of st] moves_advanced [of st]
  by (cases "unread st") (simp_all add: reads_def held_def)

lemma reads_one: "held st \<Longrightarrow> sc_char st \<noteq> CHR 0x00 \<Longrightarrow> reads [sc_char st] st (advanced st)"
  using reads_next held_nonempty by (metis list.distinct(1))

lemma reads_snoc:
  "reads w st st' \<Longrightarrow> sc_char st' = c \<Longrightarrow> c \<noteq> CHR 0x00 \<Longrightarrow> reads (w @ [c]) st (advanced st')"
  using reads_trans reads_one moves_held by (metis reads_def)

lemma reads_buffers [simp]:
  "reads w st (addLiteralChar c st') = reads w st st'" "reads w st (clearLiteral st') = reads w st st'"
  "reads w (addLiteralChar c st) st' = reads w st st'" "reads w (clearLiteral st) st' = reads w st st'"
  by (simp_all add: reads_def)

text \<open>Every keyword's token prints as the keyword, and is none of the tokens the scanner makes itself.\<close>

lemma keyword_table:
  "list_all (\<lambda>(name, tok). token_toString tok = Inr (Some name) \<and>
     tok \<notin> {T_EOS, T_Whitespace, T_Illegal, T_Number, T_StringLiteral, T_CommentLiteral} \<and> tok \<noteq> T_Identifier)
   (keywordsFrom 0 tokenList)"
  by code_simp

lemma keywordByName_text:
  "keywordByName name = T_Identifier \<or> token_toString (keywordByName name) = Inr (Some name) \<and>
     keywordByName name \<notin> {T_EOS, T_Whitespace, T_Illegal, T_Number, T_StringLiteral, T_CommentLiteral}"
  using keyword_table by (auto simp: keywordByName_def list_all_iff split: option.splits dest!: map_of_SomeD)

lemma fromIdentifier_text:
  assumes "fromIdentifierOrKeyword lexical_cast w = (tok, m, n)"
  shows "tok \<in> {T_Identifier, T_BytesM, T_UIntM, T_IntM, T_UFixedMxN, T_FixedMxN} \<or>
    token_toString tok = Inr (Some w) \<and>
    tok \<notin> {T_EOS, T_Whitespace, T_Illegal, T_Number, T_StringLiteral, T_CommentLiteral}"
proof (cases "dropWhile (\<lambda>c. \<not> isdigit c) w = []")
  case True
  then show ?thesis using assms keywordByName_text [of w] by (auto simp: fromIdentifierOrKeyword_def Let_def)
next
  case False
  then show ?thesis
    using assms sizedTypeToken_cases unfolding fromIdentifierOrKeyword_def Let_def sizedType_def by fastforce
qed

text \<open>The spelling of a token: the characters it covers, and its literal.\<close>

definition quotedText :: "string \<Rightarrow> bool" where
  "quotedText w \<longleftrightarrow> 2 \<le> length w \<and> (hd w = CHR 0x22 \<or> hd w = CHR 0x27) \<and> last w = hd w"

definition spelled :: "(string \<Rightarrow> int option) \<Rightarrow> Token \<Rightarrow> string \<Rightarrow> string \<Rightarrow> bool" where
  "spelled lexical_cast tok w lit \<longleftrightarrow>
     tok = T_Illegal \<or>
     tok = T_StringLiteral \<and> (quotedText w \<or> take 3 w = ''hex'' \<and> quotedText (drop 3 w)) \<or>
     tok = T_Number \<and> lit = w \<and> w \<noteq> [] \<and> (isDecimalDigit (hd w) \<or> hd w = CHR ''.'') \<or>
     w \<noteq> [] \<and> isIdentifierStart (hd w) \<and> list_all isIdentifierPart w \<and> lit = w \<and>
       tok = fst (fromIdentifierOrKeyword lexical_cast w) \<or>
     token_toString tok = Inr (Some w)"

lemma quotedTextI: "q = CHR 0x22 \<or> q = CHR 0x27 \<Longrightarrow> quotedText (q # v @ [q])"
  by (auto simp: quotedText_def)

lemma operator_strings:
  "map token_toString [T_LessThan, T_LessThanOrEqual, T_SHL, T_AssignShl, T_GreaterThan, T_GreaterThanOrEqual, T_SAR,
     T_AssignSar, T_SHR, T_AssignShr, T_Assign, T_Equal, T_Arrow, T_Not, T_NotEqual, T_Add, T_Inc, T_AssignAdd, T_Sub,
     T_Dec, T_AssignSub, T_Mul, T_Exp, T_AssignMul, T_Mod, T_AssignMod, T_BitAnd, T_And, T_AssignBitAnd, T_BitOr, T_Or,
     T_AssignBitOr, T_BitXor, T_AssignBitXor] =
   map (\<lambda>s. Inr (Some s)) [''<'', ''<='', ''<<'', ''<<='', ''>'', ''>='', ''>>'', ''>>='', ''>>>'', ''>>>='', ''='',
     ''=='', ''=>'', ''!'', ''!='', ''+'', ''++'', ''+='', ''-'', ''--'', ''-='', ''*'', ''**'', ''*='', ''%'', ''%='',
     ''&'', ''&&'', ''&='', ''|'', ''||'', ''|='', ''^'', ''^='']"
  "map token_toString [T_Colon, T_Semicolon, T_Comma, T_LParen, T_RParen, T_LBrack, T_RBrack, T_LBrace, T_RBrace,
     T_Conditional, T_BitNot, T_Period, T_Div, T_AssignDiv] =
   map (\<lambda>s. Inr (Some s)) ['':'', '';'', '','', ''('', '')'', ''['', '']'', ''{'', ''}'', ''?'', ''~'', ''.'', ''/'', ''/='']"
  by code_simp+

lemmas operator_string = operator_strings [simplified]

definition prints :: "Scanner \<Rightarrow> Token \<times> Scanner \<Rightarrow> bool" where
  "prints st r \<longleftrightarrow> (\<exists>w. reads w st (snd r) \<and> w \<noteq> [] \<and> token_toString (fst r) = Inr (Some w)) \<and>
     fst r \<noteq> T_EOS \<and> fst r \<noteq> T_Whitespace"

definition operator :: "Token \<Rightarrow> string \<Rightarrow> bool" where
  "operator tok w \<longleftrightarrow> token_toString tok = Inr (Some w) \<and> w \<noteq> [] \<and> CHR 0x00 \<notin> set w \<and> tok \<noteq> T_EOS \<and> tok \<noteq> T_Whitespace"

lemma prints_alone:
  "held st \<Longrightarrow> operator tok [sc_char st] \<Longrightarrow> prints st (tok, advanced st)"
  using reads_one [of st] by (auto simp: prints_def operator_def)

lemma prints_two:
  "held st \<Longrightarrow> operator tok [sc_char st, sc_char (advanced st)] \<Longrightarrow> prints st (tok, advanced (advanced st))"
  using reads_snoc [OF reads_one refl, of st] by (auto simp: prints_def operator_def)

lemma prints_three:
  "held st \<Longrightarrow> operator tok [sc_char st, sc_char (advanced st), sc_char (advanced (advanced st))] \<Longrightarrow>
   prints st (tok, advanced (advanced (advanced st)))"
  using reads_snoc [OF reads_snoc [OF reads_one refl] refl, of st] by (auto simp: prints_def operator_def)

lemma prints_four:
  "held st \<Longrightarrow> operator tok [sc_char st, sc_char (advanced st), sc_char (advanced (advanced st)),
     sc_char (advanced (advanced (advanced st)))] \<Longrightarrow>
   prints st (tok, advanced (advanced (advanced (advanced st))))"
  using reads_snoc [OF reads_snoc [OF reads_snoc [OF reads_one refl] refl] refl, of st]
  by (auto simp: prints_def operator_def)

lemma prints_select: "held st \<Longrightarrow> operator tok [sc_char st] \<Longrightarrow> prints st (selectToken tok st)"
  using prints_alone by (simp add: selectToken_def)

lemma prints_if:
  "held st \<Longrightarrow> operator thn [sc_char st, d] \<Longrightarrow> operator els [sc_char st] \<Longrightarrow> prints st (selectTokenIf d thn els st)"
  using prints_alone [of st els] prints_two [of st thn] by (simp add: selectTokenIf_def selectToken_def Let_def)

lemma prints_oneOf:
  assumes "held st" "operator alone [sc_char st]" "list_all (\<lambda>(d, tok). operator tok [sc_char st, d]) choices"
  shows "prints st (scanOneOf choices alone st)"
  using prints_alone [OF assms(1,2)] prints_two [OF assms(1)] assms(3)
  by (auto simp: scanOneOf_def selectToken_def Let_def list_all_iff split: option.splits dest!: map_of_SomeD)

lemma prints_less: "held st \<Longrightarrow> sc_char st = CHR ''<'' \<Longrightarrow> prints st (scanLess st)"
  using prints_alone [of st T_LessThan] prints_two [of st T_SHL] prints_two [of st T_LessThanOrEqual]
    prints_three [of st T_AssignShl]
  by (simp add: scanLess_def selectTokenIf_def selectToken_def Let_def operator_def operator_string)

lemma prints_greater: "held st \<Longrightarrow> sc_char st = CHR ''>'' \<Longrightarrow> prints st (scanGreater st)"
  using prints_alone [of st T_GreaterThan] prints_two [of st T_SAR] prints_two [of st T_GreaterThanOrEqual]
    prints_three [of st T_SHR] prints_three [of st T_AssignSar] prints_four [of st T_AssignShr]
  by (simp add: scanGreater_def selectTokenIf_def selectToken_def Let_def operator_def operator_string)

lemma scanOperator_prints: "held st \<Longrightarrow> scanOperator st = Some r \<Longrightarrow> prints st r"
  unfolding scanOperator_def Let_def
  by (simp split: if_splits)
    (auto intro!: prints_select prints_if prints_oneOf prints_less prints_greater simp: operator_def operator_string)

section \<open>A round of the loop of \<open>scanToken\<close>\<close>

lemma scanIdentifier_reads:
  assumes "held st" "isIdentifierStart (sc_char st)"
  shows "\<exists>w st'. scanIdentifierOrKeyword lexical_cast st = Inr (fromIdentifierOrKeyword lexical_cast w, st') \<and>
    reads w st st' \<and> scannedLiteral st' = w \<and> w \<noteq> [] \<and> isIdentifierStart (hd w) \<and> list_all isIdentifierPart w \<and>
    \<not> isIdentifierPart (sc_char st')"
proof -
  let ?st = "clearLiteral st" let ?c = "addLiteralCharAndAdvance ?st"
  have one: "records [sc_char st] ?st ?c"
    using records_one [of ?st] assms classes_nonzero(4) by simp
  then have "held ?c" by (simp add: records_def)
  note all = records_trans [OF one ident.loop_records [OF this]]
  let ?w = "[sc_char st] @ takeWhile isIdentifierPart (unread ?c)"
  have "list_all isIdentifierPart ?w" using assms(2) by (auto simp: list_all_iff isIdentifierPart_def dest: set_takeWhileD)
  moreover have "scannedLiteral (scanIdentifierParts ?c) = ?w" using all by (simp add: records_def)
  ultimately show ?thesis
    using assms(2) records_reads [OF all] ident.loop_stops
    by (auto simp: scanIdentifierOrKeyword_def Let_def scannedLiteral_def intro!: exI [of _ "?w"])
qed

text \<open>What a round that does not only skip gives: the token, and how it moved.\<close>

definition scans :: "(string \<Rightarrow> int option) \<Rightarrow> Scanner \<Rightarrow> Token \<Rightarrow> Scanner \<Rightarrow> bool" where
  "scans lexical_cast st tok st' \<longleftrightarrow>
     (\<exists>w. reads w st st' \<and> w \<noteq> [] \<and> tok \<noteq> T_EOS \<and> spelled lexical_cast tok w (scannedLiteral st'))"

lemma scansI:
  assumes "reads v st st1" "v \<noteq> []" "moves st1 st'" "tok \<noteq> T_EOS"
    "\<And>u. reads u st1 st' \<Longrightarrow> spelled lexical_cast tok (v @ u) (scannedLiteral st')"
  shows "scans lexical_cast st tok st'"
proof -
  have "reads (covered st1 st') st1 st'" using moves_reads assms(1,3) moves_held by (metis reads_def)
  then show ?thesis unfolding scans_def using assms(2,4,5) reads_trans [OF assms(1)] by blast
qed

lemma scanString_closed:
  assumes "held st" "scanString st = Inr (T_StringLiteral, st')" "sc_char st \<noteq> CHR 0x00"
  shows "\<exists>v. reads (sc_char st # v @ [sc_char st]) st st'"
proof -
  have "held (clearLiteral (advanced st))" using moves_held [OF moves_advanced [OF assms(1)]] by simp
  from scanStringLoop_moves [OF this, of "sc_char st"] obtain st1
    where st1: "moves (advanced st) st1" "sc_char st1 = sc_char st" "st' = advanced st1"
    using assms(2) by (auto simp: scanString_def Let_def split: if_splits)
  have "reads (covered (advanced st) st1) (advanced st) st1"
    using moves_reads [OF moves_held [OF moves_advanced [OF assms(1)]] st1(1)] .
  from reads_snoc [OF reads_trans [OF reads_one [OF assms(1,3)] this] st1(2) assms(3)] st1(3) show ?thesis by auto
qed

lemma scanHexString_closed:
  assumes "held st" "scanHexString st = Inr (T_StringLiteral, st')" "sc_char st \<noteq> CHR 0x00"
  shows "\<exists>v. reads (sc_char st # v @ [sc_char st]) st st'"
proof -
  have "held (clearLiteral (advanced st))" using moves_held [OF moves_advanced [OF assms(1)]] by simp
  from scanHexStringLoop_moves [OF this, of "sc_char st"] obtain st1
    where st1: "moves (advanced st) st1" "sc_char st1 = sc_char st" "st' = advanced st1"
    using assms(2) by (auto simp: scanHexString_def Let_def split: if_splits)
  have "reads (covered (advanced st) st1) (advanced st) st1"
    using moves_reads [OF moves_held [OF moves_advanced [OF assms(1)]] st1(1)] .
  from reads_snoc [OF reads_trans [OF reads_one [OF assms(1,3)] this] st1(2) assms(3)] st1(3) show ?thesis by auto
qed

lemma scanWord_scans:
  assumes "held st" "isIdentifierStart (sc_char st)"
  shows "\<exists>tok info st'. scanWord lexical_cast st = Inr (tok, info, st') \<and> scans lexical_cast st tok st' \<and> tok \<noteq> T_Whitespace"
proof -
  obtain w st1 where w: "scanIdentifierOrKeyword lexical_cast st = Inr (fromIdentifierOrKeyword lexical_cast w, st1)"
      "reads w st st1" "scannedLiteral st1 = w" "w \<noteq> []" "isIdentifierStart (hd w)" "list_all isIdentifierPart w"
    using scanIdentifier_reads [OF assms] by blast
  obtain tok m n where tok: "fromIdentifierOrKeyword lexical_cast w = (tok, m, n)" by (cases "fromIdentifierOrKeyword lexical_cast w")
  note spelling = fromIdentifier_text [OF tok]
  have h1: "held st1" using w(2) moves_held by (auto simp: reads_def)
  have illegal: "scans lexical_cast st T_Illegal st'" if "moves st1 st'" for st'
    by (rule scansI [OF w(2,4) that]) (simp_all add: spelled_def)
  show ?thesis
  proof (cases "tok = T_Hex")
    case False
    have "spelled lexical_cast tok w (scannedLiteral st1)" using w tok by (simp add: spelled_def)
    then show ?thesis using False w tok spelling by (auto simp: scanWord_def scans_def)
  next
    case True
    then have hex: "w = ''hex''" using spelling by (auto simp: token_toString_def token_row_def tokenList_def NUM_TOKENS_def)
    show ?thesis
    proof (cases "sc_char st1 = CHR 0x22 \<or> sc_char st1 = CHR 0x27")
      case False
      then show ?thesis using True w tok illegal [OF moves_refl [OF h1]] by (simp add: scanWord_def)
    next
      case quote: True
      then have char: "sc_char st1 \<noteq> CHR 0x00" by auto
      obtain t st' where t: "scanHexString st1 = Inr (t, st')" "moves (advanced st1) st'" "t = T_Illegal \<or> t = T_StringLiteral"
        using scanHexString_moves [OF h1] by blast
      have m: "moves st1 st'" using moves_trans [OF moves_advanced [OF h1] t(2)] .
      have "scans lexical_cast st t st'" if str: "t = T_StringLiteral"
      proof -
        obtain v where v: "reads (sc_char st1 # v @ [sc_char st1]) st1 st'"
          using scanHexString_closed [OF h1 _ char] t(1) str by blast
        have "quotedText (sc_char st1 # v @ [sc_char st1])" using quotedTextI quote by blast
        with reads_trans [OF w(2) v] str hex show ?thesis by (auto simp: scans_def spelled_def)
      qed
      then show ?thesis using True w tok quote t illegal [OF m] by (auto simp: scanWord_def)
    qed
  qed
qed

lemma multiLineLoop_token:
  "multiLineLoop st = (tok, st') \<Longrightarrow> tok = T_Whitespace \<or> tok = T_Illegal \<and> isSourcePastEndOfInput st'"
proof (induction st rule: multiLineLoop.induct)
  case (1 st)
  then show ?case by (subst (asm) (2) multiLineLoop.simps) (auto simp: Let_def split: if_splits)
qed

lemma multiLineLoop_illegal: "multiLineLoop st = (T_Illegal, st') \<Longrightarrow> isSourcePastEndOfInput st'"
  using multiLineLoop_token by fastforce

lemma multiLineDocLoop_unclosed: "multiLineDocLoop b st = (False, st') \<Longrightarrow> isSourcePastEndOfInput st'"
proof (induction b st rule: multiLineDocLoop.induct)
  case (1 b st)
  then show ?case by (subst (asm) (2) multiLineDocLoop.simps) (auto split: if_splits prod.splits bool.splits)
qed

lemma scansI_moved:
  "held st \<Longrightarrow> sc_char st \<noteq> CHR 0x00 \<Longrightarrow> moves (advanced st) st' \<Longrightarrow> scans lexical_cast st T_Illegal st'"
  by (rule scansI [OF reads_one]) (simp_all add: spelled_def)

lemma scansI_string:
  "reads w st st' \<Longrightarrow> w \<noteq> [] \<Longrightarrow> token_toString tok = Inr (Some w) \<Longrightarrow> tok \<noteq> T_EOS \<Longrightarrow> scans lexical_cast st tok st'"
  by (auto simp: scans_def spelled_def)

lemma scanString_scans:
  assumes "held st" "sc_char st = CHR 0x22 \<or> sc_char st = CHR 0x27"
  shows "\<exists>tok st'. scanString st = Inr (tok, st') \<and> scans lexical_cast st tok st' \<and> tok \<noteq> T_Whitespace"
proof -
  have char: "sc_char st \<noteq> CHR 0x00" using assms(2) by auto
  obtain tok st' where t: "scanString st = Inr (tok, st')" "moves (advanced st) st'" "tok = T_Illegal \<or> tok = T_StringLiteral"
    using scanString_moves [OF assms(1)] by blast
  have "scans lexical_cast st tok st'" if str: "tok = T_StringLiteral"
  proof -
    obtain v where v: "reads (sc_char st # v @ [sc_char st]) st st'"
      using scanString_closed [OF assms(1) _ char] t(1) str by blast
    then show ?thesis using str quotedTextI [of "sc_char st" v] assms(2) by (auto simp: scans_def spelled_def)
  qed
  then show ?thesis using t scansI_moved [OF assms(1) char t(2)] by auto
qed

lemma scanNumber_scans:
  assumes "held st" "isDecimalDigit (sc_char st)"
  shows "\<exists>tok st'. scanNumber CHR 0x00 st = Inr (tok, st') \<and> scans lexical_cast st tok st' \<and> tok \<noteq> T_Whitespace"
proof -
  let ?start = "numberStart CHR 0x00 (clearLiteral st)"
  have char: "sc_char st \<noteq> CHR 0x00" using assms(2) classes_nonzero by blast
  have start: "moves (advanced st) st' = moves ?start st'" for st'
    by (simp add: numberStart_def addLiteralCharAndAdvance_def moves_def forward_def same_tokens_def stream_defs
        addLiteralChar_def clearLiteral_def)
  have one: "records [sc_char st] (clearLiteral st) ?start"
    using records_one [of "clearLiteral st"] assms(1) char by (simp add: numberStart_def)
  obtain tok st' where t: "scanNumber CHR 0x00 st = Inr (tok, st')" "moves ?start st'"
      "tok = T_Illegal \<or> tok = T_Number \<and> recorded ?start st'"
    using scanNumber_records [OF assms(1), of "CHR 0x00"] assms(2) by blast
  have "scans lexical_cast st tok st'" if num: "tok = T_Number" "recorded ?start st'"
  proof -
    obtain w where "records w ?start st'" using num(2) by (auto simp: recorded_def)
    note all = records_trans [OF one this]
    then have "scannedLiteral st' = [sc_char st] @ w" by (simp add: records_def)
    then show ?thesis using records_reads [OF all] num assms(2) by (auto simp: scans_def spelled_def)
  qed
  then show ?thesis using t scansI_moved [OF assms(1) char] start by auto
qed

lemma scanPeriod_scans:
  assumes "held st" "sc_char st = CHR ''.''" "isDecimalDigit (sc_char (advanced st))"
  shows "\<exists>tok st'. scanNumber CHR ''.'' (advanced st) = Inr (tok, st') \<and> scans lexical_cast st tok st' \<and> tok \<noteq> T_Whitespace"
proof -
  let ?start = "numberStart CHR ''.'' (clearLiteral (advanced st))"
  have adv: "held (advanced st)" using moves_held [OF moves_advanced [OF assms(1)]] .
  obtain tok st' where t: "scanNumber CHR ''.'' (advanced st) = Inr (tok, st')" "moves ?start st'"
      "tok = T_Illegal \<or> tok = T_Number \<and> recorded ?start st'"
    using scanNumber_records [OF adv, of "CHR ''.''"] by blast
  have "scans lexical_cast st tok st'" if num: "tok = T_Number" "recorded ?start st'"
  proof -
    obtain w where w: "records w ?start st'" using num(2) by (auto simp: recorded_def)
    then have "scannedLiteral st' = ''.'' @ w" "reads w (advanced st) st'"
      using records_reads [OF w] by (simp_all add: records_def numberStart_def)
    with reads_trans [OF reads_one [OF assms(1)]] assms(2) num show ?thesis
      by (fastforce simp: scans_def spelled_def)
  qed
  then show ?thesis using t scansI_moved [OF assms(1)] assms(2) by (auto simp: numberStart_def)
qed

lemma scanSlash_scans:
  assumes "held st" "sc_char st = CHR ''/''" "scanSlash st = (tok, st')" "tok \<noteq> T_Whitespace"
  shows "scans lexical_cast st tok st'"
proof -
  have adv: "held (advanced st)" using moves_held [OF moves_advanced [OF assms(1)]] .
  have walk: "forward (advanced st) st'" "loose st'" "same_tokens (advanced st) st'"
    using walk.scanSlash [of st] assms(3) held_loose [OF adv] by (simp_all add: walks_def)
  note one = reads_one [OF assms(1)]
  show ?thesis
  proof (cases "tok = T_Illegal")
    case True
    then have "isSourcePastEndOfInput st'"
      using assms(3)
      by (auto simp: scanSlash_def Let_def selectToken_def skipSingleLineComment_def scanMultiLineDocComment_def
          skipMultiLineComment_def advance_def isSourcePastEndOfInput_def setCommentEnd_def
          split: if_splits prod.splits bool.splits dest: multiLineLoop_illegal multiLineDocLoop_unclosed)
    then have "held st'" using walk(2) by (simp add: past_end loose_def)
    then show ?thesis using scansI_moved [OF assms(1), of st'] assms(2) walk True by (simp add: moves_def)
  next
    case False
    with assms(3,4) consider "tok = T_Div" "st' = advanced st"
      | "tok = T_AssignDiv" "sc_char (advanced st) = CHR ''=''" "st' = advanced (advanced st)"
      by (auto simp: scanSlash_def Let_def selectToken_def skipSingleLineComment_def scanMultiLineDocComment_def
          skipMultiLineComment_def split: if_splits prod.splits bool.splits dest: multiLineLoop_token)
    then show ?thesis
      by cases (use one reads_snoc [OF one] assms(2) operator_string in \<open>auto intro!: scansI_string\<close>)
  qed
qed

text \<open>An \<open>int\<close> holds the positions of a source of less than \<open>2 ^ 31\<close> characters.\<close>

definition small :: "Scanner \<Rightarrow> bool" where
  "small st \<longleftrightarrow> length (cs_source (sc_source st)) < 2 ^ 31"

lemma int_position_small: "p < 2 ^ 31 \<Longrightarrow> sint (word_of_nat p :: 32 word) = int p"
  by (simp add: signed_of_nat signed_take_bit_int_eq_self)

lemma sourcePos_small: "small st \<Longrightarrow> position st \<le> length (cs_source (sc_source st)) \<Longrightarrow> sourcePos st = int (position st)"
  by (simp add: small_def sourcePos_def cs_int_position_def int_position_small)

lemma skipSpaces_moved:
  assumes "loose st" "isWhiteSpace (sc_char st)"
  shows "position st < position (skipSpaces st)"
proof -
  have "unread st \<noteq> []" using assms by (cases "unread st") (auto simp: loose_def held_def isWhiteSpace_def)
  then have "position st < position (advanced st)" by (auto simp: unread_def stream_defs)
  also have "\<dots> \<le> position (skipSpaces (advanced st))"
    using spaces.loop_forward [of "advanced st"] by (simp add: forward_def)
  finally show ?thesis using assms(2) by (simp add: skipSpaces.simps [of st])
qed

lemma skipWhitespace_skips:
  assumes "loose st" "small st"
  shows "fst (skipWhitespace st) \<longleftrightarrow> isWhiteSpace (sc_char st)"
proof -
  have walk: "forward st (skipSpaces st)" "loose (skipSpaces st)"
    using walk.skipSpaces [of st] assms(1) by (simp_all add: walks_def)
  then have "sourcePos (skipSpaces st) = int (position (skipSpaces st))" "sourcePos st = int (position st)"
    using assms(2) sourcePos_small [of "skipSpaces st"] sourcePos_small [OF assms(2) loose_inside [OF assms(1)]]
      loose_inside [OF walk(2)] by (simp_all add: forward_def small_def)
  then show ?thesis
    using skipSpaces_moved [OF assms(1)] by (auto simp: skipWhitespace_def Let_def skipSpaces.simps [of st])
qed

definition skips :: "Scanner \<Rightarrow> Scanner \<Rightarrow> bool" where
  "skips st st' \<longleftrightarrow> forward st st' \<and> loose st' \<and> same_tokens st st' \<and> position st < position st'"

definition round_result :: "(string \<Rightarrow> int option) \<Rightarrow> Scanner \<Rightarrow> scanned res \<Rightarrow> bool" where
  "round_result lexical_cast st r \<longleftrightarrow>
     (\<exists>tok info st'. r = Inr (tok, info, st') \<and>
       (tok = T_Whitespace \<and> skips st st' \<or>
        tok \<noteq> T_Whitespace \<and> held st \<and> scans lexical_cast st tok st' \<or>
        tok = T_EOS \<and> held st \<and> unread st = [] \<and> st' = st))"

lemma skipWhitespace_round:
  assumes "loose st" "small st" "isWhiteSpace (sc_char st)"
  shows "round_result lexical_cast st (unsized (Inr (T_Whitespace, snd (skipWhitespace st))))"
  using walk.skipSpaces [of st] assms(1) skipSpaces_moved [OF assms(1,3)]
  by (simp add: round_result_def unsized_def skips_def walks_def skipWhitespace_def Let_def)

lemma scanOther_round:
  assumes "loose st" "small st"
  shows "round_result lexical_cast st (scanOther lexical_cast st)"
proof (cases "isWhiteSpace (sc_char st)")
  case True
  then have "\<not> isIdentifierStart (sc_char st)" "\<not> isDecimalDigit (sc_char st)"
    by (auto simp: isWhiteSpace_def isIdentifierStart_def isDecimalDigit_def between_def)
  then show ?thesis
    using skipWhitespace_round [OF assms True] skipWhitespace_skips [OF assms] True
    by (simp add: scanOther_def split_beta)
next
  case False
  then have held: "held st" using assms(1) by (auto simp: loose_def isWhiteSpace_def)
  have stay: "skipWhitespace st = (False, st)"
    using False by (simp add: skipWhitespace_def skipSpaces.simps [of st] Let_def)
  consider (word) "isIdentifierStart (sc_char st)" | (number) "\<not> isIdentifierStart (sc_char st)" "isDecimalDigit (sc_char st)"
    | (other) "\<not> isIdentifierStart (sc_char st)" "\<not> isDecimalDigit (sc_char st)" by blast
  then show ?thesis
  proof cases
    case word
    then show ?thesis using scanWord_scans [OF held word, of lexical_cast] held
      by (auto simp: scanOther_def round_result_def)
  next
    case number
    then show ?thesis using scanNumber_scans [OF held number(2), of lexical_cast] held
      by (auto simp: scanOther_def round_result_def unsized_def)
  next
    case other
    show ?thesis
    proof (cases "unread st = []")
      case True
      then show ?thesis using other stay held by (simp add: scanOther_def round_result_def unsized_def past_end)
    next
      case False
      have "scans lexical_cast st T_Illegal (advanced st)"
        using reads_next [OF held False] by (auto simp: scans_def spelled_def)
      then show ?thesis using other stay held False
        by (simp add: scanOther_def round_result_def unsized_def past_end selectToken_def)
    qed
  qed
qed

lemma setTokenStart_simps [simp]:
  "held (setTokenStart st) = held st" "loose (setTokenStart st) = loose st" "small (setTokenStart st) = small st"
  "sc_char (setTokenStart st) = sc_char st" "sc_source (setTokenStart st) = sc_source st"
  "sc_currentToken (setTokenStart st) = sc_currentToken st" "sc_skippedComment (setTokenStart st) = sc_skippedComment st"
  "loc_start (td_location (sc_nextToken (setTokenStart st))) = sourcePos st"
  by (simp_all add: setTokenStart_def held_def loose_def small_def unread_def)

lemma scanOnce_round:
  assumes "loose st" "small st"
  shows "round_result lexical_cast (setTokenStart st) (scanOnce lexical_cast st)"
proof -
  let ?st = "setTokenStart st"
  have other: "round_result lexical_cast ?st (scanOther lexical_cast ?st)"
    using scanOther_round assms by simp
  show ?thesis
  proof (cases "held ?st")
    case False
    then have "sc_char ?st = CHR '' ''" using assms(1) by (simp add: loose_def)
    then show ?thesis using other by (simp add: scanOnce_def Let_def scanOperator_def)
  next
    case held: True
    consider (quote) "sc_char ?st = CHR 0x22 \<or> sc_char ?st = CHR 0x27" | (slash) "sc_char ?st = CHR ''/''"
      | (period) "sc_char ?st = CHR ''.''"
      | (rest) "\<not> (sc_char ?st = CHR 0x22 \<or> sc_char ?st = CHR 0x27)" "sc_char ?st \<noteq> CHR ''/''" "sc_char ?st \<noteq> CHR ''.''"
      by blast
    then show ?thesis
    proof cases
      case quote
      then show ?thesis using scanString_scans [OF held quote, of lexical_cast] held
        by (auto simp: scanOnce_def Let_def round_result_def unsized_def)
    next
      case slash
      obtain tok st' where s: "scanSlash ?st = (tok, st')" by fastforce
      have "skips ?st st'" if "tok = T_Whitespace"
      proof -
        have char: "sc_char (advanced ?st) \<noteq> CHR 0x00"
          using s that by (auto simp: scanSlash_def Let_def selectToken_def split: if_splits)
        have "loose (advanced ?st)" using held_loose [OF moves_held [OF moves_advanced [OF held]]] .
        then have w: "forward (advanced ?st) st'" "loose st'" "same_tokens (advanced ?st) st'"
          using walk.scanSlash [of ?st] s by (simp_all add: walks_def)
        then show ?thesis using forward_past [OF w(1) char] forward_from_advanced by (simp add: skips_def)
      qed
      then show ?thesis using slash s held scanSlash_scans [OF held slash s, of lexical_cast]
        by (auto simp: scanOnce_def Let_def round_result_def unsized_def)
    next
      case period
      have "scans lexical_cast ?st T_Period (advanced ?st)"
        using scansI_string [OF reads_one [OF held]] period operator_string by simp
      then show ?thesis using period held scanPeriod_scans [OF held period, of lexical_cast]
        by (auto simp: scanOnce_def Let_def round_result_def unsized_def)
    next
      case rest
      show ?thesis
      proof (cases "scanOperator ?st")
        case None
        then show ?thesis using rest other by (auto simp: scanOnce_def Let_def)
      next
        case (Some r)
        from scanOperator_prints [OF held Some] have "scans lexical_cast ?st (fst r) (snd r)" "fst r \<noteq> T_Whitespace"
          by (auto simp: prints_def intro: scansI_string)
        then show ?thesis using Some rest held by (cases r) (auto simp: scanOnce_def Let_def round_result_def unsized_def)
      qed
    qed
  qed
qed

section \<open>The stream of tokens\<close>

definition same_streams :: "Scanner \<Rightarrow> Scanner \<Rightarrow> bool" where
  "same_streams st st' \<longleftrightarrow> cs_source (sc_source st') = cs_source (sc_source st) \<and>
     sc_currentToken st' = sc_currentToken st \<and> sc_skippedComment st' = sc_skippedComment st"

lemma scanRounds_scans:
  assumes "loose st" "small st"
  shows "\<exists>tok info st1 st'. scanRounds lexical_cast st = Inr (tok, info, st') \<and> same_streams st st1 \<and> held st1 \<and>
    position st \<le> position st1 \<and> loc_start (td_location (sc_nextToken st1)) = int (position st1) \<and>
    (tok = T_EOS \<and> unread st1 = [] \<and> st' = st1 \<or> scans lexical_cast st1 tok st')"
  using assms
proof (induction st rule: scanRounds.induct)
  case (1 lexical_cast st)
  let ?st = "setTokenStart st"
  obtain tok info st2 where once: "scanOnce lexical_cast st = Inr (tok, info, st2)"
      "tok = T_Whitespace \<and> skips ?st st2 \<or> tok \<noteq> T_Whitespace \<and> held ?st \<and> scans lexical_cast ?st tok st2 \<or>
       tok = T_EOS \<and> held ?st \<and> unread ?st = [] \<and> st2 = ?st"
    using scanOnce_round [OF 1(2,3), of lexical_cast] by (auto simp: round_result_def)
  have start: "same_streams st ?st" "loc_start (td_location (sc_nextToken ?st)) = int (position st)"
    using sourcePos_small [OF 1(3) loose_inside [OF 1(2)]] by (simp_all add: same_streams_def)
  show ?case
  proof (cases "tok = T_Whitespace")
    case True
    then have skip: "forward ?st st2" "loose st2" "same_tokens ?st st2" using once(2) by (auto simp: skips_def scans_def)
    then have "small st2" using 1(3) by (simp add: forward_def small_def)
    from 1(1) [OF once(1) refl refl True skip(2) this] obtain tok' info' st1 st'
      where "scanRounds lexical_cast st2 = Inr (tok', info', st')" "same_streams st2 st1" "held st1"
        "position st2 \<le> position st1" "loc_start (td_location (sc_nextToken st1)) = int (position st1)"
        "tok' = T_EOS \<and> unread st1 = [] \<and> st' = st1 \<or> scans lexical_cast st1 tok' st'" by blast
    then show ?thesis using once(1) True skip
      by (subst scanRounds.simps) (auto simp: same_streams_def forward_def same_tokens_def)
  next
    case False
    then show ?thesis using once start
      by (subst scanRounds.simps) (auto intro!: exI [of _ ?st])
  qed
qed

text \<open>A token with its place in the source.\<close>

definition sliceOf :: "string \<Rightarrow> SourceLocation \<Rightarrow> string" where
  "sliceOf src l = take (nat (loc_end l) - nat (loc_start l)) (drop (nat (loc_start l)) src)"

definition placed :: "(string \<Rightarrow> int option) \<Rightarrow> string \<Rightarrow> TokenDesc \<Rightarrow> bool" where
  "placed lexical_cast src t \<longleftrightarrow>
     (let l = td_location t
      in 0 \<le> loc_start l \<and> loc_end l \<le> int (length src) \<and>
         (if td_token t = T_EOS then loc_start l = int (length src) \<and> loc_end l = int (length src)
          else loc_start l < loc_end l \<and> spelled lexical_cast (td_token t) (sliceOf src l) (td_literal t)))"

lemma scans_placed:
  assumes "held st1" "scans lexical_cast st1 tok st'" "small st1"
    "loc_start (td_location (sc_nextToken st1)) = int (position st1)"
  shows "placed lexical_cast (cs_source (sc_source st1)) (sc_nextToken (setNextToken tok info st'))"
proof -
  obtain w where w: "reads w st1 st'" "w \<noteq> []" "tok \<noteq> T_EOS" "spelled lexical_cast tok w (scannedLiteral st')"
    using assms(2) by (auto simp: scans_def)
  have st': "position st' = position st1 + length w" "cs_source (sc_source st') = cs_source (sc_source st1)"
      "position st' \<le> length (cs_source (sc_source st1))" "same_tokens st1 st'"
    using w(1) reads_position [OF w(1)] by (auto simp: reads_def moves_def forward_def held_def)
  have "sourcePos st' = int (position st')"
    using sourcePos_small [of st'] st' assms(3) by (simp add: small_def)
  moreover have "take (length w) (drop (position st1) (cs_source (sc_source st1))) = w"
    using reads_covered [OF w(1)] st'(1) by (simp add: covered_def unread_def)
  ultimately show ?thesis
    using w st' assms(1,4)
    by (simp add: placed_def setNextToken_def Let_def sliceOf_def same_tokens_def scannedLiteral_def nat_add_distrib)
qed

lemma scanToken_places:
  assumes "loose st" "small st"
  shows "\<exists>st'. scanToken lexical_cast st = Inr st' \<and> same_streams st st' \<and> held st' \<and>
    placed lexical_cast (cs_source (sc_source st)) (sc_nextToken st') \<and>
    int (position st) \<le> loc_start (td_location (sc_nextToken st')) \<and>
    loc_end (td_location (sc_nextToken st')) = int (position st')"
proof -
  let ?st = "clearNextToken st"
  have "loose ?st" "small ?st" using assms by (simp_all add: clearNextToken_def loose_def held_def unread_def small_def)
  from scanRounds_scans [OF this] obtain tok info st1 st'
    where r: "scanRounds lexical_cast ?st = Inr (tok, info, st')" "same_streams ?st st1" "held st1"
      "position ?st \<le> position st1" "loc_start (td_location (sc_nextToken st1)) = int (position st1)"
      "tok = T_EOS \<and> unread st1 = [] \<and> st' = st1 \<or> scans lexical_cast st1 tok st'" by blast
  let ?st' = "setNextToken tok info st'"
  have small1: "small st1" using r(2) assms(2) by (simp add: small_def same_streams_def clearNextToken_def)
  have stream: "cs_source (sc_source st1) = cs_source (sc_source st)" "position ?st = position st"
    using r(2) by (simp_all add: same_streams_def clearNextToken_def)
  have m: "moves st1 st'" using r(3,6) moves_refl by (auto simp: scans_def reads_def)
  have pos: "sourcePos st' = int (position st')"
    using m small1 sourcePos_small [of st'] by (auto simp: moves_def held_def forward_def small_def)
  have inside: "position st' \<le> length (cs_source (sc_source st))" "cs_source (sc_source st') = cs_source (sc_source st)"
    using m stream by (auto simp: moves_def held_def forward_def)
  have "placed lexical_cast (cs_source (sc_source st1)) (sc_nextToken ?st')"
  proof (cases "tok = T_EOS")
    case True
    then have "unread st1 = []" "st' = st1" using r(6) by (auto simp: scans_def)
    then have "position st1 = length (cs_source (sc_source st1))" using r(3) by (simp add: held_def unread_def)
    then show ?thesis using True r(5) pos \<open>st' = st1\<close> by (simp add: placed_def setNextToken_def)
  next
    case False
    then show ?thesis using scans_placed [OF r(3) _ small1 r(5)] r(6) by simp
  qed
  then show ?thesis
    using r m pos stream inside
    by (simp add: scanToken_def same_streams_def moves_def forward_def same_tokens_def clearNextToken_def
        setNextToken_def held_def unread_def)
qed

definition scannerOk :: "(string \<Rightarrow> int option) \<Rightarrow> string \<Rightarrow> Scanner \<Rightarrow> bool" where
  "scannerOk lexical_cast src st \<longleftrightarrow>
     cs_source (sc_source st) = src \<and> small st \<and> held st \<and>
     placed lexical_cast src (sc_currentToken st) \<and> placed lexical_cast src (sc_nextToken st) \<and>
     loc_end (td_location (sc_currentToken st)) \<le> loc_start (td_location (sc_nextToken st)) \<and>
     loc_end (td_location (sc_nextToken st)) = int (position st)"

lemma scanner_next_ok:
  assumes "scannerOk lexical_cast src st"
  shows "\<exists>st'. scanner_next lexical_cast st = Inr (currentToken st', st') \<and> scannerOk lexical_cast src st' \<and>
    sc_currentToken st' = sc_nextToken st \<and> sc_skippedComment st' = sc_nextSkippedComment st"
proof -
  let ?st = "st\<lparr>sc_currentToken := sc_nextToken st, sc_skippedComment := sc_nextSkippedComment st\<rparr>"
  have "held ?st" "small ?st" using assms by (auto simp: scannerOk_def held_def unread_def small_def)
  then have "loose ?st" "small ?st" using held_loose by blast+
  from scanToken_places [OF this, of lexical_cast] assms show ?thesis
    by (auto simp: scanner_next_def scannerOk_def same_streams_def small_def)
qed

lemma scanner_reset_ok:
  assumes "length src < 2 ^ 31"
  shows "\<exists>st'. scanner_resetTo lexical_cast \<lparr>cs_source = src, cs_position = p\<rparr> name st = Inr st' \<and>
    scannerOk lexical_cast src st'"
proof -
  let ?s = "\<lparr>cs_source = src, cs_position = 0\<rparr>"
  let ?st = "st\<lparr>sc_sourceName := name, sc_source := ?s, sc_char := cs_get ?s 0\<rparr>"
  let ?st1 = "skipSpaces ?st"
  have "held ?st" by (cases src) (auto simp: held_def unread_def cs_get_def)
  then have "forward ?st ?st1" "loose ?st1" using walk.skipSpaces [of ?st] held_loose by (auto simp: walks_def)
  then have st1: "loose ?st1" "small ?st1" "cs_source (sc_source ?st1) = src" using assms by (auto simp: forward_def small_def)
  from scanToken_places [OF this(1,2), of lexical_cast] st1(3) obtain st2
    where st2: "scanToken lexical_cast ?st1 = Inr st2" "cs_source (sc_source st2) = src" "held st2"
      "placed lexical_cast src (sc_nextToken st2)" "loc_end (td_location (sc_nextToken st2)) = int (position st2)"
    by (auto simp: same_streams_def)
  let ?st2 = "st2\<lparr>sc_currentToken := sc_nextToken st2, sc_skippedComment := sc_nextSkippedComment st2\<rparr>"
  have "held ?st2" "small ?st2" using st2 assms by (auto simp: held_def unread_def small_def)
  then have "loose ?st2" "small ?st2" using held_loose by blast+
  from scanToken_places [OF this, of lexical_cast] st2 assms obtain st3
    where "scanToken lexical_cast ?st2 = Inr st3" "scannerOk lexical_cast src st3"
    by (auto simp: scannerOk_def same_streams_def small_def)
  then show ?thesis
    using st2(1)
    by (simp add: scanner_resetTo_def scanner_reset_def cs_reset_def skipWhitespace_def Let_def scanner_next_def)
qed

text \<open>The states after \<open>k\<close> calls of \<open>next\<close>.\<close>

primrec nexts :: "(string \<Rightarrow> int option) \<Rightarrow> nat \<Rightarrow> Scanner \<Rightarrow> Scanner res" where
  "nexts lexical_cast 0 st = Inr st"
| "nexts lexical_cast (Suc k) st = bindR (nexts lexical_cast k st) (\<lambda>st. bindR (scanner_next lexical_cast st) (\<lambda>(_, st). Inr st))"

lemma nexts_ok:
  assumes "scannerOk lexical_cast src st"
  shows "\<exists>st'. nexts lexical_cast k st = Inr st' \<and> scannerOk lexical_cast src st' \<and>
    (currentToken st' = T_EOS \<or> int k < loc_end (td_location (sc_currentToken st')))"
proof (induction k)
  case 0
  then show ?case using assms by (auto simp: scannerOk_def placed_def Let_def currentToken_def split: if_splits)
next
  case (Suc k)
  then obtain st1 where st1: "nexts lexical_cast k st = Inr st1" "scannerOk lexical_cast src st1"
      "currentToken st1 = T_EOS \<or> int k < loc_end (td_location (sc_currentToken st1))" by blast
  from scanner_next_ok [OF st1(2)] obtain st2
    where st2: "scanner_next lexical_cast st1 = Inr (currentToken st2, st2)" "scannerOk lexical_cast src st2"
      "sc_currentToken st2 = sc_nextToken st1" by blast
  have "currentToken st2 = T_EOS \<or> int (Suc k) < loc_end (td_location (sc_currentToken st2))"
    using st1(2,3) st2(3) by (auto simp: scannerOk_def placed_def Let_def currentToken_def split: if_splits)
  then show ?case using st1(1) st2(1,2) by simp
qed

lemma nexts_end:
  assumes "scannerOk lexical_cast src st" "length src \<le> k"
  shows "\<exists>st'. nexts lexical_cast k st = Inr st' \<and> currentToken st' = T_EOS"
  using nexts_ok [OF assms(1), of k] assms(2)
  by (auto simp: scannerOk_def placed_def Let_def currentToken_def split: if_splits)

section \<open>String literals read back\<close>

definition escapeDigit :: "nat \<Rightarrow> char" where
  "escapeDigit d = ''0123456789abcdef'' ! d"

definition plainChar :: "char \<Rightarrow> char \<Rightarrow> bool" where
  "plainChar q c \<longleftrightarrow> between CHR '' '' c CHR ''~'' \<and> c \<noteq> q \<and> c \<noteq> CHR 0x5C"

text \<open>A character inside a string literal with the quote \<open>q\<close>: itself, or its two hexadecimal digits after \<open>\x\<close>.\<close>

definition escapeChar :: "char \<Rightarrow> char \<Rightarrow> string" where
  "escapeChar q c =
     (if plainChar q c then [c]
      else [CHR 0x5C, CHR ''x'', escapeDigit (of_char c div 16), escapeDigit (of_char c mod 16)])"

lemma escapeDigit_checked: "list_all (\<lambda>d. isHexDigit (escapeDigit d) \<and> hexValue (escapeDigit d) = int d) [0..<16]"
  by code_simp

lemma escapeDigit_value: "d < 16 \<Longrightarrow> isHexDigit (escapeDigit d)" "d < 16 \<Longrightarrow> hexValue (escapeDigit d) = int d"
  using escapeDigit_checked by (auto simp: list_all_iff)

lemma get_first: "cs_get (sc_source st) 0 = first (unread st)"
  by (simp add: cs_get_def unread_def first_drop)

lemma ascii_no_linebreak:
  "held st \<Longrightarrow> between CHR '' '' (sc_char st) CHR ''~'' \<Longrightarrow> \<not> isUnicodeLinebreak st"
  by (auto simp: isUnicodeLinebreak_def Let_def get_first held_def between_def)

lemma unread_step: "held st \<Longrightarrow> unread st = c # w \<Longrightarrow> sc_char st = c \<and> held (advanced st) \<and> unread (advanced st) = w"
  using held_advanced [of st] by (auto simp: held_def)

lemma scanEscape_hex:
  assumes "held st" "unread st = CHR ''x'' # escapeDigit (of_char c div 16) # escapeDigit (of_char c mod 16) # w"
  shows "\<exists>st'. scanEscape st = Inr (True, addLiteralChar c st') \<and> held st' \<and> unread st' = w \<and> scannedLiteral st' = scannedLiteral st"
proof -
  have c: "(of_char c :: nat) < 256" by (metis of_char_mod_256 mod_less_divisor zero_less_numeral)
  let ?st = "advanced st" and ?h = "[escapeDigit (of_char c div 16), escapeDigit (of_char c mod 16)]"
  have st: "sc_char st = CHR ''x''" "held ?st" "unread ?st = ?h @ w" using unread_step [OF assms] by auto
  have "hexNumber 0 ?h = of_char c" using c escapeDigit_value(2) [of "of_char c div 16"] escapeDigit_value(2) [of "of_char c mod 16"]
    by (simp add: hexNumber_def less_mult_imp_div_less)
  moreover have "list_all isHexDigit ?h" using c escapeDigit_value(1) by (simp add: less_mult_imp_div_less)
  ultimately have "scanHexByte ?st = Inr (Some c, shifted 2 ?st)"
    using scanHexDigits_held [OF st(2), of 2] st(3) by (simp add: scanHexByte_def Let_def)
  then show ?thesis
    using shifted_held [OF st(2), of 2] st(1,3)
    by (intro exI [of _ "shifted 2 ?st"]) (simp add: scanEscape_def Let_def isLineTerminator_def)
qed

lemma scanStringLoop_escaped:
  assumes "held st" "unread st = concat (map (escapeChar q) s) @ q # w" "q = CHR 0x22 \<or> q = CHR 0x27"
  shows "\<exists>st'. scanStringLoop q st = Inr (True, st') \<and> held st' \<and> scannedLiteral st' = scannedLiteral st @ s \<and> unread st' = q # w"
  using assms(1,2)
proof (induction s arbitrary: st)
  case Nil
  then show ?case using unread_step [OF Nil(1)] by (subst scanStringLoop.simps) simp
next
  case (Cons c s)
  let ?w = "concat (map (escapeChar q) s) @ q # w"
  show ?case
  proof (cases "plainChar q c")
    case True
    then have "escapeChar q c = [c]" by (simp add: escapeChar_def)
    then have "sc_char st = c" "held (advanced st)" "unread (advanced st) = ?w"
      using unread_step [OF Cons.prems(1), of c ?w] Cons.prems(2) by auto
    moreover have "\<not> isUnicodeLinebreak st" "c \<noteq> q" "c \<noteq> CHR 0x5C"
      using True ascii_no_linebreak [OF Cons.prems(1)] calculation(1) by (simp_all add: plainChar_def)
    ultimately show ?thesis
      using Cons.IH [of "addLiteralChar c (advanced st)"] Cons.prems(2)
      by (subst scanStringLoop.simps) (simp add: Let_def past_end)
  next
    case False
    let ?h = "escapeDigit (of_char c div 16) # escapeDigit (of_char c mod 16) # ?w"
    have "escapeChar q c = [CHR 0x5C, CHR ''x'', escapeDigit (of_char c div 16), escapeDigit (of_char c mod 16)]"
      using False by (simp add: escapeChar_def)
    then have st: "sc_char st = CHR 0x5C" "held (advanced st)" "unread (advanced st) = CHR ''x'' # ?h"
      using unread_step [OF Cons.prems(1), of "CHR 0x5C"] Cons.prems(2) by auto
    have "\<not> isUnicodeLinebreak st" "CHR 0x5C \<noteq> q"
      using ascii_no_linebreak [OF Cons.prems(1)] st(1) assms(3) by (auto simp: between_def)
    moreover obtain st' where "scanEscape (advanced st) = Inr (True, addLiteralChar c st')" "held st'" "unread st' = ?w"
        "scannedLiteral st' = scannedLiteral st"
      using scanEscape_hex [OF st(2,3)] by auto
    ultimately show ?thesis
      using Cons.IH [of "addLiteralChar c st'"] Cons.prems(2) st
      by (subst scanStringLoop.simps) (auto simp: Let_def past_end)
  qed
qed

lemma scanString_escaped:
  assumes "held st" "unread st = q # concat (map (escapeChar q) s) @ q # w" "q = CHR 0x22 \<or> q = CHR 0x27"
  shows "\<exists>st'. scanString st = Inr (T_StringLiteral, st') \<and> held st' \<and> scannedLiteral st' = s \<and> unread st' = w"
proof -
  have st: "sc_char st = q" "held (clearLiteral (advanced st))"
      "unread (clearLiteral (advanced st)) = concat (map (escapeChar q) s) @ q # w"
    using unread_step [OF assms(1,2)] by auto
  from scanStringLoop_escaped [OF st(2,3) assms(3)] obtain st'
    where "scanStringLoop q (clearLiteral (advanced st)) = Inr (True, st')" "held st'" "scannedLiteral st' = s" "unread st' = q # w"
    by auto
  then show ?thesis using st(1) unread_step [of st' q w] by (simp add: scanString_def Let_def)
qed

section \<open>A scanner at the start of a source\<close>

definition noToken :: TokenDesc where
  "noToken = \<lparr>td_token = T_EOS, td_location = noLocation, td_literal = [], td_extendedTokenInfo = None\<rparr>"

definition scannerAt :: "string \<Rightarrow> Scanner" where
  "scannerAt src =
     \<lparr>sc_skippedComment = noToken, sc_nextSkippedComment = noToken, sc_currentToken = noToken, sc_nextToken = noToken,
      sc_source = \<lparr>cs_source = src, cs_position = 0\<rparr>, sc_sourceName = [], sc_char = first src\<rparr>"

lemma scannerAt_held: "held (scannerAt src)" "unread (scannerAt src) = src"
  by (simp_all add: held_def unread_def scannerAt_def)

text \<open>
  After an empty line of a \<open>///\<close> comment the loop of \<open>scanSingleLineDocComment\<close> adds the line break as a
  character of the comment and goes past it, so the next line of code is read as a part of the comment.
\<close>

lemma empty_doc_line_swallows_code:
  "map_option (\<lambda>st. (currentToken st, currentCommentLiteral st))
     (case scanner_reset (\<lambda>_. None) (scannerAt (''/// a'' @ [newline] @ ''///'' @ [newline] @ ''x;'')) of
        Inl _ \<Rightarrow> None | Inr st \<Rightarrow> Some st) =
   Some (T_EOS, ''a'' @ [newline, newline] @ ''x;'')"
  by code_simp

end
