(* ===== verification/UTF8.thy ===== *)
theory UTF8
  imports Prelude
begin

text \<open>
  Model of libdevcore/UTF8.cpp: the validator of UTF-8 byte strings and the position it reports
  for an invalid one. The specification is Table 3-7 of the Unicode standard, which the comments
  of the source cite: a byte string is well formed when it is a concatenation of the table's
  sequences.
\<close>

section \<open>The validator\<close>

definition isWellFormed :: "byte \<Rightarrow> byte \<Rightarrow> bool" where
  "isWellFormed byte1 byte2 =
     (if byte1 = 0xc0 \<or> byte1 = 0xc1 then False
      else if byte1 \<ge> 0xc2 \<and> byte1 \<le> 0xdf then True
      else if byte1 = 0xe0 then (if byte2 < 0xa0 then False else True)
      else if byte1 \<ge> 0xe1 \<and> byte1 \<le> 0xec then True
      else if byte1 = 0xed then (if byte2 > 0x9f then False else True)
      else if byte1 = 0xee \<or> byte1 = 0xef then True
      else if byte1 = 0xf0 then (if byte2 < 0x90 then False else True)
      else if byte1 \<ge> 0xf1 \<and> byte1 \<le> 0xf3 then True
      else if byte1 = 0xf4 then (if byte2 > 0x8f then False else True)
      else False)"

text \<open>The number of continuation bytes the lead byte announces (Table 3-6); 0 is no lead byte.\<close>

definition continuationCount :: "byte \<Rightarrow> nat" where
  "continuationCount b =
     (if b \<ge> 0xc0 \<and> b \<le> 0xdf then 1
      else if b \<ge> 0xe0 \<and> b \<le> 0xef then 2
      else if b \<ge> 0xf0 \<and> b \<le> 0xf7 then 3
      else 0)"

text \<open>
  The inner loop: \<open>j\<close> counts up and \<open>r\<close> iterations are left. It returns whether it ran to its
  end and the value of \<open>i\<close> it leaves behind. Its \<open>break\<close> leaves only this loop.
\<close>

fun continuationLoop :: "bytes \<Rightarrow> nat \<Rightarrow> nat \<Rightarrow> nat \<Rightarrow> bool \<times> nat" where
  "continuationLoop input i j 0 = (True, i)"
| "continuationLoop input i j (Suc r) =
     (let i = Suc i
      in if and (input ! i) 0xc0 \<noteq> 0x80 then (False, i)
         else if j = 0 \<and> \<not> isWellFormed (input ! (i - 1)) (input ! i) then (False, i)
         else continuationLoop input i (Suc j) r)"

lemma continuationLoop_ge: "i \<le> snd (continuationLoop input i j r)"
  by (induction input i j r rule: continuationLoop.induct) (auto simp: Let_def)

function validateLoop :: "bytes \<Rightarrow> bool \<Rightarrow> nat \<Rightarrow> bool \<times> nat" where
  "validateLoop input valid i =
     (if i < length input then
        (if input ! i < 0x80 then validateLoop input valid (Suc i)
         else let count = continuationCount (input ! i)
           in if count = 0 then (False, i)
              else if i + count \<ge> length input then (False, i)
              else validateLoop input
                     (valid \<and> fst (continuationLoop input i 0 count))
                     (Suc (snd (continuationLoop input i 0 count))))
      else (valid, i))"
  by pat_completeness auto
termination
proof (relation "measure (\<lambda>(input, valid, i). length input - i)")
  fix input valid i c
  assume "i < length input" "\<not> input ! i < 0x80" "c = continuationCount (input ! i)"
  then show "((input, valid \<and> fst (continuationLoop input i 0 c), Suc (snd (continuationLoop input i 0 c))),
      (input, valid, i)) \<in> measure (\<lambda>(input, valid, i). length input - i)"
    using continuationLoop_ge [of i input 0 c] by simp
qed auto

declare validateLoop.simps [simp del]

text \<open>The result and, for an invalid string, the value written to \<open>_invalidPosition\<close>.\<close>

definition validateUTF8 :: "bytes \<Rightarrow> bool \<times> nat option" where
  "validateUTF8 input =
     (let (valid, i) = validateLoop input True 0
      in if valid then (True, None) else (False, Some i))"

section \<open>Specification: Table 3-7\<close>

definition cont :: "byte \<Rightarrow> bool" where
  "cont b \<longleftrightarrow> 0x80 \<le> b \<and> b \<le> 0xbf"

fun utf8_seq :: "bytes \<Rightarrow> bool" where
  "utf8_seq [b1] \<longleftrightarrow> b1 \<le> 0x7f"
| "utf8_seq [b1, b2] \<longleftrightarrow> 0xc2 \<le> b1 \<and> b1 \<le> 0xdf \<and> cont b2"
| "utf8_seq [b1, b2, b3] \<longleftrightarrow>
     (b1 = 0xe0 \<and> 0xa0 \<le> b2 \<and> b2 \<le> 0xbf \<or>
      0xe1 \<le> b1 \<and> b1 \<le> 0xec \<and> cont b2 \<or>
      b1 = 0xed \<and> 0x80 \<le> b2 \<and> b2 \<le> 0x9f \<or>
      0xee \<le> b1 \<and> b1 \<le> 0xef \<and> cont b2) \<and> cont b3"
| "utf8_seq [b1, b2, b3, b4] \<longleftrightarrow>
     (b1 = 0xf0 \<and> 0x90 \<le> b2 \<and> b2 \<le> 0xbf \<or>
      0xf1 \<le> b1 \<and> b1 \<le> 0xf3 \<and> cont b2 \<or>
      b1 = 0xf4 \<and> 0x80 \<le> b2 \<and> b2 \<le> 0x8f) \<and> cont b3 \<and> cont b4"
| "utf8_seq _ \<longleftrightarrow> False"

definition utf8_string :: "bytes \<Rightarrow> bool" where
  "utf8_string bs \<longleftrightarrow> (\<exists>segs. bs = concat segs \<and> (\<forall>s\<in>set segs. utf8_seq s))"

section \<open>The validator decides the specification\<close>

lemma cont_bits: "and b 0xc0 = 0x80 \<longleftrightarrow> cont b"
proof -
  have "list_all (\<lambda>b. and b 0xc0 = 0x80 \<longleftrightarrow> cont b) all_bytes" by code_simp
  then show ?thesis by (rule all_byteI)
qed

lemmas byte_nat = word_le_nat_alt word_less_nat_alt word_unat_eq_iff

lemma utf8_seq_length: "utf8_seq (b # s) \<Longrightarrow> length s = (if b < 0x80 then 0 else continuationCount b)"
  by (cases "b # s" rule: utf8_seq.cases) (auto simp: continuationCount_def byte_nat)

lemma utf8_seq_lead:
  assumes "utf8_seq (b # s)" "\<not> b < 0x80"
  shows "0 < continuationCount b"
  using assms by (cases "b # s" rule: utf8_seq.cases) (auto simp: continuationCount_def byte_nat)

lemma seq2: "\<not> b < 0x80 \<Longrightarrow> continuationCount b = 1 \<Longrightarrow>
    utf8_seq [b, c] \<longleftrightarrow> isWellFormed b c \<and> cont c"
  by (auto simp: continuationCount_def isWellFormed_def cont_def byte_nat split: if_splits)

lemma seq3: "\<not> b < 0x80 \<Longrightarrow> continuationCount b = 2 \<Longrightarrow>
    utf8_seq [b, c, d] \<longleftrightarrow> isWellFormed b c \<and> cont c \<and> cont d"
  by (auto simp: continuationCount_def isWellFormed_def cont_def byte_nat split: if_splits)

lemma seq4: "\<not> b < 0x80 \<Longrightarrow> continuationCount b = 3 \<Longrightarrow>
    utf8_seq [b, c, d, e] \<longleftrightarrow> isWellFormed b c \<and> cont c \<and> cont d \<and> cont e"
  by (auto simp: continuationCount_def isWellFormed_def cont_def byte_nat split: if_splits)

lemma utf8_string_Nil [simp]: "utf8_string []"
  unfolding utf8_string_def by (rule exI [of _ "[]"]) simp

lemma utf8_string_Cons:
  "utf8_string (b # xs) \<longleftrightarrow>
     (let c = (if b < 0x80 then 0 else continuationCount b)
      in c \<le> length xs \<and> utf8_seq (b # take c xs) \<and> utf8_string (drop c xs))"
proof
  assume "utf8_string (b # xs)"
  then obtain segs where segs: "b # xs = concat segs" "\<forall>s\<in>set segs. utf8_seq s"
    unfolding utf8_string_def by blast
  then obtain s0 rest where cons: "segs = s0 # rest" by (cases segs) auto
  with segs obtain s where s: "s0 = b # s" by (cases s0) auto
  with segs cons have seq: "utf8_seq (b # s)" and xs: "xs = s @ concat rest" by auto
  moreover have "utf8_string (concat rest)"
    using segs(2) cons unfolding utf8_string_def by (intro exI [of _ rest]) auto
  ultimately show "let c = (if b < 0x80 then 0 else continuationCount b)
      in c \<le> length xs \<and> utf8_seq (b # take c xs) \<and> utf8_string (drop c xs)"
    using utf8_seq_length [OF seq] by (simp add: Let_def)
next
  assume "let c = (if b < 0x80 then 0 else continuationCount b)
      in c \<le> length xs \<and> utf8_seq (b # take c xs) \<and> utf8_string (drop c xs)"
  then obtain c segs where "utf8_seq (b # take c xs)" "drop c xs = concat segs" "\<forall>s\<in>set segs. utf8_seq s"
    unfolding utf8_string_def Let_def by blast
  then show "utf8_string (b # xs)"
    unfolding utf8_string_def
    by (intro exI [of _ "(b # take c xs) # segs"]) (simp, metis append_take_drop_id)
qed

lemma continuationLoop_decides:
  assumes i: "i + c < length input" and c: "c = continuationCount (input ! i)" "0 < c"
    and hi: "\<not> input ! i < 0x80"
  shows "fst (continuationLoop input i 0 c) \<longleftrightarrow> utf8_seq (input ! i # take c (drop (Suc i) input))"
    and "fst (continuationLoop input i 0 c) \<Longrightarrow> snd (continuationLoop input i 0 c) = i + c"
    and "snd (continuationLoop input i 0 c) \<le> i + c"
proof -
  have take: "take n (drop (Suc i) input) = map (\<lambda>k. input ! (Suc i + k)) [0..<n]"
    if "n \<le> c" for n
    using i that by (intro nth_equalityI) auto
  from c have "c = 1 \<or> c = 2 \<or> c = 3" by (auto simp: continuationCount_def split: if_splits)
  then have "(fst (continuationLoop input i 0 c) \<longleftrightarrow> utf8_seq (input ! i # take c (drop (Suc i) input)))
      \<and> (fst (continuationLoop input i 0 c) \<longrightarrow> snd (continuationLoop input i 0 c) = i + c)
      \<and> snd (continuationLoop input i 0 c) \<le> i + c"
  proof (elim disjE)
    assume "c = 1"
    then show ?thesis using seq2 [OF hi] c take [of "Suc 0"] by (auto simp: Let_def cont_bits upt_rec)
  next
    assume "c = 2"
    then show ?thesis using seq3 [OF hi] c take [of "Suc (Suc 0)"] by (auto simp: Let_def cont_bits upt_rec numeral_2_eq_2)
  next
    assume "c = 3"
    then show ?thesis using seq4 [OF hi] c take [of "Suc (Suc (Suc 0))"] by (auto simp: Let_def cont_bits upt_rec numeral_3_eq_3)
  qed
  then show "fst (continuationLoop input i 0 c) \<longleftrightarrow> utf8_seq (input ! i # take c (drop (Suc i) input))"
    and "fst (continuationLoop input i 0 c) \<Longrightarrow> snd (continuationLoop input i 0 c) = i + c"
    and "snd (continuationLoop input i 0 c) \<le> i + c"
    by blast+
qed

lemma validateLoop_spec:
  "i \<le> length input \<Longrightarrow> fst (validateLoop input valid i) \<longleftrightarrow> valid \<and> utf8_string (drop i input)"
proof (induction input valid i rule: validateLoop.induct)
  case (1 input valid i)
  show ?case
  proof (cases "i < length input")
    case False
    with 1 show ?thesis by (simp add: validateLoop.simps)
  next
    case in_range: True
    let ?b = "input ! i" let ?c = "continuationCount (input ! i)"
    have drop: "drop i input = ?b # drop (Suc i) input" using in_range by (rule Cons_nth_drop_Suc [symmetric])
    show ?thesis
    proof (cases "?b < 0x80")
      case True
      then have "utf8_seq [?b]" by (simp add: byte_nat)
      with True in_range show ?thesis
        by (subst validateLoop.simps) (simp add: drop utf8_string_Cons "1.IH"(1))
    next
      case hi: False
      show ?thesis
      proof (cases "?c = 0 \<or> i + ?c \<ge> length input")
        case True
        have "\<not> ?b \<le> 0x7f" using hi by (simp add: byte_nat)
        with True have "\<not> utf8_string (drop i input)"
          using hi in_range utf8_seq_lead [of ?b] by (auto simp: drop utf8_string_Cons Let_def)
        with True hi in_range show ?thesis by (subst validateLoop.simps) (auto simp: Let_def)
      next
        case False
        then have c: "0 < ?c" "i + ?c < length input" by auto
        note dec = continuationLoop_decides [OF c(2) refl c(1) hi]
        have rec: "fst (validateLoop input valid i) \<longleftrightarrow> (valid \<and> fst (continuationLoop input i 0 ?c))
            \<and> utf8_string (drop (Suc (snd (continuationLoop input i 0 ?c))) input)"
          using in_range hi False c dec(3)
          by (subst validateLoop.simps) (auto simp: Let_def "1.IH"(2))
        have "?c \<le> length input - Suc i" using c by linarith
        then have "utf8_string (drop i input) \<longleftrightarrow> fst (continuationLoop input i 0 ?c)
            \<and> utf8_string (drop (Suc (i + ?c)) input)"
          unfolding dec(1) unfolding drop utf8_string_Cons Let_def
          using hi c by (simp add: add.commute)
        with rec dec(2) show ?thesis by auto
      qed
    qed
  qed
qed

lemma validateUTF8_iff: "fst (validateUTF8 input) \<longleftrightarrow> utf8_string input"
  using validateLoop_spec [of 0 input True]
  by (cases "validateLoop input True 0") (simp add: validateUTF8_def)

end
