(* ===== verification/StringUtils.thy ===== *)
theory StringUtils
  imports Prelude
begin

text \<open>
  Model of libdevcore/StringUtils.cpp: the Damerau-Levenshtein distance that the suggestions of
  the name resolver use, computed over a table of three rows that are reused cyclically, the
  similarity test on top of it and the text of a list of alternatives.
\<close>

section \<open>The code\<close>

text \<open>One cell: the body of the inner loop, reading and writing the table \<open>dp\<close>.\<close>

definition distanceCell :: "string \<Rightarrow> string \<Rightarrow> nat \<Rightarrow> nat \<Rightarrow> nat list \<Rightarrow> nat list" where
  "distanceCell str1 str2 i1 i2 dp =
     (let x =
        (if min i1 i2 = 0 then max i1 i2
         else
           let left = dp ! ((i1 - 1) mod 3 + i2 * 3);
               up = dp ! (i1 mod 3 + (i2 - 1) * 3);
               upleft = dp ! ((i1 - 1) mod 3 + (i2 - 1) * 3);
               x = min (left + 1) (up + 1);
               x = (if str1 ! (i1 - 1) = str2 ! (i2 - 1) then min x upleft else min x (upleft + 1))
           in if i1 > 1 \<and> i2 > 1 \<and> str1 ! (i1 - 1) = str2 ! (i2 - 2) \<and> str1 ! (i1 - 2) = str2 ! (i2 - 1)
              then min x (dp ! ((i1 - 2) mod 3 + (i2 - 2) * 3) + 1) else x)
      in dp[i1 mod 3 + i2 * 3 := x])"

definition distanceRow :: "string \<Rightarrow> string \<Rightarrow> nat \<Rightarrow> nat \<Rightarrow> nat list \<Rightarrow> nat list" where
  "distanceRow str1 str2 m i1 dp = fold (distanceCell str1 str2 i1) [0..<m] dp"

definition stringDistance :: "string \<Rightarrow> string \<Rightarrow> nat" where
  "stringDistance str1 str2 =
     (let n1 = length str1; n2 = length str2;
          dp = fold (distanceRow str1 str2 (Suc n2)) [0..<Suc n1] (replicate (3 * (n2 + 1)) 0)
      in dp ! (n1 mod 3 + n2 * 3))"

definition stringWithinDistance :: "string \<Rightarrow> string \<Rightarrow> nat \<Rightarrow> bool" where
  "stringWithinDistance str1 str2 maxDistance =
     (if str1 = str2 then True
      else let n1 = length str1; n2 = length str2; distance = stringDistance str1 str2
        in distance \<le> maxDistance \<and> distance < n1 \<and> distance < n2)"

definition quoted :: "string \<Rightarrow> string" where
  "quoted s = [CHR 0x22] @ s @ [CHR 0x22]"

definition quotedAlternativesList :: "string list \<Rightarrow> string" where
  "quotedAlternativesList suggestions =
     (if suggestions = [] then []
      else if length suggestions = 1 then quoted (hd suggestions)
      else quoted (hd suggestions)
        @ concat (map (\<lambda>i. '', '' @ quoted (suggestions ! i)) [1..<length suggestions - 1])
        @ '' or '' @ quoted (last suggestions))"

section \<open>Specification: the distance of two prefixes, by recursion on their lengths\<close>

fun osa :: "string \<Rightarrow> string \<Rightarrow> nat \<Rightarrow> nat \<Rightarrow> nat" where
  "osa a b 0 j = j"
| "osa a b (Suc i) 0 = Suc i"
| "osa a b (Suc i) (Suc j) =
     (let x = min (min (osa a b i (Suc j) + 1) (osa a b (Suc i) j + 1))
                (osa a b i j + (if a ! i = b ! j then 0 else 1))
      in if 0 < i \<and> 0 < j \<and> a ! i = b ! (j - 1) \<and> a ! (i - 1) = b ! j
         then min x (osa a b (i - 1) (j - 1) + 1) else x)"

declare osa.simps(3) [simp del]

lemmas osa_Suc_Suc = osa.simps(3) [unfolded Let_def]

lemma osa_0_right [simp]: "osa a b i 0 = i"
  by (cases i) simp_all

section \<open>The table computes the specification\<close>

text \<open>
  While row \<open>i1\<close> is computed, the cells below \<open>i2\<close> of that row and all cells of the two rows before
  it hold the specified distances.
\<close>

definition tableInv :: "string \<Rightarrow> string \<Rightarrow> nat \<Rightarrow> nat \<Rightarrow> nat \<Rightarrow> nat list \<Rightarrow> bool" where
  "tableInv a b n2 i1 i2 dp \<longleftrightarrow>
     length dp = 3 * (n2 + 1) \<and>
     (\<forall>r k. r < i1 \<and> i1 \<le> r + 2 \<and> k \<le> n2 \<longrightarrow> dp ! (r mod 3 + k * 3) = osa a b r k) \<and>
     (\<forall>k<i2. dp ! (i1 mod 3 + k * 3) = osa a b i1 k)"

lemma index_eq_iff: "r mod 3 + k * 3 = s mod 3 + l * 3 \<longleftrightarrow> r mod 3 = s mod 3 \<and> k = (l::nat)"
proof
  assume eq: "r mod 3 + k * 3 = s mod 3 + l * 3"
  then have "(r mod 3 + k * 3) div 3 = (s mod 3 + l * 3) div 3" by (rule arg_cong)
  then have "k = l" by simp
  with eq show "r mod 3 = s mod 3 \<and> k = l" by simp
qed simp

lemma mod3_near: "r < (i::nat) \<Longrightarrow> i \<le> r + 2 \<Longrightarrow> r mod 3 \<noteq> i mod 3"
  by presburger

lemma index_bound: "k \<le> n \<Longrightarrow> r mod 3 + k * 3 < 3 * (n + 1)" for r :: nat
  by (rule order_less_le_trans [of _ "3 + k * 3"]) simp_all

lemma distanceCell_value:
  assumes "tableInv a b n2 i1 i2 dp" "i2 \<le> n2"
  shows "distanceCell a b i1 i2 dp = dp[i1 mod 3 + i2 * 3 := osa a b i1 i2]"
proof (cases "min i1 i2 = 0")
  case True
  then show ?thesis by (cases i1; cases i2) (simp_all add: distanceCell_def)
next
  case False
  then obtain i j where ij: "i1 = Suc i" "i2 = Suc j" by (metis min_0L min_0R not0_implies_Suc)
  have prev: "dp ! (r mod 3 + k * 3) = osa a b r k" if "r < i1" "i1 \<le> r + 2" "k \<le> n2" for r k
    using assms(1) that unfolding tableInv_def by blast
  have cur: "dp ! (Suc i mod 3 + j * 3) = osa a b (Suc i) j"
    using assms(1) ij unfolding tableInv_def by blast
  have left: "dp ! (i mod 3 + i2 * 3) = osa a b i (Suc j)"
    and upleft: "dp ! (i mod 3 + j * 3) = osa a b i j"
    using prev [of i i2] prev [of i j] assms(2) ij by simp_all
  have trans: "dp ! ((i - 1) mod 3 + (j - 1) * 3) = osa a b (i - 1) (j - 1)" if "i > 0"
    using prev [of "i - 1" "j - 1"] assms(2) that ij by auto
  have idx: "Suc n - 1 = n" "Suc n - 2 = n - 1" "1 < Suc n \<longleftrightarrow> 0 < n" for n by auto
  have zero: "min (Suc i) (Suc j) = 0 \<longleftrightarrow> False" by simp
  have shape: "(if c then min x u else min x (u + 1)) = min x (u + (if c then 0 else 1))"
    for c and x u :: nat by simp
  have "0 < i \<and> 0 < j \<and> C \<Longrightarrow> dp ! ((i - 1) mod 3 + (j - 1) * 3) = osa a b (i - 1) (j - 1)" for C
    using trans by blast
  then show ?thesis
    unfolding distanceCell_def Let_def ij idx zero if_False cur left [unfolded ij] upleft shape
      osa_Suc_Suc by (simp only: cong: if_cong)
qed

lemma tableInv_step:
  assumes "tableInv a b n2 i1 i2 dp" "i2 \<le> n2"
  shows "tableInv a b n2 i1 (Suc i2) (distanceCell a b i1 i2 dp)"
proof -
  let ?d = "dp[i1 mod 3 + i2 * 3 := osa a b i1 i2]"
  have len: "length dp = 3 * (n2 + 1)" and cur: "\<forall>k<i2. dp ! (i1 mod 3 + k * 3) = osa a b i1 k"
    and prev: "\<And>r k. r < i1 \<Longrightarrow> i1 \<le> r + 2 \<Longrightarrow> k \<le> n2 \<Longrightarrow> dp ! (r mod 3 + k * 3) = osa a b r k"
    using assms(1) unfolding tableInv_def by auto
  have "?d ! (r mod 3 + k * 3) = osa a b r k" if "r < i1" "i1 \<le> r + 2" "k \<le> n2" for r k
    using mod3_near [OF that(1,2)] prev [OF that] by (simp add: nth_list_update index_eq_iff)
  moreover have "?d ! (i1 mod 3 + k * 3) = osa a b i1 k" if "k < Suc i2" for k
    using cur that len index_bound [OF assms(2), of i1] index_eq_iff [of i1 i2 i1 k]
    by (cases "k = i2") (simp_all add: nth_list_update)
  ultimately show ?thesis
    unfolding distanceCell_value [OF assms] tableInv_def using len by simp
qed

lemma tableInv_cells:
  "tableInv a b n2 i1 0 dp \<Longrightarrow> m \<le> Suc n2 \<Longrightarrow> tableInv a b n2 i1 m (fold (distanceCell a b i1) [0..<m] dp)"
  by (induction m) (simp_all add: tableInv_step)

lemma tableInv_next_row: "tableInv a b n2 i1 (Suc n2) dp \<Longrightarrow> tableInv a b n2 (Suc i1) 0 dp"
  unfolding tableInv_def by (metis Suc_leI Suc_leD Suc_le_mono add_2_eq_Suc' le_imp_less_Suc less_SucE less_nat_zero_code)

lemma tableInv_rows:
  "tableInv a b n2 0 0 dp \<Longrightarrow> tableInv a b n2 m 0 (fold (distanceRow a b (Suc n2)) [0..<m] dp)"
proof (induction m)
  case (Suc m)
  then have "tableInv a b n2 m (Suc n2) (distanceRow a b (Suc n2) m (fold (distanceRow a b (Suc n2)) [0..<m] dp))"
    unfolding distanceRow_def [of a b "Suc n2" m] by (intro tableInv_cells) simp_all
  then show ?case by (simp add: tableInv_next_row)
qed simp

lemma stringDistance_osa: "stringDistance a b = osa a b (length a) (length b)"
proof -
  have "tableInv a b (length b) 0 0 (replicate (3 * (length b + 1)) 0)" by (simp add: tableInv_def)
  from tableInv_rows [OF this, of "Suc (length a)"] show ?thesis
    unfolding tableInv_def stringDistance_def Let_def by (simp del: upt_Suc fold_simps)
qed

section \<open>Properties of the distance\<close>

lemma osa_sym: "osa a b i j = osa b a j i"
proof (induction "i + j" arbitrary: i j rule: less_induct)
  case less
  show ?case
  proof (cases "i = 0 \<or> j = 0")
    case False
    then obtain i' j' where ij: "i = Suc i'" "j = Suc j'" by (metis not0_implies_Suc)
    have IH: "osa a b i' (Suc j') = osa b a (Suc j') i'" "osa a b (Suc i') j' = osa b a j' (Suc i')"
        "osa a b i' j' = osa b a j' i'" "osa a b (i' - 1) (j' - 1) = osa b a (j' - 1) (i' - 1)"
      by (auto intro!: less simp: ij)
    show ?thesis unfolding ij osa_Suc_Suc IH by (auto simp: min.commute)
  qed auto
qed

lemma osa_Suc_Suc_le: "osa a b (Suc i) (Suc j) \<le> osa a b i j + (if a ! i = b ! j then 0 else 1)"
  by (simp add: osa_Suc_Suc min_le_iff_disj)

lemma osa_le_max: "osa a b i j \<le> max i j"
proof (induction i arbitrary: j)
  case (Suc i)
  show ?case
  proof (cases j)
    case (Suc j')
    then show ?thesis using Suc.IH [of j'] osa_Suc_Suc_le [of a b i j'] by (auto split: if_splits)
  qed simp
qed simp

lemma min_choice: "x = (if c then min (min (min p q) r) s else min (min p q) r) \<Longrightarrow>
    x = p \<or> x = q \<or> x = r \<or> c \<and> x = (s :: nat)"
  by (simp add: min_def split: if_splits)

lemma osa_inner_cases:
  "osa a b (Suc i) (Suc j) = osa a b i (Suc j) + 1
   \<or> osa a b (Suc i) (Suc j) = osa a b (Suc i) j + 1
   \<or> osa a b (Suc i) (Suc j) = osa a b i j + (if a ! i = b ! j then 0 else 1)
   \<or> 0 < i \<and> 0 < j \<and> osa a b (Suc i) (Suc j) = osa a b (i - 1) (j - 1) + 1"
  using min_choice [OF osa_Suc_Suc [of a b i j]] by blast

lemma osa_eq_0_iff: "osa a b i j = 0 \<longleftrightarrow> i = j \<and> (\<forall>k<i. a ! k = b ! k)"
proof (induction i arbitrary: j)
  case (Suc i)
  show ?case
  proof (cases j)
    case (Suc j')
    have "osa a b (Suc i) (Suc j') = 0 \<longleftrightarrow> osa a b i j' = 0 \<and> a ! i = b ! j'"
      using osa_Suc_Suc_le [of a b i j'] osa_inner_cases [of a b i j'] by (auto split: if_splits)
    then show ?thesis using Suc by (auto simp: Suc.IH less_Suc_eq)
  qed simp
qed auto

lemma stringDistance_eq_0_iff: "stringDistance a b = 0 \<longleftrightarrow> a = b"
  by (auto simp: stringDistance_osa osa_eq_0_iff intro: nth_equalityI)

end
