(* ===== verification/Evm.thy ===== *)
theory Evm
  imports SemanticInfo "HOL-Library.Signed_Division"
begin

text \<open>
  The specification the optimiser is measured against: a stack machine that runs assembly items.
  It is not a translation of code under src/. The arithmetic instructions have their EVM meaning
  on 256-bit words; PUSH, POP, DUP, SWAP, jumps and the halting instructions act on the stack and
  the control flow. Everything else an instruction can do belongs to the machine outside the
  compiler and is a parameter: the values pushed for tags, data and sub-assemblies, and the
  effect of every other instruction on its arguments and on a world of an arbitrary type.
\<close>

section \<open>Arithmetic\<close>

definition boolWord :: "bool \<Rightarrow> u256" where
  "boolWord b = (if b then 1 else 0)"

fun evalArith :: "Instruction \<Rightarrow> u256 list \<Rightarrow> u256 option" where
  "evalArith i [a] =
     (if i = NOT then Some (not a)
      else if i = ISZERO then Some (boolWord (a = 0))
      else None)"
| "evalArith i [a, b] =
     (if i = ADD then Some (a + b)
      else if i = MUL then Some (a * b)
      else if i = SUB then Some (a - b)
      else if i = DIV then Some (if b = 0 then 0 else a div b)
      else if i = SDIV then Some (if b = 0 then 0 else word_of_int (sint a sdiv sint b))
      else if i = MOD then Some (if b = 0 then 0 else a mod b)
      else if i = SMOD then Some (if b = 0 then 0 else word_of_int (sint a smod sint b))
      else if i = EXP then Some (a ^ unat b)
      else if i = SIGNEXTEND then Some (if a \<ge> 31 then b else signed_take_bit (8 * unat a + 7) b)
      else if i = LT then Some (boolWord (a < b))
      else if i = GT then Some (boolWord (a > b))
      else if i = SLT then Some (boolWord (sint a < sint b))
      else if i = SGT then Some (boolWord (sint a > sint b))
      else if i = EQ then Some (boolWord (a = b))
      else if i = AND then Some (and a b)
      else if i = OR then Some (or a b)
      else if i = XOR then Some (xor a b)
      else if i = BYTE then Some (if a \<ge> 32 then 0 else take_bit 8 (drop_bit (8 * (31 - unat a)) b))
      else if i = SHL then Some (push_bit (unat a) b)
      else if i = SHR then Some (drop_bit (unat a) b)
      else if i = SAR then Some (signed_drop_bit (unat a) b)
      else None)"
| "evalArith i [a, b, c] =
     (if i = ADDMOD then Some (if c = 0 then 0 else word_of_int ((uint a + uint b) mod uint c))
      else if i = MULMOD then Some (if c = 0 then 0 else word_of_int ((uint a * uint b) mod uint c))
      else None)"
| "evalArith i _ = None"

definition isArith :: "Instruction \<Rightarrow> bool" where
  "isArith i \<longleftrightarrow> i \<in> {ADD, MUL, SUB, DIV, SDIV, MOD, SMOD, ADDMOD, MULMOD, EXP, SIGNEXTEND, LT, GT, SLT,
     SGT, EQ, ISZERO, AND, OR, XOR, NOT, BYTE, SHL, SHR, SAR}"

section \<open>Straight-line execution\<close>

type_synonym stack = "u256 list"

record 'w evm_env =
  push_value :: "AssemblyItemType \<Rightarrow> u256 \<Rightarrow> u256"
  ext_op :: "Instruction \<Rightarrow> u256 list \<Rightarrow> 'w \<Rightarrow> (u256 list \<times> 'w) option"

definition stackLimit :: nat where
  "stackLimit = 1024"

definition checkStack :: "stack \<Rightarrow> 'w \<Rightarrow> (stack \<times> 'w) option" where
  "checkStack s w = (if length s \<le> stackLimit then Some (s, w) else None)"

definition swapTop :: "nat \<Rightarrow> stack \<Rightarrow> stack" where
  "swapTop n s = s[0 := s ! n, n := s ! 0]"

definition applyOp :: "'w evm_env \<Rightarrow> Instruction \<Rightarrow> u256 list \<Rightarrow> 'w \<Rightarrow> (u256 list \<times> 'w) option" where
  "applyOp env i args w =
     (if isArith i then map_option (\<lambda>v. ([v], w)) (evalArith i args) else ext_op env i args w)"

definition execOp :: "'w evm_env \<Rightarrow> Instruction \<Rightarrow> stack \<Rightarrow> 'w \<Rightarrow> (stack \<times> 'w) option" where
  "execOp env i s w =
     (if isDupInstruction i then
        (let n = unat i - 127 in if n \<le> length s then checkStack (s ! (n - 1) # s) w else None)
      else if isSwapInstruction i then
        (let n = unat i - 143 in if n < length s then Some (swapTop n s, w) else None)
      else if i = POP then
        (case s of [] \<Rightarrow> None | _ # s' \<Rightarrow> Some (s', w))
      else
        (let n = info_args (instructionInfo i)
         in if n \<le> length s then
              (case applyOp env i (take n s) w of
                 None \<Rightarrow> None
               | Some (rs, w') \<Rightarrow>
                   (if length rs = info_ret (instructionInfo i) then checkStack (rs @ drop n s) w' else None))
            else None))"

definition execItem :: "'w evm_env \<Rightarrow> AssemblyItem \<Rightarrow> stack \<Rightarrow> 'w \<Rightarrow> (stack \<times> 'w) option" where
  "execItem env i s w =
     (case m_type i of
        UndefinedItem \<Rightarrow> None
      | Operation \<Rightarrow> execOp env (m_instruction i) s w
      | Push \<Rightarrow> checkStack (m_data i # s) w
      | Tag \<Rightarrow> Some (s, w)
      | t \<Rightarrow> checkStack (push_value env t (m_data i) # s) w)"

fun execItems :: "'w evm_env \<Rightarrow> AssemblyItems \<Rightarrow> stack \<Rightarrow> 'w \<Rightarrow> (stack \<times> 'w) option" where
  "execItems env [] s w = Some (s, w)"
| "execItems env (i # items) s w =
     (case execItem env i s w of None \<Rightarrow> None | Some (s', w') \<Rightarrow> execItems env items s' w')"

section \<open>Programs\<close>

text \<open>
  A run ends by a halting instruction with its arguments, or fails: a stack underflow or overflow,
  a jump to a value that no tag has, or a failing instruction. Running past the last item stops.
\<close>

datatype 'w outcome = Halted Instruction "u256 list" 'w | Failed

definition halts :: "AssemblyItem \<Rightarrow> bool" where
  "halts i \<longleftrightarrow> m_type i = Operation \<and> m_instruction i \<in> {STOP, RETURN, REVERT, INVALID, SELFDESTRUCT}"

definition isTag :: "AssemblyItem \<Rightarrow> bool" where
  "isTag i \<longleftrightarrow> m_type i = Tag"

fun afterTag :: "(u256 \<Rightarrow> bool) \<Rightarrow> AssemblyItems \<Rightarrow> AssemblyItems option" where
  "afterTag p [] = None"
| "afterTag p (i # items) = (if isTag i \<and> p (m_data i) then Some items else afterTag p items)"

definition jumpTarget :: "'w evm_env \<Rightarrow> AssemblyItems \<Rightarrow> u256 \<Rightarrow> AssemblyItems option" where
  "jumpTarget env P d = afterTag (\<lambda>t. push_value env PushTag t = d) P"

text \<open>
  Execution of the items \<open>items\<close>, a suffix of the program \<open>P\<close>, with at most \<open>n\<close> taken jumps; \<open>None\<close>
  when more jumps are taken. The recursion is on the number of jumps and then on the items.
\<close>

function run :: "'w evm_env \<Rightarrow> AssemblyItems \<Rightarrow> nat \<Rightarrow> AssemblyItems \<Rightarrow> stack \<Rightarrow> 'w \<Rightarrow> 'w outcome option" where
  "run env P n [] s w = Some (Halted STOP [] w)"
| "run env P n (i # items) s w =
     (if halts i then
        (let k = info_args (instructionInfo (m_instruction i))
         in if k \<le> length s then Some (Halted (m_instruction i) (take k s) w) else Some Failed)
      else if isOp JUMP i then
        (case s of
           d # s' \<Rightarrow>
             (case jumpTarget env P d of
                None \<Rightarrow> Some Failed
              | Some items' \<Rightarrow> (case n of 0 \<Rightarrow> None | Suc m \<Rightarrow> run env P m items' s' w))
         | [] \<Rightarrow> Some Failed)
      else if isOp JUMPI i then
        (case s of
           d # c # s' \<Rightarrow>
             (if c = 0 then run env P n items s' w
              else (case jumpTarget env P d of
                      None \<Rightarrow> Some Failed
                    | Some items' \<Rightarrow> (case n of 0 \<Rightarrow> None | Suc m \<Rightarrow> run env P m items' s' w)))
         | _ \<Rightarrow> Some Failed)
      else
        (case execItem env i s w of
           None \<Rightarrow> Some Failed
         | Some (s', w') \<Rightarrow> run env P n items s' w'))"
  by pat_completeness auto
termination
  by (relation "measures [\<lambda>(env, P, n, items, s, w). n, \<lambda>(env, P, n, items, s, w). length items]") auto

declare run.simps(2) [simp del]

definition controlItem :: "AssemblyItem \<Rightarrow> bool" where
  "controlItem i \<longleftrightarrow> halts i \<or> isOp JUMP i \<or> isOp JUMPI i"

text \<open>
  What the optimiser relies on of the machine: an instruction that the table says has no side effect
  only replaces its arguments by its results (the table's own documentation), and code positions fit
  in 32 bits (the assembler refuses larger programs).
\<close>

definition env_ok :: "'w evm_env \<Rightarrow> bool" where
  "env_ok env \<longleftrightarrow>
     (\<forall>i args w. isValidInstruction i \<and> \<not> info_sideEffects (instructionInfo i) \<and> \<not> isArith i \<and>
        length args = info_args (instructionInfo i) \<longrightarrow>
        (\<exists>rs. ext_op env i args w = Some (rs, w) \<and> length rs = info_ret (instructionInfo i))) \<and>
     (\<forall>d. push_value env PushTag d < 2 ^ 32)"

text \<open>No two tags of the program have the same position.\<close>

definition tags_ok :: "'w evm_env \<Rightarrow> AssemblyItems \<Rightarrow> bool" where
  "tags_ok env P \<longleftrightarrow> distinct (map (\<lambda>i. push_value env PushTag (m_data i)) (filter isTag P))"

section \<open>Basic facts\<close>

lemma execItems_append:
  "execItems env (xs @ ys) s w =
     (case execItems env xs s w of None \<Rightarrow> None | Some (s', w') \<Rightarrow> execItems env ys s' w')"
  by (induction xs arbitrary: s w) (auto split: option.splits)

lemma run_plain:
  "\<not> controlItem i \<Longrightarrow> run env P n (i # items) s w =
     (case execItem env i s w of None \<Rightarrow> Some Failed | Some (s', w') \<Rightarrow> run env P n items s' w')"
  by (simp add: controlItem_def run.simps(2))

lemma run_halt:
  "halts i \<Longrightarrow> run env P n (i # items) s w =
     (let k = info_args (instructionInfo (m_instruction i))
      in if k \<le> length s then Some (Halted (m_instruction i) (take k s) w) else Some Failed)"
  by (simp add: run.simps(2))

lemma run_jump:
  "isOp JUMP i \<Longrightarrow> run env P n (i # items) s w =
     (case s of
        [] \<Rightarrow> Some Failed
      | d # s' \<Rightarrow>
          (case jumpTarget env P d of
             None \<Rightarrow> Some Failed
           | Some items' \<Rightarrow> (case n of 0 \<Rightarrow> None | Suc m \<Rightarrow> run env P m items' s' w)))"
  by (simp add: run.simps(2) halts_def isOp_iff)

lemma run_jumpi:
  "isOp JUMPI i \<Longrightarrow> run env P n (i # items) s w =
     (case s of
        d # c # s' \<Rightarrow>
          (if c = 0 then run env P n items s' w
           else (case jumpTarget env P d of
                   None \<Rightarrow> Some Failed
                 | Some items' \<Rightarrow> (case n of 0 \<Rightarrow> None | Suc m \<Rightarrow> run env P m items' s' w)))
      | _ \<Rightarrow> Some Failed)"
  by (simp add: run.simps(2) halts_def isOp_iff)

lemma run_straight:
  assumes "list_all (\<lambda>i. \<not> controlItem i) xs"
  shows "run env P n (xs @ items) s w =
     (case execItems env xs s w of None \<Rightarrow> Some Failed | Some (s', w') \<Rightarrow> run env P n items s' w')"
  using assms by (induction xs arbitrary: s w) (auto simp: run_plain split: option.splits)

text \<open>More jumps allowed never change an outcome.\<close>

lemma run_mono: "run env P n items s w = Some r \<Longrightarrow> run env P (Suc n) items s w = Some r"
proof (induction env P n items s w rule: run.induct)
  case (2 env P n i items s w)
  from 2 show ?case
    by (auto simp: run.simps(2) Let_def split: if_splits list.splits option.splits nat.splits prod.splits)
qed simp

lemma run_mono_le: "n \<le> m \<Longrightarrow> run env P n items s w = Some r \<Longrightarrow> run env P m items s w = Some r"
  by (induction m rule: dec_induct) (auto intro: run_mono)

lemma afterTag_append:
  "list_all (\<lambda>i. \<not> (isTag i \<and> p (m_data i))) xs \<Longrightarrow> afterTag p (xs @ ys) = afterTag p ys"
  by (induction xs) auto

lemma tags_ok_jumpTarget:
  assumes "tags_ok env (pre @ t # items)" "isTag t"
  shows "jumpTarget env (pre @ t # items) (push_value env PushTag (m_data t)) = Some items"
proof -
  have "list_all (\<lambda>i. \<not> (isTag i \<and> push_value env PushTag (m_data i) = push_value env PushTag (m_data t))) pre"
    using assms by (simp add: tags_ok_def list_all_iff image_iff) metis
  from afterTag_append [OF this] assms(2) show ?thesis by (simp add: jumpTarget_def)
qed

section \<open>A machine\<close>

text \<open>
  A machine that meets the assumptions: a tag's position is the low half of its number, and every
  other instruction returns zeros and leaves the world as it is.
\<close>

definition simpleEnv :: "unit evm_env" where
  "simpleEnv = \<lparr>push_value = (\<lambda>t d. and d 0xFFFFFFFF),
     ext_op = (\<lambda>i args w. Some (replicate (info_ret (instructionInfo i)) 0, w))\<rparr>"

lemma simpleEnv_ok: "env_ok simpleEnv"
proof -
  have "and d 0xFFFFFFFF < (2 ^ 32 :: u256)" for d :: u256
    by (rule le_less_trans [OF word_and_le1]) simp
  then show ?thesis by (simp add: env_ok_def simpleEnv_def)
qed

end
