(* ===== verification/Peephole.thy ===== *)
theory Peephole
  imports Evm
begin

text \<open>
  Model of libevmasm/PeepholeOptimiser.cpp: the ten rewriting methods, their fixed order and the
  pass over the items. The locale \<open>peephole_method\<close> states what the pass needs of a method, with
  \<open>window_method\<close> for the methods that look at a window of fixed size; every method is shown to
  meet it. From that contract alone follow that the pass keeps the behaviour of every run that does
  not fail, keeps the tags, and that accepted passes cannot go on for ever.
\<close>

section \<open>The methods\<close>

record OptimiserState =
  st_items :: AssemblyItems
  st_i :: nat
  st_out :: AssemblyItems

definition ApplyRule1 :: "(AssemblyItem \<Rightarrow> AssemblyItems option) \<Rightarrow> AssemblyItems \<Rightarrow> AssemblyItems option" where
  "ApplyRule1 applySimple it = applySimple (it ! 0)"

definition ApplyRule2 ::
  "(AssemblyItem \<Rightarrow> AssemblyItem \<Rightarrow> AssemblyItems option) \<Rightarrow> AssemblyItems \<Rightarrow> AssemblyItems option" where
  "ApplyRule2 applySimple it = applySimple (it ! 0) (it ! 1)"

definition ApplyRule3 ::
  "(AssemblyItem \<Rightarrow> AssemblyItem \<Rightarrow> AssemblyItem \<Rightarrow> AssemblyItems option) \<Rightarrow> AssemblyItems \<Rightarrow> AssemblyItems option" where
  "ApplyRule3 applySimple it = applySimple (it ! 0) (it ! 1) (it ! 2)"

text \<open>
  \<open>None\<close> is the result \<open>false\<close>. A rule that returns \<open>true\<close> gives the items it appended to the output.
\<close>

definition SimplePeepholeOptimizerMethod ::
  "nat \<Rightarrow> (AssemblyItems \<Rightarrow> AssemblyItems option) \<Rightarrow> OptimiserState \<Rightarrow> OptimiserState option" where
  "SimplePeepholeOptimizerMethod WindowSize applyRule st =
     (if st_i st + WindowSize \<le> length (st_items st) then
        (case applyRule (drop (st_i st) (st_items st)) of
           Some out \<Rightarrow> Some (st\<lparr>st_i := st_i st + WindowSize, st_out := st_out st @ out\<rparr>)
         | None \<Rightarrow> None)
      else None)"

definition Identity :: "AssemblyItem \<Rightarrow> AssemblyItems option" where
  "Identity item = Some [item]"

definition PushPop :: "AssemblyItem \<Rightarrow> AssemblyItem \<Rightarrow> AssemblyItems option" where
  "PushPop push pop =
     (if isOp POP pop \<and>
         (item_isDup push \<or>
          m_type push \<in> {Push, PushString, PushTag, PushSub, PushSubSize, PushProgramSize, PushData,
            PushLibraryAddress})
      then Some [] else None)"

definition OpPop :: "AssemblyItem \<Rightarrow> AssemblyItem \<Rightarrow> AssemblyItems option" where
  "OpPop op pop =
     (if isOp POP pop \<and> m_type op = Operation then
        (let instr = m_instruction op
         in if info_ret (instructionInfo instr) = 1 \<and> \<not> info_sideEffects (instructionInfo instr)
            then Some (replicate (info_args (instructionInfo instr)) (opItem POP (m_location op)))
            else None)
      else None)"

definition DoubleSwap :: "AssemblyItem \<Rightarrow> AssemblyItem \<Rightarrow> AssemblyItems option" where
  "DoubleSwap s1 s2 = (if itemEq s1 s2 \<and> item_isSwap s1 then Some [] else None)"

definition DoublePush :: "AssemblyItem \<Rightarrow> AssemblyItem \<Rightarrow> AssemblyItems option" where
  "DoublePush push1 push2 =
     (if m_type push1 = Push \<and> m_type push2 = Push \<and> m_data push1 = m_data push2
      then Some [push1, opItem DUP1 (m_location push2)] else None)"

definition CommutativeSwap :: "AssemblyItem \<Rightarrow> AssemblyItem \<Rightarrow> AssemblyItems option" where
  "CommutativeSwap swap op =
     (if m_type swap = Operation \<and> m_instruction swap = SWAP1 \<and> isCommutativeOperation op
      then Some [op] else None)"

definition swappableOps :: "Instruction \<rightharpoonup> Instruction" where
  "swappableOps = [LT \<mapsto> GT, GT \<mapsto> LT, SLT \<mapsto> SGT, SGT \<mapsto> SLT]"

definition SwapComparison :: "AssemblyItem \<Rightarrow> AssemblyItem \<Rightarrow> AssemblyItems option" where
  "SwapComparison swap op =
     (if m_type swap = Operation \<and> m_instruction swap = SWAP1 \<and> m_type op = Operation
      then (case swappableOps (m_instruction op) of Some i \<Rightarrow> Some [opItem i noLocation] | None \<Rightarrow> None)
      else None)"

definition JumpToNext :: "AssemblyItem \<Rightarrow> AssemblyItem \<Rightarrow> AssemblyItem \<Rightarrow> AssemblyItems option" where
  "JumpToNext pushTag jump tag =
     (if m_type pushTag = PushTag \<and> (isOp JUMP jump \<or> isOp JUMPI jump) \<and> m_type tag = Tag \<and>
         m_data pushTag = m_data tag
      then Some ((if isOp JUMPI jump then [opItem POP (m_location jump)] else []) @ [tag])
      else None)"

definition TagConjunctions :: "AssemblyItem \<Rightarrow> AssemblyItem \<Rightarrow> AssemblyItem \<Rightarrow> AssemblyItems option" where
  "TagConjunctions pushTag pushConstant andItem =
     (if m_type pushTag = PushTag \<and> isOp AND andItem \<and> m_type pushConstant = Push \<and>
         and (m_data pushConstant) 0xFFFFFFFF = 0xFFFFFFFF
      then Some [pushTag] else None)"

text \<open>The \<open>while\<close> loop of \<open>UnreachableCode\<close> counts the items before the next tag.\<close>

fun itemsBeforeTag :: "AssemblyItems \<Rightarrow> nat" where
  "itemsBeforeTag [] = 0"
| "itemsBeforeTag (i # items) = (if m_type i \<noteq> Tag then Suc (itemsBeforeTag items) else 0)"

definition UnreachableCode :: "OptimiserState \<Rightarrow> OptimiserState option" where
  "UnreachableCode st =
     (case drop (st_i st) (st_items st) of
        [] \<Rightarrow> None
      | it0 # its \<Rightarrow>
          (if \<not> isOp JUMP it0 \<and> \<not> isOp RETURN it0 \<and> \<not> isOp STOP it0 \<and> \<not> isOp INVALID it0 \<and>
              \<not> isOp SELFDESTRUCT it0 \<and> \<not> isOp REVERT it0
           then None
           else (let i = 1 + itemsBeforeTag its
                 in if i > 1 then Some (st\<lparr>st_i := st_i st + i, st_out := st_out st @ [it0]\<rparr>) else None)))"

fun applyMethods :: "(OptimiserState \<Rightarrow> OptimiserState option) list \<Rightarrow> OptimiserState \<Rightarrow> OptimiserState res" where
  "applyMethods [] st = Inl (OptimizerException ''Peephole optimizer failed to apply identity.'')"
| "applyMethods (Method # OtherMethods) st =
     (case Method st of None \<Rightarrow> applyMethods OtherMethods st | Some st' \<Rightarrow> Inr st')"

abbreviation "PushPopMethod \<equiv> SimplePeepholeOptimizerMethod 2 (ApplyRule2 PushPop)"
abbreviation "OpPopMethod \<equiv> SimplePeepholeOptimizerMethod 2 (ApplyRule2 OpPop)"
abbreviation "DoublePushMethod \<equiv> SimplePeepholeOptimizerMethod 2 (ApplyRule2 DoublePush)"
abbreviation "DoubleSwapMethod \<equiv> SimplePeepholeOptimizerMethod 2 (ApplyRule2 DoubleSwap)"
abbreviation "CommutativeSwapMethod \<equiv> SimplePeepholeOptimizerMethod 2 (ApplyRule2 CommutativeSwap)"
abbreviation "SwapComparisonMethod \<equiv> SimplePeepholeOptimizerMethod 2 (ApplyRule2 SwapComparison)"
abbreviation "JumpToNextMethod \<equiv> SimplePeepholeOptimizerMethod 3 (ApplyRule3 JumpToNext)"
abbreviation "TagConjunctionsMethod \<equiv> SimplePeepholeOptimizerMethod 3 (ApplyRule3 TagConjunctions)"
abbreviation "IdentityMethod \<equiv> SimplePeepholeOptimizerMethod 1 (ApplyRule1 Identity)"

definition peepholeMethods :: "(OptimiserState \<Rightarrow> OptimiserState option) list" where
  "peepholeMethods = [PushPopMethod, OpPopMethod, DoublePushMethod, DoubleSwapMethod, CommutativeSwapMethod,
     SwapComparisonMethod, JumpToNextMethod, UnreachableCode, TagConjunctionsMethod, IdentityMethod]"

definition numberOfPops :: "AssemblyItems \<Rightarrow> nat" where
  "numberOfPops items = length (filter (isOp POP) items)"

section \<open>The pass\<close>

lemma SimplePeephole_advances:
  "SimplePeepholeOptimizerMethod W r st = Some st' \<Longrightarrow> st_i st' = st_i st + W \<and> st_items st' = st_items st"
  by (auto simp: SimplePeepholeOptimizerMethod_def split: if_splits option.splits)

lemma UnreachableCode_advances:
  "UnreachableCode st = Some st' \<Longrightarrow> st_i st < st_i st' \<and> st_items st' = st_items st"
  by (auto simp: UnreachableCode_def Let_def split: if_splits list.splits)

lemma applyMethods_advances:
  "applyMethods peepholeMethods st = Inr st' \<Longrightarrow> st_i st < st_i st' \<and> st_items st' = st_items st"
  by (auto simp: peepholeMethods_def dest: SimplePeephole_advances UnreachableCode_advances split: option.splits)

function optimiseLoop :: "OptimiserState \<Rightarrow> OptimiserState res" where
  "optimiseLoop st =
     (if st_i st < length (st_items st)
      then (case applyMethods peepholeMethods st of Inl e \<Rightarrow> Inl e | Inr st' \<Rightarrow> optimiseLoop st')
      else Inr st)"
  by pat_completeness auto
termination
  by (relation "measure (\<lambda>st. length (st_items st) - st_i st)") (auto dest!: applyMethods_advances)

declare optimiseLoop.simps [simp del]

record PeepholeOptimiser =
  p_items :: AssemblyItems
  p_optimisedItems :: AssemblyItems

text \<open>
  \<open>optimise\<close> appends to \<open>m_optimisedItems\<close> and, when the result is smaller, moves them into the items,
  which leaves \<open>m_optimisedItems\<close> empty.
\<close>

definition optimise_accepts :: "AssemblyItems \<Rightarrow> AssemblyItems \<Rightarrow> bool res" where
  "optimise_accepts optimised items =
     (if length optimised < length items then Inr True
      else if length optimised = length items then
        bindR (itemsBytesRequired optimised 3) (\<lambda>new. bindR (itemsBytesRequired items 3) (\<lambda>old.
          Inr (new < old \<or> numberOfPops items < numberOfPops optimised)))
      else Inr False)"

definition peephole_optimise :: "PeepholeOptimiser \<Rightarrow> (bool \<times> PeepholeOptimiser) res" where
  "peephole_optimise p =
     bindR (optimiseLoop \<lparr>st_items = p_items p, st_i = 0, st_out = p_optimisedItems p\<rparr>) (\<lambda>st.
       bindR (optimise_accepts (st_out st) (p_items p)) (\<lambda>accept.
         Inr (if accept then (True, \<lparr>p_items = st_out st, p_optimisedItems = []\<rparr>)
              else (False, p\<lparr>p_optimisedItems := st_out st\<rparr>))))"

section \<open>The contract of a method\<close>

definition noTags :: "AssemblyItems \<Rightarrow> bool" where
  "noTags items \<longleftrightarrow> list_all (\<lambda>i. \<not> isTag i) items"

text \<open>A window and its replacement contain no tag, or both end with the same tag and contain no other.\<close>

definition sameTags :: "AssemblyItems \<Rightarrow> AssemblyItems \<Rightarrow> bool" where
  "sameTags ws out \<longleftrightarrow>
     noTags ws \<and> noTags out \<or>
     (\<exists>ws' out' t. ws = ws' @ [t] \<and> out = out' @ [t] \<and> isTag t \<and> noTags ws' \<and> noTags out')"

definition definedItems :: "AssemblyItems \<Rightarrow> bool" where
  "definedItems items \<longleftrightarrow> list_all (\<lambda>i. m_type i \<noteq> UndefinedItem) items"

definition weight :: "AssemblyItem \<Rightarrow> nat" where
  "weight i = (case itemBytesRequired i 3 of Inl _ \<Rightarrow> 1 | Inr n \<Rightarrow> n)"

definition weights :: "AssemblyItems \<Rightarrow> nat" where
  "weights items = sum_list (map weight items)"

text \<open>In place of the window, the replacement leads to the same outcome unless that is a failure.\<close>

definition windowSound :: "'w evm_env \<Rightarrow> AssemblyItems \<Rightarrow> AssemblyItems \<Rightarrow> bool" where
  "windowSound env ws out \<longleftrightarrow>
     (env_ok env \<longrightarrow>
       (\<forall>pre rest n s w r. tags_ok env (pre @ ws @ rest) \<longrightarrow> r \<noteq> Failed \<longrightarrow>
          run env (pre @ ws @ rest) n (ws @ rest) s w = Some r \<longrightarrow>
          run env (pre @ ws @ rest) n (out @ rest) s w = Some r))"

definition passStep :: "'w evm_env \<Rightarrow> AssemblyItems \<Rightarrow> nat \<Rightarrow> AssemblyItems \<Rightarrow> bool" where
  "passStep env xs k out \<longleftrightarrow>
     0 < k \<and> k \<le> length xs \<and> sameTags (take k xs) out \<and> (definedItems (take k xs) \<longrightarrow> definedItems out) \<and>
     weights out + k \<le> weights (take k xs) + length out \<and> windowSound env (take k xs) out"

locale peephole_method =
  fixes env :: "'w evm_env"
    and rewrite :: "AssemblyItems \<Rightarrow> (nat \<times> AssemblyItems) option"
    and apply_method :: "OptimiserState \<Rightarrow> OptimiserState option"
  assumes apply_rewrite:
      "apply_method st = map_option (\<lambda>(k, out). st\<lparr>st_i := st_i st + k, st_out := st_out st @ out\<rparr>)
         (rewrite (drop (st_i st) (st_items st)))"
    and window: "rewrite xs = Some (k, out) \<Longrightarrow> 0 < k \<and> k \<le> length xs"
    and tags: "rewrite xs = Some (k, out) \<Longrightarrow> sameTags (take k xs) out"
    and keeps_defined: "rewrite xs = Some (k, out) \<Longrightarrow> definedItems (take k xs) \<Longrightarrow> definedItems out"
    and size: "rewrite xs = Some (k, out) \<Longrightarrow> weights out + k \<le> weights (take k xs) + length out"
    and sound: "rewrite xs = Some (k, out) \<Longrightarrow> windowSound env (take k xs) out"
begin

lemma step:
  assumes "apply_method st = Some st'"
  shows "\<exists>k out. st' = st\<lparr>st_i := st_i st + k, st_out := st_out st @ out\<rparr> \<and>
    passStep env (drop (st_i st) (st_items st)) k out"
proof -
  from assms obtain k out where "rewrite (drop (st_i st) (st_items st)) = Some (k, out)"
    "st' = st\<lparr>st_i := st_i st + k, st_out := st_out st @ out\<rparr>"
    by (auto simp: apply_rewrite)
  then show ?thesis unfolding passStep_def using window tags keeps_defined size sound by blast
qed

end

locale window_method =
  fixes env :: "'w evm_env" and W :: nat and rule :: "AssemblyItems \<Rightarrow> AssemblyItems option"
  assumes W_pos: "0 < W"
    and local_rule: "W \<le> length xs \<Longrightarrow> rule xs = rule (take W xs)"
    and rule_tags: "length ws = W \<Longrightarrow> rule ws = Some out \<Longrightarrow> sameTags ws out"
    and rule_defined: "length ws = W \<Longrightarrow> rule ws = Some out \<Longrightarrow> definedItems ws \<Longrightarrow> definedItems out"
    and rule_size: "length ws = W \<Longrightarrow> rule ws = Some out \<Longrightarrow> weights out + W \<le> weights ws + length out"
    and rule_sound: "length ws = W \<Longrightarrow> rule ws = Some out \<Longrightarrow> windowSound env ws out"
begin

lemma rule_take: "W \<le> length xs \<Longrightarrow> rule xs = Some out \<Longrightarrow> length (take W xs) = W \<and> rule (take W xs) = Some out"
  by (simp add: local_rule [of xs, symmetric])

end

sublocale window_method \<subseteq> peephole_method env
  "\<lambda>xs. if W \<le> length xs then map_option (Pair W) (rule xs) else None" "SimplePeepholeOptimizerMethod W rule"
proof
  fix st
  show "SimplePeepholeOptimizerMethod W rule st =
      map_option (\<lambda>(k, out). st\<lparr>st_i := st_i st + k, st_out := st_out st @ out\<rparr>)
        (if W \<le> length (drop (st_i st) (st_items st))
         then map_option (Pair W) (rule (drop (st_i st) (st_items st))) else None)"
  proof -
    have "st_i st + W \<le> length (st_items st) \<longleftrightarrow> W \<le> length (drop (st_i st) (st_items st))"
      using W_pos by simp arith
    then show ?thesis by (simp add: SimplePeepholeOptimizerMethod_def option.map_comp o_def split: option.split)
  qed
next
  fix xs k out
  assume "(if W \<le> length xs then map_option (Pair W) (rule xs) else None) = Some (k, out)"
  then have k: "k = W" and len: "W \<le> length xs" and r: "rule xs = Some out"
    by (auto split: if_splits)
  note take = rule_take [OF len r]
  show "0 < k \<and> k \<le> length xs" using W_pos len k by simp
  show "sameTags (take k xs) out" using rule_tags take k by blast
  show "definedItems out" if "definedItems (take k xs)" using rule_defined take k that by blast
  show "weights out + k \<le> weights (take k xs) + length out" using rule_size take k by blast
  show "windowSound env (take k xs) out" using rule_sound take k by blast
qed

section \<open>Every method meets the contract\<close>

lemma weights_simps [simp]:
  "weights [] = 0" "weights (i # items) = weight i + weights items" "weights (xs @ ys) = weights xs + weights ys"
  by (simp_all add: weights_def)

lemma weight_op [simp]: "m_type i = Operation \<Longrightarrow> weight i = 1"
  by (simp add: weight_def itemBytesRequired_def)

lemma weight_pos: "1 \<le> weight i"
  using itemBytesRequired_pos [of i 3] by (cases "itemBytesRequired i 3") (simp_all add: weight_def Suc_le_eq)

lemma weights_ge_length: "length items \<le> weights items"
proof (induction items)
  case (Cons i items)
  with weight_pos [of i] show ?case by simp
qed simp

lemma definedItems_simps [simp]:
  "definedItems []" "definedItems (i # items) \<longleftrightarrow> m_type i \<noteq> UndefinedItem \<and> definedItems items"
  "definedItems (xs @ ys) \<longleftrightarrow> definedItems xs \<and> definedItems ys"
  "definedItems (replicate n i) \<longleftrightarrow> n = 0 \<or> m_type i \<noteq> UndefinedItem"
  by (auto simp: definedItems_def list_all_iff)

lemma noTags_simps [simp]:
  "noTags []" "noTags (i # items) \<longleftrightarrow> \<not> isTag i \<and> noTags items" "noTags (xs @ ys) \<longleftrightarrow> noTags xs \<and> noTags ys"
  by (auto simp: noTags_def)

lemma sameTags_none: "noTags ws \<Longrightarrow> noTags out \<Longrightarrow> sameTags ws out"
  by (simp add: sameTags_def)

text \<open>A window without control flow only has to compute the same stack and world.\<close>

lemma windowSound_straight:
  assumes "list_all (\<lambda>i. \<not> controlItem i) ws" "list_all (\<lambda>i. \<not> controlItem i) out"
    and "\<And>s w r. env_ok env \<Longrightarrow> execItems env ws s w = Some r \<Longrightarrow> execItems env out s w = Some r"
  shows "windowSound env ws out"
  unfolding windowSound_def run_straight [OF assms(1)] run_straight [OF assms(2)]
proof (intro impI allI)
  fix pre rest n s w r
  assume env: "env_ok env" and r: "r \<noteq> Failed"
    and ex: "(case execItems env ws s w of None \<Rightarrow> Some Failed
      | Some (s', w') \<Rightarrow> run env (pre @ ws @ rest) n rest s' w') = Some r"
  then obtain x where "execItems env ws s w = Some x" by (cases "execItems env ws s w") simp_all
  with ex assms(3) [OF env this] show "(case execItems env out s w of None \<Rightarrow> Some Failed
      | Some (s', w') \<Rightarrow> run env (pre @ ws @ rest) n rest s' w') = Some r" by simp
qed

lemma length_2: "length ws = 2 \<longleftrightarrow> (\<exists>a b. ws = [a, b])"
  by (auto simp: numeral_2_eq_2 length_Suc_conv)

lemma length_3: "length ws = 3 \<longleftrightarrow> (\<exists>a b c. ws = [a, b, c])"
  by (auto simp: numeral_3_eq_3 length_Suc_conv)

lemma ApplyRule_simps [simp]:
  "ApplyRule1 f1 (a # xs) = f1 a" "ApplyRule2 f2 (a # b # xs) = f2 a b" "ApplyRule3 f3 (a # b # c # xs) = f3 a b c"
  by (simp_all add: ApplyRule1_def ApplyRule2_def ApplyRule3_def)

lemma ApplyRule_take:
  "1 \<le> length xs \<Longrightarrow> ApplyRule1 f1 xs = ApplyRule1 f1 (take 1 xs)"
  "2 \<le> length xs \<Longrightarrow> ApplyRule2 f2 xs = ApplyRule2 f2 (take 2 xs)"
  "3 \<le> length xs \<Longrightarrow> ApplyRule3 f3 xs = ApplyRule3 f3 (take 3 xs)"
  by (simp_all add: ApplyRule1_def ApplyRule2_def ApplyRule3_def)

text \<open>The contract of the window methods, with the window spelled out.\<close>

lemma window_method_2:
  assumes "\<And>a b out. f a b = Some out \<Longrightarrow> sameTags [a, b] out"
    and "\<And>a b out. f a b = Some out \<Longrightarrow> definedItems [a, b] \<Longrightarrow> definedItems out"
    and "\<And>a b out. f a b = Some out \<Longrightarrow> weights out + 2 \<le> weights [a, b] + length out"
    and "\<And>a b out. f a b = Some out \<Longrightarrow> windowSound env [a, b] out"
  shows "window_method env 2 (ApplyRule2 f)"
proof
  fix ws out assume "length ws = 2" "ApplyRule2 f ws = Some out"
  then obtain a b where "ws = [a, b]" "f a b = Some out" unfolding length_2 by auto
  with assms show "sameTags ws out" "definedItems ws \<Longrightarrow> definedItems out"
    "weights out + 2 \<le> weights ws + length out" "windowSound env ws out"
    by blast+
qed (simp_all only: ApplyRule_take(2) [symmetric] zero_less_numeral)

lemma window_method_3:
  assumes "\<And>a b c out. f a b c = Some out \<Longrightarrow> sameTags [a, b, c] out"
    and "\<And>a b c out. f a b c = Some out \<Longrightarrow> definedItems [a, b, c] \<Longrightarrow> definedItems out"
    and "\<And>a b c out. f a b c = Some out \<Longrightarrow> weights out + 3 \<le> weights [a, b, c] + length out"
    and "\<And>a b c out. f a b c = Some out \<Longrightarrow> windowSound env [a, b, c] out"
  shows "window_method env 3 (ApplyRule3 f)"
proof
  fix ws out assume "length ws = 3" "ApplyRule3 f ws = Some out"
  then obtain a b c where "ws = [a, b, c]" "f a b c = Some out" unfolding length_3 by auto
  with assms show "sameTags ws out" "definedItems ws \<Longrightarrow> definedItems out"
    "weights out + 3 \<le> weights ws + length out" "windowSound env ws out"
    by blast+
qed (simp_all only: ApplyRule_take(3) [symmetric] zero_less_numeral)

interpretation identity: window_method env 1 "ApplyRule1 Identity" for env :: "'w evm_env"
proof
  fix ws out assume "length ws = 1" "ApplyRule1 Identity ws = Some out"
  then have eq: "out = ws" "length ws = 1" by (auto simp: Identity_def length_Suc_conv)
  show "sameTags ws out" using eq by (auto simp: sameTags_def length_Suc_conv)
  show "definedItems out" if "definedItems ws" using eq that by simp
  show "weights out + 1 \<le> weights ws + length out" using eq by simp
  show "windowSound env ws out" using eq by (simp add: windowSound_def)
qed (rule zero_less_one ApplyRule_take(1), assumption?)+

text \<open>Execution of the items that the rules name.\<close>

lemma controlItem_iff:
  "controlItem i \<longleftrightarrow> m_type i = Operation \<and> m_instruction i \<in> {JUMP, JUMPI, STOP, RETURN, REVERT, INVALID, SELFDESTRUCT}"
  by (auto simp: controlItem_def halts_def isOp_iff)

lemma dup_swap_range:
  "isDupInstruction i \<longleftrightarrow> 128 \<le> unat i \<and> unat i < 144" "isSwapInstruction i \<longleftrightarrow> 144 \<le> unat i \<and> unat i < 160"
  by (auto simp: isDupInstruction_def isSwapInstruction_def word_le_nat_alt)

lemma execItem_op [simp]: "m_type i = Operation \<Longrightarrow> execItem env i = execOp env (m_instruction i)"
  by (simp add: execItem_def fun_eq_iff)

lemma execOp_pop [simp]: "execOp env POP s w = (case s of [] \<Rightarrow> None | _ # s' \<Rightarrow> Some (s', w))"
  by (simp add: execOp_def dup_swap_range split: list.split)

lemma exec_pops:
  "n \<le> length s \<Longrightarrow> execItems env (replicate n (opItem POP l)) s w = Some (drop n s, w)"
  by (induction n arbitrary: s) (auto simp: Suc_le_length_iff)

lemma execItem_push:
  assumes "m_type i \<in> {Push, PushString, PushTag, PushSub, PushSubSize, PushProgramSize, PushData, PushLibraryAddress}"
    and "execItem env i s w = Some r"
  shows "\<exists>v. r = (v # s, w)"
  using assms by (auto simp: execItem_def checkStack_def split: if_splits)

lemma execItem_dup:
  assumes "item_isDup i" "execItem env i s w = Some r"
  shows "\<exists>v. r = (v # s, w)"
  using assms by (auto simp: item_isDup_def execOp_def checkStack_def Let_def split: if_splits)

lemma swapTop_swapTop: "n < length s \<Longrightarrow> swapTop n (swapTop n s) = s"
  by (cases s) (auto simp: swapTop_def nth_Cons list_update_swap list_update_overwrite split: nat.splits intro!: nth_equalityI)

lemma execOp_swap:
  "isSwapInstruction i \<Longrightarrow> execOp env i s w = (if unat i - 143 < length s then Some (swapTop (unat i - 143) s, w) else None)"
  by (auto simp: execOp_def dup_swap_range Let_def)

lemma execOp_swap1: "execOp env SWAP1 s w = (case s of a # b # s' \<Rightarrow> Some (b # a # s', w) | _ \<Rightarrow> None)"
  by (auto simp: execOp_swap dup_swap_range swapTop_def split: list.splits)

lemma binop_table:
  "list_all (\<lambda>(i, info). i \<in> {ADD, MUL, EQ, AND, OR, XOR, LT, GT, SLT, SGT} \<longrightarrow> info_args info = 2 \<and> info_ret info = 1)
     c_instructionInfo"
  by (simp add: c_instructionInfo_def mkInfo_def)

lemma binop_valid: "list_all isValidInstruction [ADD, MUL, EQ, AND, OR, XOR, LT, GT, SLT, SGT]"
  by code_simp

lemma binop_info:
  assumes "i \<in> {ADD, MUL, EQ, AND, OR, XOR, LT, GT, SLT, SGT}"
  shows "info_args (instructionInfo i) = 2" "info_ret (instructionInfo i) = 1"
proof -
  have "isValidInstruction i" using assms binop_valid by (auto simp: list_all_iff)
  from table_fact [OF binop_table this] assms
  show "info_args (instructionInfo i) = 2" "info_ret (instructionInfo i) = 1" by auto
qed

lemma execOp_binop:
  assumes i: "i \<in> {ADD, MUL, EQ, AND, OR, XOR, LT, GT, SLT, SGT}"
  shows "execOp env i s w =
     (case s of a # b # s' \<Rightarrow> (case evalArith i [a, b] of None \<Rightarrow> None | Some v \<Rightarrow> checkStack (v # s') w)
      | _ \<Rightarrow> None)"
proof -
  have "\<not> isDupInstruction i" "\<not> isSwapInstruction i" "i \<noteq> POP" "isArith i"
    using i by (auto simp: dup_swap_range isArith_def)
  with binop_info [OF i] have "execOp env i s w =
      (if 2 \<le> length s then
         (case map_option (\<lambda>v. ([v], w)) (evalArith i (take 2 s)) of None \<Rightarrow> None
          | Some (rs, w') \<Rightarrow> if length rs = 1 then checkStack (rs @ drop 2 s) w' else None)
       else None)"
    by (simp add: execOp_def applyOp_def del: evalArith.simps split: option.split)
  then show ?thesis
    by (cases s; cases "tl s") (auto simp del: evalArith.simps split: option.split)
qed

lemma evalArith_comm:
  assumes "i \<in> {ADD, MUL, EQ, AND, OR, XOR}"
  shows "evalArith i [x, y] = evalArith i [y, x]"
proof -
  from assms consider "i = ADD" | "i = MUL" | "i = EQ" | "i = AND" | "i = OR" | "i = XOR" by blast
  then show ?thesis
    by cases (simp_all, simp_all only: add.commute mult.commute and.commute or.commute xor.commute eq_commute)
qed

lemma evalArith_flip:
  assumes "(i, j) \<in> {(LT, GT), (GT, LT), (SLT, SGT), (SGT, SLT)}"
  shows "evalArith i [x, y] = evalArith j [y, x]"
proof -
  from assms consider "i = LT" "j = GT" | "i = GT" "j = LT" | "i = SLT" "j = SGT" | "i = SGT" "j = SLT" by blast
  then show ?thesis by cases simp_all
qed

lemma execOp_pure:
  assumes env: "env_ok env" and ret: "info_ret (instructionInfo i) = 1"
    and pure: "\<not> info_sideEffects (instructionInfo i)" and ex: "execOp env i s w = Some r"
  shows "info_args (instructionInfo i) \<le> length s" "\<exists>v. r = (v # drop (info_args (instructionInfo i)) s, w)"
proof -
  have no_dup: "\<not> isDupInstruction i" using dup_info [of i] ret by (auto simp: dup_swap_range)
  have no_swap: "\<not> isSwapInstruction i" using swap_info [of i] ret by (auto simp: dup_swap_range)
  have no_pop: "i \<noteq> POP"
  proof
    assume "i = POP"
    moreover have "info_ret (instructionInfo POP) = 0" by code_simp
    ultimately show False using ret by simp
  qed
  have valid: "isValidInstruction i" using instructionInfo_invalid [of i] ret by auto
  from ex no_dup no_swap no_pop obtain rs w' where n: "info_args (instructionInfo i) \<le> length s"
    and app: "applyOp env i (take (info_args (instructionInfo i)) s) w = Some (rs, w')"
    and rs: "length rs = 1" "r = (rs @ drop (info_args (instructionInfo i)) s, w')"
    using ret by (auto simp: execOp_def Let_def checkStack_def split: if_splits option.splits)
  have "w' = w"
  proof (cases "isArith i")
    case True
    with app show ?thesis by (auto simp: applyOp_def)
  next
    case False
    then obtain rs' where "ext_op env i (take (info_args (instructionInfo i)) s) w = Some (rs', w)"
      using env valid pure n unfolding env_ok_def by (metis length_take min_absorb2)
    with app False show ?thesis by (simp add: applyOp_def)
  qed
  with rs n show "info_args (instructionInfo i) \<le> length s" "\<exists>v. r = (v # drop (info_args (instructionInfo i)) s, w)"
    by (auto simp: length_Suc_conv)
qed

interpretation pushPop: window_method env 2 "ApplyRule2 PushPop" for env :: "'w evm_env"
proof (rule window_method_2)
  fix a b out assume "PushPop a b = Some out"
  then have out: "out = []" and b: "m_type b = Operation" "m_instruction b = POP"
    and a: "item_isDup a \<or> m_type a \<in> {Push, PushString, PushTag, PushSub, PushSubSize, PushProgramSize, PushData,
      PushLibraryAddress}"
    by (auto simp: PushPop_def isOp_iff split: if_splits)
  have ctl: "\<not> controlItem a" "\<not> isTag a"
    using a by (auto simp: controlItem_iff item_isDup_def isTag_def dup_swap_range split: if_splits)
  show "sameTags [a, b] out" using ctl b out by (simp add: sameTags_none isTag_def)
  show "definedItems out" if "definedItems [a, b]" using out that by simp
  show "weights out + 2 \<le> weights [a, b] + length out" using out b weight_pos [of a] by simp
  show "windowSound env [a, b] out"
  proof (rule windowSound_straight)
    fix s w r assume "execItems env [a, b] s w = Some r"
    with a b execItem_push [of a env s w] execItem_dup [of a env s w] show "execItems env out s w = Some r"
      by (auto simp: out split: option.splits)
  qed (use ctl b out in \<open>simp_all add: controlItem_iff\<close>)
qed

interpretation opPop: window_method env 2 "ApplyRule2 OpPop" for env :: "'w evm_env"
proof (rule window_method_2)
  fix a b out assume "OpPop a b = Some out"
  then have b: "m_type b = Operation" "m_instruction b = POP" and a: "m_type a = Operation"
    and ret: "info_ret (instructionInfo (m_instruction a)) = 1"
    and pure: "\<not> info_sideEffects (instructionInfo (m_instruction a))"
    and out: "out = replicate (info_args (instructionInfo (m_instruction a))) (opItem POP (m_location a))"
    by (auto simp: OpPop_def isOp_iff Let_def split: if_splits)
  have ctl: "\<not> controlItem a" using pure by (auto simp: controlItem_iff sideEffects_iff)
  show "sameTags [a, b] out" using a b out by (simp add: sameTags_none isTag_def noTags_def list_all_iff)
  show "definedItems out" if "definedItems [a, b]" using out that by simp
  show "weights out + 2 \<le> weights [a, b] + length out" using out b a by (simp add: weights_def sum_list_replicate)
  show "windowSound env [a, b] out"
  proof (rule windowSound_straight)
    fix s w r assume env: "env_ok env" and "execItems env [a, b] s w = Some r"
    then obtain r' where ex: "execOp env (m_instruction a) s w = Some r'" and r: "execItem env b (fst r') (snd r') = Some r"
      using a by (auto split: option.splits)
    from execOp_pure [OF env ret pure ex] r b show "execItems env out s w = Some r"
      by (auto simp: out exec_pops)
  qed (use ctl b out in \<open>simp_all add: controlItem_iff list_all_iff\<close>)
qed

interpretation doubleSwap: window_method env 2 "ApplyRule2 DoubleSwap" for env :: "'w evm_env"
proof (rule window_method_2)
  fix a b out assume "DoubleSwap a b = Some out"
  then have out: "out = []" and a: "m_type a = Operation" "isSwapInstruction (m_instruction a)"
    and b: "m_type b = Operation" "m_instruction b = m_instruction a"
    by (auto simp: DoubleSwap_def itemEq_def item_isSwap_def split: if_splits)
  show "sameTags [a, b] out" using a b out by (simp add: sameTags_none isTag_def)
  show "definedItems out" if "definedItems [a, b]" using out that by simp
  show "weights out + 2 \<le> weights [a, b] + length out" using out b a by simp
  show "windowSound env [a, b] out"
  proof (rule windowSound_straight)
    fix s w r assume "execItems env [a, b] s w = Some r"
    with a b show "execItems env out s w = Some r"
      by (auto simp: out execOp_swap swapTop_swapTop split: if_splits)
  qed (use a b out in \<open>auto simp: controlItem_iff dup_swap_range\<close>)
qed

interpretation doublePush: window_method env 2 "ApplyRule2 DoublePush" for env :: "'w evm_env"
proof (rule window_method_2)
  fix a b out assume "DoublePush a b = Some out"
  then have out: "out = [a, opItem DUP1 (m_location b)]" and ab: "m_type a = Push" "m_type b = Push" "m_data a = m_data b"
    by (auto simp: DoublePush_def split: if_splits)
  show "sameTags [a, b] out" using ab out by (simp add: sameTags_none isTag_def)
  show "definedItems out" if "definedItems [a, b]" using out that by simp
  show "weights out + 2 \<le> weights [a, b] + length out" using out weight_pos [of b] by simp
  show "windowSound env [a, b] out"
  proof (rule windowSound_straight)
    fix s w r assume "execItems env [a, b] s w = Some r"
    then have "length s + 2 \<le> stackLimit" "r = (m_data b # m_data a # s, w)"
      using ab by (auto simp: execItem_def checkStack_def split: if_splits)
    then show "execItems env out s w = Some r"
      using ab by (simp add: out execItem_def execOp_def dup_swap_range checkStack_def)
  qed (use ab out in \<open>auto simp: controlItem_iff\<close>)
qed

interpretation commutativeSwap: window_method env 2 "ApplyRule2 CommutativeSwap" for env :: "'w evm_env"
proof (rule window_method_2)
  fix a b out assume "CommutativeSwap a b = Some out"
  then have out: "out = [b]" and a: "m_type a = Operation" "m_instruction a = SWAP1"
    and b: "m_type b = Operation" "m_instruction b \<in> {ADD, MUL, EQ, AND, OR, XOR}"
    by (auto simp: CommutativeSwap_def isCommutativeOperation_def split: if_splits)
  show "sameTags [a, b] out" using a b out by (simp add: sameTags_none isTag_def)
  show "definedItems out" if "definedItems [a, b]" using out that by simp
  show "weights out + 2 \<le> weights [a, b] + length out" using out a b by simp
  show "windowSound env [a, b] out"
  proof (rule windowSound_straight)
    fix s w r assume ex: "execItems env [a, b] s w = Some r"
    have b': "m_instruction b \<in> {ADD, MUL, EQ, AND, OR, XOR, LT, GT, SLT, SGT}" using b(2) by auto
    from ex a b(1) obtain x y s' where s: "s = x # y # s'"
      by (auto simp: execOp_swap1 split: list.splits option.splits)
    with ex a b(1) evalArith_comm [OF b(2), of x y] show "execItems env out s w = Some r"
      by (simp add: out execOp_swap1 execOp_binop [OF b'] del: evalArith.simps)
  qed (use a b out in \<open>auto simp: controlItem_iff\<close>)
qed

lemma swappableOps_eq:
  "swappableOps i = Some j \<longleftrightarrow> (i, j) \<in> {(LT, GT), (GT, LT), (SLT, SGT), (SGT, SLT)}"
  by (auto simp: swappableOps_def)

interpretation swapComparison: window_method env 2 "ApplyRule2 SwapComparison" for env :: "'w evm_env"
proof (rule window_method_2)
  fix a b out assume "SwapComparison a b = Some out"
  then obtain j where out: "out = [opItem j noLocation]" and a: "m_type a = Operation" "m_instruction a = SWAP1"
    and b: "m_type b = Operation" and j: "(m_instruction b, j) \<in> {(LT, GT), (GT, LT), (SLT, SGT), (SGT, SLT)}"
    unfolding swappableOps_eq [symmetric] by (auto simp: SwapComparison_def split: if_splits option.splits)
  show "sameTags [a, b] out" using a b out by (simp add: sameTags_none isTag_def)
  show "definedItems out" if "definedItems [a, b]" using out that by simp
  show "weights out + 2 \<le> weights [a, b] + length out" using out a b by simp
  show "windowSound env [a, b] out"
  proof (rule windowSound_straight)
    fix s w r assume ex: "execItems env [a, b] s w = Some r"
    have b': "m_instruction b \<in> {ADD, MUL, EQ, AND, OR, XOR, LT, GT, SLT, SGT}"
      and j': "j \<in> {ADD, MUL, EQ, AND, OR, XOR, LT, GT, SLT, SGT}" using j by auto
    from ex a b(1) obtain x y s' where s: "s = x # y # s'"
      by (auto simp: execOp_swap1 split: list.splits option.splits)
    with ex a b(1) evalArith_flip [OF j, of y x] show "execItems env out s w = Some r"
      by (simp add: out execOp_swap1 execOp_binop [OF b'] execOp_binop [OF j'] del: evalArith.simps)
  qed (use a b j out in \<open>auto simp: controlItem_iff\<close>)
qed

lemma and_low32:
  fixes v m :: u256
  assumes "v < 2 ^ 32" "and m 0xFFFFFFFF = 0xFFFFFFFF"
  shows "and m v = v"
proof -
  have mask: "(0xFFFFFFFF :: u256) = mask 32" by (simp add: mask_eq_exp_minus_1)
  have "bit m n" if "n < 32" for n
    using arg_cong [OF assms(2), of "\<lambda>x. bit x n"] that by (simp add: mask bit_simps)
  moreover have "n < 32" if "bit v n" for n
    using assms(1) that by (metis bit_take_bit_iff less_mask_eq take_bit_eq_mask)
  ultimately show ?thesis by (intro bit_eqI) (auto simp: bit_simps)
qed

interpretation tagConjunctions: window_method env 3 "ApplyRule3 TagConjunctions" for env :: "'w evm_env"
proof (rule window_method_3)
  fix a b c out assume "TagConjunctions a b c = Some out"
  then have out: "out = [a]" and a: "m_type a = PushTag" and b: "m_type b = Push"
    and c: "m_type c = Operation" "m_instruction c = AND" and m: "and (m_data b) 0xFFFFFFFF = 0xFFFFFFFF"
    by (auto simp: TagConjunctions_def isOp_iff split: if_splits)
  show "sameTags [a, b, c] out" using a b c out by (simp add: sameTags_none isTag_def)
  show "definedItems out" if "definedItems [a, b, c]" using out that by simp
  show "weights out + 3 \<le> weights [a, b, c] + length out" using out c weight_pos [of b] by simp
  show "windowSound env [a, b, c] out"
  proof (rule windowSound_straight)
    fix s w r assume "env_ok env" and ex: "execItems env [a, b, c] s w = Some r"
    then have "push_value env PushTag (m_data a) < 2 ^ 32" by (simp add: env_ok_def)
    from ex a b c and_low32 [OF this m] show "execItems env out s w = Some r"
      by (auto simp: out execItem_def execOp_binop checkStack_def split: if_splits)
  qed (use a b c out in \<open>auto simp: controlItem_iff\<close>)
qed

lemma run_tag: "isTag t \<Longrightarrow> run env P n (t # rest) s w = run env P n rest s w"
  by (simp add: isTag_def run_plain controlItem_iff execItem_def)

interpretation jumpToNext: window_method env 3 "ApplyRule3 JumpToNext" for env :: "'w evm_env"
proof (rule window_method_3)
  fix a b c out assume "JumpToNext a b c = Some out"
  then have out: "out = (if isOp JUMPI b then [opItem POP (m_location b)] else []) @ [c]"
    and a: "m_type a = PushTag" and b: "isOp JUMP b \<or> isOp JUMPI b" "m_type b = Operation"
    and c: "isTag c" "m_data a = m_data c"
    by (auto simp: JumpToNext_def isOp_iff isTag_def split: if_splits)
  have nt: "\<not> isTag a" "\<not> isTag b" using a b by (simp_all add: isTag_def)
  show "sameTags [a, b, c] out"
    unfolding sameTags_def
    by (rule disjI2, rule exI [of _ "[a, b]"], rule exI [of _ "butlast out"], rule exI [of _ c])
      (use c nt out in \<open>auto simp: isTag_def\<close>)
  show "definedItems out" if "definedItems [a, b, c]" using out that by simp
  show "weights out + 3 \<le> weights [a, b, c] + length out"
    using out a b by (auto simp: weight_def [of a] itemBytesRequired_def)
  show "windowSound env [a, b, c] out"
    unfolding windowSound_def
  proof (intro impI allI)
    fix pre rest n s w r
    let ?P = "pre @ [a, b, c] @ rest" and ?d = "push_value env PushTag (m_data a)"
    assume tags: "tags_ok env ?P" and r: "r \<noteq> Failed" and run: "run env ?P n ([a, b, c] @ rest) s w = Some r"
    have target: "jumpTarget env ?P ?d = Some rest"
      using tags_ok_jumpTarget [of env "pre @ [a, b]" c rest] tags c by simp
    have ab: "\<not> controlItem a" "execItem env a s w = checkStack (?d # s) w"
      using a by (simp_all add: controlItem_iff execItem_def)
    from run r have run_b: "run env ?P n (b # c # rest) (?d # s) w = Some r"
      by (auto simp: run_plain [OF ab(1)] ab(2) checkStack_def split: if_splits)
    have jmp: "isOp JUMPI b \<Longrightarrow> \<not> isOp JUMP b" "\<not> halts b" using b by (auto simp: isOp_iff halts_def)
    have suc: "n = Suc m \<Longrightarrow> run env ?P m rest t w = Some r \<Longrightarrow> run env ?P n rest t w = Some r" for m t
      using run_mono [of env ?P m rest t w r] by simp
    show "run env ?P n (out @ rest) s w = Some r"
    proof (cases "isOp JUMPI b")
      case False
      with run_b b jmp target suc [of _ s] show ?thesis
        by (auto simp: out run_tag c(1) run_jump split: nat.splits)
    next
      case True
      with run_b jmp r obtain x s' where s: "s = x # s'" by (cases s) (auto simp: run_jumpi)
      from run_b jmp True target suc [of _ s'] s c(1) have "run env ?P n rest s' w = Some r"
        by (auto simp: run_tag run_jumpi split: nat.splits if_splits)
      then show ?thesis using True s
        by (simp add: out run_plain controlItem_iff run_tag c(1))
    qed
  qed
qed

text \<open>The method that removes unreachable code, as a rewriting of the items that are left.\<close>

definition unreachableRewrite :: "AssemblyItems \<Rightarrow> (nat \<times> AssemblyItems) option" where
  "unreachableRewrite items =
     (case items of
        [] \<Rightarrow> None
      | it0 # its \<Rightarrow>
          (if (isOp JUMP it0 \<or> halts it0) \<and> 0 < itemsBeforeTag its then Some (Suc (itemsBeforeTag its), [it0]) else None))"

lemma itemsBeforeTag_le: "itemsBeforeTag items \<le> length items"
  by (induction items) auto

lemma itemsBeforeTag_noTags: "noTags (take (itemsBeforeTag items) items)"
  by (induction items) (auto simp: isTag_def)

text \<open>After an unconditional transfer of control the rest of the items does not matter.\<close>

lemma run_transfer: "isOp JUMP i \<or> halts i \<Longrightarrow> run env P n (i # xs) s w = run env P n (i # ys) s w"
  by (auto simp: run_jump run_halt)

interpretation unreachableCode: peephole_method env unreachableRewrite UnreachableCode for env :: "'w evm_env"
proof
  fix st
  have "(\<not> isOp JUMP i \<and> \<not> isOp RETURN i \<and> \<not> isOp STOP i \<and> \<not> isOp INVALID i \<and> \<not> isOp SELFDESTRUCT i \<and>
      \<not> isOp REVERT i) \<longleftrightarrow> \<not> (isOp JUMP i \<or> halts i)" for i
    by (auto simp: isOp_iff halts_def)
  then show "UnreachableCode st = map_option (\<lambda>(k, out). st\<lparr>st_i := st_i st + k, st_out := st_out st @ out\<rparr>)
      (unreachableRewrite (drop (st_i st) (st_items st)))"
    by (simp add: UnreachableCode_def unreachableRewrite_def Let_def split: list.split)
next
  fix xs k out assume "unreachableRewrite xs = Some (k, out)"
  then obtain i its where xs: "xs = i # its" and i: "isOp JUMP i \<or> halts i" and k: "k = Suc (itemsBeforeTag its)"
    and out: "out = [i]"
    by (auto simp: unreachableRewrite_def split: list.splits if_splits)
  then have win: "take k xs = i # take (itemsBeforeTag its) its" by simp
  have i_op: "\<not> isTag i" using i by (auto simp: isTag_def isOp_iff halts_def)
  show "0 < k \<and> k \<le> length xs" using itemsBeforeTag_le [of its] by (simp add: xs k)
  show "sameTags (take k xs) out" unfolding win out using i_op itemsBeforeTag_noTags by (simp add: sameTags_none)
  show "definedItems out" if "definedItems (take k xs)" using that unfolding win out by simp
  show "weights out + k \<le> weights (take k xs) + length out"
    unfolding win out using weights_ge_length [of "take (itemsBeforeTag its) its"] itemsBeforeTag_le [of its] k by simp
  show "windowSound env (take k xs) out"
    unfolding win out windowSound_def append_Cons using run_transfer [OF i] by (metis append_Nil)
qed

section \<open>The pass as a relation\<close>

text \<open>The items that are left are cut into windows, each replaced as the contract allows.\<close>

inductive pass :: "'w evm_env \<Rightarrow> AssemblyItems \<Rightarrow> AssemblyItems \<Rightarrow> bool" for env where
  pass_done: "pass env [] []"
| pass_step: "passStep env xs k out \<Longrightarrow> pass env (drop k xs) ys \<Longrightarrow> pass env xs (out @ ys)"

inductive_cases pass_NilE: "pass env [] ys"

text \<open>One round of the loop is a step, whichever method applied, and some method always applies.\<close>

lemma applyMethods_step:
  fixes env :: "'w evm_env"
  assumes "applyMethods peepholeMethods st = Inr st'"
  shows "\<exists>k out. st' = st\<lparr>st_i := st_i st + k, st_out := st_out st @ out\<rparr> \<and>
    passStep env (drop (st_i st) (st_items st)) k out"
proof -
  note steps = pushPop.step [of st st' env] opPop.step [of st st' env] doublePush.step [of st st' env]
    doubleSwap.step [of st st' env] commutativeSwap.step [of st st' env] swapComparison.step [of st st' env]
    jumpToNext.step [of st st' env] unreachableCode.step [of st st' env] tagConjunctions.step [of st st' env]
    identity.step [of st st' env]
  from assms have "\<exists>m\<in>set peepholeMethods. m st = Some st'"
    by (auto simp: peepholeMethods_def split: option.splits)
  then show ?thesis using steps by (auto simp only: peepholeMethods_def list.set)
qed

lemma applyMethods_total:
  assumes "st_i st < length (st_items st)"
  shows "\<exists>st'. applyMethods peepholeMethods st = Inr st'"
proof -
  have "IdentityMethod st \<noteq> None"
    using assms by (simp add: SimplePeepholeOptimizerMethod_def ApplyRule1_def Identity_def)
  then show ?thesis unfolding peepholeMethods_def by (auto split: option.split)
qed

lemma optimiseLoop_pass:
  fixes env :: "'w evm_env"
  assumes "st_i st \<le> length (st_items st)"
  shows "\<exists>ys st'. optimiseLoop st = Inr st' \<and> st_out st' = st_out st @ ys \<and> pass env (drop (st_i st) (st_items st)) ys"
  using assms
proof (induction st rule: optimiseLoop.induct)
  case (1 st)
  show ?case
  proof (cases "st_i st < length (st_items st)")
    case False
    then show ?thesis by (simp add: optimiseLoop.simps pass_done)
  next
    case True
    then obtain st1 where st1: "applyMethods peepholeMethods st = Inr st1" using applyMethods_total by blast
    from applyMethods_step [OF this, of env] obtain k out
      where eq: "st1 = st\<lparr>st_i := st_i st + k, st_out := st_out st @ out\<rparr>"
        and step: "passStep env (drop (st_i st) (st_items st)) k out" by blast
    from step True have "st_i st + k \<le> length (st_items st)" by (simp add: passStep_def) arith
    with "1.IH" [OF True st1] eq obtain ys st' where "optimiseLoop st1 = Inr st'"
      "st_out st' = st_out st @ out @ ys" "pass env (drop k (drop (st_i st) (st_items st))) ys"
      by (auto simp: add.commute)
    with step True st1 show ?thesis
      by (subst optimiseLoop.simps) (auto intro: pass_step)
  qed
qed

section \<open>What a pass keeps\<close>

lemma filter_isTag_noTags: "noTags xs \<Longrightarrow> filter isTag xs = []"
  by (auto simp: noTags_def list_all_iff filter_empty_conv)

lemma sameTags_filter: "sameTags ws out \<Longrightarrow> filter isTag ws = filter isTag out"
  by (auto simp: sameTags_def filter_isTag_noTags)

lemma pass_tags: "pass env xs ys \<Longrightarrow> filter isTag ys = filter isTag xs"
proof (induction rule: pass.induct)
  case (pass_step xs k out ys)
  then have "filter isTag (take k xs) = filter isTag out" by (simp add: passStep_def sameTags_filter)
  with pass_step.IH show ?case by (metis append_take_drop_id filter_append)
qed simp

lemma pass_weights: "pass env xs ys \<Longrightarrow> weights ys + length xs \<le> weights xs + length ys"
proof (induction rule: pass.induct)
  case (pass_step xs k out ys)
  have "weights xs = weights (take k xs) + weights (drop k xs)"
    by (metis append_take_drop_id weights_simps(3))
  moreover have "weights out + k \<le> weights (take k xs) + length out" "k \<le> length xs"
    using pass_step.hyps by (simp_all add: passStep_def)
  ultimately show ?case using pass_step.IH by simp
qed simp

lemma afterTag_noTags: "noTags xs \<Longrightarrow> afterTag p (xs @ ys) = afterTag p ys"
  by (rule afterTag_append) (auto simp: noTags_def list_all_iff)

text \<open>The items after a tag are passed over on their own: no window reaches across a tag.\<close>

lemma pass_afterTag:
  assumes "pass env xs ys"
  shows "rel_option (pass env) (afterTag p xs) (afterTag p ys)"
  using assms
proof (induction rule: pass.induct)
  case (pass_step xs k out ys)
  have xs: "xs = take k xs @ drop k xs" by simp
  from pass_step.hyps have "sameTags (take k xs) out" by (simp add: passStep_def)
  then consider "noTags (take k xs)" "noTags out"
    | ws' out' t where "take k xs = ws' @ [t]" "out = out' @ [t]" "isTag t" "noTags ws'" "noTags out'"
    unfolding sameTags_def by blast
  then show ?case
  proof cases
    case 1
    then have "afterTag p xs = afterTag p (drop k xs)" "afterTag p (out @ ys) = afterTag p ys"
      using afterTag_noTags [of "take k xs" p "drop k xs"] afterTag_noTags by simp_all
    with pass_step.IH show ?thesis by simp
  next
    case 2
    then have "xs = ws' @ t # drop k xs" by (metis append.assoc append_Cons append_Nil xs)
    with 2 have "afterTag p xs = (if p (m_data t) then Some (drop k xs) else afterTag p (drop k xs))"
      by (metis afterTag.simps(2) afterTag_noTags)
    with 2 pass_step show ?thesis by (simp add: afterTag_noTags)
  qed
qed simp

lemma afterTag_suffix: "afterTag p xs = Some ys \<Longrightarrow> \<exists>zs. xs = zs @ ys"
  by (induction xs) (auto split: if_splits intro: exI [of _ "_ # _"])

text \<open>
  Items that two programs share behave alike when what follows them and what the jumps lead to do.
\<close>

lemma run_shared_prefix:
  assumes rest: "\<And>s w. run env P n rest s w = Some r \<Longrightarrow> run env P' n rest' s w = Some r"
    and jumps: "\<And>d xs m s w. jumpTarget env P d = Some xs \<Longrightarrow> m < n \<Longrightarrow> run env P m xs s w = Some r \<Longrightarrow>
      \<exists>ys. jumpTarget env P' d = Some ys \<and> run env P' m ys s w = Some r"
    and r: "r \<noteq> Failed"
  shows "run env P n (out @ rest) s w = Some r \<Longrightarrow> run env P' n (out @ rest') s w = Some r"
proof (induction out arbitrary: s w)
  case Nil
  then show ?case using rest by simp
next
  case (Cons i out)
  have jump: "(case jumpTarget env P d of None \<Rightarrow> Some Failed
       | Some xs \<Rightarrow> (case n of 0 \<Rightarrow> None | Suc m \<Rightarrow> run env P m xs s w)) = Some r \<Longrightarrow>
      (case jumpTarget env P' d of None \<Rightarrow> Some Failed
       | Some xs \<Rightarrow> (case n of 0 \<Rightarrow> None | Suc m \<Rightarrow> run env P' m xs s w)) = Some r" for d s w
    using jumps [of d _ "n - 1" s w] r by (auto split: option.splits nat.splits)
  consider "halts i" | "isOp JUMP i" | "isOp JUMPI i" | "\<not> controlItem i" by (auto simp: controlItem_def)
  then show ?case
  proof cases
    case 1
    with Cons.prems show ?thesis by (simp add: run_halt)
  next
    case 2
    with Cons.prems show ?thesis using jump by (auto simp: run_jump split: list.splits)
  next
    case 3
    with Cons show ?thesis using jump by (auto simp: run_jumpi split: list.splits if_splits)
  next
    case 4
    with Cons show ?thesis by (auto simp: run_plain split: option.splits)
  qed
qed

lemma pass_sound_suffix:
  assumes env: "env_ok env" and tags: "tags_ok env P" and P: "pass env P P'" and r: "r \<noteq> Failed"
  shows "pass env xs ys \<Longrightarrow> P = pre @ xs \<Longrightarrow> run env P n xs s w = Some r \<Longrightarrow> run env P' n ys s w = Some r"
proof (induction n arbitrary: xs ys pre s w rule: less_induct)
  case (less n)
  from less.prems show ?case
  proof (induction arbitrary: pre s w rule: pass.induct)
    case pass_done
    then show ?case by simp
  next
    case (pass_step xs k out ys)
    have eq: "P = pre @ take k xs @ drop k xs" using pass_step.prems by simp
    have "windowSound env (take k xs) out" using pass_step.hyps by (simp add: passStep_def)
    with env tags r pass_step.prems eq have "run env P n (out @ drop k xs) s w = Some r"
      unfolding windowSound_def by (metis append_take_drop_id)
    then show ?case
    proof (rule run_shared_prefix [rotated 3])
      fix s w assume "run env P n (drop k xs) s w = Some r"
      with eq show "run env P' n ys s w = Some r" by (intro pass_step.IH [of "pre @ take k xs"]) simp_all
    next
      fix d zs m s w
      assume target: "jumpTarget env P d = Some zs" and m: "m < n" and run: "run env P m zs s w = Some r"
      obtain us where "jumpTarget env P' d = Some us" "pass env zs us"
        using pass_afterTag [OF P, of "\<lambda>t. push_value env PushTag t = d"] target
        by (auto simp: jumpTarget_def option_rel_Some1)
      moreover obtain vs where "P = vs @ zs" using target afterTag_suffix unfolding jumpTarget_def by blast
      ultimately show "\<exists>ys. jumpTarget env P' d = Some ys \<and> run env P' m ys s w = Some r"
        using less.IH [OF m] run by blast
    qed (rule r)
  qed
qed

lemma pass_sound:
  assumes "env_ok env" "tags_ok env P" "pass env P P'" "r \<noteq> Failed" "run env P n P s w = Some r"
  shows "run env P' n P' s w = Some r"
  using pass_sound_suffix [OF assms(1-4,3), of "[]"] assms(5) by simp

lemma pass_tags_ok: "pass env P P' \<Longrightarrow> tags_ok env P' = tags_ok env P"
  by (simp add: tags_ok_def pass_tags)

section \<open>Accepted passes\<close>

text \<open>
  An accepted pass makes the program shorter, or keeps its length and makes it smaller in bytes, or
  keeps both and has more POPs.
\<close>

definition passMeasure :: "(AssemblyItems \<times> AssemblyItems) set" where
  "passMeasure = measures [length, weights, \<lambda>items. length items - numberOfPops items]"

lemma wf_passMeasure: "wf passMeasure"
  by (simp add: passMeasure_def)

lemma bytes_weights: "itemsBytesRequired items 3 = Inr n \<Longrightarrow> weights items = n"
  by (induction items arbitrary: n) (auto simp: weight_def)

lemma numberOfPops_le: "numberOfPops items \<le> length items"
  by (simp add: numberOfPops_def)

lemma accepted_pass_smaller:
  assumes pass: "pass env xs ys" and accept: "optimise_accepts ys xs = Inr True"
  shows "(ys, xs) \<in> passMeasure"
proof (cases "length ys < length xs")
  case True
  then show ?thesis by (simp add: passMeasure_def)
next
  case False
  with accept obtain new old where len: "length ys = length xs"
    and "itemsBytesRequired ys 3 = Inr new" "itemsBytesRequired xs 3 = Inr old"
    and "new < old \<or> numberOfPops xs < numberOfPops ys"
    by (auto simp: optimise_accepts_def split: if_splits)
  then have "weights ys < weights xs \<or> numberOfPops xs < numberOfPops ys" using bytes_weights by blast
  moreover have "weights ys \<le> weights xs" using pass_weights [OF pass] len by simp
  ultimately show ?thesis using len numberOfPops_le [of ys] by (auto simp: passMeasure_def)
qed

text \<open>The outcome of \<open>optimise\<close> on a fresh optimiser.\<close>

lemma peephole_optimise_cases:
  fixes env :: "'w evm_env"
  shows "\<exists>ys. pass env xs ys \<and>
    (case peephole_optimise \<lparr>p_items = xs, p_optimisedItems = []\<rparr> of
       Inl e \<Rightarrow> optimise_accepts ys xs = Inl e
     | Inr (True, p) \<Rightarrow> optimise_accepts ys xs = Inr True \<and> p = \<lparr>p_items = ys, p_optimisedItems = []\<rparr>
     | Inr (False, p) \<Rightarrow> p_items p = xs)"
proof -
  let ?st = "\<lparr>st_items = xs, st_i = 0, st_out = []\<rparr>"
  from optimiseLoop_pass [of ?st env] obtain ys st' where "optimiseLoop ?st = Inr st'" "st_out st' = ys" "pass env xs ys"
    by auto
  then show ?thesis
    by (intro exI [of _ ys]) (cases "optimise_accepts ys xs", auto simp: peephole_optimise_def)
qed

lemma pass_defined: "pass env xs ys \<Longrightarrow> definedItems xs \<Longrightarrow> definedItems ys"
proof (induction rule: pass.induct)
  case (pass_step xs k out ys)
  have "definedItems (take k xs)" "definedItems (drop k xs)"
    using pass_step.prems by (metis append_take_drop_id definedItems_simps(3))+
  with pass_step show ?case by (simp add: passStep_def)
qed simp

lemma bytesRequired_defined: "definedItems items \<Longrightarrow> \<exists>n. itemsBytesRequired items a = Inr n"
proof (induction items)
  case (Cons i items)
  moreover have "\<exists>n. itemBytesRequired i a = Inr n"
    using Cons.prems by (auto simp: itemBytesRequired_def split: AssemblyItemType.split)
  ultimately show ?case by auto
qed simp

lemma accepts_defined:
  "definedItems xs \<Longrightarrow> definedItems ys \<Longrightarrow> \<exists>b. optimise_accepts ys xs = Inr b"
  using bytesRequired_defined [of xs 3] bytesRequired_defined [of ys 3] by (auto simp: optimise_accepts_def)

text \<open>On defined items \<open>optimise\<close> returns: it leaves the items as they are, or replaces them by those of a pass.\<close>

lemma peephole_optimise_returns:
  fixes env :: "'w evm_env"
  assumes "definedItems xs"
  obtains (kept) p where "peephole_optimise \<lparr>p_items = xs, p_optimisedItems = []\<rparr> = Inr (False, p)" "p_items p = xs"
  | (replaced) ys where "peephole_optimise \<lparr>p_items = xs, p_optimisedItems = []\<rparr>
      = Inr (True, \<lparr>p_items = ys, p_optimisedItems = []\<rparr>)"
    "pass env xs ys" "definedItems ys" "(ys, xs) \<in> passMeasure"
proof -
  let ?opt = "peephole_optimise \<lparr>p_items = xs, p_optimisedItems = []\<rparr>"
  from peephole_optimise_cases [of env xs] obtain ys where pass: "pass env xs ys" and res:
    "case ?opt of Inl e \<Rightarrow> optimise_accepts ys xs = Inl e
     | Inr (True, p) \<Rightarrow> optimise_accepts ys xs = Inr True \<and> p = \<lparr>p_items = ys, p_optimisedItems = []\<rparr>
     | Inr (False, p) \<Rightarrow> p_items p = xs" by blast
  have def: "definedItems ys" using pass assms by (rule pass_defined)
  then obtain b where "optimise_accepts ys xs = Inr b" using accepts_defined [OF assms] by blast
  with res consider p where "?opt = Inr (False, p)" "p_items p = xs"
    | "?opt = Inr (True, \<lparr>p_items = ys, p_optimisedItems = []\<rparr>)" "optimise_accepts ys xs = Inr True"
    by (auto split: sum.splits prod.splits bool.splits)
  then show ?thesis
    using kept replaced [OF _ pass def] accepted_pass_smaller [OF pass] by cases blast+
qed

end
