(* ===== verification/Rules.thy ===== *)
theory Rules
  imports Evm
begin

text \<open>
  Model of the expression simplifier's rules: libevmasm/RuleList.h (the list of rules),
  SimplificationRules.cpp (patterns, match groups, the table of rules and the search for the first
  match, expression templates) and the part of ExpressionClasses.h that patterns look at. The last
  sections show that the rule that is found keeps the value of the expression.
\<close>

section \<open>Expressions\<close>

type_synonym Id = "32 word"

record Expression =
  e_id :: Id
  e_item :: "AssemblyItem option"
  e_arguments :: "Id list"
  e_sequenceNumber :: "32 word"

text \<open>\<open>m_representatives.at\<close> of an expression class.\<close>

definition representative :: "Expression list \<Rightarrow> Id \<Rightarrow> Expression res" where
  "representative reps i = (if unat i < length reps then Inr (reps ! unat i) else Inl OutOfRange)"

section \<open>Patterns\<close>

datatype Pattern = Pattern
  (p_type: AssemblyItemType)
  (p_requireDataMatch: bool)
  (p_instruction: Instruction)
  (p_data: "u256 option")
  (p_arguments: "Pattern list")
  (p_matchGroup: nat)

type_synonym matchGroups = "nat \<rightharpoonup> Expression"

definition valP :: "u256 \<Rightarrow> Pattern" where
  "valP v = Pattern Push True 0 (Some v) [] 0"

definition typeP :: "AssemblyItemType \<Rightarrow> Pattern" where
  "typeP t = Pattern t False 0 None [] 0"

definition opP :: "Instruction \<Rightarrow> Pattern list \<Rightarrow> Pattern" where
  "opP i as = Pattern Operation False i None as 0"

definition setMatchGroup :: "nat \<Rightarrow> Pattern \<Rightarrow> Pattern" where
  "setMatchGroup k p = Pattern (p_type p) (p_requireDataMatch p) (p_instruction p) (p_data p) (p_arguments p) k"

definition pattern_data :: "Pattern \<Rightarrow> u256 res" where
  "pattern_data p = (case p_data p of None \<Rightarrow> Inl (OptimizerException []) | Some v \<Rightarrow> Inr v)"

definition pattern_instruction :: "Pattern \<Rightarrow> Instruction res" where
  "pattern_instruction p = assertThrow (p_type p = Operation) (OptimizerException []) (Inr (p_instruction p))"

definition matchesBaseItem :: "Pattern \<Rightarrow> AssemblyItem option \<Rightarrow> bool res" where
  "matchesBaseItem p item =
     (if p_type p = UndefinedItem then Inr True
      else case item of
          None \<Rightarrow> Inr False
        | Some i \<Rightarrow>
            (if p_type p \<noteq> m_type i then Inr False
             else if p_type p = Operation then Inr (p_instruction p = m_instruction i)
             else if p_requireDataMatch p then bindR (pattern_data p) (\<lambda>d. bindR (item_data i) (\<lambda>e. Inr (d = e)))
             else Inr True))"

definition matchGroupValue :: "Pattern \<Rightarrow> matchGroups \<Rightarrow> Expression res" where
  "matchGroupValue p groups =
     assertThrow (p_matchGroup p > 0) (OptimizerException [])
       (case groups (p_matchGroup p) of None \<Rightarrow> Inl (OptimizerException []) | Some e \<Rightarrow> Inr e)"

definition pattern_id :: "Pattern \<Rightarrow> matchGroups \<Rightarrow> Id res" where
  "pattern_id p groups = bindR (matchGroupValue p groups) (\<lambda>e. Inr (e_id e))"

text \<open>The data of a matched constant; \<open>DevException\<close> also stands for the missing item.\<close>

definition pattern_d :: "Pattern \<Rightarrow> matchGroups \<Rightarrow> u256 res" where
  "pattern_d p groups =
     bindR (matchGroupValue p groups) (\<lambda>e. case e_item e of None \<Rightarrow> Inl DevException | Some i \<Rightarrow> item_data i)"

text \<open>The shared map of match groups is a state: a group is bound at its first occurrence.\<close>

definition bindGroup :: "nat \<Rightarrow> Expression \<Rightarrow> matchGroups \<Rightarrow> bool \<times> matchGroups" where
  "bindGroup k expr groups =
     (if k \<noteq> 0 then (case groups k of None \<Rightarrow> (True, groups(k \<mapsto> expr)) | Some e \<Rightarrow> (e_id e = e_id expr, groups))
      else (True, groups))"

fun pattern_matches :: "Pattern \<Rightarrow> Expression \<Rightarrow> Expression list \<Rightarrow> matchGroups \<Rightarrow> (bool \<times> matchGroups) res"
  and patterns_match :: "Pattern list \<Rightarrow> Id list \<Rightarrow> Expression list \<Rightarrow> matchGroups \<Rightarrow> (bool \<times> matchGroups) res" where
  "pattern_matches (Pattern t req ins dat pargs k) expr reps groups =
     bindR (matchesBaseItem (Pattern t req ins dat pargs k) (e_item expr)) (\<lambda>base.
       if \<not> base then Inr (False, groups)
       else (case bindGroup k expr groups of (ok, groups') \<Rightarrow>
         if \<not> ok then Inr (False, groups')
         else assertThrow (length pargs = 0 \<or> length (e_arguments expr) = length pargs) (OptimizerException [])
           (patterns_match pargs (e_arguments expr) reps groups')))"
| "patterns_match [] ids reps groups = Inr (True, groups)"
| "patterns_match (p # ps) (i # ids) reps groups =
     bindR (representative reps i) (\<lambda>e.
       bindR (pattern_matches p e reps groups) (\<lambda>(ok, groups').
         if ok then patterns_match ps ids reps groups' else Inr (False, groups')))"
| "patterns_match (p # ps) [] reps groups = Inl OutOfRange"

definition pattern_toAssemblyItem :: "Pattern \<Rightarrow> SourceLocation \<Rightarrow> AssemblyItem res" where
  "pattern_toAssemblyItem p loc =
     (if p_type p = Operation then Inr (opItem (p_instruction p) loc)
      else bindR (pattern_data p) (\<lambda>d. Inr (mkItem (p_type p) d loc)))"

section \<open>The list of rules\<close>

type_synonym action = "matchGroups \<Rightarrow> Pattern res"

record SimplificationRule =
  r_pattern :: Pattern
  r_action :: action
  r_removesNonConstants :: bool

definition mkRule :: "Pattern \<Rightarrow> action \<Rightarrow> bool \<Rightarrow> SimplificationRule" where
  "mkRule p a r = \<lparr>r_pattern = p, r_action = a, r_removesNonConstants = r\<rparr>"

text \<open>Actions: a fixed pattern, or one computed from the data of one, two or three matched constants.\<close>

definition constAct :: "Pattern \<Rightarrow> action" where
  "constAct p = (\<lambda>groups. Inr p)"

definition act1 :: "Pattern \<Rightarrow> (u256 \<Rightarrow> Pattern) \<Rightarrow> action" where
  "act1 A f = (\<lambda>groups. bindR (pattern_d A groups) (\<lambda>a. Inr (f a)))"

definition act2 :: "Pattern \<Rightarrow> Pattern \<Rightarrow> (u256 \<Rightarrow> u256 \<Rightarrow> Pattern) \<Rightarrow> action" where
  "act2 A B f = (\<lambda>groups. bindR (pattern_d A groups) (\<lambda>a. bindR (pattern_d B groups) (\<lambda>b. Inr (f a b))))"

definition act3 :: "Pattern \<Rightarrow> Pattern \<Rightarrow> Pattern \<Rightarrow> (u256 \<Rightarrow> u256 \<Rightarrow> u256 \<Rightarrow> Pattern) \<Rightarrow> action" where
  "act3 A B C f = (\<lambda>groups. bindR (pattern_d A groups) (\<lambda>a. bindR (pattern_d B groups) (\<lambda>b.
     bindR (pattern_d C groups) (\<lambda>c. Inr (f a b c)))))"

definition divWorkaround :: "u256 \<Rightarrow> u256 \<Rightarrow> u256" where
  "divWorkaround a b = word_of_int (uint a div uint b)"

definition modWorkaround :: "u256 \<Rightarrow> u256 \<Rightarrow> u256" where
  "modWorkaround a b = word_of_int (uint a mod uint b)"

text \<open>The instances at \<open>s256\<close>, where the division of \<open>bigint\<close> rounds towards zero.\<close>

definition divWorkaround_s :: "int \<Rightarrow> int \<Rightarrow> int" where
  "divWorkaround_s a b = a sdiv b"

definition modWorkaround_s :: "int \<Rightarrow> int \<Rightarrow> int" where
  "modWorkaround_s a b = a smod b"

text \<open>\<open>boost::multiprecision::powm\<close>, by squaring.\<close>

fun powm :: "int \<Rightarrow> nat \<Rightarrow> int \<Rightarrow> int" where
  "powm a n m =
     (if n = 0 then 1 mod m
      else let h = powm (a * a mod m) (n div 2) m in if odd n then a * h mod m else h)"

declare powm.simps [simp del]

definition foldByte :: "u256 \<Rightarrow> u256 \<Rightarrow> u256" where
  "foldByte a b = (if a \<ge> 32 then 0 else and (drop_bit (unat (8 * (31 - a))) b) 0xff)"

definition foldSignextend :: "u256 \<Rightarrow> u256 \<Rightarrow> u256" where
  "foldSignextend a b =
     (if a \<ge> 31 then b
      else let testBit = unat a * 8 + 7; mask = push_bit testBit 1 - 1
        in if bit b testBit then or b (not mask) else and b mask)"

definition constantRules :: "Pattern \<Rightarrow> Pattern \<Rightarrow> Pattern \<Rightarrow> SimplificationRule list" where
  "constantRules A B C =
   [mkRule (opP ADD [A, B]) (act2 A B (\<lambda>a b. valP (a + b))) False,
    mkRule (opP MUL [A, B]) (act2 A B (\<lambda>a b. valP (a * b))) False,
    mkRule (opP SUB [A, B]) (act2 A B (\<lambda>a b. valP (a - b))) False,
    mkRule (opP DIV [A, B]) (act2 A B (\<lambda>a b. valP (if b = 0 then 0 else divWorkaround a b))) False,
    mkRule (opP SDIV [A, B]) (act2 A B (\<lambda>a b. valP (if b = 0 then 0 else s2u (divWorkaround_s (u2s a) (u2s b))))) False,
    mkRule (opP MOD [A, B]) (act2 A B (\<lambda>a b. valP (if b = 0 then 0 else modWorkaround a b))) False,
    mkRule (opP SMOD [A, B]) (act2 A B (\<lambda>a b. valP (if b = 0 then 0 else s2u (modWorkaround_s (u2s a) (u2s b))))) False,
    mkRule (opP EXP [A, B]) (act2 A B (\<lambda>a b. valP (word_of_int (powm (uint a) (unat b) (2 ^ 256))))) False,
    mkRule (opP NOT [A]) (act1 A (\<lambda>a. valP (not a))) False,
    mkRule (opP LT [A, B]) (act2 A B (\<lambda>a b. valP (if a < b then 1 else 0))) False,
    mkRule (opP GT [A, B]) (act2 A B (\<lambda>a b. valP (if a > b then 1 else 0))) False,
    mkRule (opP SLT [A, B]) (act2 A B (\<lambda>a b. valP (if u2s a < u2s b then 1 else 0))) False,
    mkRule (opP SGT [A, B]) (act2 A B (\<lambda>a b. valP (if u2s a > u2s b then 1 else 0))) False,
    mkRule (opP EQ [A, B]) (act2 A B (\<lambda>a b. valP (if a = b then 1 else 0))) False,
    mkRule (opP ISZERO [A]) (act1 A (\<lambda>a. valP (if a = 0 then 1 else 0))) False,
    mkRule (opP AND [A, B]) (act2 A B (\<lambda>a b. valP (and a b))) False,
    mkRule (opP OR [A, B]) (act2 A B (\<lambda>a b. valP (or a b))) False,
    mkRule (opP XOR [A, B]) (act2 A B (\<lambda>a b. valP (xor a b))) False,
    mkRule (opP BYTE [A, B]) (act2 A B (\<lambda>a b. valP (foldByte a b))) False,
    mkRule (opP ADDMOD [A, B, C])
      (act3 A B C (\<lambda>a b c. valP (if c = 0 then 0 else word_of_int ((uint a + uint b) mod uint c)))) False,
    mkRule (opP MULMOD [A, B, C])
      (act3 A B C (\<lambda>a b c. valP (if c = 0 then 0 else word_of_int ((uint a * uint b) mod uint c)))) False,
    mkRule (opP MULMOD [A, B, C]) (act2 A B (\<lambda>a b. valP (a * b))) False,
    mkRule (opP SIGNEXTEND [A, B]) (act2 A B (\<lambda>a b. valP (foldSignextend a b))) False,
    mkRule (opP SHL [A, B])
      (act2 A B (\<lambda>a b. valP (if a > 255 then 0 else word_of_int (push_bit (unat a) (uint b))))) False,
    mkRule (opP SHR [A, B]) (act2 A B (\<lambda>a b. valP (if a > 255 then 0 else drop_bit (unat a) b))) False]"

definition neutralRules :: "Pattern \<Rightarrow> SimplificationRule list" where
  "neutralRules X =
   [mkRule (opP ADD [X, valP 0]) (constAct X) False,
    mkRule (opP ADD [valP 0, X]) (constAct X) False,
    mkRule (opP SUB [X, valP 0]) (constAct X) False,
    mkRule (opP MUL [X, valP 0]) (constAct (valP 0)) True,
    mkRule (opP MUL [valP 0, X]) (constAct (valP 0)) True,
    mkRule (opP MUL [X, valP 1]) (constAct X) False,
    mkRule (opP MUL [valP 1, X]) (constAct X) False,
    mkRule (opP MUL [X, valP (- 1)]) (constAct (opP SUB [valP 0, X])) False,
    mkRule (opP MUL [valP (- 1), X]) (constAct (opP SUB [valP 0, X])) False,
    mkRule (opP DIV [X, valP 0]) (constAct (valP 0)) True,
    mkRule (opP DIV [valP 0, X]) (constAct (valP 0)) True,
    mkRule (opP DIV [X, valP 1]) (constAct X) False,
    mkRule (opP SDIV [X, valP 0]) (constAct (valP 0)) True,
    mkRule (opP SDIV [valP 0, X]) (constAct (valP 0)) True,
    mkRule (opP SDIV [X, valP 1]) (constAct X) False,
    mkRule (opP AND [X, valP (not 0)]) (constAct X) False,
    mkRule (opP AND [valP (not 0), X]) (constAct X) False,
    mkRule (opP AND [X, valP 0]) (constAct (valP 0)) True,
    mkRule (opP AND [valP 0, X]) (constAct (valP 0)) True,
    mkRule (opP OR [X, valP 0]) (constAct X) False,
    mkRule (opP OR [valP 0, X]) (constAct X) False,
    mkRule (opP OR [X, valP (not 0)]) (constAct (valP (not 0))) True,
    mkRule (opP OR [valP (not 0), X]) (constAct (valP (not 0))) True,
    mkRule (opP XOR [X, valP 0]) (constAct X) False,
    mkRule (opP XOR [valP 0, X]) (constAct X) False,
    mkRule (opP MOD [X, valP 0]) (constAct (valP 0)) True,
    mkRule (opP MOD [valP 0, X]) (constAct (valP 0)) True,
    mkRule (opP EQ [X, valP 0]) (constAct (opP ISZERO [X])) False,
    mkRule (opP EQ [valP 0, X]) (constAct (opP ISZERO [X])) False]"

definition selfRules :: "Pattern \<Rightarrow> SimplificationRule list" where
  "selfRules X =
   [mkRule (opP AND [X, X]) (constAct X) True,
    mkRule (opP OR [X, X]) (constAct X) True,
    mkRule (opP XOR [X, X]) (constAct (valP 0)) True,
    mkRule (opP SUB [X, X]) (constAct (valP 0)) True,
    mkRule (opP EQ [X, X]) (constAct (valP 1)) True,
    mkRule (opP LT [X, X]) (constAct (valP 0)) True,
    mkRule (opP SLT [X, X]) (constAct (valP 0)) True,
    mkRule (opP GT [X, X]) (constAct (valP 0)) True,
    mkRule (opP SGT [X, X]) (constAct (valP 0)) True,
    mkRule (opP MOD [X, X]) (constAct (valP 0)) True]"

definition logicRules :: "Pattern \<Rightarrow> Pattern \<Rightarrow> SimplificationRule list" where
  "logicRules X Y =
   [mkRule (opP NOT [opP NOT [X]]) (constAct X) False,
    mkRule (opP XOR [X, opP XOR [X, Y]]) (constAct Y) True,
    mkRule (opP XOR [X, opP XOR [Y, X]]) (constAct Y) True,
    mkRule (opP XOR [opP XOR [X, Y], X]) (constAct Y) True,
    mkRule (opP XOR [opP XOR [Y, X], X]) (constAct Y) True,
    mkRule (opP OR [X, opP AND [X, Y]]) (constAct X) True,
    mkRule (opP OR [X, opP AND [Y, X]]) (constAct X) True,
    mkRule (opP OR [opP AND [X, Y], X]) (constAct X) True,
    mkRule (opP OR [opP AND [Y, X], X]) (constAct X) True,
    mkRule (opP AND [X, opP OR [X, Y]]) (constAct X) True,
    mkRule (opP AND [X, opP OR [Y, X]]) (constAct X) True,
    mkRule (opP AND [opP OR [X, Y], X]) (constAct X) True,
    mkRule (opP AND [opP OR [Y, X], X]) (constAct X) True,
    mkRule (opP AND [X, opP NOT [X]]) (constAct (valP 0)) True,
    mkRule (opP AND [opP NOT [X], X]) (constAct (valP 0)) True,
    mkRule (opP OR [X, opP NOT [X]]) (constAct (valP (not 0))) True,
    mkRule (opP OR [opP NOT [X], X]) (constAct (valP (not 0))) True]"

text \<open>MOD by a power of two.\<close>

definition modRules :: "Pattern \<Rightarrow> SimplificationRule list" where
  "modRules X =
     map (\<lambda>i. let value = push_bit i 1
       in mkRule (opP MOD [X, valP value]) (constAct (opP AND [X, valP (value - 1)])) False) [0..<256]"

text \<open>
  Masking an address to 160 bits. The initialiser \<open>{{op, mask}}\<close> of the arguments is the vector of the
  two patterns, since a number does not convert to a vector of patterns.
\<close>

definition maskRules :: "SimplificationRule list" where
  "maskRules =
     concat (map (\<lambda>op. let mask = push_bit 160 1 - 1
       in [mkRule (opP AND [opP op [], valP mask]) (constAct (opP op [])) False,
           mkRule (opP AND [valP mask, opP op []]) (constAct (opP op [])) False])
       [ADDRESS, CALLER, ORIGIN, COINBASE])"

definition booleanRules :: "Pattern \<Rightarrow> Pattern \<Rightarrow> SimplificationRule list" where
  "booleanRules X Y =
     map (\<lambda>op. mkRule (opP ISZERO [opP ISZERO [opP op [X, Y]]]) (constAct (opP op [X, Y])) False) [EQ, LT, SLT, GT, SGT]
     @ [mkRule (opP ISZERO [opP ISZERO [opP ISZERO [X]]]) (constAct (opP ISZERO [X])) False,
        mkRule (opP ISZERO [opP XOR [X, Y]]) (constAct (opP EQ [X, Y])) False]"

definition associativeRules :: "Pattern \<Rightarrow> Pattern \<Rightarrow> Pattern \<Rightarrow> Pattern \<Rightarrow> SimplificationRule list" where
  "associativeRules A B X Y =
     concat (map (\<lambda>(op, fn).
       concat (map (\<lambda>xa.
         [mkRule (opP op [opP op xa, B]) (act2 A B (\<lambda>a b. opP op [X, valP (fn a b)])) False,
          mkRule (opP op [opP op xa, Y]) (constAct (opP op [opP op [X, Y], A])) False,
          mkRule (opP op [B, opP op xa]) (act2 A B (\<lambda>a b. opP op [X, valP (fn a b)])) False,
          mkRule (opP op [Y, opP op xa]) (constAct (opP op [opP op [Y, X], A])) False])
         [[X, A], [A, X]]))
       [(ADD, plus), (MUL, times), (AND, and), (OR, or), (XOR, xor)])"

definition subtractionRules :: "Pattern \<Rightarrow> Pattern \<Rightarrow> Pattern \<Rightarrow> SimplificationRule list" where
  "subtractionRules A X Y =
   [mkRule (opP SUB [X, A]) (act1 A (\<lambda>a. opP ADD [X, valP (0 - a)])) False,
    mkRule (opP SUB [opP ADD [X, A], Y]) (constAct (opP ADD [opP SUB [X, Y], A])) False,
    mkRule (opP SUB [opP ADD [A, X], Y]) (constAct (opP ADD [opP SUB [X, Y], A])) False,
    mkRule (opP SUB [X, opP ADD [Y, A]]) (act1 A (\<lambda>a. opP ADD [opP SUB [X, Y], valP (0 - a)])) False,
    mkRule (opP SUB [X, opP ADD [A, Y]]) (act1 A (\<lambda>a. opP ADD [opP SUB [X, Y], valP (0 - a)])) False]"

definition simplificationRuleList ::
  "Pattern \<Rightarrow> Pattern \<Rightarrow> Pattern \<Rightarrow> Pattern \<Rightarrow> Pattern \<Rightarrow> SimplificationRule list" where
  "simplificationRuleList A B C X Y =
     (constantRules A B C @ neutralRules X @ selfRules X @ logicRules X Y) @ modRules X @ maskRules @ booleanRules X Y
     @ associativeRules A B X Y @ subtractionRules A X Y"

section \<open>The table of rules\<close>

definition pat_A :: Pattern where "pat_A = setMatchGroup 1 (typeP Push)"
definition pat_B :: Pattern where "pat_B = setMatchGroup 2 (typeP Push)"
definition pat_C :: Pattern where "pat_C = setMatchGroup 3 (typeP Push)"
definition pat_X :: Pattern where "pat_X = setMatchGroup 4 (typeP UndefinedItem)"
definition pat_Y :: Pattern where "pat_Y = setMatchGroup 5 (typeP UndefinedItem)"

type_synonym ruleTable = "Instruction \<Rightarrow> SimplificationRule list"

definition addRule :: "SimplificationRule \<Rightarrow> ruleTable \<Rightarrow> ruleTable res" where
  "addRule r t = bindR (pattern_instruction (r_pattern r)) (\<lambda>i. Inr (t(i := t i @ [r])))"

fun addRules :: "SimplificationRule list \<Rightarrow> ruleTable \<Rightarrow> ruleTable res" where
  "addRules [] t = Inr t"
| "addRules (r # rs) t = bindR (addRule r t) (addRules rs)"

definition Rules_init :: "ruleTable res" where
  "Rules_init = addRules (simplificationRuleList pat_A pat_B pat_C pat_X pat_Y) (\<lambda>i. [])"

text \<open>The loop of \<open>findFirstMatch\<close>; the match groups are reset before each rule.\<close>

fun firstMatch ::
  "SimplificationRule list \<Rightarrow> Expression \<Rightarrow> Expression list \<Rightarrow> (SimplificationRule \<times> matchGroups) option res" where
  "firstMatch [] expr reps = Inr None"
| "firstMatch (r # rs) expr reps =
     bindR (pattern_matches (r_pattern r) expr reps (\<lambda>k. None)) (\<lambda>(ok, groups).
       if ok then Inr (Some (r, groups)) else firstMatch rs expr reps)"

definition findFirstMatch ::
  "ruleTable \<Rightarrow> Expression \<Rightarrow> Expression list \<Rightarrow> (SimplificationRule \<times> matchGroups) option res" where
  "findFirstMatch rules expr reps =
     (case e_item expr of
        None \<Rightarrow> Inl (OptimizerException [])
      | Some i \<Rightarrow> bindR (item_instruction i) (\<lambda>ins. firstMatch (rules ins) expr reps))"

section \<open>Expression templates\<close>

datatype ExpressionTemplate = ExpressionTemplate
  (t_hasId: bool) (t_id: Id) (t_item: AssemblyItem) (t_arguments: "ExpressionTemplate list")

fun mkTemplate :: "Pattern \<Rightarrow> matchGroups \<Rightarrow> SourceLocation \<Rightarrow> ExpressionTemplate res"
  and mkTemplates :: "Pattern list \<Rightarrow> matchGroups \<Rightarrow> SourceLocation \<Rightarrow> ExpressionTemplate list res" where
  "mkTemplate (Pattern t req ins dat pargs k) groups loc =
     bindR
       (if k \<noteq> 0 then bindR (pattern_id (Pattern t req ins dat pargs k) groups) (\<lambda>i. Inr (True, i, mkItem UndefinedItem 0 noLocation))
        else bindR (pattern_toAssemblyItem (Pattern t req ins dat pargs k) loc) (\<lambda>it. Inr (False, - 1, it)))
       (\<lambda>(hasId, i, it). bindR (mkTemplates pargs groups loc) (\<lambda>ts. Inr (ExpressionTemplate hasId i it ts)))"
| "mkTemplates [] groups loc = Inr []"
| "mkTemplates (p # ps) groups loc =
     bindR (mkTemplate p groups loc) (\<lambda>t. bindR (mkTemplates ps groups loc) (\<lambda>ts. Inr (t # ts)))"

section \<open>Folding of constants\<close>

lemma powm_eq: "powm a n m = a ^ n mod m"
proof (induction a n m rule: powm.induct)
  case (1 a n m)
  show ?case
  proof (cases "n = 0")
    case False
    have n: "a ^ n = (if odd n then a else 1) * (a * a) ^ (n div 2)"
    proof -
      have "n = n mod 2 + 2 * (n div 2)" by simp
      then have "a ^ n = a ^ (n mod 2) * (a ^ 2) ^ (n div 2)" by (metis power_add power_mult)
      then show ?thesis by (auto simp: power2_eq_square mod_2_eq_odd)
    qed
    have "powm (a * a mod m) (n div 2) m = (a * a) ^ (n div 2) mod m"
      using "1.IH" [OF False] by (simp add: power_mod)
    then show ?thesis
      by (subst powm.simps) (simp add: False n mod_mult_right_eq)
  qed (simp add: powm.simps)
qed

lemma powm_u256: "(word_of_int (powm (uint a) n (2 ^ 256)) :: u256) = a ^ n"
proof -
  have "(word_of_int (take_bit 256 (uint a ^ n)) :: u256) = word_of_int (uint a ^ n)"
    unfolding word_of_int_eq_iff by simp
  then show ?thesis by (simp only: powm_eq take_bit_eq_mod [symmetric] of_int_power word_of_int_uint)
qed

lemma foldByte_eq: "foldByte a b = (if a \<ge> 32 then 0 else take_bit 8 (drop_bit (8 * (31 - unat a)) b))"
proof (cases "a \<ge> 32")
  case False
  then have "unat a < 32" by (simp add: word_le_nat_alt)
  then have "unat (8 * (31 - a)) = 8 * (31 - unat a)"
    by (simp add: unat_word_ariths unat_sub word_le_nat_alt)
  moreover have "(0xff :: u256) = mask 8" by (simp add: mask_eq_exp_minus_1)
  ultimately show ?thesis using False by (simp add: foldByte_def take_bit_eq_mask)
qed (simp add: foldByte_def)

lemma foldSignextend_eq:
  "foldSignextend a b = (if a \<ge> 31 then b else signed_take_bit (8 * unat a + 7) b)"
proof (cases "a \<ge> 31")
  case False
  have "(push_bit (unat a * 8 + 7) 1 - 1 :: u256) = mask (8 * unat a + 7)"
    by (simp add: mask_eq_exp_minus_1 push_bit_eq_mult mult.commute)
  with False show ?thesis
    by (simp add: foldSignextend_def signed_take_bit_def take_bit_eq_mask mult.commute Let_def)
      (auto intro!: bit_eqI simp: bit_simps)
qed (simp add: foldSignextend_def)

lemma shift_large:
  fixes a b :: u256
  assumes "255 < a"
  shows "push_bit (unat a) b = 0" "drop_bit (unat a) b = 0"
proof -
  have "256 \<le> unat a" using assms by (simp add: word_less_nat_alt)
  then show "push_bit (unat a) b = 0" "drop_bit (unat a) b = 0"
    by (auto intro!: bit_eqI simp: bit_simps dest: bit_imp_le_length)
qed

lemma push_bit_uint: "word_of_int (push_bit n (uint b)) = (push_bit n b :: u256)"
  by (rule bit_eqI) (auto simp: bit_simps)

lemma xor_eq_0: "xor a b = 0 \<longleftrightarrow> a = b" for a b :: u256
proof
  assume "xor a b = 0"
  moreover have "a = xor (xor a b) b" by (simp add: xor.assoc)
  ultimately show "a = b" by simp
qed simp

lemma mod_power_of_two: "and a (2 ^ i - 1) = a mod 2 ^ i" for a :: u256
  by (simp add: take_bit_eq_mod [symmetric] take_bit_eq_mask mask_eq_exp_minus_1)

lemma and_address_mask:
  fixes a :: u256
  assumes "a < 2 ^ 160"
  shows "and a (push_bit 160 1 - 1) = a" "and (push_bit 160 1 - 1) a = a"
proof -
  have "uint a < uint (2 ^ 160 :: u256)" using assms by (simp only: word_less_def)
  then have "a mod 2 ^ 160 = a" unfolding word_mod_def by (subst mod_pos_pos_trivial) simp_all
  then show "and a (push_bit 160 1 - 1) = a"
    using mod_power_of_two [of a 160] by simp
  then show "and (push_bit 160 1 - 1) a = a" by (simp add: and.commute)
qed

section \<open>The value of patterns and expressions\<close>

text \<open>
  The value of an operation: the arithmetic of the machine, and for every other instruction a
  parameter that may depend on the sequence number. Addresses have 160 bits and do not change.
\<close>

type_synonym opSem = "Instruction \<Rightarrow> 32 word \<Rightarrow> u256 list \<Rightarrow> u256"

definition opVal :: "opSem \<Rightarrow> Instruction \<Rightarrow> 32 word \<Rightarrow> u256 list \<Rightarrow> u256" where
  "opVal ext i q vs = (case evalArith i vs of Some v \<Rightarrow> v | None \<Rightarrow> ext i q vs)"

definition addressOps :: "Instruction set" where
  "addressOps = {ADDRESS, CALLER, ORIGIN, COINBASE}"

definition sem_ok :: "opSem \<Rightarrow> bool" where
  "sem_ok ext \<longleftrightarrow> (\<forall>op\<in>addressOps. ext op 0 [] < 2 ^ 160 \<and> (\<forall>q vs. ext op q vs = ext op 0 []))"

fun patVal :: "opSem \<Rightarrow> (nat \<Rightarrow> u256) \<Rightarrow> Pattern \<Rightarrow> u256" where
  "patVal ext \<nu> (Pattern t req ins dat pargs k) =
     (if k \<noteq> 0 then \<nu> k
      else if t = Operation then opVal ext ins 0 (map (patVal ext \<nu>) pargs)
      else (case dat of Some d \<Rightarrow> d | None \<Rightarrow> 0))"

definition exprVal :: "opSem \<Rightarrow> (Id \<Rightarrow> u256) \<Rightarrow> Expression \<Rightarrow> u256" where
  "exprVal ext val e =
     (case e_item e of
        None \<Rightarrow> val (e_id e)
      | Some i \<Rightarrow>
          (if m_type i = Operation then opVal ext (m_instruction i) (e_sequenceNumber e) (map val (e_arguments e))
           else if m_type i = Push then m_data i
           else val (e_id e)))"

text \<open>Every class has its position as its id, and its value is the value of its representative.\<close>

definition repOk :: "opSem \<Rightarrow> (Id \<Rightarrow> u256) \<Rightarrow> Expression \<Rightarrow> bool" where
  "repOk ext val e \<longleftrightarrow> val (e_id e) = exprVal ext val e"

definition repsOk :: "opSem \<Rightarrow> (Id \<Rightarrow> u256) \<Rightarrow> Expression list \<Rightarrow> bool" where
  "repsOk ext val reps \<longleftrightarrow> (\<forall>j < length reps. unat (e_id (reps ! j)) = j \<and> repOk ext val (reps ! j))"

definition groupVal :: "(Id \<Rightarrow> u256) \<Rightarrow> matchGroups \<Rightarrow> nat \<Rightarrow> u256" where
  "groupVal val groups k = (case groups k of Some e \<Rightarrow> val (e_id e) | None \<Rightarrow> 0)"

section \<open>Rules keep the value\<close>

lemma patVal_op [simp]: "patVal ext \<nu> (opP i as) = opVal ext i 0 (map (patVal ext \<nu>) as)"
  by (simp add: opP_def)

lemma patVal_simps [simp]:
  "patVal ext \<nu> (valP v) = v" "patVal ext \<nu> pat_A = \<nu> 1" "patVal ext \<nu> pat_B = \<nu> 2" "patVal ext \<nu> pat_C = \<nu> 3"
  "patVal ext \<nu> pat_X = \<nu> 4" "patVal ext \<nu> pat_Y = \<nu> 5"
  by (simp_all add: valP_def pat_A_def pat_B_def pat_C_def pat_X_def pat_Y_def setMatchGroup_def typeP_def)

lemma opVal_arith: "evalArith i vs = Some v \<Longrightarrow> opVal ext i q vs = v"
  by (simp add: opVal_def)

lemma opVal_simps [simp]:
  "opVal ext NOT q [a] = not a" "opVal ext ISZERO q [a] = boolWord (a = 0)"
  "opVal ext ADD q [a, b] = a + b" "opVal ext MUL q [a, b] = a * b" "opVal ext SUB q [a, b] = a - b"
  "opVal ext DIV q [a, b] = (if b = 0 then 0 else a div b)"
  "opVal ext SDIV q [a, b] = (if b = 0 then 0 else word_of_int (sint a sdiv sint b))"
  "opVal ext MOD q [a, b] = (if b = 0 then 0 else a mod b)"
  "opVal ext SMOD q [a, b] = (if b = 0 then 0 else word_of_int (sint a smod sint b))"
  "opVal ext EXP q [a, b] = a ^ unat b"
  "opVal ext SIGNEXTEND q [a, b] = (if a \<ge> 31 then b else signed_take_bit (8 * unat a + 7) b)"
  "opVal ext LT q [a, b] = boolWord (a < b)" "opVal ext GT q [a, b] = boolWord (a > b)"
  "opVal ext SLT q [a, b] = boolWord (sint a < sint b)" "opVal ext SGT q [a, b] = boolWord (sint a > sint b)"
  "opVal ext EQ q [a, b] = boolWord (a = b)"
  "opVal ext AND q [a, b] = and a b" "opVal ext OR q [a, b] = or a b" "opVal ext XOR q [a, b] = xor a b"
  "opVal ext BYTE q [a, b] = (if a \<ge> 32 then 0 else take_bit 8 (drop_bit (8 * (31 - unat a)) b))"
  "opVal ext SHL q [a, b] = push_bit (unat a) b" "opVal ext SHR q [a, b] = drop_bit (unat a) b"
  "opVal ext ADDMOD q [a, b, c] = (if c = 0 then 0 else word_of_int ((uint a + uint b) mod uint c))"
  "opVal ext MULMOD q [a, b, c] = (if c = 0 then 0 else word_of_int ((uint a * uint b) mod uint c))"
  by (rule opVal_arith, simp)+

lemma evalArith_None:
  assumes "op \<in> addressOps"
  shows "evalArith op vs = None"
proof -
  from assms consider "op = ADDRESS" | "op = CALLER" | "op = ORIGIN" | "op = COINBASE" by (auto simp: addressOps_def)
  then show ?thesis by cases (cases "(op, vs)" rule: evalArith.cases; simp)+
qed

lemma opVal_address [simp]: "op \<in> addressOps \<Longrightarrow> opVal ext op q vs = ext op q vs"
  by (simp add: opVal_def evalArith_None)

text \<open>A rule keeps the value when the constants it reads are the values of their groups.\<close>

definition dataOk :: "matchGroups \<Rightarrow> (nat \<Rightarrow> u256) \<Rightarrow> bool" where
  "dataOk groups \<nu> \<longleftrightarrow>
     (\<forall>p v. p_matchGroup p \<in> {1, 2, 3} \<longrightarrow> pattern_d p groups = Inr v \<longrightarrow> v = \<nu> (p_matchGroup p))"

definition ruleOk :: "opSem \<Rightarrow> SimplificationRule \<Rightarrow> bool" where
  "ruleOk ext r \<longleftrightarrow>
     (\<forall>\<nu> groups q. dataOk groups \<nu> \<longrightarrow> r_action r groups = Inr q \<longrightarrow> patVal ext \<nu> q = patVal ext \<nu> (r_pattern r))"

lemma matchGroup_simps [simp]:
  "p_matchGroup pat_A = 1" "p_matchGroup pat_B = 2" "p_matchGroup pat_C = 3" "p_matchGroup pat_X = 4" "p_matchGroup pat_Y = 5"
  by (simp_all add: pat_A_def pat_B_def pat_C_def pat_X_def pat_Y_def setMatchGroup_def)

lemma ruleOk_const: "(\<And>\<nu>. patVal ext \<nu> q = patVal ext \<nu> p) \<Longrightarrow> ruleOk ext (mkRule p (constAct q) b)"
  by (simp add: ruleOk_def mkRule_def constAct_def)

lemma dataOkD:
  "pattern_d p groups = Inr v \<Longrightarrow> dataOk groups \<nu> \<Longrightarrow> p_matchGroup p \<in> {1, 2, 3} \<Longrightarrow> v = \<nu> (p_matchGroup p)"
  unfolding dataOk_def by blast

lemma ruleOk_act1:
  "(\<And>\<nu>. patVal ext \<nu> (f (\<nu> 1)) = patVal ext \<nu> p) \<Longrightarrow> ruleOk ext (mkRule p (act1 pat_A f) b)"
  by (auto simp: ruleOk_def mkRule_def act1_def dest!: dataOkD)

lemma ruleOk_act2:
  "(\<And>\<nu>. patVal ext \<nu> (f (\<nu> 1) (\<nu> 2)) = patVal ext \<nu> p) \<Longrightarrow> ruleOk ext (mkRule p (act2 pat_A pat_B f) b)"
  by (auto simp: ruleOk_def mkRule_def act2_def dest!: dataOkD)

lemma ruleOk_act3:
  "(\<And>\<nu>. patVal ext \<nu> (f (\<nu> 1) (\<nu> 2) (\<nu> 3)) = patVal ext \<nu> p) \<Longrightarrow> ruleOk ext (mkRule p (act3 pat_A pat_B pat_C f) b)"
  by (auto simp: ruleOk_def mkRule_def act3_def dest!: dataOkD)

lemmas ruleOk_intros = ruleOk_const ruleOk_act1 ruleOk_act2 ruleOk_act3

text \<open>
  The second MULMOD rule, which multiplies without the modulus, is the only one that does not keep the
  value; the rule before it has the same pattern, so it is never reached.
\<close>

definition deadRule :: SimplificationRule where
  "deadRule = mkRule (opP MULMOD [pat_A, pat_B, pat_C]) (act2 pat_A pat_B (\<lambda>a b. valP (a * b))) False"

lemma constantRules_ok:
  "list_all (\<lambda>r. ruleOk ext r) (take 21 (constantRules pat_A pat_B pat_C) @ drop 22 (constantRules pat_A pat_B pat_C))"
  unfolding constantRules_def
  by (simp, intro conjI ruleOk_intros)
    (simp_all add: boolWord_def divWorkaround_def modWorkaround_def divWorkaround_s_def modWorkaround_s_def
      word_div_def word_mod_def s2u_eq u2s_eq_sint powm_u256 [simplified] foldByte_eq foldSignextend_eq shift_large push_bit_uint)

lemma constantRules_dead: "constantRules pat_A pat_B pat_C ! 21 = deadRule"
  by (simp add: constantRules_def deadRule_def)

lemma neutralRules_ok: "list_all (\<lambda>r. ruleOk ext r) (neutralRules pat_X)"
  unfolding neutralRules_def list.pred_inject
  by (intro conjI ruleOk_intros TrueI) (simp_all add: boolWord_def eq_commute [of 0])

lemma selfRules_ok: "list_all (\<lambda>r. ruleOk ext r) (selfRules pat_X)"
  unfolding selfRules_def list.pred_inject
  by (intro conjI ruleOk_intros TrueI) (simp_all add: boolWord_def)

lemma logicRules_ok: "list_all (\<lambda>r. ruleOk ext r) (logicRules pat_X pat_Y)"
  unfolding logicRules_def list.pred_inject
  by (intro conjI ruleOk_intros TrueI) (simp_all, (rule bit_eqI, auto simp: bit_simps)+)

lemma modRules_ok: "list_all (\<lambda>r. ruleOk ext r) (modRules pat_X)"
  unfolding modRules_def list_all_iff
  by (auto simp: Let_def mod_power_of_two intro!: ruleOk_intros)

lemma maskRules_ok: "sem_ok ext \<Longrightarrow> list_all (\<lambda>r. ruleOk ext r) maskRules"
  unfolding maskRules_def list_all_iff
  by (auto simp: Let_def sem_ok_def addressOps_def and_address_mask [simplified] intro!: ruleOk_intros)

lemma booleanRules_ok: "list_all (\<lambda>r. ruleOk ext r) (booleanRules pat_X pat_Y)"
  unfolding booleanRules_def list_all_iff
  by (auto simp: boolWord_def xor_eq_0 intro!: ruleOk_intros)

lemma associativeRules_ok: "list_all (\<lambda>r. ruleOk ext r) (associativeRules pat_A pat_B pat_X pat_Y)"
  unfolding associativeRules_def list_all_iff
  by (auto simp: ac_simps intro!: ruleOk_intros)

lemma subtractionRules_ok: "list_all (\<lambda>r. ruleOk ext r) (subtractionRules pat_A pat_X pat_Y)"
  unfolding subtractionRules_def list.pred_inject
  by (intro conjI ruleOk_intros TrueI) simp_all

section \<open>Matching\<close>

text \<open>The patterns that occur in the rules: groups, constants, address operations and arithmetic operations.\<close>

fun patOk :: "Pattern \<Rightarrow> bool" where
  "patOk (Pattern t req ins dat pargs k) \<longleftrightarrow>
     (if k \<noteq> 0 then pargs = [] \<and> t \<in> {Push, UndefinedItem} \<and> \<not> req \<and> (k \<in> {1, 2, 3} \<longrightarrow> t = Push)
      else if t = Operation then
        (if pargs = [] then ins \<in> addressOps
         else info_args (instructionInfo ins) = length pargs \<and>
           (\<forall>vs. length vs = length pargs \<longrightarrow> evalArith ins vs \<noteq> None) \<and> list_all patOk pargs)
      else t = Push \<and> req \<and> dat \<noteq> None \<and> pargs = [])"

definition groupsOk :: "opSem \<Rightarrow> (Id \<Rightarrow> u256) \<Rightarrow> matchGroups \<Rightarrow> bool" where
  "groupsOk ext val groups \<longleftrightarrow>
     (\<forall>k e. groups k = Some e \<longrightarrow>
        repOk ext val e \<and> (k \<in> {1, 2, 3} \<longrightarrow> (\<exists>i. e_item e = Some i \<and> m_type i = Push)))"

lemma groupsOk_empty [simp]: "groupsOk ext val (\<lambda>k. None)"
  by (simp add: groupsOk_def)

lemma groupsOk_dataOk: "groupsOk ext val groups \<Longrightarrow> dataOk groups (groupVal val groups)"
  unfolding dataOk_def
proof (intro allI impI)
  fix p v
  assume ok: "groupsOk ext val groups" and k: "p_matchGroup p \<in> {1, 2, 3}" and d: "pattern_d p groups = Inr v"
  from d obtain e where e: "groups (p_matchGroup p) = Some e"
    by (auto simp: pattern_d_def matchGroupValue_def split: option.splits)
  with ok k obtain i where i: "e_item e = Some i" "m_type i = Push" and rep: "repOk ext val e"
    by (auto simp: groupsOk_def)
  have "v = m_data i" using d e i by (auto simp: pattern_d_def matchGroupValue_def item_data_def)
  with rep i e show "v = groupVal val groups (p_matchGroup p)"
    by (simp add: groupVal_def repOk_def exprVal_def)
qed

lemma bindGroup_ok:
  assumes "bindGroup k e groups = (True, groups')" "groupsOk ext val groups" "k \<noteq> 0 \<longrightarrow> repOk ext val e"
    and "k \<in> {1, 2, 3} \<longrightarrow> (\<exists>i. e_item e = Some i \<and> m_type i = Push)"
  shows "groupsOk ext val groups'" "groups \<subseteq>\<^sub>m groups'"
    and "k \<noteq> 0 \<Longrightarrow> groups' \<subseteq>\<^sub>m h \<Longrightarrow> groupVal val h k = exprVal ext val e"
proof -
  show "groupsOk ext val groups'" "groups \<subseteq>\<^sub>m groups'"
    using assms by (auto simp: bindGroup_def groupsOk_def map_le_def dom_def split: if_splits option.splits)
  assume k: "k \<noteq> 0" and h: "groups' \<subseteq>\<^sub>m h"
  with assms(1) obtain e' where "groups' k = Some e'" "e_id e' = e_id e"
    by (auto simp: bindGroup_def split: if_splits option.splits)
  moreover from this h have "h k = Some e'" by (metis map_le_def domI)
  ultimately show "groupVal val h k = exprVal ext val e"
    using assms(3) k by (simp add: groupVal_def repOk_def)
qed

lemma representative_ok:
  assumes "repsOk ext val reps" "representative reps i = Inr e"
  shows "repOk ext val e" "e_id e = i" "val i = exprVal ext val e"
proof -
  from assms show "repOk ext val e" by (auto simp: representative_def repsOk_def split: if_splits)
  from assms have "unat (e_id e) = unat i" by (auto simp: representative_def repsOk_def split: if_splits)
  then show "e_id e = i" by (simp only: word_unat_eq_iff)
  with \<open>repOk ext val e\<close> show "val i = exprVal ext val e" by (simp add: repOk_def)
qed

lemma matchesBaseItem_op:
  "matchesBaseItem (Pattern Operation req ins dat pargs k) it = Inr True \<Longrightarrow>
     \<exists>i. it = Some i \<and> m_type i = Operation \<and> m_instruction i = ins"
  by (auto simp: matchesBaseItem_def split: option.splits if_splits)

lemma matchesBaseItem_push:
  "matchesBaseItem (Pattern Push req ins dat pargs k) it = Inr True \<Longrightarrow>
     \<exists>i. it = Some i \<and> m_type i = Push \<and> (req \<longrightarrow> dat = Some (m_data i))"
  by (auto simp: matchesBaseItem_def pattern_data_def item_data_def split: option.splits if_splits)

text \<open>
  A pattern that matches has the value of the expression, under every extension of the bound groups.
\<close>

lemma matches_sound:
  assumes reps: "repsOk ext val reps" and sem: "sem_ok ext"
  shows "pattern_matches p e reps groups = Inr (True, groups') \<Longrightarrow> patOk p \<Longrightarrow> groupsOk ext val groups \<Longrightarrow>
      (p_matchGroup p \<noteq> 0 \<longrightarrow> repOk ext val e) \<Longrightarrow>
      groupsOk ext val groups' \<and> groups \<subseteq>\<^sub>m groups' \<and>
      (\<forall>h. groups' \<subseteq>\<^sub>m h \<longrightarrow> patVal ext (groupVal val h) p = exprVal ext val e)"
    and "patterns_match ps ids reps groups = Inr (True, groups') \<Longrightarrow> list_all patOk ps \<Longrightarrow> groupsOk ext val groups \<Longrightarrow>
      length ids = length ps \<Longrightarrow>
      groupsOk ext val groups' \<and> groups \<subseteq>\<^sub>m groups' \<and>
      (\<forall>h. groups' \<subseteq>\<^sub>m h \<longrightarrow> map (patVal ext (groupVal val h)) ps = map val ids)"
  using reps
proof (induction p e reps groups and ps ids reps groups arbitrary: groups' and groups'
    rule: pattern_matches_patterns_match.induct)
  case (1 t req ins dat pargs k e reps groups)
  then obtain g1 where base: "matchesBaseItem (Pattern t req ins dat pargs k) (e_item e) = Inr True"
    and bind: "bindGroup k e groups = (True, g1)"
    and len: "pargs = [] \<or> length (e_arguments e) = length pargs"
    and rest: "patterns_match pargs (e_arguments e) reps g1 = Inr (True, groups')"
    by (auto split: if_splits prod.splits)
  have push: "k \<in> {1, 2, 3} \<longrightarrow> (\<exists>i. e_item e = Some i \<and> m_type i = Push)"
  proof
    assume "k \<in> {1, 2, 3}"
    with "1.prems"(2) have "t = Push" by auto
    with base show "\<exists>i. e_item e = Some i \<and> m_type i = Push" using matchesBaseItem_push by blast
  qed
  have rep: "k \<noteq> 0 \<longrightarrow> repOk ext val e" using "1.prems"(4) by simp
  note bound = bindGroup_ok [OF bind "1.prems"(3) rep push]
  show ?case
  proof (cases "pargs = []")
    case True
    with rest have g1: "groups' = g1" by simp
    have "patVal ext (groupVal val h) (Pattern t req ins dat pargs k) = exprVal ext val e" if "groups' \<subseteq>\<^sub>m h" for h
    proof (cases "k = 0")
      case False
      then show ?thesis using bound(3) that g1 by simp
    next
      case k: True
      show ?thesis
      proof (cases "t = Operation")
        case op: True
        with "1.prems"(2) k True have "ins \<in> addressOps" by simp
        moreover from base op obtain i where "e_item e = Some i" "m_type i = Operation" "m_instruction i = ins"
          using matchesBaseItem_op by blast
        moreover have "ext ins (e_sequenceNumber e) (map val (e_arguments e)) = ext ins 0 []"
          using sem \<open>ins \<in> addressOps\<close> unfolding sem_ok_def by blast
        ultimately show ?thesis using k True op by (simp add: exprVal_def)
      next
        case False
        with "1.prems"(2) k have tp: "t = Push" "req" by auto
        with base obtain i where "e_item e = Some i" "m_type i = Push" "dat = Some (m_data i)"
          using matchesBaseItem_push by blast
        then show ?thesis using k tp by (simp add: exprVal_def)
      qed
    qed
    with bound g1 show ?thesis by blast
  next
    case False
    with "1.prems"(2) have k: "k = 0" and op: "t = Operation" and ok: "list_all patOk pargs"
      and arith: "\<And>vs. length vs = length pargs \<Longrightarrow> evalArith ins vs \<noteq> None"
      by (auto split: if_splits)
    have "length (e_arguments e) = length pargs" using len False by simp
    moreover have "\<not> length pargs = 0" using False by simp
    ultimately have IH: "groupsOk ext val groups'" "g1 \<subseteq>\<^sub>m groups'"
      "\<And>h. groups' \<subseteq>\<^sub>m h \<Longrightarrow> map (patVal ext (groupVal val h)) pargs = map val (e_arguments e)"
      using "1.IH" [OF _ bind [symmetric] _ rest ok bound(1) _ "1.prems"(5), of True] by auto
    from base op obtain i where i: "e_item e = Some i" "m_type i = Operation" "m_instruction i = ins"
      using matchesBaseItem_op by blast
    have "patVal ext (groupVal val h) (Pattern t req ins dat pargs k) = exprVal ext val e" if "groups' \<subseteq>\<^sub>m h" for h
    proof -
      from arith [of "map val (e_arguments e)"] \<open>length (e_arguments e) = length pargs\<close>
      obtain v where "evalArith ins (map val (e_arguments e)) = Some v" by auto
      then show ?thesis using IH(3) [OF that] k op i by (simp add: exprVal_def opVal_arith)
    qed
    with IH bound(2) show ?thesis using map_le_trans by blast
  qed
next
  case (3 p ps i ids reps groups)
  from "3.prems"(1) obtain e g1 where e: "representative reps i = Inr e"
    and m: "pattern_matches p e reps groups = Inr (True, g1)" and ms: "patterns_match ps ids reps g1 = Inr (True, groups')"
    by (auto split: if_splits)
  note rep = representative_ok [OF "3.prems"(5) e]
  from "3.IH"(1) [OF m _ _ _ "3.prems"(5)] "3.prems" rep(1)
  have A: "groupsOk ext val g1" "groups \<subseteq>\<^sub>m g1" "\<And>h. g1 \<subseteq>\<^sub>m h \<Longrightarrow> patVal ext (groupVal val h) p = exprVal ext val e"
    by simp_all
  from "3.IH"(2) [OF TrueI ms _ A(1) _ "3.prems"(5)] "3.prems"
  have B: "groupsOk ext val groups'" "g1 \<subseteq>\<^sub>m groups'"
    "\<And>h. groups' \<subseteq>\<^sub>m h \<Longrightarrow> map (patVal ext (groupVal val h)) ps = map val ids"
    by simp_all
  show ?case using A B rep(3) by (auto intro: map_le_trans)
qed auto

section \<open>The first match\<close>

lemma firstMatch_found:
  "firstMatch rs e reps = Inr (Some (r, groups)) \<Longrightarrow>
     r \<in> set rs \<and> pattern_matches (r_pattern r) e reps (\<lambda>k. None) = Inr (True, groups)"
  by (induction rs) (auto split: if_splits)

text \<open>A rule right after a rule with the same pattern is never found.\<close>

lemma firstMatch_shadowed:
  "r_pattern a = r_pattern b \<Longrightarrow> firstMatch (xs @ a # b # ys) e reps = firstMatch (xs @ a # ys) e reps"
proof (induction xs)
  case Nil
  then show ?case by (cases "pattern_matches (r_pattern a) e reps (\<lambda>k. None)") (auto split: prod.splits)
qed (auto simp: bindR_def split: sum.splits prod.splits)

definition liveRules :: "SimplificationRule list" where
  "liveRules = take 21 (constantRules pat_A pat_B pat_C) @ drop 22 (constantRules pat_A pat_B pat_C)
     @ neutralRules pat_X @ selfRules pat_X @ logicRules pat_X pat_Y @ modRules pat_X @ maskRules
     @ booleanRules pat_X pat_Y @ associativeRules pat_A pat_B pat_X pat_Y @ subtractionRules pat_A pat_X pat_Y"

lemma liveRules_ok: "sem_ok ext \<Longrightarrow> r \<in> set liveRules \<Longrightarrow> ruleOk ext r"
  using constantRules_ok [of ext] neutralRules_ok [of ext] selfRules_ok [of ext] logicRules_ok [of ext]
    modRules_ok [of ext] maskRules_ok [of ext] booleanRules_ok [of ext] associativeRules_ok [of ext]
    subtractionRules_ok [of ext]
  unfolding liveRules_def list_all_iff set_append by blast

text \<open>The shape of every pattern is checked over the list.\<close>

lemma length_Suc_0_2_3:
  "length vs = Suc 0 \<longleftrightarrow> (\<exists>a. vs = [a])" "length vs = 2 \<longleftrightarrow> (\<exists>a b. vs = [a, b])"
  "length vs = 3 \<longleftrightarrow> (\<exists>a b c. vs = [a, b, c])"
  by (auto simp: numeral_2_eq_2 numeral_3_eq_3 length_Suc_conv)

lemma arity1: "i \<in> {NOT, ISZERO} \<Longrightarrow> length vs = Suc 0 \<Longrightarrow> evalArith i vs \<noteq> None"
  unfolding length_Suc_0_2_3 by auto

lemma arity2:
  assumes "i \<in> {ADD, MUL, SUB, DIV, SDIV, MOD, SMOD, EXP, SIGNEXTEND, LT, GT, SLT, SGT, EQ, AND, OR, XOR, BYTE, SHL, SHR}"
    and "length vs = 2"
  shows "evalArith i vs \<noteq> None"
proof -
  from assms(2) obtain a b where "vs = [a, b]" unfolding length_Suc_0_2_3 by blast
  with assms(1) show ?thesis by (simp, elim disjE) simp_all
qed

lemma arity3: "i \<in> {ADDMOD, MULMOD} \<Longrightarrow> length vs = 3 \<Longrightarrow> evalArith i vs \<noteq> None"
  unfolding length_Suc_0_2_3 by auto

lemma arity_table:
  "map (\<lambda>i. info_args (instructionInfo i)) [NOT, ISZERO] = replicate 2 1"
  "map (\<lambda>i. info_args (instructionInfo i))
     [ADD, MUL, SUB, DIV, SDIV, MOD, SMOD, EXP, SIGNEXTEND, LT, GT, SLT, SGT, EQ, AND, OR, XOR, BYTE, SHL, SHR] = replicate 20 2"
  "map (\<lambda>i. info_args (instructionInfo i)) [ADDMOD, MULMOD] = replicate 2 3"
  by code_simp+

lemma info_args_arith [simp]:
  "info_args (instructionInfo NOT) = 1" "info_args (instructionInfo ISZERO) = 1"
  "info_args (instructionInfo ADD) = 2" "info_args (instructionInfo MUL) = 2" "info_args (instructionInfo SUB) = 2"
  "info_args (instructionInfo DIV) = 2" "info_args (instructionInfo SDIV) = 2" "info_args (instructionInfo MOD) = 2"
  "info_args (instructionInfo SMOD) = 2" "info_args (instructionInfo EXP) = 2" "info_args (instructionInfo SIGNEXTEND) = 2"
  "info_args (instructionInfo LT) = 2" "info_args (instructionInfo GT) = 2" "info_args (instructionInfo SLT) = 2"
  "info_args (instructionInfo SGT) = 2" "info_args (instructionInfo EQ) = 2" "info_args (instructionInfo AND) = 2"
  "info_args (instructionInfo OR) = 2" "info_args (instructionInfo XOR) = 2" "info_args (instructionInfo BYTE) = 2"
  "info_args (instructionInfo SHL) = 2" "info_args (instructionInfo SHR) = 2"
  "info_args (instructionInfo ADDMOD) = 3" "info_args (instructionInfo MULMOD) = 3"
  using arity_table by (simp_all add: numeral_eq_Suc)

lemma patOk_groups [simp]: "patOk pat_A" "patOk pat_B" "patOk pat_C" "patOk pat_X" "patOk pat_Y" "patOk (valP v)"
  by (simp_all add: pat_A_def pat_B_def pat_C_def pat_X_def pat_Y_def valP_def setMatchGroup_def typeP_def)

lemma patOk_address [simp]: "op \<in> addressOps \<Longrightarrow> patOk (opP op [])"
  by (simp add: opP_def)

lemma patOk_op1 [simp]: "i \<in> {NOT, ISZERO} \<Longrightarrow> patOk (opP i [p]) = patOk p"
  using arity1 by (auto simp: opP_def)

lemma patOk_op2 [simp]:
  assumes "i \<in> {ADD, MUL, SUB, DIV, SDIV, MOD, SMOD, EXP, SIGNEXTEND, LT, GT, SLT, SGT, EQ, AND, OR, XOR, BYTE, SHL, SHR}"
  shows "patOk (opP i [p, q]) \<longleftrightarrow> patOk p \<and> patOk q"
proof -
  have "info_args (instructionInfo i) = 2" using assms by (simp, elim disjE) simp_all
  with arity2 [OF assms] show ?thesis by (simp add: opP_def numeral_2_eq_2)
qed

lemma patOk_op3 [simp]: "i \<in> {ADDMOD, MULMOD} \<Longrightarrow> patOk (opP i [p, q, r]) \<longleftrightarrow> patOk p \<and> patOk q \<and> patOk r"
  using arity3 by (auto simp: opP_def numeral_3_eq_3)

definition rulePatOk :: "SimplificationRule \<Rightarrow> bool" where
  "rulePatOk r \<longleftrightarrow> patOk (r_pattern r) \<and> p_matchGroup (r_pattern r) = 0 \<and> p_type (r_pattern r) = Operation"

lemma rulePatOk_mkRule: "rulePatOk (mkRule (opP i as) a b) \<longleftrightarrow> patOk (opP i as)"
  by (simp add: rulePatOk_def mkRule_def opP_def)

lemma simplificationRuleList_patterns:
  "list_all rulePatOk (simplificationRuleList pat_A pat_B pat_C pat_X pat_Y)"
  unfolding simplificationRuleList_def constantRules_def neutralRules_def selfRules_def logicRules_def modRules_def
    maskRules_def booleanRules_def associativeRules_def subtractionRules_def
  by (simp add: rulePatOk_mkRule list_all_iff Let_def addressOps_def)

lemma addRules_ok:
  "list_all rulePatOk rs \<Longrightarrow> addRules rs t = Inr (\<lambda>i. t i @ filter (\<lambda>r. p_instruction (r_pattern r) = i) rs)"
  by (induction rs arbitrary: t)
    (auto simp: addRule_def rulePatOk_def pattern_instruction_def fun_eq_iff)

abbreviation "ruleList \<equiv> simplificationRuleList pat_A pat_B pat_C pat_X pat_Y"

text \<open>The table holds the rules of the list by the instruction of their pattern, in the same order.\<close>

lemma Rules_init_eq: "Rules_init = Inr (\<lambda>i. filter (\<lambda>r. p_instruction (r_pattern r) = i) ruleList)"
  unfolding Rules_init_def using addRules_ok [OF simplificationRuleList_patterns] by simp

lemma constantRules_split:
  "constantRules pat_A pat_B pat_C =
     take 20 (constantRules pat_A pat_B pat_C) @ constantRules pat_A pat_B pat_C ! 20 # deadRule
       # drop 22 (constantRules pat_A pat_B pat_C)"
  by (simp add: constantRules_def deadRule_def)

lemma constantRules_shadow: "r_pattern (constantRules pat_A pat_B pat_C ! 20) = r_pattern deadRule"
  by (simp add: constantRules_def deadRule_def mkRule_def)

lemma ruleList_split:
  "\<exists>xs a ys. ruleList = xs @ a # deadRule # ys \<and> liveRules = xs @ a # ys \<and> r_pattern a = r_pattern deadRule"
proof -
  let ?C = "constantRules pat_A pat_B pat_C"
  have "take 21 ?C = take 20 ?C @ [?C ! 20]" by (simp add: constantRules_def)
  then have "liveRules = take 20 ?C @ ?C ! 20 # drop 22 ?C
     @ neutralRules pat_X @ selfRules pat_X @ logicRules pat_X pat_Y @ modRules pat_X @ maskRules
     @ booleanRules pat_X pat_Y @ associativeRules pat_A pat_B pat_X pat_Y @ subtractionRules pat_A pat_X pat_Y"
    by (simp add: liveRules_def)
  moreover have "ruleList = take 20 ?C @ ?C ! 20 # deadRule # drop 22 ?C
     @ neutralRules pat_X @ selfRules pat_X @ logicRules pat_X pat_Y @ modRules pat_X @ maskRules
     @ booleanRules pat_X pat_Y @ associativeRules pat_A pat_B pat_X pat_Y @ subtractionRules pat_A pat_X pat_Y"
    unfolding simplificationRuleList_def by (subst constantRules_split) simp
  ultimately show ?thesis using constantRules_shadow by blast
qed

lemma firstMatch_live:
  "firstMatch (filter (\<lambda>r. p_instruction (r_pattern r) = i) ruleList) e reps =
   firstMatch (filter (\<lambda>r. p_instruction (r_pattern r) = i) liveRules) e reps"
proof -
  from ruleList_split obtain xs a ys where all: "ruleList = xs @ a # deadRule # ys" and live: "liveRules = xs @ a # ys"
    and same: "r_pattern a = r_pattern deadRule" by blast
  show ?thesis unfolding all live using same firstMatch_shadowed [OF same] by simp
qed

lemma liveRules_subset: "set liveRules \<subseteq> set ruleList"
proof -
  from ruleList_split obtain xs a ys where all: "ruleList = xs @ a # deadRule # ys" and live: "liveRules = xs @ a # ys" by blast
  show ?thesis unfolding all live by auto
qed

text \<open>The rule that is found, applied to its groups, has the value of the expression.\<close>

lemma findFirstMatch_sound:
  assumes reps: "repsOk ext val reps" and sem: "sem_ok ext" and init: "Rules_init = Inr table"
    and found: "findFirstMatch table e reps = Inr (Some (r, groups))" and act: "r_action r groups = Inr q"
  shows "patVal ext (groupVal val groups) q = exprVal ext val e"
proof -
  obtain i where "firstMatch (filter (\<lambda>r. p_instruction (r_pattern r) = i) ruleList) e reps = Inr (Some (r, groups))"
    using found init unfolding Rules_init_eq findFirstMatch_def by (auto split: option.splits)
  then have r: "r \<in> set liveRules" and m: "pattern_matches (r_pattern r) e reps (\<lambda>k. None) = Inr (True, groups)"
    unfolding firstMatch_live by (auto dest: firstMatch_found)
  have "rulePatOk r" using r liveRules_subset simplificationRuleList_patterns by (auto simp: list_all_iff)
  with matches_sound(1) [OF reps sem m] have ok: "groupsOk ext val groups"
    and eq: "patVal ext (groupVal val groups) (r_pattern r) = exprVal ext val e"
    by (simp_all add: rulePatOk_def)
  from liveRules_ok [OF sem r] act groupsOk_dataOk [OF ok] eq show ?thesis by (simp add: ruleOk_def)
qed

section \<open>Matching does not fail\<close>

definition exprWf :: "Expression list \<Rightarrow> Expression \<Rightarrow> bool" where
  "exprWf reps e \<longleftrightarrow>
     (\<forall>i\<in>set (e_arguments e). unat i < length reps) \<and>
     (\<forall>i. e_item e = Some i \<longrightarrow> m_type i = Operation \<longrightarrow> length (e_arguments e) = info_args (instructionInfo (m_instruction i)))"

lemma matchesBaseItem_total: "patOk p \<Longrightarrow> \<exists>b. matchesBaseItem p it = Inr b"
  by (cases p) (auto simp: matchesBaseItem_def pattern_data_def item_data_def assertThrow_def split: option.splits if_splits)

lemma matches_total:
  assumes reps: "list_all (exprWf reps) reps"
  shows "patOk p \<Longrightarrow> exprWf reps e \<Longrightarrow> \<exists>b g'. pattern_matches p e reps g = Inr (b, g')"
    and "list_all patOk ps \<Longrightarrow> length ids = length ps \<or> ps = [] \<Longrightarrow> \<forall>i\<in>set ids. unat i < length reps \<Longrightarrow>
      \<exists>b g'. patterns_match ps ids reps g = Inr (b, g')"
  using reps
proof (induction p e reps g and ps ids reps g rule: pattern_matches_patterns_match.induct)
  case (1 t req ins dat pargs k e reps groups)
  from "1.prems"(1) obtain b where base: "matchesBaseItem (Pattern t req ins dat pargs k) (e_item e) = Inr b"
    using matchesBaseItem_total by blast
  obtain ok g1 where bind: "bindGroup k e groups = (ok, g1)" by fastforce
  show ?case
  proof (cases "b \<and> ok")
    case False
    then show ?thesis using base bind by auto
  next
    case True
    with base have base: "matchesBaseItem (Pattern t req ins dat pargs k) (e_item e) = Inr True" by simp
    have len: "pargs = [] \<or> length (e_arguments e) = length pargs"
    proof (cases "pargs = []")
      case False
      with "1.prems"(1) have t: "t = Operation" "info_args (instructionInfo ins) = length pargs"
        by (auto split: if_splits)
      with base "1.prems"(2) show ?thesis using matchesBaseItem_op unfolding exprWf_def by metis
    qed simp
    have args: "list_all patOk pargs" using "1.prems"(1) by (auto split: if_splits)
    from "1.IH" [of True, OF _ bind [symmetric]] True len args "1.prems"
    have "\<exists>b g'. patterns_match pargs (e_arguments e) reps g1 = Inr (b, g')"
      by (auto simp: exprWf_def assertThrow_def)
    then show ?thesis using base bind True len by auto
  qed
next
  case (3 p ps i ids reps groups)
  have i: "representative reps i = Inr (reps ! unat i)" "unat i < length reps"
    using "3.prems"(3) by (simp_all add: representative_def)
  then have "exprWf reps (reps ! unat i)" using "3.prems"(4) by (simp add: list_all_length)
  with "3.IH"(1) "3.prems" obtain b g' where m: "pattern_matches p (reps ! unat i) reps groups = Inr (b, g')"
    by fastforce
  show ?case
  proof (cases b)
    case True
    from "3.IH"(2) [OF TrueI, of g'] "3.prems" obtain b2 g2 where "patterns_match ps ids reps g' = Inr (b2, g2)" by auto
    with True m i show ?thesis by auto
  next
    case False
    then show ?thesis using m i by auto
  qed
qed auto

lemma firstMatch_total:
  "list_all rulePatOk rs \<Longrightarrow> list_all (exprWf reps) reps \<Longrightarrow> exprWf reps e \<Longrightarrow> \<exists>m. firstMatch rs e reps = Inr m"
proof (induction rs)
  case (Cons r rs)
  with matches_total(1) [of reps "r_pattern r" e "\<lambda>k. None"] obtain b g'
    where "pattern_matches (r_pattern r) e reps (\<lambda>k. None) = Inr (b, g')" by (auto simp: rulePatOk_def)
  with Cons show ?case by (cases b) auto
qed simp

lemma findFirstMatch_total:
  assumes "Rules_init = Inr table" "list_all (exprWf reps) reps" "exprWf reps e"
    and "e_item e = Some i" "m_type i = Operation"
  shows "\<exists>m. findFirstMatch table e reps = Inr m"
proof -
  have "list_all rulePatOk (table (m_instruction i))"
    using assms(1) simplificationRuleList_patterns unfolding Rules_init_eq by (auto simp: list_all_iff)
  with firstMatch_total [OF this assms(2,3)] assms(4,5) show ?thesis
    by (simp add: findFirstMatch_def item_instruction_def)
qed

end
