(* ===== verification/GasMeter.thy ===== *)
theory GasMeter
  imports SemanticInfo
begin

text \<open>
  Model of libsolidity/interface/EVMVersion.h, of the gas constants of libevmasm/GasMeter.h, and of the
  parts of GasMeter.cpp that do not look at the known state: the sum of gas consumptions and the
  gas of instructions with a constant price.
\<close>

section \<open>EVM versions\<close>

datatype EVMVersion = Homestead | TangerineWhistle | SpuriousDragon | Byzantium | Constantinople

fun versionIndex :: "EVMVersion \<Rightarrow> nat" where
  "versionIndex Homestead = 0"
| "versionIndex TangerineWhistle = 1"
| "versionIndex SpuriousDragon = 2"
| "versionIndex Byzantium = 3"
| "versionIndex Constantinople = 4"

lemma versionIndex_inject [simp]: "versionIndex a = versionIndex b \<longleftrightarrow> a = b"
  by (cases a; cases b) simp_all

instantiation EVMVersion :: linorder
begin

definition less_eq_EVMVersion :: "EVMVersion \<Rightarrow> EVMVersion \<Rightarrow> bool" where
  "less_eq_EVMVersion a b \<longleftrightarrow> versionIndex a \<le> versionIndex b"

definition less_EVMVersion :: "EVMVersion \<Rightarrow> EVMVersion \<Rightarrow> bool" where
  "less_EVMVersion a b \<longleftrightarrow> versionIndex a < versionIndex b"

instance
  by standard (auto simp: less_eq_EVMVersion_def less_EVMVersion_def)

end

fun version_name :: "EVMVersion \<Rightarrow> string" where
  "version_name Homestead = ''homestead''"
| "version_name TangerineWhistle = ''tangerineWhistle''"
| "version_name SpuriousDragon = ''spuriousDragon''"
| "version_name Byzantium = ''byzantium''"
| "version_name Constantinople = ''constantinople''"

definition version_fromString :: "string \<Rightarrow> EVMVersion option" where
  "version_fromString version =
     find (\<lambda>v. version = version_name v) [Homestead, TangerineWhistle, SpuriousDragon, Byzantium, Constantinople]"

definition supportsReturndata :: "EVMVersion \<Rightarrow> bool" where
  "supportsReturndata v \<longleftrightarrow> v \<ge> Byzantium"

definition hasStaticCall :: "EVMVersion \<Rightarrow> bool" where
  "hasStaticCall v \<longleftrightarrow> v \<ge> Byzantium"

definition hasBitwiseShifting :: "EVMVersion \<Rightarrow> bool" where
  "hasBitwiseShifting v \<longleftrightarrow> v \<ge> Constantinople"

definition canOverchargeGasForCall :: "EVMVersion \<Rightarrow> bool" where
  "canOverchargeGasForCall v \<longleftrightarrow> v \<ge> TangerineWhistle"

lemma version_fromString_name: "version_fromString s = Some v \<longleftrightarrow> s = version_name v"
  by (cases v) (auto simp: version_fromString_def)

section \<open>Gas costs\<close>

definition extCodeGas :: "EVMVersion \<Rightarrow> nat" where
  "extCodeGas v = (if v \<ge> TangerineWhistle then 700 else 20)"

definition balanceGas :: "EVMVersion \<Rightarrow> nat" where
  "balanceGas v = (if v \<ge> TangerineWhistle then 400 else 20)"

definition expByteGas :: "EVMVersion \<Rightarrow> nat" where
  "expByteGas v = (if v \<ge> SpuriousDragon then 50 else 10)"

definition sloadGas :: "EVMVersion \<Rightarrow> nat" where
  "sloadGas v = (if v \<ge> TangerineWhistle then 200 else 50)"

definition callGas :: "EVMVersion \<Rightarrow> nat" where
  "callGas v = (if v \<ge> TangerineWhistle then 700 else 40)"

definition selfdestructGas :: "EVMVersion \<Rightarrow> nat" where
  "selfdestructGas v = (if v \<ge> TangerineWhistle then 5000 else 0)"

definition expGas :: nat where "expGas = 10"
definition copyGas :: nat where "copyGas = 3"
definition createDataGas :: nat where "createDataGas = 200"
definition txDataZeroGas :: nat where "txDataZeroGas = 4"
definition txDataNonZeroGas :: nat where "txDataNonZeroGas = 68"

definition runGas :: "Instruction \<Rightarrow> nat res" where
  "runGas i =
     (if i = JUMPDEST then Inr 1
      else case info_gasPriceTier (instructionInfo i) of
          TierZero \<Rightarrow> Inr 0
        | TierBase \<Rightarrow> Inr 2
        | TierVeryLow \<Rightarrow> Inr 3
        | TierLow \<Rightarrow> Inr 5
        | TierMid \<Rightarrow> Inr 8
        | TierHigh \<Rightarrow> Inr 10
        | TierExt \<Rightarrow> Inr 20
        | _ \<Rightarrow> Inl (OptimizerException (''Invalid gas tier for instruction '' @ info_name (instructionInfo i))))"

section \<open>Gas consumption\<close>

record GasConsumption =
  gas_value :: u256
  gas_isInfinite :: bool

definition gas_infinite :: GasConsumption where
  "gas_infinite = \<lparr>gas_value = 0, gas_isInfinite = True\<rparr>"

definition mkGas :: "u256 \<Rightarrow> GasConsumption" where
  "mkGas v = \<lparr>gas_value = v, gas_isInfinite = False\<rparr>"

text \<open>\<open>operator+=\<close>, with the sum computed as \<open>bigint\<close>.\<close>

definition gas_add :: "GasConsumption \<Rightarrow> GasConsumption \<Rightarrow> GasConsumption" where
  "gas_add this other =
     (let this = (if gas_isInfinite other \<and> \<not> gas_isInfinite this then gas_infinite else this)
      in if gas_isInfinite this then this
         else (let v = uint (gas_value this) + uint (gas_value other)
               in if v > uint (- 1 :: u256) then gas_infinite else this\<lparr>gas_value := word_of_int v\<rparr>))"

definition gas_less :: "GasConsumption \<Rightarrow> GasConsumption \<Rightarrow> bool" where
  "gas_less a b \<longleftrightarrow>
     (if gas_isInfinite a \<noteq> gas_isInfinite b then \<not> gas_isInfinite a else gas_value a < gas_value b)"

text \<open>The abstract amount of gas: a number below \<open>2 ^ 256\<close>, or none for infinite gas.\<close>

definition gas_amount :: "GasConsumption \<Rightarrow> nat option" where
  "gas_amount g = (if gas_isInfinite g then None else Some (unat (gas_value g)))"

fun amount_add :: "nat option \<Rightarrow> nat option \<Rightarrow> nat option" where
  "amount_add (Some a) (Some b) = (if a + b < 2 ^ 256 then Some (a + b) else None)"
| "amount_add _ _ = None"

lemma max_u256: "uint (- 1 :: u256) = 2 ^ 256 - 1"
  by (simp add: unsigned_minus_1_eq_mask mask_eq_exp_minus_1)

lemma gas_add_amount: "gas_amount (gas_add a b) = amount_add (gas_amount a) (gas_amount b)"
proof (cases "gas_isInfinite a \<or> gas_isInfinite b")
  case True
  then show ?thesis by (auto simp: gas_add_def gas_amount_def gas_infinite_def Let_def)
next
  case False
  let ?s = "uint (gas_value a) + uint (gas_value b)"
  have nat: "nat ?s = unat (gas_value a) + unat (gas_value b)" "0 \<le> ?s" by (simp_all add: nat_add_distrib)
  have le: "?s > uint (- 1 :: u256) \<longleftrightarrow> \<not> unat (gas_value a) + unat (gas_value b) < 2 ^ 256"
  proof -
    have eq: "?s = int (unat (gas_value a) + unat (gas_value b))" using nat by linarith
    have "int k - 1 < int m \<longleftrightarrow> \<not> m < k" for k m :: nat by linarith
    from this [of "2 ^ 256" "unat (gas_value a) + unat (gas_value b)"] show ?thesis
      unfolding max_u256 eq of_nat_power of_nat_numeral .
  qed
  have add: "gas_add a b = (if ?s > uint (- 1 :: u256) then gas_infinite else a\<lparr>gas_value := gas_value a + gas_value b\<rparr>)"
    using False by (simp add: gas_add_def Let_def)
  have amounts: "gas_amount a = Some (unat (gas_value a))" "gas_amount b = Some (unat (gas_value b))"
    using False by (simp_all add: gas_amount_def)
  show ?thesis
  proof (cases "unat (gas_value a) + unat (gas_value b) < 2 ^ 256")
    case True
    then have "unat (gas_value a + gas_value b) = unat (gas_value a) + unat (gas_value b)"
      by (subst unat_add_lem [symmetric]) simp
    with True le False show ?thesis unfolding add amounts by (simp add: gas_amount_def)
  next
    case large: False
    with le show ?thesis unfolding add amounts by (simp add: gas_amount_def gas_infinite_def)
  qed
qed

lemma amount_add_assoc: "amount_add (amount_add a b) c = amount_add a (amount_add b c)"
  by (cases a; cases b; cases c) auto

lemma amount_add_commute: "amount_add a b = amount_add b a"
  by (cases a; cases b) auto

text \<open>Adding gas never makes the estimate smaller.\<close>

definition amount_le :: "nat option \<Rightarrow> nat option \<Rightarrow> bool" where
  "amount_le a b = (case b of None \<Rightarrow> True | Some n \<Rightarrow> (case a of None \<Rightarrow> False | Some m \<Rightarrow> m \<le> n))"

lemma amount_le_add: "amount_le a (amount_add a b)"
  by (cases a; cases b) (auto simp: amount_le_def)

text \<open>The instructions without a constant price are those of the special tiers and the invalid ones.\<close>

lemma runGas_total:
  "(\<exists>g. runGas i = Inr g) \<longleftrightarrow> i = JUMPDEST \<or> info_gasPriceTier (instructionInfo i) \<notin> {TierExtCode, TierBalance, TierSpecial, TierInvalid}"
  by (auto simp: runGas_def split: Tier.split)

end
