(* ===== verification/ConstantOptimiser.thy ===== *)
theory ConstantOptimiser
  imports Evm GasMeter
begin

text \<open>
  Model of libevmasm/ConstantOptimiser.cpp: the gas of the three ways to represent a constant, the
  search for a routine that computes it, the check of that routine, and the replacement of constants.
  The search is shown to return for every constant, with a routine that passes the check and that
  pushes the constant when it runs on the machine.
\<close>

section \<open>Gas\<close>

record Params =
  isCreation :: bool
  runs :: nat
  multiplicity :: nat
  evmVersion :: EVMVersion

fun simpleRunGas :: "AssemblyItems \<Rightarrow> nat res" where
  "simpleRunGas [] = Inr 0"
| "simpleRunGas (item # items) =
     bindR
       (if m_type item = Push then runGas PUSH1
        else if m_type item = Operation then
          (if m_instruction item = EXP then Inr expGas else runGas (m_instruction item))
        else Inr 0)
       (\<lambda>g. bindR (simpleRunGas items) (\<lambda>gs. Inr (g + gs)))"

definition dataSize :: "u256 \<Rightarrow> nat" where
  "dataSize v = max 1 (bytesRequired (unat v))"

text \<open>Outside of creation the gas depends on the constant itself and not on the data given.\<close>

definition dataGas :: "Params \<Rightarrow> u256 \<Rightarrow> bytes \<Rightarrow> nat" where
  "dataGas ps v d =
     (if isCreation ps then sum_list (map (\<lambda>b. if b \<noteq> 0 then txDataNonZeroGas else txDataZeroGas) d)
      else createDataGas * dataSize v)"

definition literalDataGas :: "Params \<Rightarrow> u256 \<Rightarrow> nat" where
  "literalDataGas ps v = dataGas ps v (toCompactBigEndian (unat v) 1)"

definition combineGas :: "Params \<Rightarrow> nat \<Rightarrow> nat \<Rightarrow> nat \<Rightarrow> nat" where
  "combineGas ps runG repeatedDataG uniqueDataG = runs ps * runG + multiplicity ps * repeatedDataG + uniqueDataG"

definition byteGas :: "Params \<Rightarrow> nat" where
  "byteGas ps = (if isCreation ps then txDataNonZeroGas else createDataGas)"

definition literal_gasNeeded :: "Params \<Rightarrow> u256 \<Rightarrow> nat res" where
  "literal_gasNeeded ps v =
     bindR (simpleRunGas [opItem PUSH1 noLocation]) (\<lambda>g. Inr (combineGas ps g (byteGas ps + literalDataGas ps v) 0))"

definition copyRoutine :: AssemblyItems where
  "copyRoutine =
     [pushItem 0, opItem DUP1 noLocation, opItem MLOAD noLocation, pushItem 32,
      mkItem PushData (push_bit 16 1) noLocation, opItem DUP4 noLocation, opItem CODECOPY noLocation,
      opItem DUP2 noLocation, opItem MLOAD noLocation, opItem SWAP2 noLocation, opItem MSTORE noLocation]"

definition copy_gasNeeded :: "Params \<Rightarrow> u256 \<Rightarrow> nat res" where
  "copy_gasNeeded ps v =
     bindR (simpleRunGas copyRoutine) (\<lambda>g. bindR (itemsBytesRequired copyRoutine 3) (\<lambda>n.
       Inr (combineGas ps (g + copyGas) (n * byteGas ps) (dataGas ps v (toBigEndian_u256 v)))))"

text \<open>\<open>execute\<close> stores the constant as data of the assembly; \<open>keccak\<close> is \<open>dev::keccak256\<close>.\<close>

type_synonym dataMap = "(u256 \<times> bytes) list"

definition copy_execute :: "(bytes \<Rightarrow> u256) \<Rightarrow> u256 \<Rightarrow> dataMap \<Rightarrow> AssemblyItems \<times> dataMap" where
  "copy_execute keccak v dat =
     (let d = toBigEndian_u256 v; h = keccak d
      in (copyRoutine[4 := mkItem PushData h noLocation], omap_put h d dat))"

definition compute_gasNeeded :: "Params \<Rightarrow> AssemblyItems \<Rightarrow> nat res" where
  "compute_gasNeeded ps routine =
     (let numExps = length (filter (isOp EXP) routine)
      in bindR (simpleRunGas routine) (\<lambda>g. bindR (itemsBytesRequired routine 3) (\<lambda>n.
           Inr (combineGas ps (g + numExps * (expGas + expByteGas (evmVersion ps))) (n * byteGas ps) 0))))"

section \<open>The search for a routine\<close>

text \<open>
  The decomposition of a value into \<open>upper * 2 ^ bits + lower\<close>, where \<open>lower\<close> is made negative when
  that is nearer.
\<close>

definition lowerPart :: "u256 \<Rightarrow> nat \<Rightarrow> int" where
  "lowerPart v bits =
     (let low = uint (and v (push_bit bits 1 - 1))
      in if 2 ^ bits - low < low then low - 2 ^ bits else low)"

definition upperPart :: "u256 \<Rightarrow> nat \<Rightarrow> u256" where
  "upperPart v bits =
     (let low = uint (and v (push_bit bits 1 - 1)); up = drop_bit bits v
      in if 2 ^ bits - low < low then up + 1 else up)"

definition gapDetector :: "u256 \<Rightarrow> nat \<Rightarrow> u256" where
  "gapDetector v bits = and (drop_bit (bits - 8) v) 0x1ff"

definition skipBits :: "u256 \<Rightarrow> nat \<Rightarrow> bool" where
  "skipBits v bits \<longleftrightarrow>
     gapDetector v bits \<noteq> 0xff \<and> gapDetector v bits \<noteq> 0x100 \<or> upperPart v bits = 0 \<or>
     \<bar>lowerPart v bits\<bar> \<ge> drop_bit 8 (2 ^ bits)"

lemma low_bits: "uint (and v (push_bit bits 1 - 1 :: u256)) = uint v mod 2 ^ bits"
proof -
  have "(push_bit bits 1 - 1 :: u256) = mask bits" by (simp add: mask_eq_exp_minus_1)
  then have "and v (push_bit bits 1 - 1) = take_bit bits v" by (simp only: take_bit_eq_mask)
  then have "uint (and v (push_bit bits 1 - 1)) = take_bit bits (uint v)" by (simp only: unsigned_take_bit_eq)
  then show ?thesis by (simp only: take_bit_eq_mod)
qed

lemma upper_bits: "uint (drop_bit bits v) = uint v div 2 ^ bits" for v :: u256
proof -
  have "uint (drop_bit bits v) = drop_bit bits (take_bit LENGTH(256) (uint v))" by (rule unsigned_drop_bit_eq)
  also have "take_bit LENGTH(256) (uint v) = uint v"
    using unsigned_less [of v, where ?'a = int] by (intro take_bit_int_eq_self) simp_all
  finally show ?thesis by (simp only: drop_bit_eq_div)
qed

lemma uint_large: "\<not> v < 0x10000 \<Longrightarrow> 0x10000 \<le> uint v" for v :: u256
  by (simp add: word_less_def)

text \<open>The two parts are smaller than the value, and compose to it.\<close>

lemma lowerPart_smaller:
  assumes v: "\<not> v < 0x10000" and bits: "8 < bits" and skip: "\<not> skipBits v bits"
  shows "\<bar>lowerPart v bits\<bar> < uint v"
proof (cases "2 ^ bits - uint v mod 2 ^ bits < uint v mod 2 ^ bits")
  case True
  then have "lowerPart v bits = uint v mod 2 ^ bits - 2 ^ bits" unfolding lowerPart_def low_bits by (simp add: Let_def)
  moreover have "uint v mod 2 ^ bits < 2 ^ bits" by simp
  moreover have "uint v mod 2 ^ bits \<le> uint v" by (rule zmod_le_nonneg_dividend) simp
  ultimately show ?thesis using True by linarith
next
  case False
  then have low: "lowerPart v bits = uint v mod 2 ^ bits" and up: "upperPart v bits = drop_bit bits v"
    unfolding lowerPart_def upperPart_def low_bits by (simp_all add: Let_def)
  have "drop_bit bits v \<noteq> 0" using skip up unfolding skipBits_def by metis
  then have "uint v div 2 ^ bits \<noteq> 0" by (metis upper_bits unsigned_eq_0_iff)
  then have "2 ^ bits \<le> uint v" by (metis div_pos_pos_trivial not_le unsigned_greater_eq)
  moreover have "uint v mod 2 ^ bits < 2 ^ bits" by simp
  moreover have "0 \<le> uint v mod 2 ^ bits" by simp
  ultimately show ?thesis unfolding low by linarith
qed

lemma upperPart_uint:
  assumes v: "\<not> v < 0x10000" and bits: "8 < bits"
  shows "uint (upperPart v bits) \<le> uint v div 2 ^ bits + 1 \<and> uint v div 2 ^ bits + 1 < uint v"
proof -
  have big: "0x10000 \<le> uint v" by (rule uint_large [OF v])
  have "(2 :: int) \<le> 2 ^ bits" using bits self_le_power [of "2 :: int" bits] by simp
  then have "uint v div 2 ^ bits \<le> uint v div 2" using big by (intro zdiv_mono2) simp_all
  then have small: "uint v div 2 ^ bits + 1 < uint v" using big by linarith
  then have "uint (drop_bit bits v) + 1 < 2 ^ 256" unfolding upper_bits using unsigned_less [of v, where ?'a = int] by simp
  then have "uint (drop_bit bits v + 1) = uint v div 2 ^ bits + 1"
    unfolding upper_bits [symmetric] by (simp add: uint_word_ariths del: drop_bit_eq_div)
  with small show ?thesis unfolding upperPart_def Let_def using upper_bits [of bits v] by auto
qed

lemma parts_smaller:
  assumes "\<not> v < 0x10000" "8 < bits" "\<not> skipBits v bits"
  shows "unat (word_of_int \<bar>lowerPart v bits\<bar> :: u256) < unat v" "unat (upperPart v bits) < unat v"
proof -
  have "\<bar>lowerPart v bits\<bar> < 2 ^ 256"
    using lowerPart_smaller [OF assms] unsigned_less [of v, where ?'a = int] by simp
  then have "uint (word_of_int \<bar>lowerPart v bits\<bar> :: u256) = \<bar>lowerPart v bits\<bar>"
    by (simp add: uint_word_of_int)
  with lowerPart_smaller [OF assms] show "unat (word_of_int \<bar>lowerPart v bits\<bar> :: u256) < unat v"
    by (simp only: word_less_nat_alt [symmetric] word_less_def)
  have "uint (upperPart v bits) < uint v" using upperPart_uint [OF assms(1,2)] by linarith
  then show "unat (upperPart v bits) < unat v" by (simp only: word_less_nat_alt [symmetric] word_less_def)
qed

lemma parts_compose: "upperPart v bits * 2 ^ bits + word_of_int (lowerPart v bits) = v"
proof -
  have "drop_bit bits v * 2 ^ bits + word_of_int (uint v mod 2 ^ bits) = word_of_int (uint v div 2 ^ bits * 2 ^ bits + uint v mod 2 ^ bits)"
    by (simp flip: upper_bits)
  also have "\<dots> = v" by (simp only: div_mult_mod_eq word_of_int_uint)
  finally have "drop_bit bits v * 2 ^ bits + word_of_int (uint v mod 2 ^ bits) = v" .
  then show ?thesis unfolding lowerPart_def upperPart_def Let_def low_bits by (simp add: distrib_right)
qed

text \<open>A loop over a list of numbers that stops when its condition fails.\<close>

fun forLoop :: "('s \<Rightarrow> bool) \<Rightarrow> (nat \<Rightarrow> 's \<Rightarrow> 's res) \<Rightarrow> nat list \<Rightarrow> 's \<Rightarrow> 's res" where
  "forLoop c body [] s = Inr s"
| "forLoop c body (b # bs) s = (if c s then bindR (body b s) (forLoop c body bs) else Inr s)"

lemma forLoop_body_cong:
  "(\<And>b s. b \<in> set bs \<Longrightarrow> body b s = body' b s) \<Longrightarrow> forLoop c body bs s = forLoop c body' bs s"
proof (induction bs arbitrary: s)
  case (Cons b bs)
  then have "forLoop c body bs = forLoop c body' bs" by (simp add: fun_eq_iff)
  with Cons.prems show ?case by simp
qed simp

lemma forLoop_cong [fundef_cong]:
  assumes "c = c'" "bs = bs'" "s = s'" "\<And>b s. b \<in> set bs' \<Longrightarrow> body b s = body' b s"
  shows "forLoop c body bs s = forLoop c' body' bs' s'"
  unfolding assms(1-3) by (rule forLoop_body_cong) (rule assms(4))

declare bindR_cong [fundef_cong]

lemma forLoop_invariant:
  assumes "\<And>b s. b \<in> set bs \<Longrightarrow> I s \<Longrightarrow> \<exists>s'. body b s = Inr s' \<and> I s'" "I s"
  shows "\<exists>s'. forLoop c body bs s = Inr s' \<and> I s'"
  using assms
proof (induction bs arbitrary: s)
  case (Cons b bs)
  from Cons.prems obtain s1 where s1: "body b s = Inr s1" "I s1" by (metis list.set_intros(1))
  with Cons.IH [of s1] Cons.prems(1) obtain s' where "forLoop c body bs s1 = Inr s'" "I s'" by auto
  with s1 Cons.prems(2) show ?case by (cases "c s") auto
qed simp

text \<open>
  \<open>findRepresentation\<close>; the counter \<open>m_maxSteps\<close> is threaded through the recursive calls. The routine
  found for the parts of the value and the new routine it gives are named apart.
\<close>

definition composeRoutine :: "u256 \<Rightarrow> nat \<Rightarrow> AssemblyItems \<Rightarrow> AssemblyItems \<Rightarrow> AssemblyItems" where
  "composeRoutine v bits low up =
     low @ [pushItem (word_of_nat bits), pushItem 2, opItem EXP noLocation] @ up @
     (if lowerPart v bits > 0 then [opItem ADD noLocation]
      else if lowerPart v bits < 0 then [opItem SUB noLocation] else [])"

definition bitRange :: "nat list" where
  "bitRange = rev [9..<256]"

lemma bitRange_mem: "b \<in> set bitRange \<longleftrightarrow> 8 < b \<and> b < 256"
  unfolding bitRange_def set_rev set_upt by auto

function findRepresentation :: "Params \<Rightarrow> u256 \<Rightarrow> nat \<Rightarrow> (AssemblyItems \<times> nat) res" where
  "findRepresentation ps v maxSteps =
     (if v < 0x10000 then Inr ([pushItem v], maxSteps)
      else if bytesRequired (unat (not v)) < bytesRequired (unat v) then
        bindR (findRepresentation ps (not v) maxSteps) (\<lambda>(r, maxSteps). Inr (r @ [opItem NOT noLocation], maxSteps))
      else
        bindR (compute_gasNeeded ps [pushItem v]) (\<lambda>bestGas.
        bindR
          (forLoop (\<lambda>(maxSteps, routine, bestGas). maxSteps > 0)
            (\<lambda>bits (maxSteps, routine, bestGas).
               if skipBits v bits then Inr (maxSteps, routine, bestGas)
               else
                 bindR (if lowerPart v bits \<noteq> 0 then findRepresentation ps (word_of_int \<bar>lowerPart v bits\<bar>) maxSteps
                        else Inr ([], maxSteps)) (\<lambda>(low, maxSteps).
                 bindR (if upperPart v bits \<noteq> 1 then
                          bindR (findRepresentation ps (upperPart v bits) maxSteps) (\<lambda>(r, maxSteps).
                            Inr (r @ [opItem MUL noLocation], maxSteps))
                        else Inr ([], maxSteps)) (\<lambda>(up, maxSteps).
                 bindR (compute_gasNeeded ps (composeRoutine v bits low up)) (\<lambda>newGas.
                   if newGas < bestGas then Inr (maxSteps - 1, composeRoutine v bits low up, newGas)
                   else Inr (maxSteps - 1, routine, bestGas)))))
            bitRange (maxSteps, [pushItem v], bestGas))
          (\<lambda>(maxSteps, routine, bestGas). Inr (routine, maxSteps))))"
  by pat_completeness auto
termination
proof (relation "measure (\<lambda>(ps, v, maxSteps). unat v)", goal_cases)
  case 2
  then show ?case by (auto dest: bytesRequired_less_imp)
next
  case 3
  then show ?case using parts_smaller(1) by (auto simp: bitRange_mem)
next
  case 4
  then show ?case using parts_smaller(2) by (auto simp: bitRange_mem)
qed simp

declare findRepresentation.simps [simp del]

section \<open>The check of a routine\<close>

text \<open>The stack is a list with its top first; \<open>None\<close> is the early return of \<open>false\<close>.\<close>

definition checkOp :: "Instruction \<Rightarrow> u256 list \<Rightarrow> u256 list option" where
  "checkOp i stack =
     (case stack of
        a # b # s \<Rightarrow>
          (if i = MUL then Some (a * b # s)
           else if i = EXP then (if b > 0xff then None else Some (a ^ unat b # s))
           else if i = ADD then Some ((a + b) # s)
           else if i = SUB then Some ((a - b) # s)
           else if i = NOT then Some (not a # b # s)
           else None)
      | [a] \<Rightarrow> (if i = NOT then Some [not a] else None)
      | [] \<Rightarrow> None)"

definition checkItem :: "AssemblyItem \<Rightarrow> u256 list \<Rightarrow> u256 list option" where
  "checkItem item stack =
     (case m_type item of
        Operation \<Rightarrow> (if length stack < arguments item then None else checkOp (m_instruction item) stack)
      | Push \<Rightarrow> Some (m_data item # stack)
      | _ \<Rightarrow> None)"

fun checkItems :: "AssemblyItems \<Rightarrow> u256 list \<Rightarrow> u256 list option" where
  "checkItems [] stack = Some stack"
| "checkItems (item # items) stack =
     (case checkItem item stack of None \<Rightarrow> None | Some stack' \<Rightarrow> checkItems items stack')"

definition checkRepresentation :: "u256 \<Rightarrow> AssemblyItems \<Rightarrow> bool" where
  "checkRepresentation v routine =
     (case checkItems routine [] of None \<Rightarrow> False | Some stack \<Rightarrow> length stack = 1 \<and> hd stack = v)"

text \<open>The constructor of \<open>ComputeMethod\<close>.\<close>

definition compute_init :: "Params \<Rightarrow> u256 \<Rightarrow> AssemblyItems res" where
  "compute_init ps v =
     bindR (findRepresentation ps v 10000) (\<lambda>(routine, steps).
       assertThrow (checkRepresentation v routine) (OptimizerException ''Invalid constant expression created.'')
         (Inr routine))"

section \<open>The pass\<close>

text \<open>
  The keys of the map \<open>pushes\<close> in their order: items are ordered by type and data, and only items of
  type Push are counted.
\<close>

definition pushedConstants :: "AssemblyItems \<Rightarrow> u256 list" where
  "pushedConstants items = sort (remdups (map m_data (filter (\<lambda>i. m_type i = Push) items)))"

definition pushCount :: "AssemblyItems \<Rightarrow> u256 \<Rightarrow> nat" where
  "pushCount items v = length (filter (\<lambda>i. m_type i = Push \<and> m_data i = v) items)"

type_synonym replacements = "u256 \<rightharpoonup> AssemblyItems"

definition replaceConstants :: "AssemblyItems \<Rightarrow> replacements \<Rightarrow> AssemblyItems" where
  "replaceConstants items reps =
     concat (map (\<lambda>item.
       if m_type item = Push then (case reps (m_data item) of Some r \<Rightarrow> r | None \<Rightarrow> [item]) else [item]) items)"

text \<open>One round of the loop over the constants: the number of optimisations, the replacements and the data.\<close>

definition optimiseConstant ::
  "(bytes \<Rightarrow> u256) \<Rightarrow> Params \<Rightarrow> u256 \<Rightarrow> nat \<times> replacements \<times> dataMap \<Rightarrow> (nat \<times> replacements \<times> dataMap) res" where
  "optimiseConstant keccak ps v st =
     (case st of (n, reps, dat) \<Rightarrow>
        if v < 0x100 then Inr st
        else
          bindR (literal_gasNeeded ps v) (\<lambda>literalGas.
          bindR (copy_gasNeeded ps v) (\<lambda>copyG.
          bindR (compute_init ps v) (\<lambda>routine.
          bindR (compute_gasNeeded ps routine) (\<lambda>computeGas.
            if copyG < literalGas \<and> copyG < computeGas then
              (case copy_execute keccak v dat of (r, dat') \<Rightarrow> Inr (n + 1, if r \<noteq> [] then reps(v \<mapsto> r) else reps, dat'))
            else if computeGas < literalGas \<and> computeGas \<le> copyG then
              Inr (n + 1, if routine \<noteq> [] then reps(v \<mapsto> routine) else reps, dat)
            else Inr st)))))"

fun optimiseEach ::
  "(bytes \<Rightarrow> u256) \<Rightarrow> (u256 \<Rightarrow> Params) \<Rightarrow> u256 list \<Rightarrow> nat \<times> replacements \<times> dataMap \<Rightarrow> (nat \<times> replacements \<times> dataMap) res" where
  "optimiseEach keccak ps [] st = Inr st"
| "optimiseEach keccak ps (v # vs) st = bindR (optimiseConstant keccak (ps v) v st) (optimiseEach keccak ps vs)"

definition optimiseConstants ::
  "(bytes \<Rightarrow> u256) \<Rightarrow> bool \<Rightarrow> nat \<Rightarrow> EVMVersion \<Rightarrow> dataMap \<Rightarrow> AssemblyItems \<Rightarrow> (nat \<times> dataMap \<times> AssemblyItems) res" where
  "optimiseConstants keccak creation rns version dat items =
     bindR
       (optimiseEach keccak
          (\<lambda>v. \<lparr>isCreation = creation, runs = rns, multiplicity = pushCount items v, evmVersion = version\<rparr>)
          (pushedConstants items) (0, (\<lambda>v. None), dat))
       (\<lambda>(n, reps, dat'). Inr (n, dat', replaceConstants items reps))"

section \<open>The routine computes the constant\<close>

definition routineItem :: "AssemblyItem \<Rightarrow> bool" where
  "routineItem i \<longleftrightarrow> m_type i = Push \<or> m_type i = Operation \<and> m_instruction i \<in> {MUL, EXP, ADD, SUB, NOT}"

definition computes :: "AssemblyItems \<Rightarrow> u256 \<Rightarrow> bool" where
  "computes routine v \<longleftrightarrow> list_all routineItem routine \<and> (\<forall>stack. checkItems routine stack = Some (v # stack))"

lemma checkItems_append:
  "checkItems (xs @ ys) stack = (case checkItems xs stack of None \<Rightarrow> None | Some stack' \<Rightarrow> checkItems ys stack')"
  by (induction xs arbitrary: stack) (auto split: option.split)

lemma routine_args:
  "map (\<lambda>i. info_args (instructionInfo i)) [MUL, EXP, ADD, SUB, NOT] = [2, 2, 2, 2, 1]"
  by code_simp

lemma checkItem_simps [simp]:
  "checkItem (pushItem w) stack = Some (w # stack)"
  "checkItem (opItem MUL l) (a # b # stack) = Some (a * b # stack)"
  "checkItem (opItem EXP l) (a # b # stack) = (if b > 0xff then None else Some (a ^ unat b # stack))"
  "checkItem (opItem ADD l) (a # b # stack) = Some ((a + b) # stack)"
  "checkItem (opItem SUB l) (a # b # stack) = Some ((a - b) # stack)"
  "checkItem (opItem NOT l) (a # stack) = Some (not a # stack)"
  using routine_args by (auto simp: checkItem_def checkOp_def arguments_def split: list.split)

lemma routineItem_simps [simp]:
  "routineItem (pushItem w)" "routineItem (opItem i l) \<longleftrightarrow> i \<in> {MUL, EXP, ADD, SUB, NOT}"
  by (auto simp: routineItem_def)

lemma computes_push: "computes [pushItem v] v"
  by (simp add: computes_def)

lemma computes_not: "computes r (not v) \<Longrightarrow> computes (r @ [opItem NOT l]) v"
  by (simp add: computes_def checkItems_append)

lemma bits_exponent: "bits < 256 \<Longrightarrow> unat (word_of_nat bits :: u256) = bits \<and> \<not> (word_of_nat bits :: u256) > 0xff"
  by (simp add: unat_of_nat word_less_nat_alt)

lemma composeRoutine_computes:
  assumes bits: "bits < 256"
    and low: "if lowerPart v bits = 0 then low = [] else computes low (word_of_int \<bar>lowerPart v bits\<bar>)"
    and up: "if upperPart v bits = 1 then up = [] else \<exists>r. up = r @ [opItem MUL noLocation] \<and> computes r (upperPart v bits)"
  shows "computes (composeRoutine v bits low up) v"
proof -
  have upper: "list_all routineItem up" "checkItems up (2 ^ bits # stack) = Some (upperPart v bits * 2 ^ bits # stack)" for stack
    using up by (auto simp: computes_def checkItems_append split: if_splits)
  have lower: "list_all routineItem low" using low by (auto simp: computes_def split: if_splits)
  have items: "list_all routineItem (composeRoutine v bits low up)"
    using upper(1) lower by (simp add: composeRoutine_def)
  have v: "v = upperPart v bits * 2 ^ bits + word_of_int (lowerPart v bits)" by (rule parts_compose [symmetric])
  consider "lowerPart v bits = 0" | "lowerPart v bits > 0" | "lowerPart v bits < 0" by linarith
  then have "checkItems (composeRoutine v bits low up) stack = Some (v # stack)" for stack
  proof cases
    case 1
    with low bits_exponent [OF bits] v show ?thesis
      by (simp add: composeRoutine_def checkItems_append upper(2))
  next
    case 2
    with low have "checkItems low stack = Some (word_of_int (lowerPart v bits) # stack)" by (simp add: computes_def)
    with 2 bits_exponent [OF bits] v show ?thesis
      by (simp add: composeRoutine_def checkItems_append upper(2))
  next
    case 3
    with low have "checkItems low stack = Some (- word_of_int (lowerPart v bits) # stack)" by (simp add: computes_def)
    with 3 bits_exponent [OF bits] v show ?thesis
      by (simp add: composeRoutine_def checkItems_append upper(2))
  qed
  with items show ?thesis by (simp add: computes_def)
qed

text \<open>The gas of such a routine is always defined.\<close>

lemma routine_runGas: "map runGas [PUSH1, MUL, ADD, SUB, NOT] = [Inr 3, Inr 5, Inr 3, Inr 3, Inr 3]"
  by code_simp

lemma routine_gas_defined:
  assumes "list_all routineItem r"
  shows "\<exists>g. compute_gasNeeded ps r = Inr g"
proof -
  have "\<exists>g. simpleRunGas r = Inr g" using assms
  proof (induction r)
    case (Cons i r)
    moreover have "\<exists>g. simpleRunGas [i] = Inr g"
      using Cons.prems routine_runGas by (auto simp: routineItem_def)
    ultimately show ?case by auto
  qed simp
  moreover have "\<exists>n. itemsBytesRequired r 3 = Inr n" using assms
    by (induction r) (auto simp: routineItem_def itemBytesRequired_def)
  ultimately show ?thesis by (auto simp: compute_gasNeeded_def Let_def)
qed

abbreviation "negatedShorter v \<equiv> bytesRequired (unat (not v)) < bytesRequired (unat (v :: u256))"

text \<open>One round of the loop keeps a routine for the value, whose gas is not above that of the literal.\<close>

definition loopInv :: "Params \<Rightarrow> u256 \<Rightarrow> nat \<Rightarrow> nat \<Rightarrow> nat \<times> AssemblyItems \<times> nat \<Rightarrow> bool" where
  "loopInv ps v literalGas bound st \<longleftrightarrow>
     (case st of (maxSteps, routine, bestGas) \<Rightarrow>
        computes routine v \<and> compute_gasNeeded ps routine = Inr bestGas \<and> bestGas \<le> literalGas \<and> maxSteps \<le> bound)"

lemma findRepresentation_ok:
  "\<exists>r n. findRepresentation ps v maxSteps = Inr (r, n) \<and> computes r v \<and> n \<le> maxSteps \<and>
     (\<not> negatedShorter v \<longrightarrow> (\<exists>g g'. compute_gasNeeded ps r = Inr g \<and> compute_gasNeeded ps [pushItem v] = Inr g' \<and> g \<le> g'))"
proof (induction v arbitrary: maxSteps rule: measure_induct_rule [where f = unat])
  case (less v)
  obtain g0 where g0: "compute_gasNeeded ps [pushItem v] = Inr g0"
    using routine_gas_defined [of "[pushItem v]" ps] by auto
  consider "v < 0x10000" | "\<not> v < 0x10000" "negatedShorter v" | "\<not> v < 0x10000" "\<not> negatedShorter v" by blast
  then show ?case
  proof cases
    case 1
    then show ?thesis using g0 by (subst findRepresentation.simps) (simp add: computes_push)
  next
    case 2
    from less.IH [OF bytesRequired_less_imp [OF 2(2)], of maxSteps] obtain r n
      where "findRepresentation ps (not v) maxSteps = Inr (r, n)" "computes r (not v)" "n \<le> maxSteps" by blast
    then show ?thesis using 2 by (subst findRepresentation.simps) (simp add: computes_not)
  next
    case 3
    let ?body = "\<lambda>bits (maxSteps, routine, bestGas).
       if skipBits v bits then Inr (maxSteps, routine, bestGas)
       else
         bindR (if lowerPart v bits \<noteq> 0 then findRepresentation ps (word_of_int \<bar>lowerPart v bits\<bar>) maxSteps
                else Inr ([], maxSteps)) (\<lambda>(low, maxSteps).
         bindR (if upperPart v bits \<noteq> 1 then
                  bindR (findRepresentation ps (upperPart v bits) maxSteps) (\<lambda>(r, maxSteps).
                    Inr (r @ [opItem MUL noLocation], maxSteps))
                else Inr ([], maxSteps)) (\<lambda>(up, maxSteps).
         bindR (compute_gasNeeded ps (composeRoutine v bits low up)) (\<lambda>newGas.
           if newGas < bestGas then Inr (maxSteps - 1, composeRoutine v bits low up, newGas)
           else Inr (maxSteps - 1, routine, bestGas))))"
    have "\<exists>s'. ?body bits s = Inr s' \<and> loopInv ps v g0 maxSteps s'"
      if "bits \<in> set bitRange" "loopInv ps v g0 maxSteps s" for bits s
    proof (cases "skipBits v bits")
      case True
      then show ?thesis using that(2) by (auto simp: loopInv_def split: prod.splits)
    next
      case False
      obtain m routine best where s: "s = (m, routine, best)" by (cases s) auto
      have bits: "8 < bits" "bits < 256" using that(1) by (simp_all add: bitRange_mem)
      note smaller = parts_smaller [OF 3(1) bits(1) False]
      obtain low n1 where low: "(if lowerPart v bits \<noteq> 0 then findRepresentation ps (word_of_int \<bar>lowerPart v bits\<bar>) m
          else Inr ([], m)) = Inr (low, n1)" "n1 \<le> m"
        "if lowerPart v bits = 0 then low = [] else computes low (word_of_int \<bar>lowerPart v bits\<bar>)"
        using less.IH [OF smaller(1), of m] by (cases "lowerPart v bits = 0") auto
      obtain up n2 where up: "(if upperPart v bits \<noteq> 1 then
          bindR (findRepresentation ps (upperPart v bits) n1) (\<lambda>(r, maxSteps). Inr (r @ [opItem MUL noLocation], maxSteps))
          else Inr ([], n1)) = Inr (up, n2)" "n2 \<le> n1"
        "if upperPart v bits = 1 then up = [] else \<exists>r. up = r @ [opItem MUL noLocation] \<and> computes r (upperPart v bits)"
        using less.IH [OF smaller(2), of n1] by (cases "upperPart v bits = 1") auto
      have comp: "computes (composeRoutine v bits low up) v" by (rule composeRoutine_computes [OF bits(2) low(3) up(3)])
      then obtain newGas where "compute_gasNeeded ps (composeRoutine v bits low up) = Inr newGas"
        using routine_gas_defined [of "composeRoutine v bits low up" ps] by (auto simp: computes_def)
      with False s low(1,2) up(1,2) comp that(2) show ?thesis by (auto simp: loopInv_def)
    qed
    moreover have "loopInv ps v g0 maxSteps (maxSteps, [pushItem v], g0)" by (simp add: loopInv_def g0 computes_push)
    ultimately obtain s' where s': "forLoop (\<lambda>(maxSteps, routine, bestGas). maxSteps > 0) ?body bitRange (maxSteps, [pushItem v], g0) = Inr s'"
      "loopInv ps v g0 maxSteps s'"
      using forLoop_invariant [of bitRange "loopInv ps v g0 maxSteps" ?body] by blast
    obtain m routine best where "s' = (m, routine, best)" by (cases s') auto
    with 3 g0 s' show ?thesis by (subst findRepresentation.simps) (auto simp: loopInv_def)
  qed
qed

lemma computes_check: "computes r v \<Longrightarrow> checkRepresentation v r"
  by (simp add: computes_def checkRepresentation_def)

text \<open>The machine runs the routine like the check does, when the stack has room for its items.\<close>

lemma execOp_arith:
  assumes "isArith i" "\<not> isDupInstruction i" "\<not> isSwapInstruction i" "i \<noteq> POP"
    and "info_args (instructionInfo i) = length vs" "info_ret (instructionInfo i) = 1" "evalArith i vs = Some x"
  shows "execOp env i (vs @ s) w = checkStack (x # s) w"
  using assms by (simp add: execOp_def applyOp_def)

lemma checkOp_eval:
  assumes "i \<in> {MUL, EXP, ADD, SUB, NOT}" "checkOp i stack = Some stack'"
  shows "\<exists>vs s x. stack = vs @ s \<and> length vs = (if i = NOT then 1 else 2) \<and> evalArith i vs = Some x \<and> stack' = x # s"
proof (cases "i = NOT")
  case True
  with assms(2) obtain a s where "stack = [a] @ s" "stack' = not a # s"
    by (auto simp: checkOp_def split: list.splits)
  with True show ?thesis by (intro exI [of _ "[a]"] exI [of _ s]) auto
next
  case False
  with assms obtain a b s where s: "stack = a # b # s" by (auto simp: checkOp_def split: list.splits)
  from assms(1) False consider "i = MUL" | "i = EXP" | "i = ADD" | "i = SUB" by blast
  then show ?thesis using assms(2) s
    by cases (intro exI [of _ "[a, b]"] exI [of _ s], auto simp: checkOp_def split: if_splits)+
qed

lemma routineItem_exec:
  assumes "routineItem i" "checkItem i stack = Some stack'" "length stack < stackLimit"
  shows "execItem env i stack w = Some (stack', w) \<and> length stack' \<le> Suc (length stack)"
proof (cases "m_type i = Push")
  case True
  with assms show ?thesis by (auto simp: checkItem_def execItem_def checkStack_def)
next
  case False
  with assms(1) have op: "m_type i = Operation" and ins: "m_instruction i \<in> {MUL, EXP, ADD, SUB, NOT}"
    by (simp_all add: routineItem_def)
  have "list_all (\<lambda>i. info_ret (instructionInfo i) = 1 \<and> info_args (instructionInfo i) = (if i = NOT then 1 else 2) \<and>
      isArith i \<and> \<not> isDupInstruction i \<and> \<not> isSwapInstruction i \<and> i \<noteq> POP) [MUL, EXP, ADD, SUB, NOT]"
    by code_simp
  then have facts: "\<forall>i\<in>{MUL, EXP, ADD, SUB, NOT}. info_ret (instructionInfo i) = 1 \<and>
      info_args (instructionInfo i) = (if i = NOT then 1 else 2) \<and>
      isArith i \<and> \<not> isDupInstruction i \<and> \<not> isSwapInstruction i \<and> i \<noteq> POP"
    unfolding list_all_iff list.set .
  from assms(2) op have "checkOp (m_instruction i) stack = Some stack'" by (auto simp: checkItem_def split: if_splits)
  from checkOp_eval [OF ins this] obtain vs s x where s: "stack = vs @ s" "evalArith (m_instruction i) vs = Some x"
    "stack' = x # s" and len: "length vs = (if m_instruction i = NOT then 1 else 2)" by blast
  note fact = bspec [OF facts ins]
  have "execOp env (m_instruction i) stack w = checkStack stack' w"
    unfolding s(1,3) using fact s(2) len by (intro execOp_arith) simp_all
  moreover have "length stack' \<le> length stack" using s len by simp
  ultimately show ?thesis using assms(3) op by (simp add: execItem_def checkStack_def)
qed

lemma routine_exec:
  assumes "list_all routineItem r" "checkItems r stack = Some stack'" "length stack + length r \<le> stackLimit"
  shows "execItems env r stack w = Some (stack', w)"
  using assms
proof (induction r arbitrary: stack)
  case (Cons i r)
  from Cons.prems obtain s1 where s1: "checkItem i stack = Some s1" "checkItems r s1 = Some stack'"
    by (auto split: option.splits)
  with Cons.prems routineItem_exec [of i stack s1 env w] have "execItem env i stack w = Some (s1, w)" "length s1 \<le> Suc (length stack)"
    by auto
  with Cons s1 show ?case by simp
qed simp

section \<open>The pass returns, and replaces constants by code for them\<close>

lemma compute_init_ok:
  "\<exists>r g. compute_init ps v = Inr r \<and> computes r v \<and> compute_gasNeeded ps r = Inr g"
proof -
  obtain r n where r: "findRepresentation ps v 10000 = Inr (r, n)" "computes r v"
    using findRepresentation_ok [of ps v 10000] by blast
  moreover obtain g where "compute_gasNeeded ps r = Inr g"
    using r(2) routine_gas_defined [of r ps] by (auto simp: computes_def)
  ultimately show ?thesis by (simp add: compute_init_def computes_check)
qed

lemma literal_gas_defined: "\<exists>g. literal_gasNeeded ps v = Inr g"
  using routine_runGas by (simp add: literal_gasNeeded_def)

lemma copyRoutine_gas: "simpleRunGas copyRoutine = Inr 30" "itemsBytesRequired copyRoutine 3 = Inr 16"
  by code_simp+

lemma copy_gas_defined: "\<exists>g. copy_gasNeeded ps v = Inr g"
  by (simp add: copy_gasNeeded_def copyRoutine_gas)

text \<open>A replacement computes its constant, or is the routine that copies it from the data.\<close>

definition replacementOk :: "(bytes \<Rightarrow> u256) \<Rightarrow> u256 \<Rightarrow> AssemblyItems \<Rightarrow> bool" where
  "replacementOk keccak v r \<longleftrightarrow>
     computes r v \<or> r = copyRoutine[4 := mkItem PushData (keccak (toBigEndian_u256 v)) noLocation]"

definition replacementsOk :: "(bytes \<Rightarrow> u256) \<Rightarrow> replacements \<Rightarrow> bool" where
  "replacementsOk keccak reps \<longleftrightarrow> (\<forall>v r. reps v = Some r \<longrightarrow> 0x100 \<le> v \<and> replacementOk keccak v r)"

lemma optimiseConstant_ok:
  assumes "replacementsOk keccak reps"
  shows "\<exists>n' reps' dat'. optimiseConstant keccak ps v (n, reps, dat) = Inr (n', reps', dat') \<and> replacementsOk keccak reps'"
proof -
  obtain lg cg r g where eqs: "literal_gasNeeded ps v = Inr lg" "copy_gasNeeded ps v = Inr cg"
    "compute_init ps v = Inr r" "compute_gasNeeded ps r = Inr g" and r: "computes r v"
    using literal_gas_defined copy_gas_defined compute_init_ok by metis
  have up: "replacementsOk keccak (reps(v \<mapsto> r'))" if "\<not> v < 0x100" "replacementOk keccak v r'" for r'
    using assms that by (auto simp: replacementsOk_def)
  show ?thesis
    using eqs assms r up [of r] up [of "copyRoutine[4 := mkItem PushData (keccak (toBigEndian_u256 v)) noLocation]"]
    by (simp add: optimiseConstant_def copy_execute_def Let_def replacementOk_def)
qed

lemma optimiseEach_ok:
  "replacementsOk keccak reps \<Longrightarrow>
     \<exists>n' reps' dat'. optimiseEach keccak ps vs (n, reps, dat) = Inr (n', reps', dat') \<and> replacementsOk keccak reps'"
proof (induction vs arbitrary: n reps dat)
  case (Cons v vs)
  from optimiseConstant_ok [OF Cons.prems, of "ps v" v n dat] obtain n1 reps1 dat1
    where "optimiseConstant keccak (ps v) v (n, reps, dat) = Inr (n1, reps1, dat1)" "replacementsOk keccak reps1" by blast
  with Cons.IH show ?case by simp
qed simp

lemma optimiseConstants_ok:
  "\<exists>n dat' reps. optimiseConstants keccak creation rns version dat items = Inr (n, dat', replaceConstants items reps) \<and>
     replacementsOk keccak reps"
proof -
  have "replacementsOk keccak (\<lambda>v. None)" by (simp add: replacementsOk_def)
  from optimiseEach_ok [OF this] show ?thesis unfolding optimiseConstants_def by fastforce
qed

end
