(* ===== verification/JumpdestRemover.thy ===== *)
theory JumpdestRemover
  imports Evm
begin

text \<open>
  Model of libevmasm/JumpdestRemover.cpp: tags that are never pushed are removed. The outcome of a
  program stays the same, except that a jump to a removed tag fails.
\<close>

section \<open>The pass\<close>

fun referencedTags :: "AssemblyItems \<Rightarrow> 64 word \<Rightarrow> 64 word set res" where
  "referencedTags [] subId = Inr {}"
| "referencedTags (item # items) subId =
     bindR
       (if m_type item = PushTag then
          bindR (splitForeignPushTag item) (\<lambda>(sub, tg). Inr (if sub = subId then {tg} else {}))
        else Inr {})
       (\<lambda>new. bindR (referencedTags items subId) (\<lambda>tgs. Inr (new \<union> tgs)))"

definition removeItem :: "64 word set \<Rightarrow> AssemblyItem \<Rightarrow> bool res" where
  "removeItem references item =
     (if m_type item \<noteq> Tag then Inr False
      else bindR (splitForeignPushTag item) (\<lambda>(sub, tg).
        assertThrow (sub = - 1) (OptimizerException ''Sub-assembly tag used as label.'') (Inr (tg \<notin> references))))"

fun removeTags :: "64 word set \<Rightarrow> AssemblyItems \<Rightarrow> AssemblyItems res" where
  "removeTags references [] = Inr []"
| "removeTags references (item # items) =
     bindR (removeItem references item) (\<lambda>rem.
       bindR (removeTags references items) (\<lambda>rest. Inr (if rem then rest else item # rest)))"

definition jumpdest_optimise :: "64 word set \<Rightarrow> AssemblyItems \<Rightarrow> (bool \<times> AssemblyItems) res" where
  "jumpdest_optimise outside items =
     bindR (referencedTags items (- 1)) (\<lambda>refs.
       bindR (removeTags (refs \<union> outside) items) (\<lambda>items'. Inr (length items' \<noteq> length items, items')))"

section \<open>What is removed\<close>

definition tagId :: "AssemblyItem \<Rightarrow> 64 word" where
  "tagId item = ucast (m_data item)"

lemma split_total: "isTagItem i \<Longrightarrow> splitForeignPushTag i = Inr (ucast (drop_bit 64 (m_data i) - 1), tagId i)"
  by (simp add: splitForeignPushTag_def Let_def low_mask_ucast tagId_def)

lemma split_Tag [simp]:
  "m_type i = Tag \<Longrightarrow> splitForeignPushTag i = Inr (ucast (drop_bit 64 (m_data i) - 1), tagId i)"
  "m_type i = PushTag \<Longrightarrow> splitForeignPushTag i = Inr (ucast (drop_bit 64 (m_data i) - 1), tagId i)"
  by (simp_all add: split_total isTagItem_def)

definition ownTag :: "AssemblyItem \<Rightarrow> bool" where
  "ownTag i \<longleftrightarrow> (ucast (drop_bit 64 (m_data i) - 1) :: 64 word) = - 1"

lemma referencedTags_eq:
  "referencedTags items subId =
     Inr {tagId i | i. i \<in> set items \<and> m_type i = PushTag \<and> ucast (drop_bit 64 (m_data i) - 1) = subId}"
  by (induction items) auto

definition keepItem :: "64 word set \<Rightarrow> AssemblyItem \<Rightarrow> bool" where
  "keepItem refs i \<longleftrightarrow> m_type i \<noteq> Tag \<or> tagId i \<in> refs"

lemma removeTags_filter: "removeTags refs items = Inr items' \<Longrightarrow> items' = filter (keepItem refs) items"
  by (induction items arbitrary: items') (auto simp: removeItem_def keepItem_def split: if_splits)

lemma removeTags_total:
  "\<forall>i\<in>set items. m_type i = Tag \<longrightarrow> ownTag i \<Longrightarrow> removeTags refs items = Inr (filter (keepItem refs) items)"
  by (induction items) (auto simp: removeItem_def keepItem_def ownTag_def)

lemma length_filter_eq: "length (filter p xs) = length xs \<longleftrightarrow> filter p xs = xs"
proof
  assume len: "length (filter p xs) = length xs"
  then have "\<forall>x\<in>set xs. p x" using length_filter_less [of _ xs p] by fastforce
  then show "filter p xs = xs" by simp
qed simp

lemma jumpdest_optimise_filter:
  assumes "jumpdest_optimise outside items = Inr (changed, items')"
  shows "\<exists>refs. items' = filter (keepItem refs) items \<and> outside \<subseteq> refs \<and>
    (\<forall>i\<in>set items. m_type i = PushTag \<and> ownTag i \<longrightarrow> tagId i \<in> refs) \<and> changed = (items' \<noteq> items)"
proof -
  let ?refs = "{tagId i | i. i \<in> set items \<and> m_type i = PushTag \<and> (ucast (drop_bit 64 (m_data i) - 1) :: 64 word) = - 1} \<union> outside"
  from assms have rem: "removeTags ?refs items = Inr items'" and ch: "changed = (length items' \<noteq> length items)"
    by (auto simp: jumpdest_optimise_def referencedTags_eq)
  have eq: "items' = filter (keepItem ?refs) items" by (rule removeTags_filter [OF rem])
  have "length items' = length items \<longleftrightarrow> items' = items" unfolding eq by (rule length_filter_eq)
  with eq ch show ?thesis by (intro exI [of _ ?refs]) (auto simp: ownTag_def)
qed

section \<open>The outcome\<close>

lemma isTag_not_keep: "\<not> keepItem refs i \<Longrightarrow> isTag i"
  by (simp add: keepItem_def isTag_def)

lemma run_tag_skip: "isTag t \<Longrightarrow> run env P n (t # rest) s w = run env P n rest s w"
  by (simp add: isTag_def run_plain controlItem_def halts_def isOp_iff execItem_def)

text \<open>A jump leads to the same place, or the tag it names was removed and no other has its position.\<close>

lemma afterTag_none:
  "list_all (\<lambda>i. \<not> (isTag i \<and> p (m_data i))) xs \<Longrightarrow> afterTag p xs = None"
  by (induction xs) auto

lemma afterTag_filter:
  assumes "tags_ok env P"
  shows "jumpTarget env (filter (keepItem refs) P) d = None \<or>
    jumpTarget env (filter (keepItem refs) P) d = map_option (filter (keepItem refs)) (jumpTarget env P d)"
  using assms unfolding jumpTarget_def
proof (induction P)
  case (Cons i P)
  then have ok: "tags_ok env P" by (auto simp: tags_ok_def split: if_splits)
  show ?case
  proof (cases "isTag i \<and> push_value env PushTag (m_data i) = d")
    case False
    with Cons.IH [OF ok] show ?thesis by auto
  next
    case True
    with Cons.prems have "list_all (\<lambda>j. \<not> (isTag j \<and> push_value env PushTag (m_data j) = d)) P"
      by (auto simp: tags_ok_def list_all_iff image_iff)
    then have "afterTag (\<lambda>t. push_value env PushTag t = d) (filter (keepItem refs) P) = None"
      by (intro afterTag_none) (auto simp: list_all_iff)
    with True show ?thesis by auto
  qed
qed simp

lemma run_filter:
  assumes tags: "tags_ok env P"
  shows "run env (filter (keepItem refs) P) n (filter (keepItem refs) xs) s w \<in> {run env P n xs s w, Some Failed}"
proof (induction n arbitrary: xs s w rule: less_induct)
  case (less n)
  let ?f = "filter (keepItem refs)"
  have jump: "(case jumpTarget env (?f P) d of None \<Rightarrow> Some Failed
       | Some xs \<Rightarrow> (case n of 0 \<Rightarrow> None | Suc m \<Rightarrow> run env (?f P) m xs s w))
      \<in> {(case jumpTarget env P d of None \<Rightarrow> Some Failed
       | Some xs \<Rightarrow> (case n of 0 \<Rightarrow> None | Suc m \<Rightarrow> run env P m xs s w)), Some Failed}" for d s w
  proof (cases "jumpTarget env P d")
    case (Some ys)
    with afterTag_filter [OF tags, of refs d] less.IH [of "n - 1" ys s w] show ?thesis
      by (auto split: nat.splits)
  qed (use afterTag_filter [OF tags, of refs d] in auto)
  show ?case
  proof (induction xs arbitrary: s w)
    case (Cons i xs)
    show ?case
    proof (cases "keepItem refs i")
      case False
      then show ?thesis using Cons.IH [of s w] isTag_not_keep [OF False] by (simp add: run_tag_skip)
    next
      case True
      consider "halts i" | "isOp JUMP i" | "isOp JUMPI i" | "\<not> controlItem i" by (auto simp: controlItem_def)
      then show ?thesis
      proof cases
        case 1
        with True show ?thesis by (simp add: run_halt)
      next
        case 2
        with True jump show ?thesis by (cases s) (simp_all add: run_jump)
      next
        case 3
        with True jump Cons.IH show ?thesis by (cases s; cases "tl s") (auto simp: run_jumpi)
      next
        case 4
        with True Cons.IH show ?thesis by (auto simp: run_plain split: option.split)
      qed
    qed
  qed simp
qed

end
