(* ===== verification/BlockDeduplicator.thy ===== *)
theory BlockDeduplicator
  imports JumpdestRemover
begin

text \<open>
  Model of libevmasm/BlockDeduplicator.h and BlockDeduplicator.cpp: blocks with the same content are
  unified by redirecting the tags that are pushed. An iterator into the items is the suffix that
  starts at it, so the end is the empty list, and two iterators into the same items are equal when
  their suffixes are. \<open>std::set\<close> with the comparator is the list of its elements in the order of
  insertion: an element is found when neither is less than the other.
\<close>

section \<open>The pass\<close>

record BlockIterator =
  bi_it :: AssemblyItems
  bi_replaceItem :: "AssemblyItem option"
  bi_replaceWith :: "AssemblyItem option"

definition bi_next :: "BlockIterator \<Rightarrow> BlockIterator" where
  "bi_next b =
     (case bi_it b of
        [] \<Rightarrow> b
      | i # is \<Rightarrow>
          if altersControlFlow i \<and> \<not> itemEq i (opItem JUMPI noLocation) then b\<lparr>bi_it := []\<rparr>
          else b\<lparr>bi_it := dropWhile (\<lambda>j. m_type j = Tag) is\<rparr>)"

definition bi_get :: "BlockIterator \<Rightarrow> AssemblyItem" where
  "bi_get b =
     (case (bi_replaceItem b, bi_replaceWith b) of
        (Some r, Some w) \<Rightarrow> if itemEq (hd (bi_it b)) r then w else hd (bi_it b)
      | _ \<Rightarrow> hd (bi_it b))"

text \<open>\<open>std::lexicographical_compare\<close> up to the end of the items.\<close>

lemma bi_next_shorter: "bi_it b \<noteq> [] \<Longrightarrow> length (bi_it (bi_next b)) < length (bi_it b)"
  by (auto simp: bi_next_def less_Suc_eq_le length_dropWhile_le split: list.splits)

function lexicographical_compare :: "BlockIterator \<Rightarrow> BlockIterator \<Rightarrow> bool" where
  "lexicographical_compare first second =
     (if bi_it first \<noteq> [] \<and> bi_it second \<noteq> [] then
        if itemLess (bi_get first) (bi_get second) then True
        else if itemLess (bi_get second) (bi_get first) then False
        else lexicographical_compare (bi_next first) (bi_next second)
      else bi_it first = [] \<and> bi_it second \<noteq> [])"
  by pat_completeness auto

termination by (relation "measure (\<lambda>(a, b). length (bi_it a))") (auto simp: bi_next_shorter)

declare lexicographical_compare.simps [simp del]

definition pushSelf :: AssemblyItem where
  "pushSelf = mkItem PushTag (- 4) noLocation"

text \<open>The push of a block's own tag, and the iterator at the first item after the tag.\<close>

definition ownPush :: "AssemblyItems \<Rightarrow> nat \<Rightarrow> AssemblyItem" where
  "ownPush items i =
     (if i < length items \<and> m_type (items ! i) = Tag
      then mkItem PushTag (m_data (items ! i)) noLocation else pushSelf)"

definition blockBegin :: "AssemblyItems \<Rightarrow> nat \<Rightarrow> BlockIterator" where
  "blockBegin items i =
     (let b = \<lparr>bi_it = drop i items, bi_replaceItem = Some (ownPush items i), bi_replaceWith = Some pushSelf\<rparr>
      in if bi_it b \<noteq> [] \<and> m_type (bi_get b) = Tag then bi_next b else b)"

definition comparator :: "AssemblyItems \<Rightarrow> nat \<Rightarrow> nat \<Rightarrow> bool" where
  "comparator items i j =
     (if i = j then False else lexicographical_compare (blockBegin items i) (blockBegin items j))"

definition blocksSeen_find :: "AssemblyItems \<Rightarrow> nat list \<Rightarrow> nat \<Rightarrow> nat option" where
  "blocksSeen_find items seen i =
     find (\<lambda>j. \<not> comparator items j i \<and> \<not> comparator items i j) seen"

type_synonym TagMap = "(u256 \<times> u256) list"

text \<open>The loop over the items, from the index \<open>i\<close> on.\<close>

function findDuplicates :: "AssemblyItems \<Rightarrow> nat \<Rightarrow> nat list \<Rightarrow> TagMap \<Rightarrow> TagMap" where
  "findDuplicates items i seen replaced =
     (if i < length items then
        if m_type (items ! i) \<noteq> Tag then findDuplicates items (i + 1) seen replaced
        else (case blocksSeen_find items seen i of
                None \<Rightarrow> findDuplicates items (i + 1) (seen @ [i]) replaced
              | Some j \<Rightarrow>
                  findDuplicates items (i + 1) seen
                    (omap_put (m_data (items ! i)) (m_data (items ! j)) replaced))
      else replaced)"
  by pat_completeness auto

termination by (relation "measure (\<lambda>(items, i, _). length items - i)") auto

declare findDuplicates.simps [simp del]

definition replaceTag :: "TagMap \<Rightarrow> 64 word \<Rightarrow> AssemblyItem \<Rightarrow> (bool \<times> AssemblyItem) res" where
  "replaceTag replacements sub item =
     (if m_type item = PushTag then
        bindR (splitForeignPushTag item) (\<lambda>(subId, tg).
          if subId \<noteq> sub then Inr (False, item)
          else (case map_of replacements (ucast tg) of
                  None \<Rightarrow> Inr (False, item)
                | Some d \<Rightarrow> bindR (setPushTagSubIdAndTag item subId (ucast d)) (\<lambda>item'. Inr (True, item'))))
      else Inr (False, item))"

fun applyTagReplacement :: "AssemblyItems \<Rightarrow> TagMap \<Rightarrow> 64 word \<Rightarrow> (bool \<times> AssemblyItems) res" where
  "applyTagReplacement [] replacements sub = Inr (False, [])"
| "applyTagReplacement (item # items) replacements sub =
     bindR (replaceTag replacements sub item) (\<lambda>(c, item').
       bindR (applyTagReplacement items replacements sub) (\<lambda>(c', items'). Inr (c \<or> c', item' # items')))"

text \<open>
  The loop of \<open>deduplicate\<close>, with its counter. It does not end when a replacement leads to the tag it
  came from, so its value is an option: \<open>None\<close> is a loop that does not end.
\<close>

partial_function (option) deduplicateLoop ::
    "nat \<Rightarrow> AssemblyItems \<Rightarrow> TagMap \<Rightarrow> (nat \<times> AssemblyItems \<times> TagMap) res option" where
  "deduplicateLoop iterations items replaced =
     (let replaced' = findDuplicates items 0 [] replaced
      in case applyTagReplacement items replaced' (- 1) of
           Inl e \<Rightarrow> Some (Inl e)
         | Inr (changed, items') \<Rightarrow>
             if changed then deduplicateLoop (iterations + 1) items' replaced'
             else Some (Inr (iterations, items', replaced')))"

definition deduplicate :: "AssemblyItems \<Rightarrow> (bool \<times> AssemblyItems \<times> TagMap) res option" where
  "deduplicate items =
     (if list_ex (itemEq (mkItem Tag (- 4) noLocation)) items \<or> list_ex (itemEq pushSelf) items
      then Some (Inr (False, items, []))
      else map_option (\<lambda>r. bindR r (\<lambda>(iterations, items', replaced). Inr (0 < iterations, items', replaced)))
             (deduplicateLoop 0 items []))"

section \<open>What the comparison decides\<close>

text \<open>
  The content of a block in plain terms: the items after its tag up to the first one that ends the
  control flow, without tags, with the pushes of its own tag marked.
\<close>

definition endsBlock :: "AssemblyItem \<Rightarrow> bool" where
  "endsBlock i \<longleftrightarrow> altersControlFlow i \<and> \<not> isOp JUMPI i"

fun takeBlock :: "AssemblyItems \<Rightarrow> AssemblyItems" where
  "takeBlock [] = []"
| "takeBlock (i # is) = (if endsBlock i then [i] else i # takeBlock is)"

definition markOwn :: "AssemblyItem \<Rightarrow> AssemblyItem \<Rightarrow> AssemblyItem" where
  "markOwn own i = (if itemEq i own then pushSelf else i)"

definition blockContent :: "AssemblyItems \<Rightarrow> nat \<Rightarrow> AssemblyItems" where
  "blockContent items i =
     map (markOwn (ownPush items i)) (filter (\<lambda>j. m_type j \<noteq> Tag) (takeBlock (drop (Suc i) items)))"

definition sameContent :: "AssemblyItems \<Rightarrow> nat \<Rightarrow> nat \<Rightarrow> bool" where
  "sameContent items i j \<longleftrightarrow> list_all2 itemEq (blockContent items i) (blockContent items j)"

text \<open>The items an iterator runs through.\<close>

function bi_list :: "BlockIterator \<Rightarrow> AssemblyItems" where
  "bi_list b = (if bi_it b = [] then [] else bi_get b # bi_list (bi_next b))"
  by pat_completeness auto

termination by (relation "measure (\<lambda>b. length (bi_it b))") (auto simp: bi_next_shorter)

declare bi_list.simps [simp del]

fun lexLess :: "AssemblyItems \<Rightarrow> AssemblyItems \<Rightarrow> bool" where
  "lexLess [] ys \<longleftrightarrow> ys \<noteq> []"
| "lexLess (x # xs) [] \<longleftrightarrow> False"
| "lexLess (x # xs) (y # ys) \<longleftrightarrow> itemLess x y \<or> \<not> itemLess y x \<and> lexLess xs ys"

lemma lexicographical_compare_list: "lexicographical_compare a b = lexLess (bi_list a) (bi_list b)"
proof (induction a b rule: lexicographical_compare.induct)
  case (1 a b)
  show ?case
  proof (cases "bi_it a = [] \<or> bi_it b = []")
    case False
    then have "bi_list a = bi_get a # bi_list (bi_next a)" "bi_list b = bi_get b # bi_list (bi_next b)"
      by (simp_all add: bi_list.simps)
    with False 1 show ?thesis by (simp add: lexicographical_compare.simps [of a b])
  next
    case True
    have "bi_list a = [] \<longleftrightarrow> bi_it a = []" "bi_list b = [] \<longleftrightarrow> bi_it b = []" by (simp_all add: bi_list.simps)
    moreover have "lexLess xs ys \<longleftrightarrow> xs = [] \<and> ys \<noteq> []" if "xs = [] \<or> ys = []" for xs ys
      using that by (cases xs) auto
    ultimately show ?thesis using True by (auto simp: lexicographical_compare.simps [of a b])
  qed
qed

lemma lexLess_equal: "\<not> lexLess xs ys \<and> \<not> lexLess ys xs \<longleftrightarrow> list_all2 itemEq xs ys"
proof (induction xs ys rule: lexLess.induct)
  case (3 x xs y ys)
  then show ?case using itemLess_trichotomy [of x y] by auto
next
  case (1 ys)
  show ?case by (cases ys) auto
qed simp

lemma bi_list_content:
  assumes "bi_replaceItem b = Some own" "bi_replaceWith b = Some pushSelf"
  shows "bi_list (b\<lparr>bi_it := dropWhile (\<lambda>j. m_type j = Tag) xs\<rparr>) =
    map (markOwn own) (filter (\<lambda>j. m_type j \<noteq> Tag) (takeBlock xs))"
proof (induction xs)
  case (Cons i xs)
  show ?case
  proof (cases "m_type i = Tag")
    case True
    then have "\<not> endsBlock i" by (simp add: endsBlock_def altersControlFlow_def)
    with True Cons show ?thesis by simp
  next
    case False
    with Cons assms show ?thesis
      by (simp add: bi_list.simps [of "b\<lparr>bi_it := i # xs\<rparr>"] bi_get_def bi_next_def markOwn_def endsBlock_def isOp_def
          bi_list.simps [of "b\<lparr>bi_it := []\<rparr>"])
  qed
qed (simp add: bi_list.simps)

lemma bi_list_blockBegin:
  assumes "i < length items" "m_type (items ! i) = Tag"
  shows "bi_list (blockBegin items i) = blockContent items i"
proof -
  let ?b = "\<lparr>bi_it = drop i items, bi_replaceItem = Some (ownPush items i), bi_replaceWith = Some pushSelf\<rparr>"
  have d: "drop i items = items ! i # drop (Suc i) items" using assms(1) by (rule Cons_nth_drop_Suc [symmetric])
  have "m_type (ownPush items i) = PushTag" using assms by (simp add: ownPush_def mkItem_def)
  then have "m_type (bi_get ?b) = Tag" using assms d by (simp add: bi_get_def itemEq_def)
  moreover have "bi_next ?b = ?b\<lparr>bi_it := dropWhile (\<lambda>j. m_type j = Tag) (drop (Suc i) items)\<rparr>"
    using assms d by (simp add: bi_next_def altersControlFlow_def)
  ultimately show ?thesis
    using d bi_list_content [of ?b "ownPush items i" "drop (Suc i) items"]
    by (simp add: blockBegin_def Let_def blockContent_def)
qed

lemma comparator_same:
  assumes "i < length items" "m_type (items ! i) = Tag" "j < length items" "m_type (items ! j) = Tag"
  shows "\<not> comparator items j i \<and> \<not> comparator items i j \<longleftrightarrow> sameContent items i j"
proof (cases "i = j")
  case True
  have "itemEq x x" for x by (simp add: itemEq_def)
  then have "list_all2 itemEq xs xs" for xs by (simp add: list_all2_same)
  with True show ?thesis by (simp add: comparator_def sameContent_def)
next
  case False
  with assms lexLess_equal [of "blockContent items i" "blockContent items j"] show ?thesis
    by (auto simp: comparator_def sameContent_def lexicographical_compare_list bi_list_blockBegin)
qed

section \<open>What is replaced\<close>

definition tagAt :: "AssemblyItems \<Rightarrow> nat \<Rightarrow> bool" where
  "tagAt items i \<longleftrightarrow> i < length items \<and> m_type (items ! i) = Tag"

lemma sameContent_equivp: "equivp (sameContent items)"
proof (rule equivpI)
  note eq = itemEq_equivp [unfolded equivp_reflp_symp_transp]
  show "reflp (sameContent items)"
    using eq by (auto simp: reflp_def sameContent_def list_all2_same)
  show "symp (sameContent items)"
    using eq by (auto simp: symp_def sameContent_def list_all2_conv_all_nth)
  show "transp (sameContent items)"
    using eq by (auto simp: transp_def sameContent_def list_all2_conv_all_nth)
qed

lemma blocksSeen_find_Some:
  assumes "tagAt items i" "\<forall>j\<in>set seen. tagAt items j" "blocksSeen_find items seen i = Some j"
  shows "j \<in> set seen \<and> sameContent items i j"
  using assms comparator_same [of i items j]
  by (auto simp: blocksSeen_find_def find_Some_iff tagAt_def)

lemma blocksSeen_find_None:
  assumes "tagAt items i" "\<forall>j\<in>set seen. tagAt items j" "blocksSeen_find items seen i = None" "j \<in> set seen"
  shows "\<not> sameContent items i j"
  using assms comparator_same [of i items j]
  by (auto simp: blocksSeen_find_def find_None_iff tagAt_def)

definition duplicate :: "AssemblyItems \<Rightarrow> u256 \<Rightarrow> u256 \<Rightarrow> bool" where
  "duplicate items k v \<longleftrightarrow>
     (\<exists>i j. j < i \<and> tagAt items i \<and> tagAt items j \<and> m_data (items ! i) = k \<and> m_data (items ! j) = v \<and>
        sameContent items i j)"

lemma findDuplicates_steps:
  "length items \<le> i \<Longrightarrow> findDuplicates items i seen replaced = replaced"
  "i < length items \<Longrightarrow> \<not> tagAt items i \<Longrightarrow>
     findDuplicates items i seen replaced = findDuplicates items (Suc i) seen replaced"
  "tagAt items i \<Longrightarrow> blocksSeen_find items seen i = None \<Longrightarrow>
     findDuplicates items i seen replaced = findDuplicates items (Suc i) (seen @ [i]) replaced"
  "tagAt items i \<Longrightarrow> blocksSeen_find items seen i = Some j \<Longrightarrow>
     findDuplicates items i seen replaced =
       findDuplicates items (Suc i) seen (omap_put (m_data (items ! i)) (m_data (items ! j)) replaced)"
  by (simp_all add: findDuplicates.simps [of items i seen replaced] tagAt_def)

text \<open>Induction along the loop, with a case for each of its branches.\<close>

lemma findDuplicates_induct [case_names finish skip new dup]:
  assumes "\<And>i seen replaced. length items \<le> i \<Longrightarrow> Q i seen replaced"
    and "\<And>i seen replaced. i < length items \<Longrightarrow> \<not> tagAt items i \<Longrightarrow> Q (Suc i) seen replaced \<Longrightarrow> Q i seen replaced"
    and "\<And>i seen replaced. tagAt items i \<Longrightarrow> blocksSeen_find items seen i = None \<Longrightarrow>
      Q (Suc i) (seen @ [i]) replaced \<Longrightarrow> Q i seen replaced"
    and "\<And>i seen replaced j. tagAt items i \<Longrightarrow> blocksSeen_find items seen i = Some j \<Longrightarrow>
      Q (Suc i) seen (omap_put (m_data (items ! i)) (m_data (items ! j)) replaced) \<Longrightarrow> Q i seen replaced"
  shows "Q i seen replaced"
proof (induction "length items - i" arbitrary: i seen replaced)
  case 0
  then show ?case using assms(1) by simp
next
  case (Suc n)
  then have len: "i < length items" and IH: "\<And>seen replaced. Q (Suc i) seen replaced" by simp_all
  show ?case
  proof (cases "tagAt items i")
    case True
    then show ?thesis using IH assms(3,4) by (cases "blocksSeen_find items seen i") auto
  qed (use len IH assms(2) in auto)
qed

lemma findDuplicates_sound:
  "\<forall>j\<in>set seen. j < i \<and> tagAt items j \<Longrightarrow> map_of (findDuplicates items i seen replaced) k = Some v \<Longrightarrow>
     map_of replaced k = Some v \<or> duplicate items k v"
proof (induction i seen replaced rule: findDuplicates_induct [of items])
  case (skip i seen replaced)
  then show ?case by (auto simp: findDuplicates_steps less_Suc_eq)
next
  case (new i seen replaced)
  then show ?case by (auto simp: findDuplicates_steps less_Suc_eq)
next
  case (dup i seen replaced j)
  then have "j < i \<and> tagAt items j \<and> sameContent items i j"
    using blocksSeen_find_Some [OF dup(1) _ dup(2)] by auto
  then have "duplicate items (m_data (items ! i)) (m_data (items ! j))" using dup(1) by (auto simp: duplicate_def)
  with dup show ?case
    by (auto simp: findDuplicates_steps less_Suc_eq map_of_omap_put split: if_splits)
qed (simp add: findDuplicates_steps)

lemma findDuplicates_keys: "dom (map_of replaced) \<subseteq> dom (map_of (findDuplicates items i seen replaced))"
proof (induction i seen replaced rule: findDuplicates_induct [of items])
  case (dup i seen replaced j)
  have "dom (map_of replaced) \<subseteq> dom (map_of (omap_put (m_data (items ! i)) (m_data (items ! j)) replaced))"
    unfolding map_of_omap_put by auto
  from order.trans [OF this dup.IH] show ?case unfolding findDuplicates_steps(4) [OF dup.hyps] .
qed (simp_all add: findDuplicates_steps)

lemma findDuplicates_complete:
  "\<forall>j\<in>set seen. tagAt items j \<Longrightarrow> \<forall>b<i. tagAt items b \<longrightarrow> (\<exists>j\<in>set seen. sameContent items b j) \<Longrightarrow>
   i \<le> a \<Longrightarrow> tagAt items a \<Longrightarrow> tagAt items b \<Longrightarrow> b < a \<Longrightarrow> sameContent items a b \<Longrightarrow>
     m_data (items ! a) \<in> dom (map_of (findDuplicates items i seen replaced))"
proof (induction i seen replaced rule: findDuplicates_induct [of items])
  case (finish i seen replaced)
  then show ?case by (simp add: tagAt_def)
next
  case (skip i seen replaced)
  then have "Suc i \<le> a" by (metis le_antisym not_less_eq_eq)
  with skip show ?case by (simp add: findDuplicates_steps less_Suc_eq del: dom_map_of_conv_image_fst)
next
  case (new i seen replaced)
  have "a \<noteq> i"
  proof
    assume "a = i"
    with new.prems(6) have "b < i" by simp
    with new.prems(2,5) obtain j where j: "j \<in> set seen" "sameContent items b j" by blast
    have "sameContent items i j"
      by (rule equivp_transp [OF sameContent_equivp new.prems(7) [unfolded \<open>a = i\<close>] j(2)])
    with blocksSeen_find_None [OF new.hyps(1) new.prems(1) new.hyps(2) j(1)] show False ..
  qed
  then have "Suc i \<le> a" using new.prems(3) by simp
  moreover have "\<forall>b<Suc i. tagAt items b \<longrightarrow> (\<exists>j\<in>set (seen @ [i]). sameContent items b j)"
    using new.prems(2) equivp_reflp [OF sameContent_equivp] by (auto simp: less_Suc_eq)
  moreover have "\<forall>j\<in>set (seen @ [i]). tagAt items j" using new.hyps(1) new.prems(1) by simp
  ultimately show ?case
    unfolding findDuplicates_steps(3) [OF new.hyps] using new.prems(4-7) by (intro new.IH)
next
  case (dup i seen replaced j)
  note found = blocksSeen_find_Some [OF dup.hyps(1) dup.prems(1) dup.hyps(2)]
  show ?case unfolding findDuplicates_steps(4) [OF dup.hyps]
  proof (cases "a = i")
    case True
    let ?r = "omap_put (m_data (items ! i)) (m_data (items ! j)) replaced"
    have "m_data (items ! a) \<in> dom (map_of ?r)" unfolding map_of_omap_put True by simp
    with findDuplicates_keys show "m_data (items ! a) \<in> dom (map_of (findDuplicates items (Suc i) seen ?r))"
      by (rule subsetD)
  next
    case False
    then have "Suc i \<le> a" using dup.prems(3) by simp
    moreover have "\<forall>b<Suc i. tagAt items b \<longrightarrow> (\<exists>j\<in>set seen. sameContent items b j)"
      using dup.prems(2) found by (simp add: less_Suc_eq) blast
    ultimately show "m_data (items ! a) \<in> dom (map_of (findDuplicates items (Suc i) seen
        (omap_put (m_data (items ! i)) (m_data (items ! j)) replaced)))"
      using dup.prems(1,4-7) by (intro dup.IH)
  qed
qed

section \<open>The loop ends\<close>

text \<open>What a replacement leaves alone: the kind of every item, and everything but the data of pushed tags.\<close>

definition sameButTags :: "AssemblyItem \<Rightarrow> AssemblyItem \<Rightarrow> bool" where
  "sameButTags a b \<longleftrightarrow> b = a \<or> m_type a = PushTag \<and> (\<exists>d. b = a\<lparr>m_data := d\<rparr>)"

definition ownPushOf :: "AssemblyItem \<Rightarrow> u256 option" where
  "ownPushOf i = (if m_type i = PushTag \<and> ownTag i then Some (ucast (tagId i)) else None)"

lemma high_zero: "d < 2 ^ 64 \<Longrightarrow> drop_bit 64 d = 0" for d :: u256
  by (simp add: drop_bit_eq_div div_word_less)

lemma tagId_small: "d < 2 ^ 64 \<Longrightarrow> (ucast (ucast d :: 64 word) :: u256) = d" for d :: u256
proof -
  assume "d < 2 ^ 64"
  then have "take_bit 64 d = d" by (simp add: take_bit_eq_self_iff_drop_bit_eq_0 high_zero)
  then have "bit d n \<Longrightarrow> n < 64" for n by (metis bit_take_bit_iff)
  then show ?thesis by (intro bit_eqI) (auto simp: bit_simps)
qed

lemma ownTag_small: "m_data i < 2 ^ 64 \<Longrightarrow> ownTag i"
  by (simp add: high_zero ownTag_def ucast_64_256)

lemma replaceTag_own:
  "replaceTag repl (- 1) i =
     (case ownPushOf i of
        None \<Rightarrow> Inr (False, i)
      | Some k \<Rightarrow> (case map_of repl k of None \<Rightarrow> Inr (False, i) | Some d \<Rightarrow> Inr (True, i\<lparr>m_data := ucast (ucast d :: 64 word)\<rparr>)))"
  by (auto simp: replaceTag_def ownPushOf_def ownTag_def setPushTagSubIdAndTag_def isTagItem_def item_setData_def
      split: option.splits)

definition replaced :: "TagMap \<Rightarrow> AssemblyItem \<Rightarrow> AssemblyItem" where
  "replaced repl i =
     (case Option.bind (ownPushOf i) (map_of repl) of None \<Rightarrow> i | Some d \<Rightarrow> i\<lparr>m_data := ucast (ucast d :: 64 word)\<rparr>)"

definition hits :: "TagMap \<Rightarrow> AssemblyItem \<Rightarrow> bool" where
  "hits repl i \<longleftrightarrow> Option.bind (ownPushOf i) (map_of repl) \<noteq> None"

lemma applyTagReplacement_own:
  "applyTagReplacement items repl (- 1) = Inr (list_ex (hits repl) items, map (replaced repl) items)"
  by (induction items) (auto simp: replaceTag_own hits_def replaced_def split: option.splits)

lemma replaced_keeps [simp]:
  "m_type (replaced repl i) = m_type i" "m_type i \<noteq> PushTag \<Longrightarrow> replaced repl i = i"
  by (auto simp: replaced_def ownPushOf_def split: option.splits)

lemma replaced_noop: "\<not> hits repl i \<Longrightarrow> replaced repl i = i"
  by (auto simp: hits_def replaced_def)

lemma tagAt_replaced [simp]: "tagAt (map (replaced repl) items) i = tagAt items i"
  by (auto simp: tagAt_def)

lemma tag_replaced: "tagAt items i \<Longrightarrow> map (replaced repl) items ! i = items ! i"
  by (simp add: tagAt_def)

text \<open>A replacement leads from a tag to a tag at an earlier position.\<close>

definition tagPosition :: "AssemblyItems \<Rightarrow> u256 \<Rightarrow> nat" where
  "tagPosition items d = length (takeWhile (\<lambda>i. \<not> (m_type i = Tag \<and> m_data i = d)) items)"

definition tagsUnique :: "AssemblyItems \<Rightarrow> bool" where
  "tagsUnique items \<longleftrightarrow> distinct (map m_data (filter isTag items)) \<and>
     list_all (\<lambda>i. m_type i = Tag \<longrightarrow> m_data i < 2 ^ 64) items"

definition leadsBack :: "AssemblyItems \<Rightarrow> TagMap \<Rightarrow> bool" where
  "leadsBack items repl \<longleftrightarrow>
     (\<forall>k v. map_of repl k = Some v \<longrightarrow>
        v < 2 ^ 64 \<and> tagPosition items v < tagPosition items k \<and> tagPosition items k < length items)"

definition pushPositions :: "AssemblyItems \<Rightarrow> AssemblyItems \<Rightarrow> nat" where
  "pushPositions tags items = (\<Sum>i\<leftarrow>items. case ownPushOf i of None \<Rightarrow> 0 | Some d \<Rightarrow> tagPosition tags d)"

lemma tagPosition_replaced [simp]: "tagPosition (map (replaced repl) items) d = tagPosition items d"
  unfolding tagPosition_def
proof (induction items)
  case (Cons i items)
  have "m_data (replaced repl i) = m_data i" if "m_type i = Tag" using that by simp
  with Cons show ?case by auto
qed simp

lemma tagPosition_at:
  assumes "distinct (map m_data (filter isTag items))" "tagAt items i"
  shows "tagPosition items (m_data (items ! i)) = i"
  using assms
proof (induction items arbitrary: i)
  case (Cons x items)
  show ?case
  proof (cases i)
    case 0
    with Cons show ?thesis by (simp add: tagPosition_def tagAt_def)
  next
    case (Suc j)
    then have "tagAt items j" using Cons.prems(2) by (simp add: tagAt_def)
    then have "items ! j \<in> set (filter isTag items)" by (auto simp: tagAt_def isTag_def)
    with Cons.prems(1) have "\<not> (m_type x = Tag \<and> m_data x = m_data (items ! j))"
      by (auto simp: isTag_def split: if_splits)
    moreover have "tagPosition items (m_data (items ! j)) = j"
      using Cons \<open>tagAt items j\<close> by (auto split: if_splits)
    ultimately show ?thesis using Suc by (auto simp: tagPosition_def)
  qed
qed (simp add: tagAt_def)

lemma leadsBack_findDuplicates:
  assumes "tagsUnique items" "leadsBack items repl"
  shows "leadsBack items (findDuplicates items 0 [] repl)"
  unfolding leadsBack_def
proof (intro allI impI)
  fix k v assume "map_of (findDuplicates items 0 [] repl) k = Some v"
  then consider "map_of repl k = Some v" | "duplicate items k v" using findDuplicates_sound [of "[]" 0] by auto
  then show "v < 2 ^ 64 \<and> tagPosition items v < tagPosition items k \<and> tagPosition items k < length items"
  proof cases
    case 1
    with assms show ?thesis by (auto simp: leadsBack_def)
  next
    case 2
    then obtain i j where ij: "j < i" "tagAt items i" "tagAt items j" "m_data (items ! i) = k" "m_data (items ! j) = v"
      by (auto simp: duplicate_def)
    then have "tagPosition items k = i" "tagPosition items v = j" using assms tagPosition_at by (auto simp: tagsUnique_def)
    moreover have "v < 2 ^ 64" using ij assms by (auto simp: tagsUnique_def tagAt_def list_all_length)
    ultimately show ?thesis using ij by (simp add: tagAt_def)
  qed
qed

lemma ownPushOf_replaced:
  assumes "ownPushOf i = Some k" "map_of repl k = Some v" "v < 2 ^ 64"
  shows "ownPushOf (replaced repl i) = Some v"
proof -
  have "replaced repl i = i\<lparr>m_data := v\<rparr>" using assms by (simp add: replaced_def tagId_small)
  moreover have "ownTag (i\<lparr>m_data := v\<rparr>)" using assms by (intro ownTag_small) simp
  moreover have "m_type i = PushTag" using assms by (simp add: ownPushOf_def split: if_splits)
  ultimately show ?thesis using assms(3) by (simp add: ownPushOf_def tagId_def tagId_small)
qed

lemma push_step:
  assumes "leadsBack tags repl"
  shows "(case ownPushOf (replaced repl i) of None \<Rightarrow> 0 | Some d \<Rightarrow> tagPosition tags d) + of_bool (hits repl i)
    \<le> (case ownPushOf i of None \<Rightarrow> 0 | Some d \<Rightarrow> tagPosition tags d)"
proof (cases "hits repl i")
  case True
  then obtain k v where kv: "ownPushOf i = Some k" "map_of repl k = Some v"
    by (auto simp: hits_def bind_eq_Some_conv)
  with assms have "v < 2 ^ 64" "tagPosition tags v < tagPosition tags k" by (auto simp: leadsBack_def)
  with kv ownPushOf_replaced [OF kv] show ?thesis by simp
qed (simp add: replaced_noop)

lemma pushPositions_le:
  assumes "leadsBack tags repl"
  shows "pushPositions tags (map (replaced repl) items) + of_bool (list_ex (hits repl) items) \<le> pushPositions tags items"
proof (induction items)
  case (Cons i items)
  with push_step [OF assms, of i] show ?case by (auto simp: pushPositions_def split: if_splits)
qed (simp add: pushPositions_def)

lemma pushPositions_tags [simp]: "pushPositions (map (replaced repl) tags) items = pushPositions tags items"
  by (auto simp: pushPositions_def intro!: arg_cong [where f = sum_list] split: option.split)

lemma tagsUnique_replaced [simp]: "tagsUnique (map (replaced repl) items) = tagsUnique items"
proof -
  have "map m_data (filter isTag (map (replaced repl) items)) = map m_data (filter isTag items)"
    by (induction items) (auto simp: isTag_def)
  then show ?thesis by (auto simp: tagsUnique_def list_all_iff)
qed

lemma leadsBack_replaced [simp]: "leadsBack (map (replaced r) items) repl = leadsBack items repl"
  by (simp add: leadsBack_def)

lemma sameButTags_replaced: "list_all2 sameButTags items (map (replaced repl) items)"
  by (auto simp: list_all2_conv_all_nth sameButTags_def replaced_def ownPushOf_def split: option.splits if_splits)

lemma sameButTags_trans: "sameButTags a b \<Longrightarrow> sameButTags b c \<Longrightarrow> sameButTags a c"
  by (auto simp: sameButTags_def)

text \<open>The loop ends, and what holds of its result.\<close>

definition deduplicated :: "AssemblyItems \<Rightarrow> AssemblyItems \<Rightarrow> TagMap \<Rightarrow> bool" where
  "deduplicated items items' repl \<longleftrightarrow>
     list_all2 sameButTags items items' \<and> list_all (\<lambda>i. \<not> hits repl i) items' \<and> leadsBack items repl"

lemma deduplicateLoop_returns:
  "tagsUnique items \<Longrightarrow> leadsBack items repl \<Longrightarrow>
     \<exists>n' items' repl'. deduplicateLoop n items repl = Some (Inr (n', items', repl')) \<and> n \<le> n' \<and>
       (n' = n \<longrightarrow> items' = items) \<and> (n' \<noteq> n \<longrightarrow> pushPositions items items' < pushPositions items items) \<and>
       deduplicated items items' repl'"
proof (induction "pushPositions items items" arbitrary: items n repl rule: less_induct)
  case less
  let ?repl = "findDuplicates items 0 [] repl"
  let ?items = "map (replaced ?repl) items"
  have earlier: "leadsBack items ?repl" using less.prems by (rule leadsBack_findDuplicates)
  note apply_eq = deduplicateLoop.simps [of n items repl] applyTagReplacement_own [of items ?repl]
  show ?case
  proof (cases "list_ex (hits ?repl) items")
    case False
    then have none: "list_all (\<lambda>i. \<not> hits ?repl i) items" by (auto simp: list_ex_iff list_all_iff)
    then have "?items = items" by (intro map_idI) (auto simp: list_all_iff replaced_noop)
    moreover have "list_all2 sameButTags items items" by (simp add: list_all2_same sameButTags_def)
    ultimately show ?thesis using False earlier none by (simp add: apply_eq Let_def deduplicated_def)
  next
    case True
    have lt: "pushPositions items ?items < pushPositions items items"
      using pushPositions_le [OF earlier, of items] True by simp
    with less.hyps [of ?items ?repl "n + 1"] less.prems earlier obtain n' items' repl' where
      IH: "deduplicateLoop (n + 1) ?items ?repl = Some (Inr (n', items', repl'))" "n + 1 \<le> n'"
        "n' = n + 1 \<longrightarrow> items' = ?items" "n' \<noteq> n + 1 \<longrightarrow> pushPositions items items' < pushPositions items ?items"
        "deduplicated ?items items' repl'"
      by auto
    have "deduplicated items items' repl'"
      using IH(5) list_all2_trans [OF sameButTags_trans sameButTags_replaced] by (auto simp: deduplicated_def)
    with IH True lt show ?thesis by (auto simp: apply_eq Let_def split: if_splits)
  qed
qed

lemma deduplicate_returns:
  assumes "tagsUnique items"
  shows "\<exists>changed items' repl. deduplicate items = Some (Inr (changed, items', repl)) \<and>
    changed = (items' \<noteq> items) \<and> deduplicated items items' repl"
proof (cases "list_ex (itemEq (mkItem Tag (- 4) noLocation)) items \<or> list_ex (itemEq pushSelf) items")
  case True
  then have "deduplicate items = Some (Inr (False, items, []))" by (simp add: deduplicate_def)
  moreover have "deduplicated items items []"
    by (auto simp: deduplicated_def leadsBack_def hits_def list_all_iff list_all2_same sameButTags_def split: bind_splits)
  ultimately show ?thesis by blast
next
  case False
  have "leadsBack items []" by (simp add: leadsBack_def)
  from deduplicateLoop_returns [OF assms this, of 0] obtain n' items' repl' where
    "deduplicateLoop 0 items [] = Some (Inr (n', items', repl'))" "deduplicated items items' repl'"
    "n' = 0 \<longrightarrow> items' = items" "n' \<noteq> 0 \<longrightarrow> pushPositions items items' < pushPositions items items" by auto
  with False show ?thesis by (auto simp: deduplicate_def split: if_splits)
qed

end
