(* ===== verification/LinkerObject.thy ===== *)
theory LinkerObject
  imports DevCore
begin

text \<open>
  Model of libevmasm/LinkerObject.h and LinkerObject.cpp: byte code with the positions where library
  addresses are missing. Positions are natural numbers; an address (\<open>h160\<close>) is the list of its 20
  bytes. The code writes through pointers without a check, so \<open>overwrite\<close> is what it does when the
  written range lies inside; the invariant \<open>linkable\<close> says that it does.
\<close>

section \<open>Objects and operations\<close>

type_synonym h160 = bytes
type_synonym LinkReferences = "(nat \<times> string) list"

record LinkerObject =
  lo_bytecode :: bytes
  lo_linkReferences :: LinkReferences

definition emptyObject :: LinkerObject where
  "emptyObject = \<lparr>lo_bytecode = [], lo_linkReferences = []\<rparr>"

definition lo_append :: "LinkerObject \<Rightarrow> LinkerObject \<Rightarrow> LinkerObject" where
  "lo_append obj other =
     \<lparr>lo_bytecode = lo_bytecode obj @ lo_bytecode other,
      lo_linkReferences =
        fold (\<lambda>(pos, name). omap_put (pos + length (lo_bytecode obj)) name)
          (lo_linkReferences other) (lo_linkReferences obj)\<rparr>"

definition overwrite :: "nat \<Rightarrow> 'a list \<Rightarrow> 'a list \<Rightarrow> 'a list" where
  "overwrite pos xs ys = take pos ys @ xs @ drop (pos + length xs) ys"

definition matchLibrary :: "string \<Rightarrow> (string \<times> h160) list \<Rightarrow> h160 option" where
  "matchLibrary linkRefName libraryAddresses =
     (case map_of libraryAddresses linkRefName of
        Some address \<Rightarrow> Some address
      | None \<Rightarrow>
          (case dropWhile (\<lambda>c. c \<noteq> CHR '':'') linkRefName of
             [] \<Rightarrow> None
           | _ # simpleName \<Rightarrow> map_of libraryAddresses simpleName))"

fun linkLoop :: "(string \<times> h160) list \<Rightarrow> LinkReferences \<Rightarrow> bytes \<times> LinkReferences \<Rightarrow> bytes \<times> LinkReferences" where
  "linkLoop libs [] (code, remaining) = (code, remaining)"
| "linkLoop libs ((pos, name) # refs) (code, remaining) =
     (case matchLibrary name libs of
        Some address \<Rightarrow> linkLoop libs refs (overwrite pos address code, remaining)
      | None \<Rightarrow> linkLoop libs refs (code, omap_insert pos name remaining))"

definition link :: "(string \<times> h160) list \<Rightarrow> LinkerObject \<Rightarrow> LinkerObject" where
  "link libs obj =
     (let (code, remaining) = linkLoop libs (lo_linkReferences obj) (lo_bytecode obj, [])
      in \<lparr>lo_bytecode = code, lo_linkReferences = remaining\<rparr>)"

text \<open>The 40 characters that stand for a missing address.\<close>

definition placeholder :: "string \<Rightarrow> string" where
  "placeholder name =
     ''__'' @ map (\<lambda>i. if i < length name then name ! i else CHR ''_'') [0..<36] @ ''__''"

fun placeReferences :: "LinkReferences \<Rightarrow> string \<Rightarrow> string" where
  "placeReferences [] hex = hex"
| "placeReferences ((pos, name) # refs) hex = placeReferences refs (overwrite (pos * 2) (placeholder name) hex)"

definition lo_toHex :: "LinkerObject \<Rightarrow> string" where
  "lo_toHex obj = placeReferences (lo_linkReferences obj) (toHex (lo_bytecode obj) 2 DontAdd)"

section \<open>Writing at separate places\<close>

definition spacedBy :: "nat \<Rightarrow> nat \<Rightarrow> nat list \<Rightarrow> bool" where
  "spacedBy w n ps \<longleftrightarrow> sorted_wrt (\<lambda>p q. p + w \<le> q) ps \<and> list_all (\<lambda>p. p + w \<le> n) ps"

lemma spacedBy_simps [simp]:
  "spacedBy w n []"
  "spacedBy w n (p # ps) \<longleftrightarrow> p + w \<le> n \<and> (\<forall>q\<in>set ps. p + w \<le> q) \<and> spacedBy w n ps"
  by (auto simp: spacedBy_def)

lemma spacedBy_filter: "spacedBy w n (map fst xs) \<Longrightarrow> spacedBy w n (map fst (filter P xs))"
  by (induction xs) auto

definition overwriteAll :: "(nat \<times> 'a list) list \<Rightarrow> 'a list \<Rightarrow> 'a list" where
  "overwriteAll segs ys = fold (\<lambda>(p, xs). overwrite p xs) segs ys"

lemma overwriteAll_simps [simp]:
  "overwriteAll [] ys = ys"
  "overwriteAll ((p, xs) # segs) ys = overwriteAll segs (overwrite p xs ys)"
  by (simp_all add: overwriteAll_def)

lemma length_overwrite [simp]: "pos + length xs \<le> length ys \<Longrightarrow> length (overwrite pos xs ys) = length ys"
  by (simp add: overwrite_def)

lemma overwrite_nth:
  assumes "pos + length xs \<le> length ys" "i < length ys"
  shows "overwrite pos xs ys ! i = (if pos \<le> i \<and> i < pos + length xs then xs ! (i - pos) else ys ! i)"
  using assms by (auto simp: overwrite_def nth_append min_def)

text \<open>Pieces that lie inside a list of \<open>n\<close> elements and do not overlap.\<close>

definition fits :: "nat \<Rightarrow> (nat \<times> 'a list) list \<Rightarrow> bool" where
  "fits n segs \<longleftrightarrow> list_all (\<lambda>(p, xs). p + length xs \<le> n) segs \<and>
     sorted_wrt (\<lambda>(p, xs) (q, ys). p + length xs \<le> q \<or> q + length ys \<le> p) segs"

lemma fits_simps [simp]:
  "fits n []"
  "fits n ((p, xs) # segs) \<longleftrightarrow> p + length xs \<le> n \<and>
     (\<forall>(q, ys)\<in>set segs. p + length xs \<le> q \<or> q + length ys \<le> p) \<and> fits n segs"
  by (auto simp: fits_def)

lemma spacedBy_fits:
  "spacedBy w n (map fst segs) \<Longrightarrow> \<forall>(p, xs)\<in>set segs. length xs = w \<Longrightarrow> fits n segs"
  by (induction segs) fastforce+

lemma overwriteAll_length: "fits (length ys) segs \<Longrightarrow> length (overwriteAll segs ys) = length ys"
  by (induction segs arbitrary: ys) auto

lemma overwriteAll_outside:
  "fits (length ys) segs \<Longrightarrow> i < length ys \<Longrightarrow> \<forall>(p, xs)\<in>set segs. i < p \<or> p + length xs \<le> i \<Longrightarrow>
     overwriteAll segs ys ! i = ys ! i"
proof (induction segs arbitrary: ys)
  case (Cons s segs)
  obtain p xs where s: "s = (p, xs)" by force
  with Cons.prems Cons.IH [of "overwrite p xs ys"] show ?case by (auto simp: overwrite_nth)
qed simp

lemma overwriteAll_inside:
  "fits (length ys) segs \<Longrightarrow> (p, xs) \<in> set segs \<Longrightarrow> take (length xs) (drop p (overwriteAll segs ys)) = xs"
proof (induction segs arbitrary: ys)
  case (Cons s segs)
  obtain p' xs' where s: "s = (p', xs')" by force
  show ?case
  proof (cases "(p, xs) \<in> set segs")
    case True
    with Cons.prems Cons.IH [of "overwrite p' xs' ys"] show ?thesis by (auto simp: s)
  next
    case False
    then have px: "p' = p" "xs' = xs" using Cons.prems(2) s by auto
    let ?zs = "overwriteAll segs (overwrite p xs ys)"
    have fit: "p + length xs \<le> length ys" "fits (length (overwrite p xs ys)) segs"
      "\<forall>(q, ys)\<in>set segs. p + length xs \<le> q \<or> q + length ys \<le> p"
      using Cons.prems(1) s px by auto
    then have len: "length ?zs = length ys" using overwriteAll_length [OF fit(2)] by simp
    show ?thesis
    proof (rule nth_equalityI)
      fix i assume "i < length (take (length xs) (drop p (overwriteAll (s # segs) ys)))"
      then have i: "i < length xs" by simp
      have "?zs ! (p + i) = overwrite p xs ys ! (p + i)"
        using fit i by (intro overwriteAll_outside) fastforce+
      then show "take (length xs) (drop p (overwriteAll (s # segs) ys)) ! i = xs ! i"
        using s px fit i len by (simp add: overwrite_nth)
    qed (use s px fit len in simp)
  qed
qed simp

lemma overwrite_append: "p + length xs \<le> length ys \<Longrightarrow> overwrite p xs (ys @ zs) = overwrite p xs ys @ zs"
  by (simp add: overwrite_def)

lemma overwriteAll_append: "fits (length ys) segs \<Longrightarrow> overwriteAll segs (ys @ zs) = overwriteAll segs ys @ zs"
  by (induction segs arbitrary: ys) (auto simp: overwrite_append)

lemma overwriteAll_compose: "overwriteAll (segs @ segs') ys = overwriteAll segs' (overwriteAll segs ys)"
  by (simp add: overwriteAll_def)

section \<open>The invariant\<close>

text \<open>Every reference lies inside the code and ends before the next; so the map is in order.\<close>

definition linkable :: "LinkerObject \<Rightarrow> bool" where
  "linkable obj \<longleftrightarrow> spacedBy 20 (length (lo_bytecode obj)) (map fst (lo_linkReferences obj))"

lemma omap_put_last: "\<forall>k\<in>set (map fst xs). k < pos \<Longrightarrow> omap_put pos v xs = xs @ [(pos, v)]"
  by (induction xs) auto

lemma omap_insert_last: "\<forall>k\<in>set (map fst xs). k < pos \<Longrightarrow> omap_insert pos v xs = xs @ [(pos, v)]"
proof -
  assume below: "\<forall>k\<in>set (map fst xs). k < pos"
  then have "map_of xs pos = None" by (auto simp: map_of_eq_None_iff)
  with below show ?thesis by (simp add: omap_insert_def omap_put_last)
qed

lemma fold_put_last:
  "\<forall>k\<in>set (map fst xs). \<forall>p\<in>set (map fst refs). k < p + n \<Longrightarrow> spacedBy 20 m (map fst refs) \<Longrightarrow>
     fold (\<lambda>(pos, name). omap_put (pos + n) name) refs xs = xs @ map (apfst (\<lambda>pos. pos + n)) refs"
proof (induction refs arbitrary: xs)
  case (Cons r refs)
  obtain pos name where r: "r = (pos, name)" by force
  have "omap_put (pos + n) name xs = xs @ [(pos + n, name)]" using Cons.prems(1) r by (intro omap_put_last) auto
  moreover have "\<forall>k\<in>set (map fst (xs @ [(pos + n, name)])). \<forall>p\<in>set (map fst refs). k < p + n"
    using Cons.prems r by fastforce
  ultimately show ?case using Cons.IH Cons.prems(2) r by simp
qed simp

lemma lo_append_eq:
  assumes "linkable obj" "linkable other"
  shows "lo_append obj other =
    \<lparr>lo_bytecode = lo_bytecode obj @ lo_bytecode other,
     lo_linkReferences = lo_linkReferences obj @
       map (apfst (\<lambda>pos. pos + length (lo_bytecode obj))) (lo_linkReferences other)\<rparr>"
proof -
  have "\<forall>k\<in>set (map fst (lo_linkReferences obj)). k < length (lo_bytecode obj)"
    using assms(1) by (auto simp: linkable_def spacedBy_def list_all_iff)
  then have "\<forall>k\<in>set (map fst (lo_linkReferences obj)).
      \<forall>p\<in>set (map fst (lo_linkReferences other)). k < p + length (lo_bytecode obj)" by (auto intro: trans_less_add2)
  from fold_put_last [OF this assms(2) [unfolded linkable_def]] show ?thesis by (simp add: lo_append_def)
qed

lemma linkable_append:
  assumes "linkable obj" "linkable other"
  shows "linkable (lo_append obj other)"
  using assms lo_append_eq [OF assms]
  by (fastforce simp: linkable_def spacedBy_def sorted_wrt_append sorted_wrt_map list_all_iff)

section \<open>Linking\<close>

lemma linkLoop_eq:
  "sorted_wrt (<) (map fst remaining @ map fst refs) \<Longrightarrow>
   linkLoop libs refs (code, remaining) =
     (overwriteAll (List.map_filter (\<lambda>(pos, name). map_option (Pair pos) (matchLibrary name libs)) refs) code,
      remaining @ filter (\<lambda>(pos, name). matchLibrary name libs = None) refs)"
proof (induction libs refs "(code, remaining)" arbitrary: code remaining rule: linkLoop.induct)
  case (2 libs pos name refs code remaining)
  then show ?case
    by (auto simp: map_filter_simps omap_insert_last sorted_wrt_append split: option.split)
qed (simp add: map_filter_simps)

lemma spacedBy_sorted: "spacedBy 20 n ps \<Longrightarrow> sorted_wrt (<) ps"
  unfolding spacedBy_def by (elim conjE sorted_wrt_mono_rel [rotated]) simp

lemma spacedBy_map_filter:
  "spacedBy w n (map fst refs) \<Longrightarrow>
     spacedBy w n (map fst (List.map_filter (\<lambda>(pos, name). map_option (Pair pos) (f name)) refs))"
  by (induction refs) (auto simp: map_filter_simps map_filter_def split: option.split)

text \<open>What linking does, for addresses of 20 bytes.\<close>

lemma link_eq:
  assumes "linkable obj"
  shows "lo_linkReferences (link libs obj) = filter (\<lambda>(pos, name). matchLibrary name libs = None) (lo_linkReferences obj)"
    and "lo_bytecode (link libs obj) =
      overwriteAll (List.map_filter (\<lambda>(pos, name). map_option (Pair pos) (matchLibrary name libs)) (lo_linkReferences obj))
        (lo_bytecode obj)"
  using assms linkLoop_eq [of "[]" "lo_linkReferences obj" libs "lo_bytecode obj"] spacedBy_sorted
  by (auto simp: link_def linkable_def)

lemma matchLibrary_set: "matchLibrary name libs = Some a \<Longrightarrow> a \<in> snd ` set libs"
  by (auto simp: matchLibrary_def split: option.splits list.splits dest!: map_of_SomeD intro: rev_image_eqI)

lemma link_exact:
  assumes obj: "linkable obj" and libs: "\<forall>a\<in>snd ` set libs. length a = 20"
  shows "linkable (link libs obj)"
    and "length (lo_bytecode (link libs obj)) = length (lo_bytecode obj)"
    and "(pos, name) \<in> set (lo_linkReferences obj) \<Longrightarrow> matchLibrary name libs = Some address \<Longrightarrow>
      take 20 (drop pos (lo_bytecode (link libs obj))) = address"
    and "i < length (lo_bytecode obj) \<Longrightarrow>
      \<forall>(pos, name)\<in>set (lo_linkReferences obj). matchLibrary name libs = None \<or> i < pos \<or> pos + 20 \<le> i \<Longrightarrow>
      lo_bytecode (link libs obj) ! i = lo_bytecode obj ! i"
    and "link libs (link libs obj) = link libs obj"
proof -
  let ?segs = "List.map_filter (\<lambda>(pos, name). map_option (Pair pos) (matchLibrary name libs)) (lo_linkReferences obj)"
  have sp: "spacedBy 20 (length (lo_bytecode obj)) (map fst ?segs)"
    using obj by (simp add: linkable_def spacedBy_map_filter)
  have len: "\<forall>(p, xs)\<in>set ?segs. length xs = 20"
    using libs matchLibrary_set by (fastforce simp: map_filter_def)
  note fit = spacedBy_fits [OF sp len]
  show size: "length (lo_bytecode (link libs obj)) = length (lo_bytecode obj)"
    using overwriteAll_length [OF fit] by (simp add: link_eq [OF obj])
  show ok: "linkable (link libs obj)"
    using obj spacedBy_filter unfolding linkable_def size link_eq(1) [OF obj] by blast
  show "(pos, name) \<in> set (lo_linkReferences obj) \<Longrightarrow> matchLibrary name libs = Some address \<Longrightarrow>
      take 20 (drop pos (lo_bytecode (link libs obj))) = address"
    unfolding link_eq(2) [OF obj] using overwriteAll_inside [OF fit, of pos address] libs matchLibrary_set
    by (force simp: map_filter_def)
  show "i < length (lo_bytecode obj) \<Longrightarrow>
      \<forall>(pos, name)\<in>set (lo_linkReferences obj). matchLibrary name libs = None \<or> i < pos \<or> pos + 20 \<le> i \<Longrightarrow>
      lo_bytecode (link libs obj) ! i = lo_bytecode obj ! i"
    unfolding link_eq(2) [OF obj] using len by (intro overwriteAll_outside [OF fit]) (fastforce simp: map_filter_def)+
  have "List.map_filter (\<lambda>(pos, name). map_option (Pair pos) (matchLibrary name libs)) (lo_linkReferences (link libs obj)) = []"
    by (auto simp: link_eq(1) [OF obj] map_filter_def filter_empty_conv)
  then show "link libs (link libs obj) = link libs obj"
    using link_eq [OF ok, of libs] by (intro LinkerObject.equality) (auto simp: link_eq(1) [OF obj])
qed

section \<open>The hex text\<close>

lemma length_placeholder [simp]: "length (placeholder name) = 40"
  by (simp add: placeholder_def)

lemma placeReferences_eq: "placeReferences refs hex = overwriteAll (map (\<lambda>(pos, name). (pos * 2, placeholder name)) refs) hex"
  by (induction refs hex rule: placeReferences.induct) simp_all

lemma length_toHex2: "length (toHex bs 2 DontAdd) = 2 * length bs"
  by (simp add: toHex_2_DontAdd) (induction bs; simp)

lemma toHex_exact:
  assumes "linkable obj"
  shows "length (lo_toHex obj) = 2 * length (lo_bytecode obj)"
    and "(pos, name) \<in> set (lo_linkReferences obj) \<Longrightarrow> take 40 (drop (2 * pos) (lo_toHex obj)) = placeholder name"
    and "lo_linkReferences obj = [] \<Longrightarrow> fromHex (lo_toHex obj) Throw = Inr (lo_bytecode obj)"
proof -
  let ?segs = "map (\<lambda>(pos, name). (pos * 2, placeholder name)) (lo_linkReferences obj)"
  have sp: "spacedBy 40 (length (toHex (lo_bytecode obj) 2 DontAdd)) (map fst ?segs)"
    using assms by (auto simp: linkable_def spacedBy_def length_toHex2 sorted_wrt_map list_all_iff case_prod_unfold
        elim!: sorted_wrt_mono_rel [rotated])
  have "\<forall>(p, xs)\<in>set ?segs. length xs = 40" by auto
  note fit = spacedBy_fits [OF sp this]
  show "length (lo_toHex obj) = 2 * length (lo_bytecode obj)"
    unfolding lo_toHex_def placeReferences_eq overwriteAll_length [OF fit] by (rule length_toHex2)
  show "(pos, name) \<in> set (lo_linkReferences obj) \<Longrightarrow> take 40 (drop (2 * pos) (lo_toHex obj)) = placeholder name"
    unfolding lo_toHex_def placeReferences_eq using overwriteAll_inside [OF fit, of "pos * 2" "placeholder name"]
    by (force simp: mult.commute)
  show "lo_linkReferences obj = [] \<Longrightarrow> fromHex (lo_toHex obj) Throw = Inr (lo_bytecode obj)"
    using fromHex_toHex by (simp add: lo_toHex_def)
qed

end
