(* ===== verification/SemVer.thy ===== *)
theory SemVer
  imports Tokens
begin

text \<open>
  Model of libsolidity/analysis/SemVerHandler.h and SemVerHandler.cpp: versions, match expressions and
  the parser of version pragmas. \<open>unsigned\<close> is 32 bits wide and \<open>int cmp\<close> receives the wrapped
  difference of two of them. Positions in the token list are natural numbers; \<open>char(-1)\<close> is the
  character 255, which no digit, dot or wildcard equals.
\<close>

section \<open>Versions\<close>

type_synonym u32 = "32 word"

record SemVerVersion =
  sv_numbers :: "u32 list"
  sv_prerelease :: string
  sv_build :: string

definition digitVal :: "char \<Rightarrow> u32" where
  "digitVal c = of_char c - 48"

fun readNumber :: "u32 \<Rightarrow> string \<Rightarrow> u32 \<times> string" where
  "readNumber v [] = (v, [])"
| "readNumber v (c # cs) = (if isdigit c then readNumber (v * 10 + digitVal c) cs else (v, c # cs))"

text \<open>The three passes of the loop over the levels: a dot is expected after the first two numbers.\<close>

fun readLevels :: "nat \<Rightarrow> string \<Rightarrow> (u32 list \<times> string) res" where
  "readLevels 0 s = Inr ([], s)"
| "readLevels (Suc levels) s =
     (let (v, rest) = readNumber 0 s
      in if levels = 0 then Inr ([v], rest)
         else (case rest of
                 [] \<Rightarrow> Inl SemVerError
               | c # cs \<Rightarrow>
                   if c \<noteq> CHR ''.'' then Inl SemVerError
                   else bindR (readLevels levels cs) (\<lambda>(vs, rest'). Inr (v # vs, rest'))))"

definition readPrerelease :: "string \<Rightarrow> string \<times> string" where
  "readPrerelease s =
     (case s of
        c # cs \<Rightarrow> if c = CHR ''-'' then (takeWhile (\<lambda>c. c \<noteq> CHR ''+'') cs, dropWhile (\<lambda>c. c \<noteq> CHR ''+'') cs) else ([], s)
      | [] \<Rightarrow> ([], s))"

definition readBuild :: "string \<Rightarrow> string \<times> string" where
  "readBuild s = (case s of c # cs \<Rightarrow> if c = CHR ''+'' then (cs, []) else ([], s) | [] \<Rightarrow> ([], s))"

definition SemVerVersion_of :: "string \<Rightarrow> SemVerVersion res" where
  "SemVerVersion_of versionString =
     bindR (readLevels 3 versionString) (\<lambda>(numbers, rest).
       let (prerelease, rest) = readPrerelease rest;
           (build, rest) = readBuild rest
       in if rest \<noteq> [] then Inl SemVerError
          else Inr \<lparr>sv_numbers = numbers, sv_prerelease = prerelease, sv_build = build\<rparr>)"

definition isPrerelease :: "SemVerVersion \<Rightarrow> bool" where
  "isPrerelease v \<longleftrightarrow> sv_prerelease v \<noteq> []"

definition sv_default :: SemVerVersion where
  "sv_default = \<lparr>sv_numbers = [0, 0, 0], sv_prerelease = [], sv_build = []\<rparr>"

section \<open>Match expressions\<close>

record MatchComponent =
  mc_prefix :: Token
  mc_version :: SemVerVersion
  mc_levelsPresent :: nat

type_synonym Conjunction = "MatchComponent list"
type_synonym SemVerMatchExpression = "Conjunction list"

text \<open>The loop over the levels, with \<open>cmp\<close> and \<open>didCompare\<close>.\<close>

fun compareLevels :: "nat \<Rightarrow> u32 list \<Rightarrow> u32 list \<Rightarrow> int \<Rightarrow> bool \<Rightarrow> int \<times> bool" where
  "compareLevels (Suc n) (v # vs) (c # cs) cmp didCompare =
     (if cmp = 0 then
        if c \<noteq> - 1 then compareLevels n vs cs (sint (v - c)) True else compareLevels n vs cs cmp didCompare
      else (cmp, didCompare))"
| "compareLevels n vs cs cmp didCompare = (cmp, didCompare)"

definition compareVersion :: "MatchComponent \<Rightarrow> SemVerVersion \<Rightarrow> int" where
  "compareVersion mc v =
     (let (cmp, didCompare) = compareLevels (mc_levelsPresent mc) (sv_numbers v) (sv_numbers (mc_version mc)) 0 False
      in if cmp = 0 \<and> sv_prerelease v \<noteq> [] \<and> didCompare then - 1 else cmp)"

definition matchesPlain :: "MatchComponent \<Rightarrow> SemVerVersion \<Rightarrow> bool res" where
  "matchesPlain mc v =
     (let cmp = compareVersion mc v
      in if mc_prefix mc = T_Assign then Inr (cmp = 0)
         else if mc_prefix mc = T_LessThan then Inr (cmp < 0)
         else if mc_prefix mc = T_LessThanOrEqual then Inr (cmp \<le> 0)
         else if mc_prefix mc = T_GreaterThan then Inr (cmp > 0)
         else if mc_prefix mc = T_GreaterThanOrEqual then Inr (cmp \<ge> 0)
         else Inl SolAssert)"

definition mc_matches :: "MatchComponent \<Rightarrow> SemVerVersion \<Rightarrow> bool res" where
  "mc_matches mc v =
     (if mc_prefix mc = T_BitNot then
        bindR (matchesPlain (mc\<lparr>mc_prefix := T_GreaterThanOrEqual\<rparr>) v) (\<lambda>ge.
          if \<not> ge then Inr False
          else matchesPlain (mc\<lparr>mc_prefix := T_LessThanOrEqual,
                 mc_levelsPresent := (if mc_levelsPresent mc \<ge> 2 then 2 else 1)\<rparr>) v)
      else if mc_prefix mc = T_BitXor then
        bindR (matchesPlain (mc\<lparr>mc_prefix := T_GreaterThanOrEqual\<rparr>) v) (\<lambda>ge.
          if \<not> ge then Inr False
          else matchesPlain (mc\<lparr>mc_prefix := T_LessThanOrEqual,
                 mc_levelsPresent := (if sv_numbers (mc_version mc) ! 0 = 0 then 2 else 1)\<rparr>) v)
      else matchesPlain mc v)"

fun conj_matches :: "Conjunction \<Rightarrow> SemVerVersion \<Rightarrow> bool res" where
  "conj_matches [] v = Inr True"
| "conj_matches (mc # mcs) v =
     bindR (mc_matches mc v) (\<lambda>b. if \<not> b then Inr False else conj_matches mcs v)"

fun disj_matches :: "SemVerMatchExpression \<Rightarrow> SemVerVersion \<Rightarrow> bool res" where
  "disj_matches [] v = Inr False"
| "disj_matches (rng # rngs) v =
     bindR (conj_matches rng v) (\<lambda>b. if b then Inr True else disj_matches rngs v)"

definition sv_isValid :: "SemVerMatchExpression \<Rightarrow> bool" where
  "sv_isValid e \<longleftrightarrow> e \<noteq> []"

definition sv_matches :: "SemVerMatchExpression \<Rightarrow> SemVerVersion \<Rightarrow> bool res" where
  "sv_matches e v = (if \<not> sv_isValid e then Inr False else disj_matches e v)"

section \<open>The parser\<close>

record SemVerParser =
  sp_tokens :: "Token list"
  sp_literals :: "string list"
  sp_pos :: nat
  sp_posInside :: nat

definition sp_currentChar :: "SemVerParser \<Rightarrow> char" where
  "sp_currentChar p =
     (if sp_pos p \<ge> length (sp_literals p) then CHR 0xFF
      else if sp_posInside p \<ge> length (sp_literals p ! sp_pos p) then CHR 0xFF
      else sp_literals p ! sp_pos p ! sp_posInside p)"

definition sp_nextToken :: "SemVerParser \<Rightarrow> SemVerParser" where
  "sp_nextToken p = p\<lparr>sp_pos := sp_pos p + 1, sp_posInside := 0\<rparr>"

definition sp_nextChar :: "SemVerParser \<Rightarrow> SemVerParser" where
  "sp_nextChar p =
     (if sp_pos p < length (sp_literals p) then
        if sp_posInside p + 1 \<ge> length (sp_literals p ! sp_pos p) then sp_nextToken p
        else p\<lparr>sp_posInside := sp_posInside p + 1\<rparr>
      else p)"

definition sp_currentToken :: "SemVerParser \<Rightarrow> Token" where
  "sp_currentToken p = (if sp_pos p < length (sp_tokens p) then sp_tokens p ! sp_pos p else T_Illegal)"

text \<open>The loop over the digits of a number; it stops at the end of the token.\<close>

lemma nextChar_inside:
  "isdigit (sp_currentChar p) \<Longrightarrow> sp_pos (sp_nextChar p) = sp_pos p \<Longrightarrow>
     sp_posInside p < sp_posInside (sp_nextChar p) \<and>
     sp_posInside (sp_nextChar p) < length (sp_literals p ! sp_pos p) \<and> sp_literals (sp_nextChar p) = sp_literals p"
  by (auto simp: sp_nextChar_def sp_nextToken_def sp_currentChar_def isdigit_def split: if_splits)

function parseDigits :: "nat \<Rightarrow> u32 \<Rightarrow> SemVerParser \<Rightarrow> (u32 \<times> SemVerParser) res" where
  "parseDigits startPos v p =
     (if sp_pos p = startPos \<and> isdigit (sp_currentChar p) then
        let d = digitVal (sp_currentChar p)
        in if v * 10 < v \<or> v * 10 + d < v * 10 then Inl SemVerError
           else parseDigits startPos (v * 10 + d) (sp_nextChar p)
      else Inr (v, p))"
  by pat_completeness auto

termination
proof (relation "measure (\<lambda>(startPos, v, p).
    if sp_pos p = startPos then Suc (length (sp_literals p ! startPos) - sp_posInside p) else 0)"; clarsimp)
  fix p
  assume "isdigit (sp_currentChar p)" "sp_pos (sp_nextChar p) = sp_pos p"
  from nextChar_inside [OF this]
  show "length (sp_literals (sp_nextChar p) ! sp_pos p) - sp_posInside (sp_nextChar p)
      < length (sp_literals p ! sp_pos p) - sp_posInside p" by auto
qed

declare parseDigits.simps [simp del]

definition parseVersionPart :: "SemVerParser \<Rightarrow> (u32 \<times> SemVerParser) res" where
  "parseVersionPart p =
     (let startPos = sp_pos p;
          c = sp_currentChar p;
          p = sp_nextChar p
      in if c = CHR ''x'' \<or> c = CHR ''X'' \<or> c = CHR ''*'' then Inr (- 1, p)
         else if c = CHR ''0'' then Inr (0, p)
         else if isdigit c then parseDigits startPos (digitVal c) p
         else Inl SemVerError)"

text \<open>The loop over the levels of a component; \<open>n\<close> more may follow.\<close>

fun parseLevels :: "nat \<Rightarrow> u32 list \<Rightarrow> SemVerParser \<Rightarrow> (u32 list \<times> SemVerParser) res" where
  "parseLevels 0 vs p = Inr (vs, p)"
| "parseLevels (Suc n) vs p =
     bindR (parseVersionPart p) (\<lambda>(v, p).
       if sp_currentChar p = CHR ''.'' then parseLevels n (vs @ [v]) (sp_nextChar p)
       else Inr (vs @ [v], p))"

definition isPrefixToken :: "Token \<Rightarrow> bool" where
  "isPrefixToken tok \<longleftrightarrow> tok = T_BitXor \<or> tok = T_BitNot \<or> tok = T_LessThan \<or> tok = T_LessThanOrEqual \<or>
     tok = T_GreaterThan \<or> tok = T_GreaterThanOrEqual \<or> tok = T_Assign"

definition parseMatchComponent :: "SemVerParser \<Rightarrow> (MatchComponent \<times> SemVerParser) res" where
  "parseMatchComponent p =
     (let tok = sp_currentToken p;
          (prefix, p) = (if isPrefixToken tok then (tok, sp_nextToken p) else (T_Assign, p))
      in bindR (parseLevels 3 [] p) (\<lambda>(vs, p).
           Inr (\<lparr>mc_prefix = prefix,
                 mc_version = sv_default\<lparr>sv_numbers := vs @ drop (length vs) (sv_numbers sv_default)\<rparr>,
                 mc_levelsPresent = length vs\<rparr>, p)))"

text \<open>A parsed part consumes at least one character, so the loops of the parser end.\<close>

definition sp_progress :: "(SemVerParser \<times> SemVerParser) set" where
  "sp_progress = measures
     [\<lambda>p. length (sp_literals p) - sp_pos p, \<lambda>p. length (sp_literals p ! sp_pos p) - sp_posInside p]"

lemma wf_sp_progress [simp]: "wf sp_progress"
  by (simp add: sp_progress_def)

lemma trans_sp_progress: "(p, q) \<in> sp_progress \<Longrightarrow> (q, r) \<in> sp_progress\<^sup>= \<Longrightarrow> (p, r) \<in> sp_progress"
  "(p, q) \<in> sp_progress\<^sup>= \<Longrightarrow> (q, r) \<in> sp_progress \<Longrightarrow> (p, r) \<in> sp_progress"
  by (auto simp: sp_progress_def)

lemma nextToken_progress: "sp_pos p < length (sp_literals p) \<Longrightarrow> (sp_nextToken p, p) \<in> sp_progress"
  by (auto simp: sp_progress_def sp_nextToken_def)

lemma nextChar_progress: "sp_pos p < length (sp_literals p) \<Longrightarrow> (sp_nextChar p, p) \<in> sp_progress"
  using nextToken_progress [of p] by (auto simp: sp_nextChar_def) (auto simp: sp_progress_def)

lemma nextChar_progress_eq: "(sp_nextChar p, p) \<in> sp_progress\<^sup>="
  using nextChar_progress [of p] by (cases "sp_pos p < length (sp_literals p)") (auto simp: sp_nextChar_def)

lemma currentChar_inside: "sp_currentChar p \<noteq> CHR 0xFF \<Longrightarrow> sp_pos p < length (sp_literals p)"
  by (auto simp: sp_currentChar_def split: if_splits)

lemma parseDigits_progress: "parseDigits startPos v p = Inr (w, p') \<Longrightarrow> (p', p) \<in> sp_progress\<^sup>="
proof (induction startPos v p rule: parseDigits.induct)
  case (1 startPos v p)
  show ?case
  proof (cases "sp_pos p = startPos \<and> isdigit (sp_currentChar p)")
    case True
    let ?d = "digitVal (sp_currentChar p)"
    from True "1.prems" have "\<not> (v * 10 < v \<or> v * 10 + ?d < v * 10)"
      and "parseDigits startPos (v * 10 + ?d) (sp_nextChar p) = Inr (w, p')"
      by (auto simp: parseDigits.simps [of startPos v p] Let_def split: if_splits)
    with "1.IH" [OF True refl] have "(p', sp_nextChar p) \<in> sp_progress\<^sup>=" by simp
    then show ?thesis using nextChar_progress_eq [of p] trans_sp_progress by blast
  next
    case False
    with "1.prems" show ?thesis by (simp add: parseDigits.simps [of startPos v p])
  qed
qed

lemma parseVersionPart_progress:
  assumes "parseVersionPart p = Inr (w, p')"
  shows "sp_pos p < length (sp_literals p)" "(p', p) \<in> sp_progress"
proof -
  have "sp_currentChar p \<noteq> CHR 0xFF" using assms by (auto simp: parseVersionPart_def Let_def isdigit_def)
  then show inside: "sp_pos p < length (sp_literals p)" by (rule currentChar_inside)
  have "(p', sp_nextChar p) \<in> sp_progress\<^sup>="
    using assms parseDigits_progress by (auto simp: parseVersionPart_def Let_def split: if_splits)
  then show "(p', p) \<in> sp_progress" using nextChar_progress [OF inside] by (rule trans_sp_progress)
qed

lemma parseLevels_Suc_cases:
  assumes "parseLevels (Suc n) vs p = Inr (ws, p')"
  obtains v q where "parseVersionPart p = Inr (v, q)"
    "ws = vs @ [v] \<and> p' = q \<or> sp_currentChar q = CHR ''.'' \<and> parseLevels n (vs @ [v]) (sp_nextChar q) = Inr (ws, p')"
  using assms by (auto split: if_splits)

lemma parseLevels_progress: "parseLevels n vs p = Inr (ws, p') \<Longrightarrow> (p', p) \<in> sp_progress\<^sup>="
proof (induction n arbitrary: vs p)
  case (Suc n)
  from Suc.prems show ?case
  proof (cases rule: parseLevels_Suc_cases)
    case (1 v q)
    note part = parseVersionPart_progress(2) [OF 1(1)]
    have "(p', sp_nextChar q) \<in> sp_progress\<^sup>= \<or> p' = q" using 1(2) Suc.IH by blast
    moreover have "(sp_nextChar q, p) \<in> sp_progress" by (rule trans_sp_progress(2) [OF nextChar_progress_eq part])
    ultimately show ?thesis using part trans_sp_progress(2) by blast
  qed
qed simp

lemma parseLevels_Suc_progress:
  assumes "parseLevels (Suc n) vs p = Inr (ws, p')"
  shows "sp_pos p < length (sp_literals p)" "(p', p) \<in> sp_progress"
  using assms
proof (atomize (full), cases rule: parseLevels_Suc_cases)
  case (1 v q)
  have "(p', sp_nextChar q) \<in> sp_progress\<^sup>= \<or> p' = q" using 1(2) parseLevels_progress by blast
  then have "(p', q) \<in> sp_progress\<^sup>=" using nextChar_progress_eq [of q] trans_sp_progress by blast
  then show "sp_pos p < length (sp_literals p) \<and> (p', p) \<in> sp_progress"
    using parseVersionPart_progress [OF 1(1)] trans_sp_progress(2) by blast
qed

lemma parseMatchComponent_progress:
  assumes "parseMatchComponent p = Inr (c, p')"
  shows "sp_pos p < length (sp_literals p)" "(p', p) \<in> sp_progress"
proof -
  from assms obtain q vs where q: "q = p \<or> q = sp_nextToken p" "parseLevels 3 [] q = Inr (vs, p')"
    unfolding parseMatchComponent_def Let_def by (auto split: if_splits simp del: parseLevels.simps)
  note step = parseLevels_Suc_progress [of 2, simplified, OF q(2)]
  show inside: "sp_pos p < length (sp_literals p)" using q(1) step(1) by (auto simp: sp_nextToken_def)
  show "(p', p) \<in> sp_progress" using q(1) step(2) nextToken_progress [OF inside] trans_sp_progress by blast
qed

text \<open>The remaining components of a conjunction, and the disjunction.\<close>

function parseMatchComponents :: "SemVerParser \<Rightarrow> (Conjunction \<times> SemVerParser) res" where
  "parseMatchComponents p =
     (if sp_currentToken p \<noteq> T_Or \<and> sp_currentToken p \<noteq> T_Illegal then
        (case parseMatchComponent p of
           Inl e \<Rightarrow> Inl e
         | Inr (c, p') \<Rightarrow> bindR (parseMatchComponents p') (\<lambda>(cs, p''). Inr (c # cs, p'')))
      else Inr ([], p))"
  by pat_completeness auto

termination by (relation sp_progress) (auto simp: parseMatchComponent_progress)

declare parseMatchComponents.simps [simp del]

definition parseMatchExpression :: "SemVerParser \<Rightarrow> (Conjunction \<times> SemVerParser) res" where
  "parseMatchExpression p =
     bindR (parseMatchComponent p) (\<lambda>(c, p).
       if sp_currentToken p = T_Sub then
         bindR (parseMatchComponent (sp_nextToken p)) (\<lambda>(d, p).
           Inr ([c\<lparr>mc_prefix := T_GreaterThanOrEqual\<rparr>, d\<lparr>mc_prefix := T_LessThanOrEqual\<rparr>], p))
       else bindR (parseMatchComponents p) (\<lambda>(cs, p). Inr (c # cs, p)))"

lemma parseMatchComponents_progress: "parseMatchComponents p = Inr (cs, p') \<Longrightarrow> (p', p) \<in> sp_progress\<^sup>="
proof (induction p arbitrary: cs rule: parseMatchComponents.induct)
  case (1 p)
  show ?case
  proof (cases "sp_currentToken p \<noteq> T_Or \<and> sp_currentToken p \<noteq> T_Illegal")
    case True
    with "1.prems" obtain c q cs' where q: "parseMatchComponent p = Inr (c, q)" "parseMatchComponents q = Inr (cs', p')"
      by (auto simp: parseMatchComponents.simps [of p] split: sum.splits)
    from "1.IH" [OF True q(1) refl q(2)] have "(p', q) \<in> sp_progress\<^sup>=" .
    with parseMatchComponent_progress [OF q(1)] show ?thesis using trans_sp_progress(2) by blast
  next
    case False
    with "1.prems" show ?thesis by (auto simp: parseMatchComponents.simps [of p])
  qed
qed

lemma parseMatchExpression_progress:
  assumes "parseMatchExpression p = Inr (cs, p')"
  shows "sp_pos p < length (sp_literals p)" "(p', p) \<in> sp_progress"
proof -
  from assms obtain c q where q: "parseMatchComponent p = Inr (c, q)"
    and rest: "(\<exists>d. parseMatchComponent (sp_nextToken q) = Inr (d, p')) \<or> (\<exists>cs. parseMatchComponents q = Inr (cs, p'))"
    by (auto simp: parseMatchExpression_def split: if_splits)
  show "sp_pos p < length (sp_literals p)" by (rule parseMatchComponent_progress(1) [OF q])
  have "(p', q) \<in> sp_progress\<^sup>="
  proof (cases "\<exists>d. parseMatchComponent (sp_nextToken q) = Inr (d, p')")
    case True
    then have "(p', sp_nextToken q) \<in> sp_progress" "sp_pos (sp_nextToken q) < length (sp_literals (sp_nextToken q))"
      using parseMatchComponent_progress by blast+
    moreover from this(2) have "sp_pos q < length (sp_literals q)" by (simp add: sp_nextToken_def)
    ultimately show ?thesis using nextToken_progress trans_sp_progress by blast
  next
    case False
    with rest show ?thesis using parseMatchComponents_progress by blast
  qed
  with parseMatchComponent_progress(2) [OF q] show "(p', p) \<in> sp_progress" using trans_sp_progress(2) by blast
qed

function parseDisjunction :: "SemVerParser \<Rightarrow> SemVerMatchExpression res" where
  "parseDisjunction p =
     (case parseMatchExpression p of
        Inl e \<Rightarrow> Inl e
      | Inr (c, p') \<Rightarrow>
          if sp_pos p' \<ge> length (sp_tokens p') then Inr [c]
          else if sp_currentToken p' \<noteq> T_Or then Inl SemVerError
          else bindR (parseDisjunction (sp_nextToken p')) (\<lambda>cs. Inr (c # cs)))"
  by pat_completeness auto

termination
proof (relation sp_progress)
  fix p x c p'
  assume parsed: "parseMatchExpression p = Inr x" "(c, p') = x"
  then have step: "sp_pos p < length (sp_literals p)" "(p', p) \<in> sp_progress"
    using parseMatchExpression_progress by auto
  show "(sp_nextToken p', p) \<in> sp_progress"
  proof (cases "sp_pos p' < length (sp_literals p')")
    case True
    then show ?thesis using nextToken_progress step trans_sp_progress by blast
  next
    case False
    with step(1) show ?thesis by (simp add: sp_progress_def sp_nextToken_def)
  qed
qed simp

declare parseDisjunction.simps [simp del]

text \<open>\<open>parse\<close>: an error leaves the empty expression.\<close>

definition sp_parse :: "Token list \<Rightarrow> string list \<Rightarrow> SemVerMatchExpression" where
  "sp_parse tokens literals =
     (case parseDisjunction \<lparr>sp_tokens = tokens, sp_literals = literals, sp_pos = 0, sp_posInside = 0\<rparr> of
        Inl e \<Rightarrow> []
      | Inr expression \<Rightarrow> expression)"

section \<open>Version strings\<close>

lemma digitVal_nat: "isdigit c \<Longrightarrow> digitVal c = word_of_nat (of_char c - 48)"
  by (simp add: digitVal_def isdigit_def of_nat_diff of_nat_of_char)

lemma of_nat_decimal:
  "list_all isdigit ds \<Longrightarrow>
     foldl (\<lambda>v c. v * 10 + digitVal c) (word_of_nat u) ds =
       word_of_nat (foldl (\<lambda>v c. v * 10 + (of_char c - 48)) u ds)"
proof (induction ds arbitrary: u)
  case (Cons c ds)
  then show ?case using Cons.IH [of "u * 10 + (of_char c - 48)"] by (simp add: digitVal_nat)
qed simp

lemma readNumber_append:
  "list_all isdigit ds \<Longrightarrow> rest = [] \<or> \<not> isdigit (hd rest) \<Longrightarrow>
     readNumber v (ds @ rest) = (foldl (\<lambda>v c. v * 10 + digitVal c) v ds, rest)"
proof (induction ds arbitrary: v)
  case Nil
  then show ?case by (cases rest) auto
qed simp

lemma readNumber_decNat:
  assumes "rest = [] \<or> \<not> isdigit (hd rest)"
  shows "readNumber 0 (decNat n @ rest) = (word_of_nat n, rest)"
proof -
  have "list_all isdigit (decNat n)" using decNat_digits by blast
  with readNumber_append [OF this assms, of 0] of_nat_decimal [of "decNat n" 0] decVal_decNat [of n] show ?thesis
    by (simp add: decVal_def)
qed

definition versionText :: "nat \<Rightarrow> nat \<Rightarrow> nat \<Rightarrow> string \<Rightarrow> string \<Rightarrow> string" where
  "versionText a b c prerelease build =
     decNat a @ ''.'' @ decNat b @ ''.'' @ decNat c
     @ (if prerelease = [] then [] else ''-'' @ prerelease) @ (if build = [] then [] else ''+'' @ build)"

lemma SemVerVersion_text:
  assumes "CHR ''+'' \<notin> set prerelease"
  shows "SemVerVersion_of (versionText a b c prerelease build) =
    Inr \<lparr>sv_numbers = [word_of_nat a, word_of_nat b, word_of_nat c], sv_prerelease = prerelease, sv_build = build\<rparr>"
proof -
  let ?tail = "(if prerelease = [] then [] else ''-'' @ prerelease) @ (if build = [] then [] else ''+'' @ build)"
  have tail: "?tail = [] \<or> \<not> isdigit (hd ?tail)" by (simp add: isdigit_def)
  have dot: "''.'' @ xs = [] \<or> \<not> isdigit (hd (''.'' @ xs))" for xs by (simp add: isdigit_def)
  have levels: "readLevels 3 (versionText a b c prerelease build) =
      Inr ([word_of_nat a, word_of_nat b, word_of_nat c], ?tail)"
    using readNumber_decNat [OF dot] readNumber_decNat [OF tail]
    unfolding versionText_def numeral_3_eq_3 by simp
  have noplus: "takeWhile (\<lambda>c. c \<noteq> CHR ''+'') (prerelease @ xs) = prerelease @ takeWhile (\<lambda>c. c \<noteq> CHR ''+'') xs"
    "dropWhile (\<lambda>c. c \<noteq> CHR ''+'') (prerelease @ xs) = dropWhile (\<lambda>c. c \<noteq> CHR ''+'') xs" for xs
    using assms by (induction prerelease) auto
  have alone: "takeWhile (\<lambda>c. c \<noteq> CHR ''+'') prerelease = prerelease" "dropWhile (\<lambda>c. c \<noteq> CHR ''+'') prerelease = []"
    using noplus [of "[]"] by simp_all
  show ?thesis
    unfolding SemVerVersion_of_def levels by (simp add: readPrerelease_def readBuild_def noplus alone)
qed

section \<open>Comparison\<close>

definition versionLess :: "u32 list \<Rightarrow> u32 list \<Rightarrow> bool" where
  "versionLess v c \<longleftrightarrow>
     v ! 0 < c ! 0 \<or> v ! 0 = c ! 0 \<and> (v ! 1 < c ! 1 \<or> v ! 1 = c ! 1 \<and> v ! 2 < c ! 2)"

text \<open>What a component with three numbers is meant to accept: a prerelease comes before its release.\<close>

definition acceptedBy :: "Token \<Rightarrow> u32 list \<Rightarrow> SemVerVersion \<Rightarrow> bool" where
  "acceptedBy prefix c v =
     (let n = sv_numbers v;
          below = versionLess n c \<or> n = c \<and> isPrerelease v;
          same = (n = c \<and> \<not> isPrerelease v)
      in if prefix = T_Assign then same
         else if prefix = T_LessThan then below
         else if prefix = T_LessThanOrEqual then below \<or> same
         else if prefix = T_GreaterThan then \<not> below \<and> \<not> same
         else if prefix = T_GreaterThanOrEqual then \<not> below
         else if prefix = T_BitNot then \<not> below \<and> n ! 0 = c ! 0 \<and> n ! 1 = c ! 1
         else \<not> below \<and> n ! 0 = c ! 0 \<and> (c ! 0 = 0 \<longrightarrow> n ! 1 = c ! 1))"

lemma sint_diff:
  fixes v c :: u32
  assumes "v < 2 ^ 31" "c < 2 ^ 31"
  shows "sint (v - c) = uint v - uint c"
proof -
  have small: "sint w = uint w" if "w < 2 ^ 31" for w :: u32
    using that signed_take_bit_int_eq_self [of 31 "uint w"] order.trans [OF _ uint_ge_0 [of w], of "- (2 ^ 31)"]
    by (simp add: sint_uint word_less_def)
  have "uint v < 2 ^ 31" "uint c < 2 ^ 31" using assms by (simp_all add: word_less_def)
  moreover have "0 \<le> uint v" "0 \<le> uint c" by simp_all
  ultimately have "- (2 ^ 31) \<le> uint v - uint c" "uint v - uint c < 2 ^ 31" by linarith+
  then have "signed_take_bit 31 (uint v - uint c) = uint v - uint c" by (rule signed_take_bit_int_eq_self)
  then show ?thesis using small assms by (simp add: sint_word_ariths)
qed

lemma component_matches:
  assumes "list_all (\<lambda>w. w < 2 ^ 31) [a, b, c, x, y, z]"
    and "prefix \<in> {T_Assign, T_LessThan, T_LessThanOrEqual, T_GreaterThan, T_GreaterThanOrEqual, T_BitNot, T_BitXor}"
    and v: "sv_numbers v = [a, b, c]" "sv_numbers ver = [x, y, z]"
  shows "mc_matches \<lparr>mc_prefix = prefix, mc_version = ver, mc_levelsPresent = 3\<rparr> v = Inr (acceptedBy prefix [x, y, z] v)"
proof -
  have small: "a < 2 ^ 31" "b < 2 ^ 31" "c < 2 ^ 31" "x < 2 ^ 31" "y < 2 ^ 31" "z < 2 ^ 31" using assms(1) by simp_all
  have nostar: "w \<noteq> - 1" if "w < 2 ^ 31" for w :: u32 using that by auto
  let ?d = "\<lambda>v c. uint v - uint (c :: u32)"
  define cmp where "cmp n = (if n \<ge> 1 \<and> ?d a x \<noteq> 0 then ?d a x else if n \<ge> 2 \<and> ?d b y \<noteq> 0 then ?d b y
    else if n \<ge> 3 \<and> ?d c z \<noteq> 0 then ?d c z else if sv_prerelease v \<noteq> [] then - 1 else 0)" for n :: nat
  have cmp: "compareVersion \<lparr>mc_prefix = p, mc_version = ver, mc_levelsPresent = n\<rparr> v = cmp n" if "n \<in> {1, 2, 3}" for p n
    using that small v nostar sint_diff
    by (auto simp: compareVersion_def cmp_def numeral_2_eq_2 numeral_3_eq_3)
  have word: "w < w' \<longleftrightarrow> ?d w w' < 0" "w = w' \<longleftrightarrow> ?d w w' = 0" for w w' :: u32
    by (simp_all add: word_less_def word_uint_eq_iff)
  let ?below = "versionLess [a, b, c] [x, y, z] \<or> [a, b, c] = [x, y, z] \<and> isPrerelease v"
  have below: "cmp 3 < 0 \<longleftrightarrow> ?below"
    unfolding versionLess_def isPrerelease_def by (simp add: cmp_def word)
  have same: "cmp 3 = 0 \<longleftrightarrow> [a, b, c] = [x, y, z] \<and> \<not> isPrerelease v"
    unfolding isPrerelease_def by (simp add: cmp_def word)
  have minor: "cmp 2 \<le> 0 \<longleftrightarrow> a = x \<and> b = y" and major: "cmp 1 \<le> 0 \<longleftrightarrow> a = x" if "\<not> cmp 3 < 0"
    using that by (simp_all add: cmp_def word split: if_splits)
  have accepted: "acceptedBy prefix [x, y, z] v =
      (if prefix = T_Assign then cmp 3 = 0 else if prefix = T_LessThan then cmp 3 < 0
       else if prefix = T_LessThanOrEqual then cmp 3 < 0 \<or> cmp 3 = 0
       else if prefix = T_GreaterThan then \<not> cmp 3 < 0 \<and> cmp 3 \<noteq> 0
       else if prefix = T_GreaterThanOrEqual then \<not> cmp 3 < 0
       else if prefix = T_BitNot then \<not> cmp 3 < 0 \<and> a = x \<and> b = y
       else \<not> cmp 3 < 0 \<and> a = x \<and> (x = 0 \<longrightarrow> b = y))" for prefix
    unfolding acceptedBy_def Let_def v below [symmetric] same [symmetric] by simp
  note facts = mc_matches_def matchesPlain_def Let_def v cmp accepted
  from assms(2) consider "prefix = T_Assign" | "prefix = T_LessThan" | "prefix = T_LessThanOrEqual"
    | "prefix = T_GreaterThan" | "prefix = T_GreaterThanOrEqual" | (tilde) "prefix = T_BitNot" | (caret) "prefix = T_BitXor" by blast
  then show ?thesis
  proof cases
    case tilde
    then show ?thesis using minor by (simp add: facts not_less)
  next
    case caret
    then show ?thesis using minor major by (auto simp: facts not_less)
  qed (auto simp: facts)
qed

section \<open>Parsing a component\<close>

lemma overflow_accepted:
  "parseVersionPart \<lparr>sp_tokens = [T_Number], sp_literals = [''10000000000''], sp_pos = 0, sp_posInside = 0\<rparr> =
     Inr (1410065408, \<lparr>sp_tokens = [T_Number], sp_literals = [''10000000000''], sp_pos = 1, sp_posInside = 0\<rparr>)"
  by code_simp

text \<open>The state at a character of a literal; past its end, the start of the next one.\<close>

definition sp_at :: "Token list \<Rightarrow> string list \<Rightarrow> nat \<Rightarrow> nat \<Rightarrow> SemVerParser" where
  "sp_at toks lits k i =
     (if i < length (lits ! k) then \<lparr>sp_tokens = toks, sp_literals = lits, sp_pos = k, sp_posInside = i\<rparr>
      else \<lparr>sp_tokens = toks, sp_literals = lits, sp_pos = Suc k, sp_posInside = 0\<rparr>)"

lemma sp_at_inside:
  assumes "k < length lits" "i < length (lits ! k)"
  shows "sp_currentChar (sp_at toks lits k i) = lits ! k ! i"
    and "sp_nextChar (sp_at toks lits k i) = sp_at toks lits k (Suc i)"
    and "sp_pos (sp_at toks lits k i) = k"
  using assms by (simp_all add: sp_at_def sp_currentChar_def sp_nextChar_def sp_nextToken_def)

lemma foldl_decimal_ge: "u \<le> foldl (\<lambda>v c. v * 10 + (of_char c - 48)) u ds" for u :: nat
proof (induction ds arbitrary: u)
  case (Cons c ds)
  show ?case using Cons.IH [of "u * 10 + (of_char c - 48)"] by simp
qed simp

lemma no_overflow:
  assumes "u * 10 + d < 2 ^ 32" "d < 10"
  shows "\<not> (word_of_nat u * 10 < (word_of_nat u :: u32))" "\<not> (word_of_nat u * 10 + word_of_nat d < word_of_nat u * (10 :: u32))"
proof -
  have eq: "word_of_nat u * (10 :: u32) = word_of_nat (u * 10)" "word_of_nat u * (10 :: u32) + word_of_nat d = word_of_nat (u * 10 + d)"
    by simp_all
  have "unat (word_of_nat u :: u32) = u" "unat (word_of_nat (u * 10) :: u32) = u * 10"
    "unat (word_of_nat (u * 10 + d) :: u32) = u * 10 + d"
    using assms by (simp_all only: unat_of_nat) simp_all
  then show "\<not> (word_of_nat u * 10 < (word_of_nat u :: u32))" "\<not> (word_of_nat u * 10 + word_of_nat d < word_of_nat u * (10 :: u32))"
    unfolding eq word_less_nat_alt by simp_all
qed

lemma parseDigits_number:
  assumes "k < length lits"
  shows "drop i (lits ! k) = ds @ rest \<Longrightarrow> list_all isdigit ds \<Longrightarrow> rest = [] \<or> \<not> isdigit (hd rest) \<Longrightarrow>
    foldl (\<lambda>v c. v * 10 + (of_char c - 48)) u ds < 2 ^ 32 \<Longrightarrow>
    parseDigits k (word_of_nat u) (sp_at toks lits k i) =
      Inr (word_of_nat (foldl (\<lambda>v c. v * 10 + (of_char c - 48)) u ds), sp_at toks lits k (i + length ds))"
proof (induction ds arbitrary: i u)
  case Nil
  show ?case
  proof (cases rest)
    case (Cons c cs)
    with Nil have "i < length (lits ! k)" "lits ! k ! i = c" by (metis append_Nil drop_all linorder_not_less list.distinct(1), metis append_Nil nth_via_drop)
    with Nil Cons assms show ?thesis by (simp add: parseDigits.simps sp_at_inside)
  next
    case Nil': Nil
    with Nil have "length (lits ! k) \<le> i" by simp
    with assms show ?thesis by (simp add: parseDigits.simps sp_at_def)
  qed
next
  case (Cons c ds)
  then have i: "i < length (lits ! k)" "lits ! k ! i = c" "drop (Suc i) (lits ! k) = ds @ rest"
    by (metis append_Cons drop_all linorder_not_less list.distinct(1), metis append_Cons nth_via_drop,
        metis append_Cons drop_Suc list.sel(3) tl_drop)
  let ?u = "u * 10 + (of_char c - 48)"
  have c: "isdigit c" and d: "of_char c - 48 < (10 :: nat)" using Cons.prems(2) by (auto simp: isdigit_def)
  have "?u < 2 ^ 32" using Cons.prems(4) foldl_decimal_ge [of ?u ds] by simp
  note ok = no_overflow [OF this d]
  have "parseDigits k (word_of_nat ?u) (sp_at toks lits k (Suc i)) =
      Inr (word_of_nat (foldl (\<lambda>v c. v * 10 + (of_char c - 48)) ?u ds), sp_at toks lits k (Suc i + length ds))"
    using Cons.prems i(3) by (intro Cons.IH) simp_all
  moreover have "parseDigits k (word_of_nat u) (sp_at toks lits k i) =
      parseDigits k (word_of_nat u * 10 + digitVal c) (sp_at toks lits k (Suc i))"
    using i c ok assms by (subst parseDigits.simps) (simp add: sp_at_inside digitVal_nat)
  ultimately show ?case using c by (simp add: digitVal_nat)
qed

lemma decNat_first: "0 < n \<Longrightarrow> hd (decNat n) \<noteq> CHR ''0''"
proof (induction n rule: decNat.induct)
  case (1 n)
  show ?case
  proof (cases "n < 10")
    case True
    have "char_of (48 + n) \<noteq> CHR ''0''"
    proof
      assume "char_of (48 + n) = CHR ''0''"
      then have "of_char (char_of (48 + n) :: char) = (of_char (CHR ''0'') :: nat)" by (rule arg_cong)
      with True "1.prems" show False by simp
    qed
    then show ?thesis using True by (simp add: decNat.simps [of n])
  next
    case False
    then show ?thesis using 1 decNat_digits [of "n div 10"] by (simp add: decNat.simps [of n])
  qed
qed

lemma parseVersionPart_number:
  assumes "k < length lits" "drop i (lits ! k) = decNat n @ rest" "rest = [] \<or> \<not> isdigit (hd rest)" "n < 2 ^ 32"
  shows "parseVersionPart (sp_at toks lits k i) = Inr (word_of_nat n, sp_at toks lits k (i + length (decNat n)))"
proof -
  obtain c ds where c: "decNat n = c # ds" "isdigit c" "list_all isdigit ds"
    using decNat_digits [of n] by (cases "decNat n") auto
  with assms(2) have i: "i < length (lits ! k)" "lits ! k ! i = c" "drop (Suc i) (lits ! k) = ds @ rest"
    by (metis append_Cons drop_all linorder_not_less list.distinct(1), metis append_Cons nth_via_drop,
        metis append_Cons drop_Suc list.sel(3) tl_drop)
  note at = sp_at_inside [OF assms(1) i(1), of toks] i(2)
  have wild: "c \<noteq> CHR ''x''" "c \<noteq> CHR ''X''" "c \<noteq> CHR ''*''" using c(2) by (auto simp: isdigit_def)
  have val: "foldl (\<lambda>v c. v * 10 + (of_char c - 48)) (of_char c - 48) ds = n"
    using decVal_decNat [of n] c(1) by (simp add: decVal_def)
  show ?thesis
  proof (cases "n = 0")
    case True
    have "decNat n = ''0''" unfolding True by code_simp
    with c at True show ?thesis by (simp add: parseVersionPart_def)
  next
    case False
    with decNat_first [of n] c(1) have "c \<noteq> CHR ''0''" by simp
    moreover have "parseDigits k (word_of_nat (of_char c - 48)) (sp_at toks lits k (Suc i)) =
        Inr (word_of_nat n, sp_at toks lits k (Suc i + length ds))"
      using parseDigits_number [OF assms(1) i(3) c(3) assms(3), of "of_char c - 48"] val assms(4) by simp
    ultimately show ?thesis using at wild c by (simp add: parseVersionPart_def digitVal_nat)
  qed
qed

definition componentText :: "nat \<Rightarrow> nat \<Rightarrow> nat \<Rightarrow> string" where
  "componentText a b c = decNat a @ ''.'' @ decNat b @ ''.'' @ decNat c"

lemma parse_component:
  assumes "isPrefixToken prefix" "a < 2 ^ 32" "b < 2 ^ 32" "c < 2 ^ 32"
  shows "sp_parse [prefix, T_Number] [symbol, componentText a b c] =
    [[\<lparr>mc_prefix = prefix,
       mc_version = sv_default\<lparr>sv_numbers := [word_of_nat a, word_of_nat b, word_of_nat c]\<rparr>,
       mc_levelsPresent = 3\<rparr>]]"
proof -
  let ?toks = "[prefix, T_Number]" and ?lits = "[symbol, componentText a b c]"
  let ?at = "sp_at ?toks ?lits 1"
  let ?b = "Suc (length (decNat a))" let ?c = "?b + Suc (length (decNat b))"
  have ne: "decNat n \<noteq> []" for n using decNat_digits by blast
  have dots: "componentText a b c ! length (decNat a) = CHR ''.''" "componentText a b c ! (?b + length (decNat b)) = CHR ''.''"
    by (simp_all add: componentText_def nth_append)
  have len: "length (componentText a b c) = ?c + length (decNat c)" by (simp add: componentText_def)
  have a: "parseVersionPart (?at 0) = Inr (word_of_nat a, ?at (length (decNat a)))"
    using parseVersionPart_number [of 1 ?lits 0 a "''.'' @ decNat b @ ''.'' @ decNat c"] assms
    by (simp add: componentText_def isdigit_def)
  have b: "parseVersionPart (?at ?b) = Inr (word_of_nat b, ?at (?b + length (decNat b)))"
    using parseVersionPart_number [of 1 ?lits ?b b "''.'' @ decNat c"] assms
    by (simp add: componentText_def isdigit_def)
  have c: "parseVersionPart (?at ?c) = Inr (word_of_nat c, ?at (?c + length (decNat c)))"
    using parseVersionPart_number [of 1 ?lits ?c c "[]"] assms by (simp add: componentText_def)
  let ?fin = "\<lparr>sp_tokens = ?toks, sp_literals = ?lits, sp_pos = 2, sp_posInside = 0\<rparr>"
  have e: "?at (?c + length (decNat c)) = ?fin" using len by (simp add: sp_at_def)
  have inside: "sp_currentChar (?at i) = componentText a b c ! i" "sp_nextChar (?at i) = ?at (Suc i)"
    if "i < length (componentText a b c)" for i using that sp_at_inside [of 1 ?lits i ?toks] by simp_all
  have "parseLevels 3 [] (?at 0) = Inr ([word_of_nat a, word_of_nat b, word_of_nat c], ?fin)"
    using a b c e inside dots len ne
    by (simp add: numeral_3_eq_3 sp_currentChar_def)
  moreover have "sp_nextToken \<lparr>sp_tokens = ?toks, sp_literals = ?lits, sp_pos = 0, sp_posInside = 0\<rparr> = ?at 0"
    using len ne by (simp add: sp_nextToken_def sp_at_def)
  ultimately show ?thesis using assms(1)
    by (simp add: sp_parse_def parseDisjunction.simps parseMatchExpression_def parseMatchComponents.simps parseMatchComponent_def
        sp_currentToken_def sv_default_def)
qed

end
