(* ===== verification/SHA3.thy ===== *)
theory SHA3
  imports DevCore
begin

text \<open>
  Model of libdevcore/SHA3.cpp and SHA3.h: the Keccak-f[1600] permutation as the code unrolls it, the
  sponge and the hash functions built on it. The state is an array of 200 bytes that the permutation
  reads as 25 little-endian 64-bit lanes, as on the machines the compiler runs on. The lemmas relate
  the permutation to the step mappings of FIPS 202 and the sponge to the absorption of the padded
  message.
\<close>

section \<open>The permutation\<close>

type_synonym lane = "64 word"

definition rho :: "nat list" where
  "rho = [1, 3, 6, 10, 15, 21, 28, 36, 45, 55, 2, 14, 27, 41, 56, 8, 25, 43, 62, 18, 39, 61, 20, 44]"

definition pi_lane :: "nat list" where
  "pi_lane = [10, 7, 11, 17, 18, 3, 5, 16, 8, 21, 24, 4, 15, 23, 19, 13, 12, 2, 20, 14, 22, 9, 6, 1]"

definition RC :: "lane list" where
  "RC = [1, 0x8082, 0x800000000000808a, 0x8000000080008000,
    0x808b, 0x80000001, 0x8000000080008081, 0x8000000000008009,
    0x8a, 0x88, 0x80008009, 0x8000000a,
    0x8000808b, 0x800000000000008b, 0x8000000000008089, 0x8000000000008003,
    0x8000000000008002, 0x8000000000000080, 0x800a, 0x800000008000000a,
    0x8000000080008081, 0x8000000000008080, 0x80000001, 0x8000000080008008]"

definition rol :: "lane \<Rightarrow> nat \<Rightarrow> lane" where
  "rol x s = or (push_bit s x) (drop_bit (64 - s) x)"

text \<open>The values of a loop variable of \<open>FOR5\<close>.\<close>

definition for5 :: "nat \<Rightarrow> nat list" where
  "for5 s = [0, s, s + s, s + s + s, s + s + s + s]"

definition theta_columns :: "lane list \<Rightarrow> lane list" where
  "theta_columns a = map (\<lambda>x. fold (\<lambda>y c. xor c (a ! (x + y))) (for5 5) 0) (for5 1)"

definition theta_add :: "lane list \<Rightarrow> lane list \<Rightarrow> lane list" where
  "theta_add b a =
     fold (\<lambda>x a. fold (\<lambda>y a.
         a[y + x := xor (a ! (y + x)) (xor (b ! ((x + 4) mod 5)) (rol (b ! ((x + 1) mod 5)) 1))]) (for5 5) a)
       (for5 1) a"

text \<open>The chain of \<open>REPEAT24\<close>: the lane \<open>pi[x]\<close> receives the lane held in \<open>t\<close>.\<close>

fun rho_pi :: "(nat \<times> nat) list \<Rightarrow> lane \<Rightarrow> lane list \<Rightarrow> lane list" where
  "rho_pi [] t a = a"
| "rho_pi ((p, r) # steps) t a = rho_pi steps (a ! p) (a[p := rol t r])"

definition chi_row :: "nat \<Rightarrow> lane list \<Rightarrow> lane list" where
  "chi_row y a =
     (let b = map (\<lambda>x. a ! (y + x)) (for5 1)
      in fold (\<lambda>x a. a[y + x := xor (b ! x) (and (not (b ! ((x + 1) mod 5))) (b ! ((x + 2) mod 5)))]) (for5 1) a)"

definition keccak_round :: "lane \<Rightarrow> lane list \<Rightarrow> lane list" where
  "keccak_round rc a =
     (let a = theta_add (theta_columns a) a;
          a = rho_pi (zip pi_lane rho) (a ! 1) a;
          a = fold chi_row (for5 5) a
      in a[0 := xor (a ! 0) rc])"

definition keccakf :: "lane list \<Rightarrow> lane list" where
  "keccakf a = fold keccak_round RC a"

section \<open>The sponge\<close>

text \<open>The reading of eight bytes as a lane and back.\<close>

fun fromLittleEndian :: "bytes \<Rightarrow> lane" where
  "fromLittleEndian [] = 0"
| "fromLittleEndian (b # bs) = or (ucast b) (push_bit 8 (fromLittleEndian bs))"

definition toLittleEndian :: "lane \<Rightarrow> bytes" where
  "toLittleEndian l = map (\<lambda>i. ucast (drop_bit (8 * i) l)) [0..<8]"

definition lanes_of_bytes :: "bytes \<Rightarrow> lane list" where
  "lanes_of_bytes a = map (\<lambda>i. fromLittleEndian (take 8 (drop (8 * i) a))) [0..<25]"

definition bytes_of_lanes :: "lane list \<Rightarrow> bytes" where
  "bytes_of_lanes ls = concat (map toLittleEndian ls)"

definition P_state :: "bytes \<Rightarrow> bytes" where
  "P_state a = bytes_of_lanes (keccakf (lanes_of_bytes a))"

definition Plen :: nat where "Plen = 200"

definition xorin :: "bytes \<Rightarrow> bytes \<Rightarrow> nat \<Rightarrow> bytes" where
  "xorin dst src len = map2 xor (take len dst) (take len src) @ drop len dst"

text \<open>
  \<open>foldP\<close> with \<open>xorin\<close> and with \<open>setout\<close>. No caller passes a rate of zero, with which the loops
  would not end; the model stops there.
\<close>

function absorb :: "nat \<Rightarrow> bytes \<Rightarrow> bytes \<Rightarrow> bytes \<times> bytes" where
  "absorb rate a input =
     (if rate \<le> length input \<and> 0 < rate then absorb rate (P_state (xorin a input rate)) (drop rate input)
      else (a, input))"
  by pat_completeness auto

termination by (relation "measure (\<lambda>(rate, a, input). length input)") auto

function squeeze :: "nat \<Rightarrow> bytes \<Rightarrow> nat \<Rightarrow> bytes" where
  "squeeze rate a outlen =
     (if rate \<le> outlen \<and> 0 < rate then take rate a @ squeeze rate (P_state a) (outlen - rate)
      else take outlen a)"
  by pat_completeness auto

termination by (relation "measure (\<lambda>(rate, a, outlen). outlen)") auto

declare absorb.simps [simp del] squeeze.simps [simp del]

text \<open>The return value \<open>-1\<close> is \<open>None\<close>; the callers pass no null pointer.\<close>

definition sponge_hash :: "nat \<Rightarrow> bytes \<Rightarrow> nat \<Rightarrow> byte \<Rightarrow> bytes option" where
  "sponge_hash outlen input rate delim =
     (if Plen \<le> rate then None
      else
        let (a, rest) = absorb rate (replicate Plen 0) input;
            a = a[length rest := xor (a ! length rest) delim];
            a = a[rate - 1 := xor (a ! (rate - 1)) 0x80];
            a = P_state (xorin a rest (length rest))
        in Some (squeeze rate a outlen))"

definition shake :: "nat \<Rightarrow> nat \<Rightarrow> bytes \<Rightarrow> bytes option" where
  "shake bits outlen input = sponge_hash outlen input (200 - bits div 4) 0x1f"

definition sha3 :: "nat \<Rightarrow> nat \<Rightarrow> bytes \<Rightarrow> bytes option" where
  "sha3 bits outlen input =
     (if bits div 8 < outlen then None else sponge_hash outlen input (200 - bits div 4) 0x06)"

definition keccak :: "nat \<Rightarrow> nat \<Rightarrow> bytes \<Rightarrow> bytes option" where
  "keccak bits outlen input =
     (if bits div 8 < outlen then None else sponge_hash outlen input (200 - bits div 4) 0x01)"

text \<open>\<open>h256 keccak256(bytes)\<close>: a zero hash would stay when the call failed.\<close>

definition keccak256 :: "bytes \<Rightarrow> bytes" where
  "keccak256 input = (case keccak 256 32 input of Some out \<Rightarrow> out | None \<Rightarrow> replicate 32 0)"

section \<open>Equivalence with the step mappings of FIPS 202\<close>

text \<open>A state as a function of the coordinates; lane \<open>(x, y)\<close> is at the index \<open>x + 5 y\<close>.\<close>

definition lane_at :: "lane list \<Rightarrow> nat \<Rightarrow> nat \<Rightarrow> lane" where
  "lane_at a x y = a ! (x + 5 * y)"

definition of_lanes :: "(nat \<Rightarrow> nat \<Rightarrow> lane) \<Rightarrow> lane list" where
  "of_lanes f = map (\<lambda>i. f (i mod 5) (i div 5)) [0..<25]"

definition spec_theta :: "(nat \<Rightarrow> nat \<Rightarrow> lane) \<Rightarrow> nat \<Rightarrow> nat \<Rightarrow> lane" where
  "spec_theta A x y =
     (let C = (\<lambda>x. foldr xor (map (A x) [0, 1, 2, 3, 4]) 0)
      in xor (A x y) (xor (C ((x + 4) mod 5)) (word_rotl 1 (C ((x + 1) mod 5)))))"

text \<open>The offsets of \<open>rho\<close>: the walk of section 3.2.2 through the lanes.\<close>

fun rho_offset :: "nat \<Rightarrow> nat \<Rightarrow> nat \<Rightarrow> nat \<Rightarrow> nat \<Rightarrow> nat \<Rightarrow> nat" where
  "rho_offset 0 t x y u v = 0"
| "rho_offset (Suc n) t x y u v =
     (if x = u \<and> y = v then (t + 1) * (t + 2) div 2 mod 64
      else rho_offset n (t + 1) y ((2 * x + 3 * y) mod 5) u v)"

definition spec_rho :: "(nat \<Rightarrow> nat \<Rightarrow> lane) \<Rightarrow> nat \<Rightarrow> nat \<Rightarrow> lane" where
  "spec_rho A x y = word_rotl (rho_offset 24 0 1 0 x y) (A x y)"

definition spec_pi :: "(nat \<Rightarrow> nat \<Rightarrow> lane) \<Rightarrow> nat \<Rightarrow> nat \<Rightarrow> lane" where
  "spec_pi A x y = A ((x + 3 * y) mod 5) x"

definition spec_chi :: "(nat \<Rightarrow> nat \<Rightarrow> lane) \<Rightarrow> nat \<Rightarrow> nat \<Rightarrow> lane" where
  "spec_chi A x y = xor (A x y) (and (not (A ((x + 1) mod 5) y)) (A ((x + 2) mod 5) y))"

definition spec_iota :: "lane \<Rightarrow> (nat \<Rightarrow> nat \<Rightarrow> lane) \<Rightarrow> nat \<Rightarrow> nat \<Rightarrow> lane" where
  "spec_iota rc A x y = (if x = 0 \<and> y = 0 then xor (A x y) rc else A x y)"

lemma rol_word_rotl: "0 < s \<Longrightarrow> s < 64 \<Longrightarrow> rol x s = word_rotl s x"
proof (rule bit_eqI)
  fix n
  assume s: "0 < s" "s < 64" and "possible_bit TYPE(lane) n"
  then have n: "n < 64" by simp
  have "bit (word_rotl s x) n = bit x ((n + (64 - s)) mod 64)" using s n by (simp add: bit_word_rotl_iff)
  also have "(n + (64 - s)) mod 64 = (if n < s then (64 - s) + n else n - s)" using s n by (auto simp: mod_if)
  also have "bit x \<dots> = bit (rol x s) n"
    using s n bit_imp_le_length [of x "64 - s + n"] by (auto simp: rol_def bit_or_iff bit_push_bit_iff bit_drop_bit_eq)
  finally show "bit (rol x s) n = bit (word_rotl s x) n" ..
qed

lemma update_Cons_numeral [simp]: "(x # xs)[numeral n := v] = x # xs[pred_numeral n := v]"
  by (simp add: numeral_eq_Suc)

lemma upt_25: "[0..<25] = [0, 1, 2, 3, 4, 5, 6, 7, 8, 9, 10, 11, 12, 13, 14, 15, 16, 17, 18, 19, 20, 21, 22, 23, 24]"
  by code_simp

lemma lanes_cases:
  assumes "length a = 25"
    and "\<And>a0 a1 a2 a3 a4 a5 a6 a7 a8 a9 a10 a11 a12 a13 a14 a15 a16 a17 a18 a19 a20 a21 a22 a23 a24.
      P [a0, a1, a2, a3, a4, a5, a6, a7, a8, a9, a10, a11, a12, a13, a14, a15, a16, a17, a18, a19, a20, a21, a22, a23, a24]"
  shows "P a"
proof -
  have "a = map (nth a) [0..<25]" using assms(1) map_nth [of a] by simp
  then have "a = [a ! 0, a ! 1, a ! 2, a ! 3, a ! 4, a ! 5, a ! 6, a ! 7, a ! 8, a ! 9, a ! 10, a ! 11, a ! 12, a ! 13, a ! 14, a ! 15, a ! 16, a ! 17, a ! 18, a ! 19, a ! 20, a ! 21, a ! 22, a ! 23, a ! 24]"
    unfolding upt_25 list.map .
  moreover have "P [a ! 0, a ! 1, a ! 2, a ! 3, a ! 4, a ! 5, a ! 6, a ! 7, a ! 8, a ! 9, a ! 10, a ! 11, a ! 12, a ! 13, a ! 14, a ! 15, a ! 16, a ! 17, a ! 18, a ! 19, a ! 20, a ! 21, a ! 22, a ! 23, a ! 24]"
    by (rule assms(2))
  ultimately show ?thesis by (rule ssubst)
qed

text \<open>The three stages of a round; then the round.\<close>

lemma theta_equiv:
  assumes "length a = 25"
  shows "theta_add (theta_columns a) a = of_lanes (spec_theta (lane_at a))"
  by (rule lanes_cases [OF assms])
    (simp add: theta_add_def theta_columns_def for5_def of_lanes_def upt_25 spec_theta_def lane_at_def rol_word_rotl ac_simps Let_def)

lemma word_rotl_0: "word_rotl 0 (x :: lane) = x"
  by (rule bit_eqI) (simp add: bit_word_rotl_iff)

lemma rho_offsets:
  "map (\<lambda>i. rho_offset 24 0 1 0 (i mod 5) (i div 5)) [0..<25] =
    [0, 1, 62, 28, 27, 36, 44, 6, 55, 20, 3, 10, 43, 25, 39, 41, 45, 15, 21, 8, 18, 2, 61, 56, 14]"
  by code_simp

lemma rho_pi_equiv:
  assumes "length a = 25"
  shows "rho_pi (zip pi_lane rho) (a ! 1) a = of_lanes (spec_pi (spec_rho (lane_at a)))"
  by (rule lanes_cases [OF assms])
    (use rho_offsets in \<open>simp add: pi_lane_def rho_def of_lanes_def upt_25 spec_pi_def spec_rho_def lane_at_def rol_word_rotl word_rotl_0\<close>)

lemma chi_equiv:
  assumes "length a = 25"
  shows "fold chi_row (for5 5) a = of_lanes (spec_chi (lane_at a))"
  by (rule lanes_cases [OF assms])
    (simp add: chi_row_def for5_def of_lanes_def upt_25 spec_chi_def lane_at_def Let_def)

lemma length_of_lanes [simp]: "length (of_lanes f) = 25"
  by (simp add: of_lanes_def)

lemma lane_at_of_lanes: "x < 5 \<Longrightarrow> y < 5 \<Longrightarrow> lane_at (of_lanes f) x y = f x y"
proof -
  assume xy: "x < 5" "y < 5"
  then have "x + 5 * y < 25" "(x + 5 * y) mod 5 = x" "(x + 5 * y) div 5 = y" by simp_all
  then show ?thesis by (simp add: lane_at_def of_lanes_def)
qed

lemma of_lanes_cong:
  assumes "\<And>x y. x < 5 \<Longrightarrow> y < 5 \<Longrightarrow> f x y = g x y"
  shows "of_lanes f = of_lanes g"
  unfolding of_lanes_def by (rule map_cong) (auto intro!: assms)

lemma round_equiv:
  assumes "length a = 25"
  shows "keccak_round rc a = of_lanes (spec_iota rc (spec_chi (spec_pi (spec_rho (spec_theta (lane_at a))))))"
proof -
  let ?t = "of_lanes (spec_theta (lane_at a))"
  let ?p = "of_lanes (spec_pi (spec_rho (spec_theta (lane_at a))))"
  let ?c = "of_lanes (spec_chi (spec_pi (spec_rho (spec_theta (lane_at a)))))"
  have p: "of_lanes (spec_pi (spec_rho (lane_at ?t))) = ?p"
    by (rule of_lanes_cong) (simp add: spec_pi_def spec_rho_def lane_at_of_lanes)
  have c: "of_lanes (spec_chi (lane_at ?p)) = ?c"
    by (rule of_lanes_cong) (simp add: spec_chi_def lane_at_of_lanes)
  have "keccak_round rc a = ?c[0 := xor (?c ! 0) rc]"
    using theta_equiv [OF assms] rho_pi_equiv [of ?t] chi_equiv [of ?p] p c by (simp add: keccak_round_def Let_def)
  also have "\<dots> = of_lanes (spec_iota rc (spec_chi (spec_pi (spec_rho (spec_theta (lane_at a))))))"
    by (simp add: of_lanes_def upt_25 spec_iota_def)
  finally show ?thesis .
qed

definition spec_keccakf :: "(nat \<Rightarrow> nat \<Rightarrow> lane) \<Rightarrow> nat \<Rightarrow> nat \<Rightarrow> lane" where
  "spec_keccakf A = fold (\<lambda>rc A. spec_iota rc (spec_chi (spec_pi (spec_rho (spec_theta A))))) RC A"

lemma rounds_equiv:
  "length a = 25 \<Longrightarrow> (\<And>x y. x < 5 \<Longrightarrow> y < 5 \<Longrightarrow> lane_at a x y = A x y) \<Longrightarrow>
     x < 5 \<Longrightarrow> y < 5 \<Longrightarrow>
     length (fold keccak_round rcs a) = 25 \<and>
     lane_at (fold keccak_round rcs a) x y =
       fold (\<lambda>rc A. spec_iota rc (spec_chi (spec_pi (spec_rho (spec_theta A))))) rcs A x y"
proof (induction rcs arbitrary: a A)
  case (Cons rc rcs)
  let ?r = "\<lambda>A. spec_iota rc (spec_chi (spec_pi (spec_rho (spec_theta A))))"
  have "lane_at (keccak_round rc a) x y = ?r A x y" if "x < 5" "y < 5" for x y
    using that Cons.prems(2)
    by (simp add: round_equiv [OF Cons.prems(1)] lane_at_of_lanes spec_iota_def spec_chi_def spec_pi_def spec_rho_def
        spec_theta_def)
  moreover have "length (keccak_round rc a) = 25" by (simp add: round_equiv [OF Cons.prems(1)])
  ultimately show ?case using Cons.IH [of "keccak_round rc a" "?r A"] Cons.prems(3,4) by simp
qed simp

lemma keccakf_equiv:
  assumes "length a = 25"
  shows "keccakf a = of_lanes (spec_keccakf (lane_at a))"
proof -
  have step: "length (keccakf a) = 25" "lane_at (keccakf a) x y = spec_keccakf (lane_at a) x y" if "x < 5" "y < 5" for x y
    using rounds_equiv [OF assms refl that] by (auto simp: keccakf_def spec_keccakf_def)
  have len: "length (keccakf a) = 25" using step(1) [of 0 0] by simp
  show ?thesis
  proof (rule nth_equalityI)
    fix i assume "i < length (keccakf a)"
    then have "i < 25" using len by simp
    then show "keccakf a ! i = of_lanes (spec_keccakf (lane_at a)) ! i"
      using step(2) [of "i mod 5" "i div 5"] by (simp add: lane_at_def of_lanes_def)
  qed (simp add: len)
qed

text \<open>The round constants are the output of the shift register of section 3.2.5.\<close>

fun lfsr :: "bool list \<Rightarrow> bool list" where
  "lfsr [r0, r1, r2, r3, r4, r5, r6, r7] =
     [r7, r0, r1, r2, r3 \<noteq> r7, r4 \<noteq> r7, r5 \<noteq> r7, r6]"
| "lfsr r = r"

fun lfsr_bits :: "nat \<Rightarrow> bool list \<Rightarrow> bool list" where
  "lfsr_bits 0 r = []"
| "lfsr_bits (Suc n) r = hd r # lfsr_bits n (lfsr r)"

definition spec_RC :: "bool list \<Rightarrow> lane" where
  "spec_RC bits =
     (\<Sum>(b, j)\<leftarrow>zip bits [0, 1, 3, 7, 15, 31, 63]. if b then push_bit j 1 else 0)"

lemma RC_equiv:
  "RC = map (\<lambda>i. spec_RC (take 7 (drop (7 * i) (lfsr_bits 168 (True # replicate 7 False))))) [0..<24]"
  by code_simp

section \<open>The sponge absorbs the padded message\<close>

definition padding :: "nat \<Rightarrow> byte \<Rightarrow> nat \<Rightarrow> bytes" where
  "padding rate delim n =
     (let q = rate - n mod rate
      in if q = 1 then [xor delim 0x80] else delim # replicate (q - 2) 0 @ [0x80])"

function absorbBlocks :: "nat \<Rightarrow> bytes \<Rightarrow> bytes \<Rightarrow> bytes" where
  "absorbBlocks rate a msg =
     (if msg = [] \<or> rate = 0 then a
      else absorbBlocks rate (P_state (xorin a (take rate msg) rate)) (drop rate msg))"
  by pat_completeness auto

termination by (relation "measure (\<lambda>(rate, a, msg). length msg)") auto

declare absorbBlocks.simps [simp del]

lemma length_padding: "0 < rate \<Longrightarrow> length (padding rate delim n) = rate - n mod rate"
proof -
  assume "0 < rate"
  define m where "m = n mod rate"
  have "m < rate" using \<open>0 < rate\<close> by (simp add: m_def)
  then show ?thesis unfolding padding_def Let_def m_def [symmetric] by auto
qed

lemma length_xorin [simp]: "len \<le> length src \<Longrightarrow> len \<le> length dst \<Longrightarrow> length (xorin dst src len) = length dst"
  by (simp add: xorin_def)

lemma length_P_state [simp]: "length (P_state a) = 200"
proof -
  have "length (keccakf (lanes_of_bytes a)) = 25" using keccakf_equiv [of "lanes_of_bytes a"] by (simp add: lanes_of_bytes_def)
  moreover have "length (toLittleEndian l) = 8" for l by (simp add: toLittleEndian_def)
  ultimately show ?thesis by (simp add: P_state_def bytes_of_lanes_def length_concat comp_def sum_list_triv)
qed

lemma xorin_nth:
  assumes "len \<le> length src" "len \<le> length dst" "i < length dst"
  shows "xorin dst src len ! i = (if i < len then xor (dst ! i) (src ! i) else dst ! i)"
  using assms by (simp add: xorin_def nth_append)

lemma padding_nth:
  assumes "0 < rate" "n < rate" "i < rate - n"
  shows "padding rate delim n ! i = xor (if i = 0 then delim else 0) (if i = rate - n - 1 then 0x80 else 0)"
  using assms by (auto simp: padding_def Let_def nth_append nth_Cons' )

lemma last_block:
  assumes "n = length input" "n < rate" "rate < 200" "length a = 200"
  shows "xorin a (input @ padding rate delim n) rate =
    xorin ((a[n := xor (a ! n) delim])[rate - 1 := xor (a[n := xor (a ! n) delim] ! (rate - 1)) 0x80]) input n"
    (is "?l = xorin ?a input n")
proof (rule nth_equalityI)
  have len: "length (input @ padding rate delim n) = rate" using assms length_padding [of rate delim n] by simp
  then show "length ?l = length (xorin ?a input n)" using assms by simp
  fix i assume "i < length ?l"
  then have i: "i < 200" using assms len by simp
  have l: "?l ! i = (if i < rate then xor (a ! i) ((input @ padding rate delim n) ! i) else a ! i)"
    using assms len i by (simp add: xorin_nth)
  have r: "xorin ?a input n ! i = (if i < n then xor (a ! i) (input ! i) else ?a ! i)"
    using assms i by (simp add: xorin_nth)
  have p: "(input @ padding rate delim n) ! i =
      xor (if i = n then delim else 0) (if i = rate - 1 then 0x80 else 0)" if "n \<le> i" "i < rate"
    using that assms padding_nth [of rate n "i - n" delim] by (auto simp: nth_append)
  show "?l ! i = xorin ?a input n ! i"
    using assms i l r p by (auto simp: nth_append nth_list_update ac_simps)
qed

lemma absorb_padded:
  assumes "0 < rate" "rate < 200"
  shows "length a = 200 \<Longrightarrow> absorb rate a input = (a', rest) \<Longrightarrow>
    length rest < rate \<and> length a' = 200 \<and>
    absorbBlocks rate a (input @ padding rate delim (length input)) =
      P_state (xorin a' (rest @ padding rate delim (length rest)) rate)"
  using assms
proof (induction rate a input rule: absorb.induct)
  case (1 rate a input)
  let ?msg = "input @ padding rate delim (length input)"
  have ne: "?msg \<noteq> []" using "1.prems" by (auto simp: padding_def Let_def)
  show ?case
  proof (cases "rate \<le> length input")
    case True
    then have "input \<noteq> []" using "1.prems"(3) by auto
    have "padding rate delim (length (drop rate input)) = padding rate delim (length input)"
      using True by (simp add: padding_def le_mod_geq)
    moreover have "xorin a (take rate ?msg) rate = xorin a input rate" using True by (simp add: xorin_def)
    ultimately have "absorbBlocks rate a ?msg =
        absorbBlocks rate (P_state (xorin a input rate)) (drop rate input @ padding rate delim (length (drop rate input)))"
      using True \<open>input \<noteq> []\<close> "1.prems"(3) by (simp add: absorbBlocks.simps [of rate a])
    moreover have "absorb rate (P_state (xorin a input rate)) (drop rate input) = (a', rest)"
      using True "1.prems" by (simp add: absorb.simps [of rate a])
    ultimately show ?thesis using "1.IH" True "1.prems" by simp
  next
    case False
    then have "a' = a" "rest = input" using "1.prems" by (auto simp: absorb.simps [of rate a])
    moreover have "length ?msg = rate" using False "1.prems" by (simp add: length_padding)
    moreover from this have "absorbBlocks rate a ?msg = P_state (xorin a ?msg rate)"
      unfolding absorbBlocks.simps [of rate a ?msg] using ne "1.prems"(3) by (simp only: if_False simp_thms)
        (use ne in \<open>simp add: absorbBlocks.simps [of rate _ "[]"]\<close>)
    ultimately show ?thesis using False "1.prems" by simp
  qed
qed

lemma sponge_equiv:
  assumes "0 < rate" "rate < 200"
  shows "sponge_hash outlen input rate delim =
    Some (squeeze rate (absorbBlocks rate (replicate 200 0) (input @ padding rate delim (length input))) outlen)"
proof -
  obtain a rest where ar: "absorb rate (replicate 200 0) input = (a, rest)" by force
  from absorb_padded [OF assms _ ar, of delim] have
    "length rest < rate" "length a = 200"
    "absorbBlocks rate (replicate 200 0) (input @ padding rate delim (length input)) =
      P_state (xorin a (rest @ padding rate delim (length rest)) rate)" by simp_all
  with last_block [OF refl, of rest rate a delim] assms ar show ?thesis
    by (simp add: sponge_hash_def Plen_def Let_def)
qed

lemma length_squeeze: "length a = 200 \<Longrightarrow> 0 < rate \<Longrightarrow> rate < 200 \<Longrightarrow> length (squeeze rate a outlen) = outlen"
proof (induction rate a outlen rule: squeeze.induct)
  case (1 rate a outlen)
  then show ?case by (simp add: squeeze.simps [of rate a])
qed

lemma length_absorbBlocks: "length a = 200 \<Longrightarrow> length (absorbBlocks rate a msg) = 200"
proof (induction rate a msg rule: absorbBlocks.induct)
  case (1 rate a msg)
  then show ?case by (cases "msg = [] \<or> rate = 0") (simp_all add: absorbBlocks.simps [of rate a])
qed

lemma keccak256_sponge:
  "keccak256 input = squeeze 136 (absorbBlocks 136 (replicate 200 0) (input @ padding 136 1 (length input))) 32"
  by (simp add: keccak256_def keccak_def sponge_equiv)

lemma length_keccak256 [simp]: "length (keccak256 input) = 32"
  unfolding keccak256_sponge by (simp add: length_squeeze length_absorbBlocks)

end
