(* ===== verification/AssemblyCode.thy ===== *)
theory AssemblyCode
  imports BlockDeduplicator LinkerObject ConstantOptimiser SHA3
begin

text \<open>
  Model of libevmasm/Assembly.h and Assembly.cpp: building an assembly, its size, and assembling it
  into byte code with tags, data and sub-assemblies resolved. A sub-assembly is a value inside its
  parent. The code caches the assembled object; assembling is a function here, so a cached object is
  the one computed again. Names of tags are only looked up, so their map is an association list with
  the latest entry first.
\<close>

section \<open>Assemblies\<close>

record AssemblyState =
  m_usedTags :: "32 word"
  m_namedTags :: "(string \<times> 64 word) list"
  m_items :: AssemblyItems
  m_dataItems :: dataMap
  m_auxiliaryData :: bytes
  m_strings :: "(u256 \<times> string) list"
  m_libraries :: "(u256 \<times> string) list"
  m_deposit :: int
  m_currentSourceLocation :: SourceLocation

datatype Assembly = Assembly (asm_state: AssemblyState) (m_subs: "Assembly list")

definition emptyAssembly :: Assembly where
  "emptyAssembly =
     Assembly \<lparr>m_usedTags = 1, m_namedTags = [], m_items = [], m_dataItems = [], m_auxiliaryData = [],
       m_strings = [], m_libraries = [], m_deposit = 0, m_currentSourceLocation = noLocation\<rparr> []"

definition onState :: "(AssemblyState \<Rightarrow> AssemblyState) \<Rightarrow> Assembly \<Rightarrow> Assembly" where
  "onState f a = Assembly (f (asm_state a)) (m_subs a)"

text \<open>\<open>asString\<close>, \<open>h256(dev::keccak256(s))\<close> and its conversion to a number.\<close>

definition stringBytes :: "string \<Rightarrow> bytes" where
  "stringBytes s = map (\<lambda>c. word_of_nat (of_char c)) s"

definition hashNumber :: "bytes \<Rightarrow> u256" where
  "hashNumber d = fromBigEndian_u256 (keccak256 d)"

subsection \<open>New items\<close>

definition newTag :: "Assembly \<Rightarrow> (AssemblyItem \<times> Assembly) res" where
  "newTag a =
     (let used = m_usedTags (asm_state a)
      in assertThrow (used < 0xffffffff) (AssemblyException [])
           (Inr (mkItem Tag (ucast used) noLocation, onState (\<lambda>s. s\<lparr>m_usedTags := used + 1\<rparr>) a)))"

definition newPushTag :: "Assembly \<Rightarrow> (AssemblyItem \<times> Assembly) res" where
  "newPushTag a =
     (let used = m_usedTags (asm_state a)
      in assertThrow (used < 0xffffffff) (AssemblyException [])
           (Inr (mkItem PushTag (ucast used) noLocation, onState (\<lambda>s. s\<lparr>m_usedTags := used + 1\<rparr>) a)))"

definition namedTag :: "string \<Rightarrow> Assembly \<Rightarrow> (AssemblyItem \<times> Assembly) res" where
  "namedTag name a =
     assertThrow (name \<noteq> []) (AssemblyException ''Empty named tag.'')
       (case map_of (m_namedTags (asm_state a)) name of
          Some tag \<Rightarrow> Inr (mkItem Tag (ucast tag) noLocation, a)
        | None \<Rightarrow>
            bindR (newTag a) (\<lambda>(item, a').
              let tag = ucast (m_data item)
              in Inr (mkItem Tag (ucast tag) noLocation,
                      onState (\<lambda>s. s\<lparr>m_namedTags := (name, tag) # m_namedTags s\<rparr>) a')))"

definition newData :: "bytes \<Rightarrow> Assembly \<Rightarrow> AssemblyItem \<times> Assembly" where
  "newData d a =
     (let h = hashNumber d
      in (mkItem PushData h noLocation, onState (\<lambda>s. s\<lparr>m_dataItems := omap_put h d (m_dataItems s)\<rparr>) a))"

definition newSub :: "Assembly \<Rightarrow> Assembly \<Rightarrow> AssemblyItem \<times> Assembly" where
  "newSub b a =
     (mkItem PushSub (word_of_nat (length (m_subs a @ [b]) - 1)) noLocation, Assembly (asm_state a) (m_subs a @ [b]))"

definition newPushString :: "string \<Rightarrow> Assembly \<Rightarrow> AssemblyItem \<times> Assembly" where
  "newPushString d a =
     (let h = hashNumber (stringBytes d)
      in (mkItem PushString h noLocation, onState (\<lambda>s. s\<lparr>m_strings := omap_put h d (m_strings s)\<rparr>) a))"

definition newPushSubSize :: "u256 \<Rightarrow> AssemblyItem" where
  "newPushSubSize subId = mkItem PushSubSize subId noLocation"

definition newPushLibraryAddress :: "string \<Rightarrow> Assembly \<Rightarrow> AssemblyItem \<times> Assembly" where
  "newPushLibraryAddress identifier a =
     (let h = hashNumber (stringBytes identifier)
      in (mkItem PushLibraryAddress h noLocation, onState (\<lambda>s. s\<lparr>m_libraries := omap_put h identifier (m_libraries s)\<rparr>) a))"

subsection \<open>Appending\<close>

definition appendItem :: "AssemblyItem \<Rightarrow> Assembly \<Rightarrow> Assembly res" where
  "appendItem i a =
     assertThrow (m_deposit (asm_state a) \<ge> 0) (AssemblyException ''Stack underflow.'')
       (Inr (onState (\<lambda>s.
          s\<lparr>m_deposit := m_deposit s + item_deposit i,
            m_items := m_items s @
              [if loc_isEmpty (m_location i) \<and> \<not> loc_isEmpty (m_currentSourceLocation s)
               then i\<lparr>m_location := m_currentSourceLocation s\<rparr> else i]\<rparr>) a))"

fun appendItems :: "AssemblyItems \<Rightarrow> Assembly \<Rightarrow> Assembly res" where
  "appendItems [] a = Inr a"
| "appendItems (i # is) a = bindR (appendItem i a) (appendItems is)"

text \<open>The items of an appended assembly are renumbered behind the tags and subs of this one.\<close>

definition renumber :: "Assembly \<Rightarrow> AssemblyItem \<Rightarrow> AssemblyItem" where
  "renumber a i =
     (if m_type i = Tag \<or> m_type i = PushTag then i\<lparr>m_data := m_data i + ucast (m_usedTags (asm_state a))\<rparr>
      else if m_type i = PushSub \<or> m_type i = PushSubSize then i\<lparr>m_data := m_data i + word_of_nat (length (m_subs a))\<rparr>
      else i)"

definition appendAssembly :: "Assembly \<Rightarrow> Assembly \<Rightarrow> Assembly res" where
  "appendAssembly b a =
     bindR (appendItems (map (renumber a) (m_items (asm_state b))) a) (\<lambda>a'.
       Inr (Assembly
         ((asm_state a')\<lparr>m_deposit := m_deposit (asm_state a) + m_deposit (asm_state b),
            m_usedTags := m_usedTags (asm_state a') + m_usedTags (asm_state b),
            m_dataItems := fold (\<lambda>(k, v). omap_insert k v) (m_dataItems (asm_state b)) (m_dataItems (asm_state a')),
            m_strings := fold (\<lambda>(k, v). omap_insert k v) (m_strings (asm_state b)) (m_strings (asm_state a')),
            m_libraries := fold (\<lambda>(k, v). omap_insert k v) (m_libraries (asm_state b)) (m_libraries (asm_state a'))\<rparr>)
         (m_subs a' @ m_subs b)))"

definition appendAssemblyDeposit :: "Assembly \<Rightarrow> int \<Rightarrow> Assembly \<Rightarrow> Assembly res" where
  "appendAssemblyDeposit b deposit a =
     assertThrow (deposit \<le> m_deposit (asm_state b)) InvalidDeposit
       (bindR (appendAssembly b a)
         (appendItems (replicate (nat (m_deposit (asm_state b) - deposit)) (opItem POP noLocation))))"

definition appendString :: "string \<Rightarrow> Assembly \<Rightarrow> Assembly res" where
  "appendString d a = (case newPushString d a of (i, a') \<Rightarrow> appendItem i a')"

definition appendData :: "bytes \<Rightarrow> Assembly \<Rightarrow> Assembly res" where
  "appendData d a = (case newData d a of (i, a') \<Rightarrow> appendItem i a')"

definition appendProgramSize :: "Assembly \<Rightarrow> Assembly res" where
  "appendProgramSize a = appendItem (mkItem PushProgramSize 0 noLocation) a"

definition appendLibraryAddress :: "string \<Rightarrow> Assembly \<Rightarrow> Assembly res" where
  "appendLibraryAddress identifier a = (case newPushLibraryAddress identifier a of (i, a') \<Rightarrow> appendItem i a')"

text \<open>The jumps return the item they appended, with its location.\<close>

definition appendNewJump :: "Instruction \<Rightarrow> Assembly \<Rightarrow> (AssemblyItem \<times> Assembly) res" where
  "appendNewJump jump a =
     bindR (newPushTag a) (\<lambda>(i, a1).
       bindR (appendItem i a1) (\<lambda>a2.
         bindR (appendItem (opItem jump noLocation) a2) (\<lambda>a3. Inr (last (m_items (asm_state a2)), a3))))"

definition appendJumpTo :: "Instruction \<Rightarrow> AssemblyItem \<Rightarrow> Assembly \<Rightarrow> (AssemblyItem \<times> Assembly) res" where
  "appendJumpTo jump tag a =
     bindR (item_pushTag tag) (\<lambda>i.
       bindR (appendItem i a) (\<lambda>a2.
         bindR (appendItem (opItem jump noLocation) a2) (\<lambda>a3. Inr (last (m_items (asm_state a2)), a3))))"

definition appendSubroutine :: "Assembly \<Rightarrow> Assembly \<Rightarrow> (AssemblyItem \<times> Assembly) res" where
  "appendSubroutine b a =
     (case newSub b a of (sub, a1) \<Rightarrow>
        bindR (appendItem (newPushSubSize (ucast (ucast (m_data sub) :: 64 word))) a1) (\<lambda>a2. Inr (sub, a2)))"

definition pushSubroutineSize :: "64 word \<Rightarrow> Assembly \<Rightarrow> Assembly res" where
  "pushSubroutineSize subRoutine a = appendItem (newPushSubSize (ucast subRoutine)) a"

definition pushSubroutineOffset :: "64 word \<Rightarrow> Assembly \<Rightarrow> Assembly res" where
  "pushSubroutineOffset subRoutine a = appendItem (mkItem PushSub (ucast subRoutine) noLocation) a"

definition appendAuxiliaryDataToEnd :: "bytes \<Rightarrow> Assembly \<Rightarrow> Assembly" where
  "appendAuxiliaryDataToEnd d = onState (\<lambda>s. s\<lparr>m_auxiliaryData := m_auxiliaryData s @ d\<rparr>)"

definition backString :: "Assembly \<Rightarrow> string res" where
  "backString a =
     (let items = m_items (asm_state a)
      in if items \<noteq> [] \<and> m_type (last items) = PushString
         then (case map_of (m_strings (asm_state a)) (m_data (last items)) of None \<Rightarrow> Inl OutOfRange | Some s \<Rightarrow> Inr s)
         else Inr [])"

definition injectStart :: "AssemblyItem \<Rightarrow> Assembly \<Rightarrow> Assembly" where
  "injectStart i = onState (\<lambda>s. s\<lparr>m_items := i # m_items s\<rparr>)"

definition adjustDeposit :: "int \<Rightarrow> Assembly \<Rightarrow> Assembly res" where
  "adjustDeposit adjustment a =
     (let a' = onState (\<lambda>s. s\<lparr>m_deposit := m_deposit s + adjustment\<rparr>) a
      in assertThrow (m_deposit (asm_state a') \<ge> 0) InvalidDeposit (Inr a'))"

definition setDeposit :: "int \<Rightarrow> Assembly \<Rightarrow> Assembly res" where
  "setDeposit deposit a =
     assertThrow (deposit \<ge> 0) InvalidDeposit (Inr (onState (\<lambda>s. s\<lparr>m_deposit := deposit\<rparr>) a))"

definition setSourceLocation :: "SourceLocation \<Rightarrow> Assembly \<Rightarrow> Assembly" where
  "setSourceLocation l = onState (\<lambda>s. s\<lparr>m_currentSourceLocation := l\<rparr>)"

section \<open>Size\<close>

text \<open>\<open>unsigned\<close> has 32 bits, so four bytes always hold the size and the loop ends.\<close>

definition toUnsigned :: "nat \<Rightarrow> nat" where
  "toUnsigned n = unat (word_of_nat n :: 32 word)"

definition codeSize :: "AssemblyState \<Rightarrow> nat \<Rightarrow> nat res" where
  "codeSize s tagSize =
     bindR (itemsBytesRequired (m_items s) tagSize) (\<lambda>n.
       Inr (toUnsigned (1 + (\<Sum>(k, d)\<leftarrow>m_dataItems s. length d) + n)))"

lemma toUnsigned_mod: "toUnsigned n = n mod 2 ^ 32"
  by (simp add: toUnsigned_def unat_of_nat)

lemma bytesRequired_u32: "bytesRequired (toUnsigned n) \<le> 4"
  by (simp add: bytesRequired_le_iff toUnsigned_mod)

function asm_bytesRequired :: "AssemblyState \<Rightarrow> nat \<Rightarrow> nat res" where
  "asm_bytesRequired s tagSize =
     (case codeSize s tagSize of
        Inl e \<Rightarrow> Inl e
      | Inr ret \<Rightarrow> if bytesRequired ret \<le> tagSize then Inr ret else asm_bytesRequired s (tagSize + 1))"
  by pat_completeness auto

termination
proof (relation "measure (\<lambda>(s, tagSize). 4 - tagSize)")
  fix s tagSize ret
  assume "codeSize s tagSize = Inr ret" "\<not> bytesRequired ret \<le> tagSize"
  then have "bytesRequired ret \<le> 4" using bytesRequired_u32 by (auto simp: codeSize_def)
  with \<open>\<not> bytesRequired ret \<le> tagSize\<close> show "((s, tagSize + 1), (s, tagSize)) \<in> measure (\<lambda>(s, tagSize). 4 - tagSize)"
    by simp
qed simp

declare asm_bytesRequired.simps [simp del]

section \<open>Assembling\<close>

text \<open>
  What the loop over the items reads: the widths of references, the strings, libraries and sizes of
  the assembled subs.
\<close>

record AssembleContext =
  c_bytesPerTag :: nat
  c_bytesPerDataRef :: nat
  c_strings :: "(u256 \<times> string) list"
  c_libraries :: "(u256 \<times> string) list"
  c_subSizes :: "nat list"

text \<open>
  What it writes. A position that is not set, \<open>size_t(-1)\<close> in the code, is \<open>None\<close>. Positions of
  references grow with the code, so the map \<open>tagRef\<close> is the list in the order of insertion; the
  multimaps keep the order of insertion among equal keys.
\<close>

record AssembleState =
  as_object :: LinkerObject
  as_tagPositions :: "nat option list"
  as_tagRef :: "(nat \<times> 64 word \<times> 64 word) list"
  as_dataRef :: "(u256 \<times> nat) list"
  as_subRef :: "(64 word \<times> nat) list"
  as_sizeRef :: "nat list"
  as_items :: AssemblyItems

definition code :: "AssembleState \<Rightarrow> bytes" where
  "code s = lo_bytecode (as_object s)"

definition pushBytes :: "bytes \<Rightarrow> AssembleState \<Rightarrow> AssembleState" where
  "pushBytes bs s = s\<lparr>as_object := (as_object s)\<lparr>lo_bytecode := code s @ bs\<rparr>\<rparr>"

text \<open>\<open>(byte)Instruction::PUSH1 - 1 + n\<close>.\<close>

definition pushOpcode :: "nat \<Rightarrow> byte" where
  "pushOpcode n = PUSH1 - 1 + word_of_nat n"

definition pushConstant :: "nat \<Rightarrow> bytes" where
  "pushConstant v = (let b = max 1 (bytesRequired v) in pushOpcode b # toBigEndian b v)"

definition errorTagPosition :: "AssemblyItem \<Rightarrow> AssembleState \<Rightarrow> AssembleState" where
  "errorTagPosition i s =
     (if m_type i \<noteq> Tag \<and> as_tagPositions s ! 0 = None
      then s\<lparr>as_tagPositions := (as_tagPositions s)[0 := Some (length (code s))]\<rparr> else s)"

text \<open>
  The switch. An access past the end of the tag positions is undefined behaviour in the code; the
  model reports it as \<open>OutOfRange\<close>.
\<close>

definition emitItem :: "AssembleContext \<Rightarrow> AssemblyItem \<Rightarrow> AssembleState \<Rightarrow> AssembleState res" where
  "emitItem c i s =
     (case m_type i of
        Operation \<Rightarrow> Inr (pushBytes [m_instruction i] s)
      | PushString \<Rightarrow>
          (case map_of (c_strings c) (m_data i) of
             None \<Rightarrow> Inl OutOfRange
           | Some str \<Rightarrow>
               let bs = take 32 (stringBytes str)
               in Inr (pushBytes (PUSH32 # bs @ replicate (32 - length bs) 0) s))
      | Push \<Rightarrow> Inr (pushBytes (pushConstant (unat (m_data i))) s)
      | PushTag \<Rightarrow>
          bindR (splitForeignPushTag i) (\<lambda>ref.
            let s = pushBytes [pushOpcode (c_bytesPerTag c)] s
            in Inr (pushBytes (replicate (c_bytesPerTag c) 0) (s\<lparr>as_tagRef := as_tagRef s @ [(length (code s), ref)]\<rparr>)))
      | PushData \<Rightarrow>
          let s = pushBytes [pushOpcode (c_bytesPerDataRef c)] s
          in Inr (pushBytes (replicate (c_bytesPerDataRef c) 0) (s\<lparr>as_dataRef := as_dataRef s @ [(m_data i, length (code s))]\<rparr>))
      | PushSub \<Rightarrow>
          let s = pushBytes [pushOpcode (c_bytesPerDataRef c)] s
          in Inr (pushBytes (replicate (c_bytesPerDataRef c) 0) (s\<lparr>as_subRef := as_subRef s @ [(ucast (m_data i), length (code s))]\<rparr>))
      | PushSubSize \<Rightarrow>
          let k = unat (ucast (m_data i) :: 64 word)
          in if k < length (c_subSizes c)
             then Inr (pushBytes (pushConstant (c_subSizes c ! k)) s)
             else Inl OutOfRange
      | PushProgramSize \<Rightarrow>
          let s = pushBytes [pushOpcode (c_bytesPerDataRef c)] s
          in Inr (pushBytes (replicate (c_bytesPerDataRef c) 0) (s\<lparr>as_sizeRef := as_sizeRef s @ [length (code s)]\<rparr>))
      | PushLibraryAddress \<Rightarrow>
          (case map_of (c_libraries c) (m_data i) of
             None \<Rightarrow> Inl OutOfRange
           | Some lib \<Rightarrow>
               let s = pushBytes [PUSH20] s
               in Inr (pushBytes (replicate 20 0)
                    (s\<lparr>as_object := (as_object s)\<lparr>lo_linkReferences :=
                        omap_put (length (code s)) lib (lo_linkReferences (as_object s))\<rparr>\<rparr>)))
      | PushDeployTimeAddress \<Rightarrow> Inr (pushBytes (PUSH20 # replicate 20 0) s)
      | Tag \<Rightarrow>
          assertThrow (m_data i \<noteq> 0) (AssemblyException ''Invalid tag position.'')
           (bindR (splitForeignPushTag i) (\<lambda>(sub, tg).
             assertThrow (sub = - 1) (AssemblyException ''Foreign tag.'')
              (assertThrow (int (length (code s)) < 0xffffffff) (AssemblyException ''Tag too large.'')
                (let k = unat (ucast (m_data i) :: 64 word)
                 in if k < length (as_tagPositions s) then
                      assertThrow (as_tagPositions s ! k = None) (AssemblyException ''Duplicate tag position.'')
                        (Inr (pushBytes [JUMPDEST] (s\<lparr>as_tagPositions := (as_tagPositions s)[k := Some (length (code s))]\<rparr>)))
                    else Inl OutOfRange))))
      | UndefinedItem \<Rightarrow> Inl InvalidOpcode)"

text \<open>Assembling a \<open>PushSubSize\<close> records the size in the item.\<close>

definition recordPushedValue :: "AssembleContext \<Rightarrow> AssemblyItem \<Rightarrow> AssemblyItem" where
  "recordPushedValue c i =
     (if m_type i = PushSubSize
      then i\<lparr>m_pushedValue := Some (word_of_nat (c_subSizes c ! unat (ucast (m_data i) :: 64 word)))\<rparr> else i)"

fun emitItems :: "AssembleContext \<Rightarrow> AssemblyItems \<Rightarrow> AssembleState \<Rightarrow> AssembleState res" where
  "emitItems c [] s = Inr s"
| "emitItems c (i # is) s =
     bindR (emitItem c i (errorTagPosition i s)) (\<lambda>s'. emitItems c is (s'\<lparr>as_items := as_items s' @ [recordPushedValue c i]\<rparr>))"

text \<open>A reference is written over the space reserved for it.\<close>

definition writeReferences :: "nat \<Rightarrow> nat \<Rightarrow> nat list \<Rightarrow> bytes \<Rightarrow> bytes" where
  "writeReferences w v ps bs = fold (\<lambda>p. overwrite p (toBigEndian w v)) ps bs"

fun appendSubs :: "nat \<Rightarrow> (64 word \<times> nat) list \<Rightarrow> nat \<Rightarrow> LinkerObject list \<Rightarrow> LinkerObject \<Rightarrow> LinkerObject" where
  "appendSubs w refs i [] ret = ret"
| "appendSubs w refs i (sub # subs) ret =
     (let ps = map snd (filter (\<lambda>(k, p). k = word_of_nat i) refs)
      in if ps = [] then appendSubs w refs (i + 1) subs ret
         else appendSubs w refs (i + 1) subs
           (lo_append (ret\<lparr>lo_bytecode := writeReferences w (length (lo_bytecode ret)) ps (lo_bytecode ret)\<rparr>) sub))"

definition tagReference :: "nat \<Rightarrow> nat option list \<Rightarrow> nat option list list \<Rightarrow> 64 word \<times> 64 word \<Rightarrow> nat res" where
  "tagReference bytesPerTag positions subPositions ref =
     (case ref of (subId, tg) \<Rightarrow>
        assertThrow (subId = - 1 \<or> unat subId < length subPositions) (AssemblyException ''Invalid sub id'')
         (let tagPositions = (if subId = - 1 then positions else subPositions ! unat subId)
          in assertThrow (unat tg < length tagPositions) (AssemblyException ''Reference to non-existing tag.'')
              (case tagPositions ! unat tg of
                 None \<Rightarrow> Inl (AssemblyException ''Reference to tag without position.'')
               | Some pos \<Rightarrow>
                   assertThrow (bytesRequired pos \<le> bytesPerTag)
                     (AssemblyException ''Tag too large for reserved space.'') (Inr pos))))"

fun writeTags :: "nat \<Rightarrow> nat option list \<Rightarrow> nat option list list \<Rightarrow> (nat \<times> 64 word \<times> 64 word) list \<Rightarrow> bytes \<Rightarrow> bytes res" where
  "writeTags w positions subPositions [] bs = Inr bs"
| "writeTags w positions subPositions ((p, ref) # refs) bs =
     bindR (tagReference w positions subPositions ref) (\<lambda>pos.
       writeTags w positions subPositions refs (overwrite p (toBigEndian w pos) bs))"

fun appendDataItems :: "nat \<Rightarrow> ('k \<times> nat) list \<Rightarrow> ('k \<times> bytes) list \<Rightarrow> bytes \<Rightarrow> bytes" where
  "appendDataItems w refs [] bs = bs"
| "appendDataItems w refs ((h, d) # items) bs =
     (let ps = map snd (filter (\<lambda>(k, p). k = h) refs)
      in if ps = [] then appendDataItems w refs items bs
         else appendDataItems w refs items (writeReferences w (length bs) ps bs @ d))"

record Assembled =
  r_object :: LinkerObject
  r_tagPositions :: "nat option list"
  r_items :: AssemblyItems

definition subTagSize :: "Assembled list \<Rightarrow> nat" where
  "subTagSize subs =
     fold (\<lambda>sub n. fold (\<lambda>p n. case p of Some pos \<Rightarrow> if pos > n then pos else n | None \<Rightarrow> n) (r_tagPositions sub) n) subs 1"

definition assembleContext :: "AssemblyState \<Rightarrow> Assembled list \<Rightarrow> nat \<Rightarrow> AssembleContext" where
  "assembleContext s subs bytesRequiredForCode =
     (let sizes = map (\<lambda>r. length (lo_bytecode (r_object r))) subs;
          includingData = toUnsigned (bytesRequiredForCode + 1 + length (m_auxiliaryData s) + sum_list sizes)
      in \<lparr>c_bytesPerTag = bytesRequired bytesRequiredForCode,
          c_bytesPerDataRef = bytesRequired includingData,
          c_strings = m_strings s, c_libraries = m_libraries s, c_subSizes = sizes\<rparr>)"

definition initialState :: "AssemblyState \<Rightarrow> AssembleState" where
  "initialState s =
     \<lparr>as_object = emptyObject, as_tagPositions = replicate (unat (m_usedTags s)) None, as_tagRef = [],
      as_dataRef = [], as_subRef = [], as_sizeRef = [], as_items = []\<rparr>"

definition finishAssembly :: "AssemblyState \<Rightarrow> Assembled list \<Rightarrow> AssembleContext \<Rightarrow> AssembleState \<Rightarrow> Assembled res" where
  "finishAssembly s subs c st =
     (let ret = as_object st;
          ret = (if subs \<noteq> [] \<or> m_dataItems s \<noteq> [] \<or> m_auxiliaryData s \<noteq> []
                 then ret\<lparr>lo_bytecode := lo_bytecode ret @ [0]\<rparr> else ret);
          ret = appendSubs (c_bytesPerDataRef c) (as_subRef st) 0 (map r_object subs) ret
      in bindR (writeTags (c_bytesPerTag c) (as_tagPositions st) (map r_tagPositions subs) (as_tagRef st) (lo_bytecode ret))
           (\<lambda>bs.
              let bs = appendDataItems (c_bytesPerDataRef c) (as_dataRef st) (m_dataItems s) bs @ m_auxiliaryData s;
                  bs = writeReferences (c_bytesPerDataRef c) (length bs) (as_sizeRef st) bs
              in Inr \<lparr>r_object = ret\<lparr>lo_bytecode := bs\<rparr>, r_tagPositions = as_tagPositions st, r_items = as_items st\<rparr>))"

definition assembleState :: "AssemblyState \<Rightarrow> Assembled list \<Rightarrow> Assembled res" where
  "assembleState s subs =
     bindR (asm_bytesRequired s (subTagSize subs)) (\<lambda>bytesRequiredForCode.
       let c = assembleContext s subs bytesRequiredForCode
       in bindR (emitItems c (m_items s) (initialState s)) (finishAssembly s subs c))"

fun assemble :: "Assembly \<Rightarrow> Assembled res"
  and assembleAll :: "Assembly list \<Rightarrow> Assembled list res" where
  "assemble (Assembly s subs) = bindR (assembleAll subs) (assembleState s)"
| "assembleAll [] = Inr []"
| "assembleAll (a # as) = bindR (assemble a) (\<lambda>r. bindR (assembleAll as) (\<lambda>rs. Inr (r # rs)))"

end
