(* ===== verification/AssemblyLayout.thy ===== *)
theory AssemblyLayout
  imports AssemblyCode
begin

text \<open>
  What assembling leaves in the code: where every item lies, that the references written afterwards
  stay inside the space reserved for them, and therefore what every item holds at the end.
\<close>

section \<open>What the items become\<close>

text \<open>The bytes an item adds, with zeros in the place of a reference.\<close>

definition slot :: "AssembleContext \<Rightarrow> AssemblyItem \<Rightarrow> bytes" where
  "slot c i =
     (case m_type i of
        Operation \<Rightarrow> [m_instruction i]
      | PushString \<Rightarrow>
          (let bs = take 32 (stringBytes (case map_of (c_strings c) (m_data i) of None \<Rightarrow> [] | Some str \<Rightarrow> str))
           in PUSH32 # bs @ replicate (32 - length bs) 0)
      | Push \<Rightarrow> pushConstant (unat (m_data i))
      | PushTag \<Rightarrow> pushOpcode (c_bytesPerTag c) # replicate (c_bytesPerTag c) 0
      | PushSubSize \<Rightarrow> pushConstant (c_subSizes c ! unat (ucast (m_data i) :: 64 word))
      | PushLibraryAddress \<Rightarrow> PUSH20 # replicate 20 0
      | PushDeployTimeAddress \<Rightarrow> PUSH20 # replicate 20 0
      | Tag \<Rightarrow> [JUMPDEST]
      | UndefinedItem \<Rightarrow> []
      | _ \<Rightarrow> pushOpcode (c_bytesPerDataRef c) # replicate (c_bytesPerDataRef c) 0)"

definition offset :: "AssembleContext \<Rightarrow> AssemblyItems \<Rightarrow> nat \<Rightarrow> nat" where
  "offset c items k = length (concat (map (slot c) (take k items)))"

definition indices :: "AssemblyItemType \<Rightarrow> AssemblyItems \<Rightarrow> nat list" where
  "indices t items = filter (\<lambda>k. m_type (items ! k) = t) [0..<length items]"

definition tagNumber :: "AssemblyItem \<Rightarrow> nat" where
  "tagNumber i = unat (tagId i)"

definition splitTag :: "AssemblyItem \<Rightarrow> 64 word \<times> 64 word" where
  "splitTag i = (ucast (drop_bit 64 (m_data i) - 1), tagId i)"

lemma code_simps [simp]:
  "code (pushBytes bs s) = code s @ bs"
  "code (s\<lparr>as_tagPositions := ps\<rparr>) = code s" "code (s\<lparr>as_tagRef := tr\<rparr>) = code s"
  "code (s\<lparr>as_dataRef := dr\<rparr>) = code s" "code (s\<lparr>as_subRef := sr\<rparr>) = code s"
  "code (s\<lparr>as_sizeRef := zr\<rparr>) = code s" "code (s\<lparr>as_items := is\<rparr>) = code s"
  "code (s\<lparr>as_object := ob\<rparr>) = lo_bytecode ob"
  "lo_bytecode (as_object (pushBytes bs s)) = code s @ bs"
  "as_tagPositions (pushBytes bs s) = as_tagPositions s" "as_tagRef (pushBytes bs s) = as_tagRef s"
  "as_dataRef (pushBytes bs s) = as_dataRef s" "as_subRef (pushBytes bs s) = as_subRef s"
  "as_sizeRef (pushBytes bs s) = as_sizeRef s"
  by (simp_all add: code_def pushBytes_def)

lemma emitItem_effect:
  assumes "emitItem c i s = Inr s'"
  shows "code s' = code s @ slot c i"
    and "as_tagRef s' = as_tagRef s @ (if m_type i = PushTag then [(Suc (length (code s)), splitTag i)] else [])"
    and "as_dataRef s' = as_dataRef s @ (if m_type i = PushData then [(m_data i, Suc (length (code s)))] else [])"
    and "as_subRef s' = as_subRef s @ (if m_type i = PushSub then [(ucast (m_data i), Suc (length (code s)))] else [])"
    and "as_sizeRef s' = as_sizeRef s @ (if m_type i = PushProgramSize then [Suc (length (code s))] else [])"
    and "as_tagPositions s' =
      (if m_type i = Tag then (as_tagPositions s)[tagNumber i := Some (length (code s))] else as_tagPositions s)"
    and "m_type i = Tag \<Longrightarrow> tagNumber i < length (as_tagPositions s) \<and> as_tagPositions s ! tagNumber i = None \<and> ownTag i"
  using assms
  by (auto simp: emitItem_def slot_def Let_def splitTag_def tagNumber_def tagId_def ownTag_def
      split: AssemblyItemType.splits option.splits if_splits)

lemma errorTag_effect [simp]:
  "code (errorTagPosition i s) = code s" "as_tagRef (errorTagPosition i s) = as_tagRef s"
  "as_dataRef (errorTagPosition i s) = as_dataRef s" "as_subRef (errorTagPosition i s) = as_subRef s"
  "as_sizeRef (errorTagPosition i s) = as_sizeRef s"
  "length (as_tagPositions (errorTagPosition i s)) = length (as_tagPositions s)"
  by (simp_all add: errorTagPosition_def)

lemma errorTag_positions:
  "m_type i = Tag \<Longrightarrow> as_tagPositions (errorTagPosition i s) = as_tagPositions s"
  "t \<noteq> 0 \<Longrightarrow> as_tagPositions (errorTagPosition i s) ! t = as_tagPositions s ! t"
  "as_tagPositions s ! t = Some p \<Longrightarrow> as_tagPositions (errorTagPosition i s) ! t = Some p"
  by (auto simp: errorTagPosition_def) (cases t; simp)

lemma emitItems_append: "emitItems c (xs @ ys) s = bindR (emitItems c xs s) (emitItems c ys)"
  by (induction xs arbitrary: s) (auto simp: bindR_def split: sum.splits)

lemma offset_snoc:
  "k \<le> length items \<Longrightarrow> offset c (items @ [i]) k = offset c items k"
  "offset c items (length items) = length (concat (map (slot c) items))"
  by (simp_all add: offset_def)

lemma indices_snoc:
  "indices t (items @ [i]) = indices t items @ (if m_type i = t then [length items] else [])"
proof -
  have "filter (\<lambda>k. m_type ((items @ [i]) ! k) = t) [0..<length items] = indices t items"
    unfolding indices_def by (rule filter_cong) (auto simp: nth_append)
  then show ?thesis by (simp add: indices_def)
qed

lemma indices_mem: "k \<in> set (indices t items) \<longleftrightarrow> k < length items \<and> m_type (items ! k) = t"
  by (auto simp: indices_def)

lemma distinct_indices: "distinct (indices t items)"
  by (simp add: indices_def)

text \<open>The state after the loop, in terms of the places of the items.\<close>

lemma emitItems_effect:
  "emitItems c items (initialState st) = Inr s \<Longrightarrow>
   code s = concat (map (slot c) items) \<and>
   as_tagRef s = map (\<lambda>k. (Suc (offset c items k), splitTag (items ! k))) (indices PushTag items) \<and>
   as_dataRef s = map (\<lambda>k. (m_data (items ! k), Suc (offset c items k))) (indices PushData items) \<and>
   as_subRef s = map (\<lambda>k. (ucast (m_data (items ! k)), Suc (offset c items k))) (indices PushSub items) \<and>
   as_sizeRef s = map (\<lambda>k. Suc (offset c items k)) (indices PushProgramSize items)"
proof (induction items arbitrary: s rule: rev_induct)
  case Nil
  then show ?case by (auto simp: initialState_def code_def emptyObject_def indices_def)
next
  case (snoc i items)
  then obtain s1 s2 where s1: "emitItems c items (initialState st) = Inr s1"
    and s2: "emitItem c i (errorTagPosition i s1) = Inr s2" "s = s2\<lparr>as_items := as_items s2 @ [recordPushedValue c i]\<rparr>"
    by (auto simp: emitItems_append)
  note IH = snoc.IH [OF s1] and eff = emitItem_effect [OF s2(1)]
  have same: "offset c (items @ [i]) k = offset c items k" "(items @ [i]) ! k = items ! k" if "k < length items" for k
    using that by (simp_all add: offset_snoc nth_append)
  have last: "offset c (items @ [i]) (length items) = length (concat (map (slot c) items))" by (simp add: offset_def)
  show ?case
    using IH eff s2(2) last same
    by (auto simp: indices_snoc indices_mem intro!: map_cong)
qed

lemma emitItems_positions:
  "emitItems c items (initialState st) = Inr s \<Longrightarrow>
   length (as_tagPositions s) = unat (m_usedTags st) \<and>
   (\<forall>k<length items. m_type (items ! k) = Tag \<longrightarrow> ownTag (items ! k) \<and> tagNumber (items ! k) < length (as_tagPositions s) \<and>
      as_tagPositions s ! tagNumber (items ! k) = Some (offset c items k)) \<and>
   (\<forall>t p. 0 < t \<and> t < length (as_tagPositions s) \<and> as_tagPositions s ! t = Some p \<longrightarrow>
      (\<exists>k<length items. m_type (items ! k) = Tag \<and> tagNumber (items ! k) = t \<and> p = offset c items k))"
proof (induction items arbitrary: s rule: rev_induct)
  case Nil
  then show ?case by (auto simp: initialState_def)
next
  case (snoc i items)
  then obtain s1 s2 where s1: "emitItems c items (initialState st) = Inr s1"
    and s2: "emitItem c i (errorTagPosition i s1) = Inr s2" "s = s2\<lparr>as_items := as_items s2 @ [recordPushedValue c i]\<rparr>"
    by (auto simp: emitItems_append)
  note IH = snoc.IH [OF s1] and eff = emitItem_effect [OF s2(1)]
  have code: "length (code s1) = offset c items (length items)"
    using emitItems_effect [OF s1] by (simp add: offset_def)
  have pos: "as_tagPositions s = (if m_type i = Tag then (as_tagPositions s1)[tagNumber i := Some (length (code s1))]
      else as_tagPositions (errorTagPosition i s1))"
    using eff(6) s2(2) errorTag_positions(1) by simp
  have fresh: "tagNumber i < length (as_tagPositions s1) \<and> as_tagPositions s1 ! tagNumber i = None \<and> ownTag i" if "m_type i = Tag"
    using eff(7) [OF that] that by (simp add: errorTag_positions(1))
  show ?case
  proof (intro conjI)
    show "length (as_tagPositions s) = unat (m_usedTags st)" using IH pos by simp
    show "\<forall>k<length (items @ [i]). m_type ((items @ [i]) ! k) = Tag \<longrightarrow> ownTag ((items @ [i]) ! k) \<and>
        tagNumber ((items @ [i]) ! k) < length (as_tagPositions s) \<and>
        as_tagPositions s ! tagNumber ((items @ [i]) ! k) = Some (offset c (items @ [i]) k)"
    proof (intro allI impI)
      fix k assume k: "k < length (items @ [i])" "m_type ((items @ [i]) ! k) = Tag"
      show "ownTag ((items @ [i]) ! k) \<and> tagNumber ((items @ [i]) ! k) < length (as_tagPositions s) \<and>
          as_tagPositions s ! tagNumber ((items @ [i]) ! k) = Some (offset c (items @ [i]) k)"
      proof (cases "k < length items")
        case True
        with k IH have old: "ownTag (items ! k)" "tagNumber (items ! k) < length (as_tagPositions s1)"
          "as_tagPositions s1 ! tagNumber (items ! k) = Some (offset c items k)" by (auto simp: nth_append)
        with True pos fresh errorTag_positions(3) [OF old(3)] show ?thesis
          by (auto simp: nth_append offset_snoc nth_list_update)
      next
        case False
        with k have "k = length items" "m_type i = Tag" by (auto simp: nth_append)
        with pos fresh code show ?thesis by (simp add: offset_snoc)
      qed
    qed
    show "\<forall>t p. 0 < t \<and> t < length (as_tagPositions s) \<and> as_tagPositions s ! t = Some p \<longrightarrow>
        (\<exists>k<length (items @ [i]). m_type ((items @ [i]) ! k) = Tag \<and> tagNumber ((items @ [i]) ! k) = t \<and>
          p = offset c (items @ [i]) k)"
    proof (intro allI impI)
      fix t p assume t: "0 < t \<and> t < length (as_tagPositions s) \<and> as_tagPositions s ! t = Some p"
      show "\<exists>k<length (items @ [i]). m_type ((items @ [i]) ! k) = Tag \<and> tagNumber ((items @ [i]) ! k) = t \<and>
          p = offset c (items @ [i]) k"
      proof (cases "m_type i = Tag \<and> t = tagNumber i")
        case True
        with t pos fresh code show ?thesis by (intro exI [of _ "length items"]) (simp add: offset_snoc)
      next
        case False
        with t pos have "as_tagPositions s1 ! t = Some p" "t < length (as_tagPositions s1)"
          by (auto simp: errorTag_positions(2) nth_list_update split: if_splits)
        with t IH obtain k where "k < length items" "m_type (items ! k) = Tag" "tagNumber (items ! k) = t" "p = offset c items k" by blast
        then show ?thesis by (intro exI [of _ k]) (simp add: nth_append offset_snoc)
      qed
    qed
  qed
qed

section \<open>Patching\<close>

text \<open>Writes inside a list that stay away from a range leave it as it is.\<close>

definition apart :: "nat \<Rightarrow> nat \<Rightarrow> nat \<times> nat \<Rightarrow> bool" where
  "apart p n seg \<longleftrightarrow> (case seg of (q, w) \<Rightarrow> p + n \<le> q \<or> q + w \<le> p)"

lemma overwrite_apart:
  assumes "q + length xs \<le> length ys" "apart p n (q, length xs)"
  shows "take n (drop p (overwrite q xs ys)) = take n (drop p ys)"
proof (rule nth_equalityI)
  fix i assume "i < length (take n (drop p (overwrite q xs ys)))"
  then have "i < n" "p + i < length ys" using assms(1) by auto
  then show "take n (drop p (overwrite q xs ys)) ! i = take n (drop p ys) ! i"
    using assms by (auto simp: overwrite_nth apart_def)
qed (use assms in simp)

lemma overwrite_read: "q + length xs \<le> length ys \<Longrightarrow> take (length xs) (drop q (overwrite q xs ys)) = xs"
  by (simp add: overwrite_def)

lemma length_writeReferences: "\<forall>p\<in>set ps. p + w \<le> length bs \<Longrightarrow> length (writeReferences w v ps bs) = length bs"
  unfolding writeReferences_def by (induction ps arbitrary: bs) auto

lemma writeReferences_apart:
  "\<forall>q\<in>set ps. q + w \<le> length bs \<and> apart p n (q, w) \<Longrightarrow>
     take n (drop p (writeReferences w v ps bs)) = take n (drop p bs)"
  unfolding writeReferences_def
proof (induction ps arbitrary: bs)
  case (Cons q ps)
  then show ?case by (simp add: overwrite_apart)
qed simp

lemma writeReferences_read:
  "\<forall>q\<in>set ps. q + w \<le> length bs \<and> (q = p \<or> apart p w (q, w)) \<Longrightarrow> p \<in> set ps \<Longrightarrow>
     take w (drop p (writeReferences w v ps bs)) = toBigEndian w v"
proof (induction ps arbitrary: bs)
  case (Cons q ps)
  let ?bs = "overwrite q (toBigEndian w v) bs"
  have step: "writeReferences w v (q # ps) bs = writeReferences w v ps ?bs" by (simp add: writeReferences_def)
  have len: "length ?bs = length bs" using Cons.prems by simp
  show ?case
  proof (cases "p \<in> set ps")
    case True
    then show ?thesis using Cons.IH [of ?bs] Cons.prems len by (simp add: step)
  next
    case False
    then have "q = p" using Cons.prems(2) by simp
    moreover have "\<forall>q\<in>set ps. q + w \<le> length ?bs \<and> apart p w (q, w)" using Cons.prems(1) False len by auto
    ultimately show ?thesis
      unfolding step using writeReferences_apart [of ps w ?bs p w v] overwrite_read [of p "toBigEndian w v" bs] Cons.prems(1)
      by simp
  qed
qed simp

subsection \<open>The places of references\<close>

lemma slot_reference:
  "m_type i = PushTag \<Longrightarrow> length (slot c i) = Suc (c_bytesPerTag c)"
  "m_type i \<in> {PushData, PushSub, PushProgramSize} \<Longrightarrow> length (slot c i) = Suc (c_bytesPerDataRef c)"
  "m_type i = Tag \<Longrightarrow> slot c i = [JUMPDEST]"
  by (auto simp: slot_def)

lemma offset_mono: "j \<le> k \<Longrightarrow> offset c items j \<le> offset c items k"
proof -
  assume "j \<le> k"
  then have "take k items = take j items @ take (k - j) (drop j items)" by (metis le_add_diff_inverse take_add)
  then show ?thesis by (simp add: offset_def)
qed

lemma offset_Suc: "k < length items \<Longrightarrow> offset c items (Suc k) = offset c items k + length (slot c (items ! k))"
  by (simp add: offset_def take_Suc_conv_app_nth)

lemma offset_next: "j < k \<Longrightarrow> j < length items \<Longrightarrow> offset c items j + length (slot c (items ! j)) \<le> offset c items k"
  using offset_mono [of "Suc j" k c items] offset_Suc [of j items c] by simp

lemma offset_end: "k < length items \<Longrightarrow> offset c items k + length (slot c (items ! k)) \<le> length (concat (map (slot c) items))"
  using offset_next [of k "length items" items c] by (simp add: offset_def)

lemma slots_apart:
  assumes "j < length items" "k < length items" "j \<noteq> k" "n \<le> length (slot c (items ! j)) - 1" "w \<le> length (slot c (items ! k)) - 1"
    "0 < length (slot c (items ! j))" "0 < length (slot c (items ! k))"
  shows "apart (Suc (offset c items j)) n (Suc (offset c items k), w)"
    and "apart (offset c items j) (length (slot c (items ! j))) (Suc (offset c items k), w)"
  using assms offset_next [of j k items c] offset_next [of k j items c]
  by (cases "j < k"; auto simp: apart_def)+

lemma slot_in_code:
  assumes "k < length items"
  shows "take (length (slot c (items ! k))) (drop (offset c items k) (concat (map (slot c) items))) = slot c (items ! k)"
proof -
  have "concat (map (slot c) items) =
      concat (map (slot c) (take k items)) @ slot c (items ! k) @ concat (map (slot c) (drop (Suc k) items))"
    using id_take_nth_drop [OF assms] by (metis concat.simps(2) concat_append list.simps(9) map_append)
  then show ?thesis by (simp add: offset_def)
qed

subsection \<open>Appended blocks\<close>

text \<open>References of which one is either the other or apart from it, all inside the first \<open>n\<close> bytes.\<close>

definition refsOk :: "nat \<Rightarrow> nat \<Rightarrow> ('k \<times> nat) list \<Rightarrow> bool" where
  "refsOk w n refs \<longleftrightarrow>
     (\<forall>(k, q)\<in>set refs. q + w \<le> n \<and> (\<forall>(k', q')\<in>set refs. (k, q) = (k', q') \<or> apart q w (q', w)))"

lemma refsOk_mono: "refsOk w n refs \<Longrightarrow> n \<le> m \<Longrightarrow> refsOk w m refs"
  by (fastforce simp: refsOk_def)

lemma appendDataItems_step:
  assumes "refsOk w (length bs) refs"
  shows "\<exists>bs'. appendDataItems w refs ((h, d) # items) bs = appendDataItems w refs items bs' \<and>
    refsOk w (length bs') refs \<and> length bs \<le> length bs' \<and>
    (\<forall>p n. p + n \<le> length bs \<and> (\<forall>(k, q)\<in>set refs. k = h \<longrightarrow> apart p n (q, w)) \<longrightarrow>
       take n (drop p bs') = take n (drop p bs)) \<and>
    (\<forall>q. (h, q) \<in> set refs \<longrightarrow>
       take w (drop q bs') = toBigEndian w (length bs) \<and> take (length d) (drop (length bs) bs') = d \<and>
       length bs + length d \<le> length bs')"
proof -
  let ?ps = "map snd (filter (\<lambda>(k, p). k = h) refs)"
  let ?w = "writeReferences w (length bs) ?ps bs"
  have inside: "\<forall>q\<in>set ?ps. q + w \<le> length bs" using assms by (auto simp: refsOk_def)
  have len: "length ?w = length bs" using inside by (rule length_writeReferences)
  show ?thesis
  proof (cases "?ps = []")
    case True
    then have "(h, q) \<notin> set refs" for q by (auto simp: filter_empty_conv)
    then show ?thesis using True assms by (intro exI [of _ bs]) auto
  next
    case False
    have keep: "take n (drop p (?w @ d)) = take n (drop p bs)"
      if "p + n \<le> length bs" "\<forall>(k, q)\<in>set refs. k = h \<longrightarrow> apart p n (q, w)" for p n
      using that inside len writeReferences_apart [of ?ps w bs p n "length bs"] by auto
    have read: "take w (drop q (?w @ d)) = toBigEndian w (length bs)" if "(h, q) \<in> set refs" for q
    proof -
      have "\<forall>q'\<in>set ?ps. q' + w \<le> length bs \<and> (q' = q \<or> apart q w (q', w))"
        using assms that inside by (fastforce simp: refsOk_def)
      moreover have "q \<in> set ?ps" using that by force
      ultimately have "take w (drop q ?w) = toBigEndian w (length bs)" by (rule writeReferences_read)
      moreover have "q + w \<le> length ?w" using assms that len by (auto simp: refsOk_def)
      ultimately show ?thesis by simp
    qed
    from False keep read len refsOk_mono [OF assms, of "length (?w @ d)"] show ?thesis
      by (intro exI [of _ "?w @ d"]) (auto simp: Let_def)
  qed
qed

lemma appendDataItems_apart:
  "refsOk w (length bs) refs \<Longrightarrow> p + n \<le> length bs \<Longrightarrow>
   \<forall>k q. (k, q) \<in> set refs \<and> k \<in> fst ` set items \<longrightarrow> apart p n (q, w) \<Longrightarrow>
     take n (drop p (appendDataItems w refs items bs)) = take n (drop p bs) \<and>
     length bs \<le> length (appendDataItems w refs items bs)"
proof (induction items arbitrary: bs)
  case (Cons x items)
  obtain h d where x: "x = (h, d)" by force
  from appendDataItems_step [OF Cons.prems(1), of h d items] obtain bs' where
    bs': "appendDataItems w refs (x # items) bs = appendDataItems w refs items bs'" "refsOk w (length bs') refs"
      "length bs \<le> length bs'" "take n (drop p bs') = take n (drop p bs)"
    using Cons.prems(2,3) unfolding x by fastforce
  have "\<forall>k q. (k, q) \<in> set refs \<and> k \<in> fst ` set items \<longrightarrow> apart p n (q, w)" using Cons.prems(3) by (simp, blast)
  from Cons.IH [OF bs'(2) order.trans [OF Cons.prems(2) bs'(3)] this] show ?case
    unfolding bs'(1) using bs'(3,4) by simp
qed simp

lemma appendDataItems_read:
  "refsOk w (length bs) refs \<Longrightarrow> distinct (map fst items) \<Longrightarrow> (h, d) \<in> set items \<Longrightarrow> (h, q) \<in> set refs \<Longrightarrow>
     \<exists>off. length bs \<le> off \<and> off + length d \<le> length (appendDataItems w refs items bs) \<and>
       take w (drop q (appendDataItems w refs items bs)) = toBigEndian w off \<and>
       take (length d) (drop off (appendDataItems w refs items bs)) = d"
proof (induction items arbitrary: bs)
  case (Cons x items)
  obtain h' d' where x: "x = (h', d')" by force
  from appendDataItems_step [OF Cons.prems(1), of h' d' items] obtain bs' where
    bs': "appendDataItems w refs (x # items) bs = appendDataItems w refs items bs'" "refsOk w (length bs') refs"
      "length bs \<le> length bs'"
      "\<And>q. (h', q) \<in> set refs \<Longrightarrow> take w (drop q bs') = toBigEndian w (length bs) \<and>
         take (length d') (drop (length bs) bs') = d' \<and> length bs + length d' \<le> length bs'"
    unfolding x by blast
  show ?case
  proof (cases "h' = h")
    case True
    with Cons.prems(2,3) x have "d' = d" "h \<notin> fst ` set items" by (auto simp: image_iff)
    have q: "q + w \<le> length bs" using Cons.prems(1,4) by (auto simp: refsOk_def)
    note here = bs'(4) [OF Cons.prems(4) [folded True], unfolded \<open>d' = d\<close>]
    have other: "apart q w (q', w) \<and> apart (length bs) (length d) (q', w)"
      if "(k, q') \<in> set refs" "k \<in> fst ` set items" for k q'
    proof -
      have "k \<noteq> h" using that(2) \<open>h \<notin> fst ` set items\<close> by auto
      then show ?thesis using that(1) Cons.prems(1,4) by (fastforce simp: refsOk_def apart_def)
    qed
    have "take w (drop q (appendDataItems w refs items bs')) = take w (drop q bs')"
      using other by (intro conjunct1 [OF appendDataItems_apart [OF bs'(2) order.trans [OF q bs'(3)]]]) blast
    moreover have "take (length d) (drop (length bs) (appendDataItems w refs items bs')) = take (length d) (drop (length bs) bs') \<and>
        length bs' \<le> length (appendDataItems w refs items bs')"
      using other here by (intro appendDataItems_apart [OF bs'(2)]) blast+
    ultimately show ?thesis using here bs'(1) by (intro exI [of _ "length bs"]) auto
  next
    case False
    then have "(h, d) \<in> set items" "distinct (map fst items)" using Cons.prems(2,3) x by auto
    from Cons.IH [OF bs'(2) this(2,1) Cons.prems(4)] show ?thesis
      unfolding bs'(1) using order.trans [OF bs'(3)] by blast
  qed
qed simp

lemma appendSubs_blocks:
  "lo_bytecode (appendSubs w refs i subs ret) =
     appendDataItems w refs (zip (map word_of_nat [i..<i + length subs]) (map lo_bytecode subs)) (lo_bytecode ret)"
proof (induction subs arbitrary: i ret)
  case (Cons sub subs)
  have upt: "[i..<i + length (sub # subs)] = i # [Suc i..<Suc i + length subs]" by (simp add: upt_rec)
  show ?case unfolding upt using Cons.IH [of "Suc i"] by (simp add: Let_def lo_append_def)
qed simp

subsection \<open>Tags\<close>

definition tagValue :: "nat \<Rightarrow> nat option list \<Rightarrow> nat option list list \<Rightarrow> 64 word \<times> 64 word \<Rightarrow> nat" where
  "tagValue w ps sps ref = (case tagReference w ps sps ref of Inr v \<Rightarrow> v | Inl e \<Rightarrow> 0)"

lemma writeTags_overwriteAll:
  "writeTags w ps sps refs bs = Inr bs' \<Longrightarrow>
     bs' = overwriteAll (map (\<lambda>(p, ref). (p, toBigEndian w (tagValue w ps sps ref))) refs) bs \<and>
     (\<forall>(p, ref)\<in>set refs. tagReference w ps sps ref = Inr (tagValue w ps sps ref))"
proof (induction w ps sps refs bs rule: writeTags.induct)
  case (2 w ps sps p ref refs bs)
  then obtain v where v: "tagReference w ps sps ref = Inr v"
    "writeTags w ps sps refs (overwrite p (toBigEndian w v) bs) = Inr bs'" by auto
  with "2.IH" [OF v] show ?case by (simp add: tagValue_def)
qed simp

lemma tagReference_own:
  "tagReference w ps sps (- 1, tg) = Inr v \<Longrightarrow> unat tg < length ps \<and> ps ! unat tg = Some v \<and> bytesRequired v \<le> w"
  by (auto simp: tagReference_def Let_def split: option.splits)

lemma tagReference_sub:
  "tagReference w ps sps (sub, tg) = Inr v \<Longrightarrow> sub \<noteq> - 1 \<Longrightarrow>
     unat sub < length sps \<and> unat tg < length (sps ! unat sub) \<and> sps ! unat sub ! unat tg = Some v \<and> bytesRequired v \<le> w"
  by (auto simp: tagReference_def Let_def split: option.splits)

lemma overwriteAll_apart:
  "\<forall>(q, xs)\<in>set segs. q + length xs \<le> length ys \<and> apart p n (q, length xs) \<Longrightarrow>
     take n (drop p (overwriteAll segs ys)) = take n (drop p ys) \<and> length (overwriteAll segs ys) = length ys"
proof (induction segs arbitrary: ys)
  case (Cons s segs)
  obtain q xs where s: "s = (q, xs)" by force
  with Cons show ?case by (simp add: overwrite_apart)
qed simp

section \<open>The assembled code\<close>

text \<open>
  The references of one kind: the places of the items of that kind. They keep away from each other
  and from every other item.
\<close>

lemma reference_places:
  assumes "\<forall>k\<in>set ks. k < length items \<and> length (slot c (items ! k)) = Suc w"
  shows "refsOk w (length (concat (map (slot c) items))) (map (\<lambda>k. (f k, Suc (offset c items k))) ks)"
proof -
  have "Suc (offset c items k) + w \<le> length (concat (map (slot c) items))" if "k \<in> set ks" for k
    using offset_end [of k items c] assms that by auto
  moreover have "k = k' \<or> apart (Suc (offset c items k)) w (Suc (offset c items k'), w)" if "k \<in> set ks" "k' \<in> set ks" for k k'
    using slots_apart(1) [of k items k' w c w] assms that by auto
  ultimately show ?thesis unfolding refsOk_def by (fastforce simp del: length_concat)
qed

definition referenceIndices :: "AssemblyItems \<Rightarrow> nat set" where
  "referenceIndices items =
     {k. k < length items \<and> m_type (items ! k) \<in> {PushTag, PushData, PushSub, PushProgramSize}}"

definition referenceWidth :: "AssembleContext \<Rightarrow> AssemblyItem \<Rightarrow> nat" where
  "referenceWidth c i = (if m_type i = PushTag then c_bytesPerTag c else c_bytesPerDataRef c)"

lemma reference_slot: "k \<in> referenceIndices items \<Longrightarrow> k < length items \<and> length (slot c (items ! k)) = Suc (referenceWidth c (items ! k))"
  by (auto simp: referenceIndices_def referenceWidth_def slot_reference)

text \<open>A range that no reference of the given items touches.\<close>

definition untouched :: "AssembleContext \<Rightarrow> AssemblyItems \<Rightarrow> nat set \<Rightarrow> nat \<Rightarrow> nat \<Rightarrow> bool" where
  "untouched c items ks p n \<longleftrightarrow>
     (\<forall>k\<in>ks. apart p n (Suc (offset c items k), referenceWidth c (items ! k)))"

lemma untouched_item:
  assumes j: "j < length items" "0 < length (slot c (items ! j))" and ks: "j \<notin> ks" "ks \<subseteq> referenceIndices items"
  shows "untouched c items ks (offset c items j) (length (slot c (items ! j)))"
    and "untouched c items ks (Suc (offset c items j)) (length (slot c (items ! j)) - 1)"
proof -
  have "apart (offset c items j) (length (slot c (items ! j))) (Suc (offset c items k), referenceWidth c (items ! k)) \<and>
      apart (Suc (offset c items j)) (length (slot c (items ! j)) - 1) (Suc (offset c items k), referenceWidth c (items ! k))"
    if "k \<in> ks" for k
  proof -
    have "k < length items" "length (slot c (items ! k)) = Suc (referenceWidth c (items ! k))" "j \<noteq> k"
      using that ks reference_slot by blast+
    then show ?thesis using j slots_apart [of j items k "length (slot c (items ! j)) - 1" c "referenceWidth c (items ! k)"] by simp
  qed
  then show "untouched c items ks (offset c items j) (length (slot c (items ! j)))"
    "untouched c items ks (Suc (offset c items j)) (length (slot c (items ! j)) - 1)" by (simp_all add: untouched_def)
qed

lemma indices_references: "t \<in> {PushTag, PushData, PushSub, PushProgramSize} \<Longrightarrow> set (indices t items) \<subseteq> referenceIndices items"
  by (auto simp: indices_mem referenceIndices_def)

lemma indices_width:
  "t \<in> {PushData, PushSub, PushProgramSize} \<Longrightarrow> k \<in> set (indices t items) \<Longrightarrow>
     k < length items \<and> length (slot c (items ! k)) = Suc (c_bytesPerDataRef c) \<and> referenceWidth c (items ! k) = c_bytesPerDataRef c"
  "k \<in> set (indices PushTag items) \<Longrightarrow>
     k < length items \<and> length (slot c (items ! k)) = Suc (c_bytesPerTag c) \<and> referenceWidth c (items ! k) = c_bytesPerTag c"
  by (auto simp: indices_mem slot_reference referenceWidth_def)

text \<open>The stages of \<open>finishAssembly\<close>.\<close>

lemma blocks_stage:
  assumes t: "t \<in> {PushData, PushSub}" and refs: "refs = map (\<lambda>k. (f k, Suc (offset c items k))) (indices t items)"
    and len: "length (concat (map (slot c) items)) \<le> length bs"
  shows "refsOk (c_bytesPerDataRef c) (length bs) refs"
    and "length bs \<le> length (appendDataItems (c_bytesPerDataRef c) refs blocks bs)"
    and "p + n \<le> length bs \<Longrightarrow> untouched c items (set (indices t items)) p n \<Longrightarrow>
      take n (drop p (appendDataItems (c_bytesPerDataRef c) refs blocks bs)) = take n (drop p bs)"
proof -
  have "refsOk (c_bytesPerDataRef c) (length (concat (map (slot c) items))) refs"
    unfolding refs using t indices_width(1) by (intro reference_places) blast
  then show ok: "refsOk (c_bytesPerDataRef c) (length bs) refs" using len by (rule refsOk_mono)
  show "length bs \<le> length (appendDataItems (c_bytesPerDataRef c) refs blocks bs)"
    using appendDataItems_apart [OF ok, of 0 0 blocks] by (auto simp: apart_def)
  assume p: "p + n \<le> length bs" "untouched c items (set (indices t items)) p n"
  have "apart p n (q, c_bytesPerDataRef c)" if "(k, q) \<in> set refs" for k q
    using that p(2) t indices_width(1) [of t _ items c] unfolding refs untouched_def by fastforce
  then show "take n (drop p (appendDataItems (c_bytesPerDataRef c) refs blocks bs)) = take n (drop p bs)"
    using appendDataItems_apart [OF ok p(1), of blocks] by blast
qed

lemma fits_items:
  assumes "length (concat (map (slot c) items)) \<le> n"
  shows "distinct ks \<Longrightarrow> \<forall>k\<in>set ks. k < length items \<and> length (slot c (items ! k)) = Suc w \<Longrightarrow> \<forall>k. length (g k) = w \<Longrightarrow>
    fits n (map (\<lambda>k. (Suc (offset c items k), g k)) ks)"
proof (induction ks)
  case (Cons k ks)
  have "apart (Suc (offset c items k)) w (Suc (offset c items k'), w)" if "k' \<in> set ks" for k'
    using slots_apart(1) [of k items k' w c w] Cons.prems that by auto
  moreover have "Suc (offset c items k) + w \<le> n" using offset_end [of k items c] Cons.prems assms by auto
  ultimately show ?case using Cons by (auto simp: apart_def)
qed simp

lemma tags_stage:
  assumes refs: "refs = map (\<lambda>k. (Suc (offset c items k), splitTag (items ! k))) (indices PushTag items)"
    and len: "length (concat (map (slot c) items)) \<le> length bs"
    and w: "writeTags (c_bytesPerTag c) ps sps refs bs = Inr bs'"
  shows "length bs' = length bs"
    and "untouched c items (set (indices PushTag items)) p n \<Longrightarrow> take n (drop p bs') = take n (drop p bs)"
    and "k \<in> set (indices PushTag items) \<Longrightarrow>
      \<exists>v. tagReference (c_bytesPerTag c) ps sps (splitTag (items ! k)) = Inr v \<and>
        take (c_bytesPerTag c) (drop (Suc (offset c items k)) bs') = toBigEndian (c_bytesPerTag c) v"
proof -
  let ?w = "c_bytesPerTag c"
  let ?seg = "\<lambda>k. (Suc (offset c items k), toBigEndian ?w (tagValue ?w ps sps (splitTag (items ! k))))"
  note all = writeTags_overwriteAll [OF w]
  have bs': "bs' = overwriteAll (map ?seg (indices PushTag items)) bs"
    using all by (simp add: refs comp_def)
  have fit: "fits (length bs) (map ?seg (indices PushTag items))"
    using indices_width(2) by (intro fits_items [OF len, where w = ?w] distinct_indices) (blast, simp)
  show "length bs' = length bs" unfolding bs' by (rule overwriteAll_length [OF fit])
  have "q + length xs \<le> length bs" if "(q, xs) \<in> set (map ?seg (indices PushTag items))" for q xs
    using that fit unfolding fits_def list_all_iff by blast
  moreover have "apart p n (q, length xs)"
    if "(q, xs) \<in> set (map ?seg (indices PushTag items))" "untouched c items (set (indices PushTag items)) p n" for q xs
    using that indices_width(2) [of _ items c] by (fastforce simp: untouched_def)
  ultimately show "untouched c items (set (indices PushTag items)) p n \<Longrightarrow> take n (drop p bs') = take n (drop p bs)"
    unfolding bs' by (intro conjunct1 [OF overwriteAll_apart]) blast
  assume k: "k \<in> set (indices PushTag items)"
  then have "?seg k \<in> set (map ?seg (indices PushTag items))" by simp
  from overwriteAll_inside [OF fit this] all k
  show "\<exists>v. tagReference ?w ps sps (splitTag (items ! k)) = Inr v \<and>
      take ?w (drop (Suc (offset c items k)) bs') = toBigEndian ?w v"
    unfolding bs' refs by auto
qed

lemma size_stage:
  assumes refs: "refs = map (\<lambda>k. Suc (offset c items k)) (indices PushProgramSize items)"
    and len: "length (concat (map (slot c) items)) \<le> length bs"
  shows "length (writeReferences (c_bytesPerDataRef c) v refs bs) = length bs"
    and "untouched c items (set (indices PushProgramSize items)) p n \<Longrightarrow>
      take n (drop p (writeReferences (c_bytesPerDataRef c) v refs bs)) = take n (drop p bs)"
    and "k \<in> set (indices PushProgramSize items) \<Longrightarrow>
      take (c_bytesPerDataRef c) (drop (Suc (offset c items k)) (writeReferences (c_bytesPerDataRef c) v refs bs)) =
        toBigEndian (c_bytesPerDataRef c) v"
proof -
  let ?w = "c_bytesPerDataRef c"
  have ok: "refsOk ?w (length bs) (map (\<lambda>k. ((), Suc (offset c items k))) (indices PushProgramSize items))"
    using indices_width(1) by (intro refsOk_mono [OF reference_places len]) blast
  then have inside: "\<forall>q\<in>set refs. q + ?w \<le> length bs" by (auto simp: refs refsOk_def)
  then show "length (writeReferences ?w v refs bs) = length bs" by (rule length_writeReferences)
  show "untouched c items (set (indices PushProgramSize items)) p n \<Longrightarrow>
      take n (drop p (writeReferences ?w v refs bs)) = take n (drop p bs)"
    using inside indices_width(1) [of PushProgramSize _ items c]
    by (intro writeReferences_apart) (fastforce simp: untouched_def refs)
  assume k: "k \<in> set (indices PushProgramSize items)"
  have "\<forall>q\<in>set refs. q + ?w \<le> length bs \<and> (q = Suc (offset c items k) \<or> apart (Suc (offset c items k)) ?w (q, ?w))"
    using ok k inside by (fastforce simp: refs refsOk_def)
  then show "take ?w (drop (Suc (offset c items k)) (writeReferences ?w v refs bs)) = toBigEndian ?w v"
    using k by (intro writeReferences_read) (auto simp: refs)
qed

text \<open>What the finished code holds at the place of each item.\<close>

definition holds :: "bytes \<Rightarrow> nat \<Rightarrow> bytes \<Rightarrow> bool" where
  "holds bs p xs \<longleftrightarrow> take (length xs) (drop p bs) = xs"

lemma assembleState_stages:
  assumes "assembleState s subs = Inr r"
  obtains n c st z b2 where "asm_bytesRequired s (subTagSize subs) = Inr n" "c = assembleContext s subs n"
    "emitItems c (m_items s) (initialState s) = Inr st" "r_tagPositions r = as_tagPositions st"
    "writeTags (c_bytesPerTag c) (as_tagPositions st) (map r_tagPositions subs) (as_tagRef st)
       (appendDataItems (c_bytesPerDataRef c) (as_subRef st)
         (zip (map word_of_nat [0..<length subs]) (map (lo_bytecode \<circ> r_object) subs)) (code st @ z)) = Inr b2"
    "lo_bytecode (r_object r) =
       (let b3 = appendDataItems (c_bytesPerDataRef c) (as_dataRef st) (m_dataItems s) b2 @ m_auxiliaryData s
        in writeReferences (c_bytesPerDataRef c) (length b3) (as_sizeRef st) b3)"
proof -
  from assms obtain n st where n: "asm_bytesRequired s (subTagSize subs) = Inr n"
    and st: "emitItems (assembleContext s subs n) (m_items s) (initialState s) = Inr st"
    and fin: "finishAssembly s subs (assembleContext s subs n) st = Inr r"
    by (auto simp: assembleState_def Let_def)
  let ?c = "assembleContext s subs n"
  let ?z = "if subs \<noteq> [] \<or> m_dataItems s \<noteq> [] \<or> m_auxiliaryData s \<noteq> [] then [0] else []"
  let ?ret = "(as_object st)\<lparr>lo_bytecode := code st @ ?z\<rparr>"
  have z: "(if subs \<noteq> [] \<or> m_dataItems s \<noteq> [] \<or> m_auxiliaryData s \<noteq> []
      then (as_object st)\<lparr>lo_bytecode := lo_bytecode (as_object st) @ [0]\<rparr> else as_object st) = ?ret"
    by (simp add: code_def)
  have subs: "lo_bytecode (appendSubs (c_bytesPerDataRef ?c) (as_subRef st) 0 (map r_object subs) ?ret) =
      appendDataItems (c_bytesPerDataRef ?c) (as_subRef st)
        (zip (map word_of_nat [0..<length subs]) (map (lo_bytecode \<circ> r_object) subs)) (code st @ ?z)"
    unfolding appendSubs_blocks by simp
  from fin obtain b2 where
    "writeTags (c_bytesPerTag ?c) (as_tagPositions st) (map r_tagPositions subs) (as_tagRef st)
       (appendDataItems (c_bytesPerDataRef ?c) (as_subRef st)
         (zip (map word_of_nat [0..<length subs]) (map (lo_bytecode \<circ> r_object) subs)) (code st @ ?z)) = Inr b2"
    "r = \<lparr>r_object = (appendSubs (c_bytesPerDataRef ?c) (as_subRef st) 0 (map r_object subs) ?ret)
           \<lparr>lo_bytecode := (let b3 = appendDataItems (c_bytesPerDataRef ?c) (as_dataRef st) (m_dataItems s) b2 @ m_auxiliaryData s
              in writeReferences (c_bytesPerDataRef ?c) (length b3) (as_sizeRef st) b3)\<rparr>,
         r_tagPositions = as_tagPositions st, r_items = as_items st\<rparr>"
    unfolding finishAssembly_def Let_def z bindR_eq_Inr subs by auto
  with n st show ?thesis by (intro that [of n ?c st ?z b2]) simp_all
qed

definition itemAssembled ::
    "AssembleContext \<Rightarrow> AssemblyState \<Rightarrow> Assembled list \<Rightarrow> nat option list \<Rightarrow> bytes \<Rightarrow> nat \<Rightarrow> bool" where
  "itemAssembled c s subs positions bs k =
     (let i = m_items s ! k; p = offset c (m_items s) k; wt = c_bytesPerTag c; wd = c_bytesPerDataRef c
      in case m_type i of
           PushTag \<Rightarrow>
             (\<exists>v. tagReference wt positions (map r_tagPositions subs) (splitTag i) = Inr v \<and>
                holds bs p (pushOpcode wt # toBigEndian wt v))
         | PushData \<Rightarrow>
             (\<forall>d. map_of (m_dataItems s) (m_data i) = Some d \<longrightarrow>
                (\<exists>off. holds bs p (pushOpcode wd # toBigEndian wd off) \<and> holds bs off d))
         | PushSub \<Rightarrow>
             (\<forall>n. n < length subs \<and> ucast (m_data i) = (word_of_nat n :: 64 word) \<longrightarrow>
                (\<exists>off. holds bs p (pushOpcode wd # toBigEndian wd off) \<and> holds bs off (lo_bytecode (r_object (subs ! n)))))
         | PushProgramSize \<Rightarrow> holds bs p (pushOpcode wd # toBigEndian wd (length bs))
         | _ \<Rightarrow> holds bs p (slot c i))"

lemma holds_Cons: "holds bs p [x] \<Longrightarrow> take (length xs) (drop (Suc p) bs) = xs \<Longrightarrow> holds bs p (x # xs)"
  unfolding holds_def
proof -
  assume h: "take (length [x]) (drop p bs) = [x]" and t: "take (length xs) (drop (Suc p) bs) = xs"
  from h obtain ys where "drop p bs = x # ys" by (cases "drop p bs") auto
  moreover from this have "drop (Suc p) bs = ys" by (metis drop_Suc list.sel(3) tl_drop)
  ultimately show "take (length (x # xs)) (drop p bs) = x # xs" using t by simp
qed

lemma untouched_head:
  assumes "j < length items" "0 < length (slot c (items ! j))" "ks \<subseteq> referenceIndices items"
  shows "untouched c items ks (offset c items j) 1"
  unfolding untouched_def
proof
  fix k assume "k \<in> ks"
  show "apart (offset c items j) 1 (Suc (offset c items k), referenceWidth c (items ! k))"
  proof (cases "k = j")
    case False
    have "untouched c items {k} (offset c items j) (length (slot c (items ! j)))"
      using assms False \<open>k \<in> ks\<close> by (intro untouched_item(1)) auto
    then have "apart (offset c items j) (length (slot c (items ! j))) (Suc (offset c items k), referenceWidth c (items ! k))"
      by (simp add: untouched_def)
    moreover have "1 \<le> length (slot c (items ! j))" using assms(2) by linarith
    ultimately show ?thesis unfolding apart_def prod.case by linarith
  qed (simp add: apart_def)
qed

lemma untouched_beyond:
  assumes "length (concat (map (slot c) items)) \<le> p" "ks \<subseteq> referenceIndices items"
  shows "untouched c items ks p n"
  unfolding untouched_def
proof
  fix k assume "k \<in> ks"
  then have "Suc (offset c items k) + referenceWidth c (items ! k) \<le> length (concat (map (slot c) items))"
    using assms(2) reference_slot [of k items c] offset_end [of k items c] by auto
  then show "apart p n (Suc (offset c items k), referenceWidth c (items ! k))"
    using assms(1) unfolding apart_def by simp
qed

lemma distinct_word_of_nat: "n \<le> 2 ^ 64 \<Longrightarrow> distinct (map (word_of_nat :: nat \<Rightarrow> 64 word) [0..<n])"
proof -
  assume n: "n \<le> 2 ^ 64"
  have "inj_on (word_of_nat :: nat \<Rightarrow> 64 word) (set [0..<n])"
  proof (rule inj_onI)
    fix x y assume "x \<in> set [0..<n]" "y \<in> set [0..<n]" "word_of_nat x = (word_of_nat y :: 64 word)"
    then have "x < 2 ^ 64" "y < 2 ^ 64" "unat (word_of_nat x :: 64 word) = unat (word_of_nat y :: 64 word)" using n by auto
    then show "x = y" by (simp add: unat_of_nat)
  qed
  then show ?thesis by (simp add: distinct_map)
qed

lemma assembled_code:
  assumes asm: "assembleState s subs = Inr r" and dat: "distinct (map fst (m_dataItems s))" and few: "length subs < 2 ^ 64"
  obtains n c where "asm_bytesRequired s (subTagSize subs) = Inr n" "c = assembleContext s subs n"
    "\<exists>st. emitItems c (m_items s) (initialState s) = Inr st \<and> as_tagPositions st = r_tagPositions r"
    "\<forall>k<length (m_items s). itemAssembled c s subs (r_tagPositions r) (lo_bytecode (r_object r)) k"
proof -
  from assembleState_stages [OF asm] obtain n c st z b2 where
    stages: "asm_bytesRequired s (subTagSize subs) = Inr n" "c = assembleContext s subs n"
    and st: "emitItems c (m_items s) (initialState s) = Inr st" and pos: "r_tagPositions r = as_tagPositions st"
    and tags: "writeTags (c_bytesPerTag c) (as_tagPositions st) (map r_tagPositions subs) (as_tagRef st)
       (appendDataItems (c_bytesPerDataRef c) (as_subRef st)
         (zip (map word_of_nat [0..<length subs]) (map (lo_bytecode \<circ> r_object) subs)) (code st @ z)) = Inr b2"
    and B: "lo_bytecode (r_object r) =
       (let b3 = appendDataItems (c_bytesPerDataRef c) (as_dataRef st) (m_dataItems s) b2 @ m_auxiliaryData s
        in writeReferences (c_bytesPerDataRef c) (length b3) (as_sizeRef st) b3)" .
  let ?items = "m_items s" and ?wt = "c_bytesPerTag c" and ?wd = "c_bytesPerDataRef c"
  let ?L = "concat (map (slot c) ?items)" and ?B = "lo_bytecode (r_object r)"
  let ?blocks = "zip (map (word_of_nat :: nat \<Rightarrow> 64 word) [0..<length subs]) (map (lo_bytecode \<circ> r_object) subs)"
  define b0 where "b0 = ?L @ z"
  define b1 where "b1 = appendDataItems ?wd (as_subRef st) ?blocks b0"
  define b3 where "b3 = appendDataItems ?wd (as_dataRef st) (m_dataItems s) b2"
  note eff = emitItems_effect [OF st]
  have sub_refs: "as_subRef st = map (\<lambda>k. (ucast (m_data (?items ! k)), Suc (offset c ?items k))) (indices PushSub ?items)"
    and data_refs: "as_dataRef st = map (\<lambda>k. (m_data (?items ! k), Suc (offset c ?items k))) (indices PushData ?items)"
    and tag_refs: "as_tagRef st = map (\<lambda>k. (Suc (offset c ?items k), splitTag (?items ! k))) (indices PushTag ?items)"
    and size_refs: "as_sizeRef st = map (\<lambda>k. Suc (offset c ?items k)) (indices PushProgramSize ?items)"
    and code: "code st = ?L" using eff by blast+
  have l0: "length ?L \<le> length b0" by (simp add: b0_def)
  have "PushSub \<in> {PushData, PushSub}" by simp
  note s1 = blocks_stage(1) [OF this sub_refs l0] blocks_stage(2,3) [OF this sub_refs l0, where blocks = ?blocks, folded b1_def]
  have l1: "length ?L \<le> length b1" using l0 s1(2) by linarith
  have "writeTags ?wt (as_tagPositions st) (map r_tagPositions subs) (as_tagRef st) b1 = Inr b2"
    using tags unfolding code b0_def [symmetric] b1_def [symmetric] .
  note s2 = tags_stage [OF tag_refs l1 this]
  have l2: "length ?L \<le> length b2" using l1 s2(1) by simp
  have "PushData \<in> {PushData, PushSub}" by simp
  note s3 = blocks_stage(1) [OF this data_refs l2] blocks_stage(2,3) [OF this data_refs l2, where blocks = "m_dataItems s", folded b3_def]
  have l3: "length ?L \<le> length (b3 @ m_auxiliaryData s)" using l2 s3(2) by simp
  note s4 = size_stage [OF size_refs l3, where v = "length (b3 @ m_auxiliaryData s)"]
  have B: "?B = writeReferences ?wd (length (b3 @ m_auxiliaryData s)) (as_sizeRef st) (b3 @ m_auxiliaryData s)"
    using B unfolding b3_def [symmetric] Let_def .
  have lens: "length b0 \<le> length b1" "length b1 = length b2" "length b2 \<le> length b3" "length ?B = length (b3 @ m_auxiliaryData s)"
    using s1(2) s2(1) s3(2) s4(1) B by simp_all
  \<comment> \<open>Ranges that a stage and the stages after it do not touch.\<close>
  have keep4: "take m (drop p ?B) = take m (drop p (b3 @ m_auxiliaryData s))"
    if "untouched c ?items (set (indices PushProgramSize ?items)) p m" for p m using s4(2) [OF that] B by simp
  have keep3: "take m (drop p ?B) = take m (drop p b2)"
    if "untouched c ?items (set (indices PushProgramSize ?items)) p m" "untouched c ?items (set (indices PushData ?items)) p m"
      "p + m \<le> length b2" for p m
  proof -
    have "p + m \<le> length b3" using that(3) lens(3) by simp
    then show ?thesis using keep4 [OF that(1)] s3(3) [OF that(3,2)] by simp
  qed
  have keep2: "take m (drop p ?B) = take m (drop p b1)"
    if "untouched c ?items (set (indices PushProgramSize ?items)) p m" "untouched c ?items (set (indices PushData ?items)) p m"
      "untouched c ?items (set (indices PushTag ?items)) p m" "p + m \<le> length b1" for p m
    using keep3 [OF that(1,2)] s2(2) [OF that(3)] that(4) lens(2) by simp
  have keep: "take m (drop p ?B) = take m (drop p ?L)"
    if "\<And>t. t \<in> {PushTag, PushData, PushSub, PushProgramSize} \<Longrightarrow> untouched c ?items (set (indices t ?items)) p m"
      "p + m \<le> length ?L" for p m
  proof -
    have "take m (drop p b1) = take m (drop p b0)" using s1(3) that l0 by simp
    moreover have "take m (drop p b0) = take m (drop p ?L)" using that(2) by (simp add: b0_def)
    moreover have "p + m \<le> length b1" using that(2) l1 by linarith
    ultimately show ?thesis using keep2 [OF that(1) that(1) that(1)] by simp
  qed
  have refs: "set (indices t ?items) \<subseteq> referenceIndices ?items" if "t \<in> {PushTag, PushData, PushSub, PushProgramSize}" for t
    using that by (rule indices_references)
  have beyond: "untouched c ?items (set (indices t ?items)) p m"
    if "t \<in> {PushTag, PushData, PushSub, PushProgramSize}" "length ?L \<le> p" for t p m
    using that refs by (intro untouched_beyond) auto
  have main: "itemAssembled c s subs (r_tagPositions r) ?B k" if k: "k < length ?items" for k
  proof -
    let ?i = "?items ! k" and ?p = "offset c ?items k"
    have fit: "?p + length (slot c ?i) \<le> length ?L" using offset_end [OF k] by simp
    have in_L: "take (length (slot c ?i)) (drop ?p ?L) = slot c ?i" by (rule slot_in_code [OF k])
    have head: "holds ?B ?p [hd (slot c ?i)]" if ne: "slot c ?i \<noteq> []"
    proof -
      have "?p + 1 \<le> length ?L" using fit ne by (cases "slot c ?i") auto
      then have "take 1 (drop ?p ?B) = take 1 (drop ?p ?L)"
        using ne k refs by (intro keep untouched_head) auto
      also have "\<dots> = take 1 (take (length (slot c ?i)) (drop ?p ?L))"
        using ne by (cases "length (slot c ?i)") (simp_all add: min_def)
      also have "\<dots> = take 1 (slot c ?i)" unfolding in_L ..
      finally show ?thesis using ne by (cases "slot c ?i") (auto simp: holds_def)
    qed
    have away: "untouched c ?items (set (indices t ?items)) (Suc ?p) (length (slot c ?i) - 1)"
      if "t \<in> {PushTag, PushData, PushSub, PushProgramSize}" "m_type ?i \<noteq> t" "slot c ?i \<noteq> []" for t
      using that k refs [OF that(1)] by (intro untouched_item(2)) (auto simp: indices_mem)
    consider (tag) "m_type ?i = PushTag" | (dat) "m_type ?i = PushData" | (sub) "m_type ?i = PushSub"
      | (size) "m_type ?i = PushProgramSize" | (plain) "m_type ?i \<notin> {PushTag, PushData, PushSub, PushProgramSize}" by blast
    then show ?thesis
    proof cases
      case plain
      have "holds ?B ?p (slot c ?i)"
      proof (cases "slot c ?i = []")
        case False
        have "take (length (slot c ?i)) (drop ?p ?B) = take (length (slot c ?i)) (drop ?p ?L)"
          using plain False k refs fit by (intro keep untouched_item(1)) (auto simp: indices_mem)
        then show ?thesis using in_L by (simp add: holds_def)
      qed (simp add: holds_def)
      then show ?thesis using plain by (auto simp: itemAssembled_def Let_def split: AssemblyItemType.split)
    next
      case tag
      then have slot: "slot c ?i = pushOpcode ?wt # replicate ?wt 0" by (simp add: slot_def)
      have kt: "k \<in> set (indices PushTag ?items)" using k tag by (simp add: indices_mem)
      from s2(3) [OF kt] obtain v where v: "tagReference ?wt (as_tagPositions st) (map r_tagPositions subs) (splitTag ?i) = Inr v"
        "take ?wt (drop (Suc ?p) b2) = toBigEndian ?wt v" by blast
      have a: "untouched c ?items (set (indices t ?items)) (Suc ?p) ?wt"
        if "t \<in> {PushTag, PushData, PushSub, PushProgramSize}" "m_type ?i \<noteq> t" for t
        using away [OF that] slot by simp
      have "Suc ?p + ?wt \<le> length b2" using fit slot l2 by simp
      then have "take ?wt (drop (Suc ?p) ?B) = toBigEndian ?wt v"
        using keep3 [OF a a] tag v(2) by simp
      moreover have "holds ?B ?p [pushOpcode ?wt]" using head slot by simp
      ultimately have "holds ?B ?p (pushOpcode ?wt # toBigEndian ?wt v)"
        using holds_Cons [of ?B ?p "pushOpcode ?wt" "toBigEndian ?wt v"] by simp
      then show ?thesis using tag v(1) pos by (auto simp: itemAssembled_def Let_def)
    next
      case size
      then have slot: "slot c ?i = pushOpcode ?wd # replicate ?wd 0" by (simp add: slot_def)
      have kt: "k \<in> set (indices PushProgramSize ?items)" using k size by (simp add: indices_mem)
      have "holds ?B ?p (pushOpcode ?wd # toBigEndian ?wd (length ?B))"
        unfolding lens(4) using head slot s4(3) [OF kt] unfolding B [symmetric]
        using holds_Cons [of ?B ?p "pushOpcode ?wd" "toBigEndian ?wd (length (b3 @ m_auxiliaryData s))"] by simp
      then show ?thesis using size by (simp add: itemAssembled_def Let_def)
    next
      case dat
      then have slot: "slot c ?i = pushOpcode ?wd # replicate ?wd 0" by (simp add: slot_def)
      have ref: "(m_data ?i, Suc ?p) \<in> set (as_dataRef st)" using k dat by (auto simp: data_refs indices_mem)
      have "\<exists>off. holds ?B ?p (pushOpcode ?wd # toBigEndian ?wd off) \<and> holds ?B off d"
        if "map_of (m_dataItems s) (m_data ?i) = Some d" for d
      proof -
        from appendDataItems_read [OF s3(1) \<open>distinct (map fst (m_dataItems s))\<close> map_of_SomeD [OF that] ref, folded b3_def]
        obtain off where off: "length b2 \<le> off" "off + length d \<le> length b3"
          "take ?wd (drop (Suc ?p) b3) = toBigEndian ?wd off" "take (length d) (drop off b3) = d" by blast
        have a: "untouched c ?items (set (indices t ?items)) (Suc ?p) ?wd"
          if "t \<in> {PushTag, PushData, PushSub, PushProgramSize}" "m_type ?i \<noteq> t" for t
          using away [OF that] slot by simp
        have "Suc ?p + ?wd \<le> length b3" using fit slot l2 lens(3) by simp
        then have "take ?wd (drop (Suc ?p) ?B) = toBigEndian ?wd off"
          using keep4 [OF a] dat off(3) by simp
        moreover from head slot have "holds ?B ?p [pushOpcode ?wd]" by simp
        moreover have "length ?L \<le> off" using off(1) l2 by simp
        then have "holds ?B off d" using keep4 [OF beyond] off(2,4) by (simp add: holds_def)
        ultimately show ?thesis using holds_Cons [of ?B ?p "pushOpcode ?wd" "toBigEndian ?wd off"] by auto
      qed
      then show ?thesis using dat by (simp add: itemAssembled_def Let_def)
    next
      case sub
      then have slot: "slot c ?i = pushOpcode ?wd # replicate ?wd 0" by (simp add: slot_def)
      have ref: "(ucast (m_data ?i), Suc ?p) \<in> set (as_subRef st)" using k sub by (auto simp: sub_refs indices_mem)
      have keys: "distinct (map fst ?blocks)" using few distinct_word_of_nat [of "length subs"] by simp
      have "\<exists>off. holds ?B ?p (pushOpcode ?wd # toBigEndian ?wd off) \<and> holds ?B off (lo_bytecode (r_object (subs ! n)))"
        if n: "n < length subs" "ucast (m_data ?i) = (word_of_nat n :: 64 word)" for n
      proof -
        let ?d = "lo_bytecode (r_object (subs ! n))"
        have "(ucast (m_data ?i), ?d) \<in> set ?blocks" unfolding n(2) in_set_zip using n(1) by (intro exI [of _ n]) simp
        from appendDataItems_read [OF s1(1) keys this ref, folded b1_def]
        obtain off where off: "length b0 \<le> off" "off + length ?d \<le> length b1"
          "take ?wd (drop (Suc ?p) b1) = toBigEndian ?wd off" "take (length ?d) (drop off b1) = ?d" by blast
        have a: "untouched c ?items (set (indices t ?items)) (Suc ?p) ?wd"
          if "t \<in> {PushTag, PushData, PushSub, PushProgramSize}" "m_type ?i \<noteq> t" for t
          using away [OF that] slot by simp
        have "Suc ?p + ?wd \<le> length b1" using fit slot l1 by simp
        then have "take ?wd (drop (Suc ?p) ?B) = toBigEndian ?wd off"
          using keep2 [OF a a a] sub off(3) by simp
        moreover from head slot have "holds ?B ?p [pushOpcode ?wd]" by simp
        moreover have "length ?L \<le> off" using off(1) l0 by simp
        then have "holds ?B off ?d" using keep2 [OF beyond beyond beyond] off(2,4) by (simp add: holds_def)
        ultimately show ?thesis using holds_Cons [of ?B ?p "pushOpcode ?wd" "toBigEndian ?wd off"] by auto
      qed
      then show ?thesis using sub by (simp add: itemAssembled_def Let_def)
    qed
  qed
  show ?thesis using stages st pos main by (intro that) auto
qed

lemma holds_single: "holds bs p [x] \<Longrightarrow> bs ! p = x" "holds bs p [x] \<Longrightarrow> p < length bs"
proof -
  assume "holds bs p [x]"
  then obtain ys where d: "drop p bs = x # ys" by (cases "drop p bs") (auto simp: holds_def)
  then show "bs ! p = x" by (rule nth_via_drop)
  from d show "p < length bs" by (cases "p < length bs") simp_all
qed

text \<open>
  A pushed tag of the assembly itself is the position of the jump destination that the tag became,
  and fits into the bytes reserved for it.
\<close>

lemma assembled_tag:
  assumes asm: "assembleState s subs = Inr r" and dat: "distinct (map fst (m_dataItems s))" and few: "length subs < 2 ^ 64"
    and k: "k < length (m_items s)" "m_type (m_items s ! k) = PushTag" "ownTag (m_items s ! k)" "tagNumber (m_items s ! k) \<noteq> 0"
  obtains c w v j where "m_type (m_items s ! j) = Tag" "j < length (m_items s)" "tagNumber (m_items s ! j) = tagNumber (m_items s ! k)"
    "holds (lo_bytecode (r_object r)) (offset c (m_items s) k) (pushOpcode w # toBigEndian w v)"
    "v = offset c (m_items s) j" "lo_bytecode (r_object r) ! v = JUMPDEST" "v < length (lo_bytecode (r_object r))"
    "fromBigEndian (toBigEndian w v) = v"
proof -
  let ?B = "lo_bytecode (r_object r)"
  from assembled_code [OF asm dat few] obtain n c where "asm_bytesRequired s (subTagSize subs) = Inr n"
    "c = assembleContext s subs n"
    and emitted: "\<exists>st. emitItems c (m_items s) (initialState s) = Inr st \<and> as_tagPositions st = r_tagPositions r"
    and items: "\<forall>k<length (m_items s). itemAssembled c s subs (r_tagPositions r) ?B k" .
  from emitted obtain st where st: "emitItems c (m_items s) (initialState s) = Inr st" "as_tagPositions st = r_tagPositions r"
    by blast
  let ?w = "c_bytesPerTag c" and ?i = "m_items s ! k"
  from items [rule_format, OF k(1)] k(2) obtain v where v: "tagReference ?w (r_tagPositions r) (map r_tagPositions subs) (splitTag ?i) = Inr v"
    "holds ?B (offset c (m_items s) k) (pushOpcode ?w # toBigEndian ?w v)" by (auto simp: itemAssembled_def Let_def)
  have "splitTag ?i = (- 1, tagId ?i)" using k(3) by (simp add: splitTag_def ownTag_def)
  with v(1) tagReference_own [of ?w "r_tagPositions r" _ "tagId ?i"] have pos: "tagNumber ?i < length (r_tagPositions r)"
    "r_tagPositions r ! tagNumber ?i = Some v" "bytesRequired v \<le> ?w" by (auto simp: tagNumber_def)
  note placed = conjunct2 [OF conjunct2 [OF emitItems_positions [OF st(1)]], rule_format, of "tagNumber ?i" v]
  from placed pos k(4) st(2) obtain j where j: "j < length (m_items s)" "m_type (m_items s ! j) = Tag"
    "tagNumber (m_items s ! j) = tagNumber ?i" "v = offset c (m_items s) j" by auto
  from items [rule_format, OF j(1)] j have "holds ?B v [JUMPDEST]" by (simp add: itemAssembled_def Let_def slot_reference)
  note dest = holds_single [OF this]
  have "fromBigEndian (toBigEndian ?w v) = v" using pos(3) by (simp add: fromBigEndian_toBigEndian bytesRequired_le_iff)
  then show ?thesis using that [OF j(2,1,3) v(2) j(4) dest] by blast
qed

end
