(* ===== verification/AssemblyBuild.thy ===== *)
theory AssemblyBuild
  imports AssemblyCode
begin

text \<open>
  Appending items and assemblies: the invariant of the tags, the deposit, and the least width the
  size computation settles on.
\<close>

section \<open>Building\<close>

text \<open>
  The invariant of the tags of an assembly: every tag is below the counter and none is placed twice.
\<close>

definition asmTagsOk :: "Assembly \<Rightarrow> bool" where
  "asmTagsOk a \<longleftrightarrow>
     list_all (\<lambda>i. m_type i = Tag \<longrightarrow> m_data i < ucast (m_usedTags (asm_state a))) (m_items (asm_state a)) \<and>
     distinct (map m_data (filter isTag (m_items (asm_state a))))"

lemma onState_simps [simp]:
  "asm_state (onState f a) = f (asm_state a)" "m_subs (onState f a) = m_subs a"
  by (simp_all add: onState_def)

lemma located [simp, intro]: "\<exists>l. i = i\<lparr>m_location := l\<rparr>" "\<exists>l. i\<lparr>m_location := k\<rparr> = i\<lparr>m_location := l\<rparr>"
  by (rule exI [of _ "m_location i"], simp) blast

lemma appendItem_effect:
  assumes "appendItem i a = Inr r"
  shows "0 \<le> m_deposit (asm_state a)" "m_deposit (asm_state r) = m_deposit (asm_state a) + item_deposit i"
    "m_subs r = m_subs a" "m_usedTags (asm_state r) = m_usedTags (asm_state a)"
    "\<exists>l. m_items (asm_state r) = m_items (asm_state a) @ [i\<lparr>m_location := l\<rparr>]"
    "m_dataItems (asm_state r) = m_dataItems (asm_state a)"
  using assms by (auto simp: appendItem_def split: if_splits)

definition sameButLocation :: "AssemblyItem \<Rightarrow> AssemblyItem \<Rightarrow> bool" where
  "sameButLocation i j \<longleftrightarrow> (\<exists>l. j = i\<lparr>m_location := l\<rparr>)"

lemma sameButLocation_refl: "sameButLocation i (i\<lparr>m_location := l\<rparr>)"
  by (auto simp: sameButLocation_def)

lemma appendItems_effect:
  "appendItems is a = Inr r \<Longrightarrow>
     m_deposit (asm_state r) = m_deposit (asm_state a) + (\<Sum>i\<leftarrow>is. item_deposit i) \<and>
     m_subs r = m_subs a \<and> m_usedTags (asm_state r) = m_usedTags (asm_state a) \<and>
     m_dataItems (asm_state r) = m_dataItems (asm_state a) \<and>
     (\<exists>is'. list_all2 sameButLocation is is' \<and> m_items (asm_state r) = m_items (asm_state a) @ is')"
proof (induction "is" arbitrary: a)
  case (Cons i "is")
  then obtain b where b: "appendItem i a = Inr b" "appendItems is b = Inr r" by auto
  from Cons.IH [OF b(2)] obtain is' where IH: "m_deposit (asm_state r) = m_deposit (asm_state b) + (\<Sum>i\<leftarrow>is. item_deposit i)"
    "m_subs r = m_subs b" "m_usedTags (asm_state r) = m_usedTags (asm_state b)" "m_dataItems (asm_state r) = m_dataItems (asm_state b)"
    "list_all2 sameButLocation is is'" "m_items (asm_state r) = m_items (asm_state b) @ is'" by blast
  note eff = appendItem_effect [OF b(1)]
  from eff(5) obtain l where "m_items (asm_state b) = m_items (asm_state a) @ [i\<lparr>m_location := l\<rparr>]" by blast
  with IH eff show ?case
    by (intro conjI exI [of _ "i\<lparr>m_location := l\<rparr> # is'"]) (simp_all add: sameButLocation_refl)
qed simp

lemma sameButLocation_fields:
  "sameButLocation i j \<Longrightarrow> m_type j = m_type i \<and> m_data j = m_data i \<and> isTag j = isTag i"
  by (auto simp: sameButLocation_def isTag_def)

lemma sameButLocation_tags:
  "list_all2 sameButLocation is is' \<Longrightarrow> map m_data (filter isTag is') = map m_data (filter isTag is) \<and>
     (list_all (\<lambda>i. m_type i = Tag \<longrightarrow> m_data i < n) is' = list_all (\<lambda>i. m_type i = Tag \<longrightarrow> m_data i < n) is)"
  by (induction rule: list_all2_induct) (use sameButLocation_fields in force)+

lemma renumber_tags:
  "map m_data (filter isTag (map (renumber a) is)) = map (\<lambda>d. d + ucast (m_usedTags (asm_state a))) (map m_data (filter isTag is))"
  by (induction "is") (auto simp: renumber_def isTag_def)

text \<open>Adding counters of 32 bits as numbers of 256 bits.\<close>

lemma ucast_sum:
  fixes u v :: "32 word"
  assumes "unat u + unat v < 2 ^ 32"
  shows "(ucast (u + v) :: u256) = ucast u + ucast v" "uint (ucast u :: u256) = uint u" "uint (ucast u + ucast v :: u256) = uint u + uint v"
proof -
  have small: "uint (ucast w :: u256) = uint w" for w :: "32 word"
  proof -
    have "take_bit 256 (uint w) = uint w"
      using unsigned_less [of w, where ?'a = int] by (intro take_bit_int_eq_self) simp_all
    then show ?thesis by (simp add: unsigned_ucast_eq)
  qed
  have "int (unat u + unat v) < int (2 ^ 32)" using assms by (simp only: of_nat_less_iff)
  then have sum: "uint u + uint v < 2 ^ 32" by (simp only: of_nat_add uint_nat of_nat_power of_nat_numeral)
  have bounds: "0 \<le> uint u" "0 \<le> uint v" by simp_all
  then have "uint (u + v) = uint u + uint v" using sum by (simp add: uint_word_ariths mod_pos_pos_trivial)
  moreover have "uint (ucast u + ucast v :: u256) = uint u + uint v"
    using sum bounds by (simp add: uint_word_ariths small mod_pos_pos_trivial)
  ultimately show "(ucast (u + v) :: u256) = ucast u + ucast v" by (simp add: word_uint_eq_iff small)
  show "uint (ucast u :: u256) = uint u" by (rule small)
  show "uint (ucast u + ucast v :: u256) = uint u + uint v" by fact
qed

lemma shifted_tag:
  fixes u v :: "32 word" and d :: u256
  assumes "unat u + unat v < 2 ^ 32" "d < ucast v"
  shows "ucast u \<le> d + ucast u" "d + ucast u < ucast u + ucast v"
proof -
  have s: "uint (ucast u :: u256) = uint u" "uint (ucast v :: u256) = uint v" "uint (ucast u + ucast v :: u256) = uint u + uint v"
    using ucast_sum [OF assms(1)] ucast_sum(2) [of v u] assms(1) by (simp_all add: add.commute)
  have d: "uint d < uint v" using assms(2) by (simp add: word_less_def s)
  have "uint u + uint v < 2 ^ 256" using unsigned_less [of u, where ?'a = int] unsigned_less [of v, where ?'a = int] by simp
  then have "uint (d + ucast u) = uint d + uint u"
    using d by (simp add: uint_word_ariths s mod_pos_pos_trivial)
  then show "ucast u \<le> d + ucast u" "d + ucast u < ucast u + ucast v"
    using d by (simp_all add: word_le_def word_less_def s)
qed

lemma appendAssembly_tags:
  assumes a: "asmTagsOk a" and b: "asmTagsOk b"
    and few: "unat (m_usedTags (asm_state a)) + unat (m_usedTags (asm_state b)) < 2 ^ 32"
    and app: "appendAssembly b a = Inr r"
  shows "asmTagsOk r \<and> m_deposit (asm_state r) = m_deposit (asm_state a) + m_deposit (asm_state b) \<and>
    m_subs r = m_subs a @ m_subs b \<and>
    (\<exists>is. list_all2 sameButLocation (map (renumber a) (m_items (asm_state b))) is \<and>
      m_items (asm_state r) = m_items (asm_state a) @ is)"
proof -
  let ?u = "m_usedTags (asm_state a)" and ?v = "m_usedTags (asm_state b)"
  let ?new = "map (renumber a) (m_items (asm_state b))"
  from app obtain a' where a': "appendItems ?new a = Inr a'"
    and r: "m_usedTags (asm_state r) = m_usedTags (asm_state a') + ?v" "m_items (asm_state r) = m_items (asm_state a')"
      "m_deposit (asm_state r) = m_deposit (asm_state a) + m_deposit (asm_state b)" "m_subs r = m_subs a' @ m_subs b"
    by (auto simp: appendAssembly_def)
  from appendItems_effect [OF a'] obtain "is" where eff: "list_all2 sameButLocation ?new is"
    "m_items (asm_state a') = m_items (asm_state a) @ is" "m_subs a' = m_subs a" "m_usedTags (asm_state a') = ?u" by blast
  note tags = sameButLocation_tags [OF eff(1), of "ucast (?u + ?v)"]
  have used: "(ucast (?u + ?v) :: u256) = ucast ?u + ucast ?v" using ucast_sum [OF few] by blast
  have new: "d \<in> set (map m_data (filter isTag is)) \<Longrightarrow> ucast ?u \<le> d \<and> d < ucast (?u + ?v)" for d
    using tags shifted_tag [OF few] b unfolding renumber_tags used
    by (auto simp: asmTagsOk_def list_all_iff isTag_def)
  have old: "d \<in> set (map m_data (filter isTag (m_items (asm_state a)))) \<Longrightarrow> d < ucast ?u" for d
    using a by (auto simp: asmTagsOk_def list_all_iff isTag_def)
  have up: "(ucast ?u :: u256) \<le> ucast (?u + ?v)"
    using ucast_sum(2,3) [OF few] unfolding used by (simp add: word_le_def)
  have "asmTagsOk r" unfolding asmTagsOk_def r(1,2) eff(2,4)
  proof
    show "list_all (\<lambda>i. m_type i = Tag \<longrightarrow> m_data i < ucast (?u + ?v)) (m_items (asm_state a) @ is)"
      using old new up by (fastforce simp: list_all_iff isTag_def)
    have "inj_on (\<lambda>d :: u256. d + ucast ?u) A" for A by (rule inj_onI) simp
    then have "distinct (map m_data (filter isTag is))"
      using tags b unfolding renumber_tags asmTagsOk_def by (simp add: distinct_map comp_def inj_on_def)
    moreover have "set (map m_data (filter isTag (m_items (asm_state a)))) \<inter> set (map m_data (filter isTag is)) = {}"
      using old new by fastforce
    ultimately show "distinct (map m_data (filter isTag (m_items (asm_state a) @ is)))"
      using a by (simp add: asmTagsOk_def)
  qed
  with r eff show ?thesis by (metis)
qed

section \<open>The width of tags\<close>

lemma asm_bytesRequired_least:
  assumes "asm_bytesRequired s t = Inr n"
  shows "\<exists>w\<ge>t. w \<le> max t 4 \<and> codeSize s w = Inr n \<and> bytesRequired n \<le> w \<and>
    (\<forall>v. t \<le> v \<and> v < w \<longrightarrow> (\<exists>m. codeSize s v = Inr m \<and> v < bytesRequired m))"
  using assms
proof (induction s t rule: asm_bytesRequired.induct)
  case (1 s t)
  show ?case
  proof (cases "codeSize s t")
    case (Inl e)
    with 1 show ?thesis by (simp add: asm_bytesRequired.simps)
  next
    case (Inr m)
    show ?thesis
    proof (cases "bytesRequired m \<le> t")
      case True
      with 1 Inr show ?thesis by (intro exI [of _ t]) (auto simp: asm_bytesRequired.simps)
    next
      case False
      with 1(2) Inr have "asm_bytesRequired s (t + 1) = Inr n" by (simp add: asm_bytesRequired.simps)
      with 1(1) [OF Inr] False obtain w where w: "t + 1 \<le> w" "w \<le> max (t + 1) 4" "codeSize s w = Inr n" "bytesRequired n \<le> w"
        "\<forall>v. t + 1 \<le> v \<and> v < w \<longrightarrow> (\<exists>m. codeSize s v = Inr m \<and> v < bytesRequired m)" by auto
      have "bytesRequired m \<le> 4" using Inr bytesRequired_u32 by (auto simp: codeSize_def)
      with False have "t < 4" by simp
      have "\<exists>m. codeSize s v = Inr m \<and> v < bytesRequired m" if "t \<le> v" "v < w" for v
        using w(5) Inr False that by (cases "v = t") auto
      with w \<open>t < 4\<close> show ?thesis by (intro exI [of _ w]) auto
    qed
  qed
qed

end
