(* ===== verification/SolidityTypes.thy ===== *)
theory SolidityTypes
  imports Tokens UTF8 Complex_Main
begin

text \<open>
  Model of the type system in libsolidity/ast/Types.h and Types.cpp: the types, their equality,
  ranges, implicit and explicit conversions, operators, common and mobile types, encoded sizes and
  storage layout. Definitions that a type points to (contracts, structs, enums) are numbers, and what
  the code reads of them is a \<open>TypeEnv\<close>. Rational constants are exact. The parsing of literals, the
  members of types and the identifiers used for code generation are not part of the model.
\<close>

section \<open>Types\<close>

datatype StateMutability = Pure | View | NonPayable | Payable

datatype DataLocation = Storage | CallData | Memory

datatype IntegerModifier = UnsignedInt | SignedInt | AddressInt

datatype FixedModifier = UnsignedFixed | SignedFixed

datatype ArrayKind = OrdinaryArray | BytesArray | StringArray

datatype FunctionKind =
    FInternal | FExternal | FCallCode | FDelegateCall | FBareCall | FBareCallCode | FBareDelegateCall
  | FCreation | FSend | FTransfer | FSHA3 | FSelfdestruct | FRevert | FECRecover | FSHA256 | FRIPEMD160
  | FLog0 | FLog1 | FLog2 | FLog3 | FLog4 | FEvent | FSetGas | FSetValue | FBlockHash | FAddMod | FMulMod
  | FArrayPush | FByteArrayPush | FObjectCreation | FAssert | FRequire | FABIEncode | FABIEncodePacked
  | FABIEncodeWithSelector | FABIEncodeWithSignature | FGasLeft

datatype MagicKind = MagicBlock | MagicMessage | MagicTransaction | MagicABI

record FunctionAttributes =
  f_stateMutability :: StateMutability
  f_arbitraryParameters :: bool
  f_gasSet :: bool
  f_valueSet :: bool
  f_bound :: bool

datatype Type =
    IntegerType nat IntegerModifier
  | FixedPointType nat nat FixedModifier
  | RationalNumberType rat
  | StringLiteralType string
  | FixedBytesType nat
  | BoolType
  | ArrayType DataLocation bool ArrayKind Type bool nat
  | ContractType nat bool
  | StructType nat DataLocation bool
  | EnumType nat
  | TupleType "Type option list"
  | FunctionType "Type list" "Type list" FunctionKind FunctionAttributes
  | MappingType Type Type
  | TypeType Type
  | ModifierType "Type list"
  | ModuleType nat
  | MagicType MagicKind
  | InaccessibleDynamicType

datatype Category =
    CInteger | CRationalNumber | CStringLiteral | CBool | CFixedPoint | CArray | CFixedBytes | CContract
  | CStruct | CFunction | CEnum | CTuple | CMapping | CTypeType | CModifier | CMagic | CModule
  | CInaccessibleDynamic

fun category :: "Type \<Rightarrow> Category" where
  "category (IntegerType _ _) = CInteger"
| "category (FixedPointType _ _ _) = CFixedPoint"
| "category (RationalNumberType _) = CRationalNumber"
| "category (StringLiteralType _) = CStringLiteral"
| "category (FixedBytesType _) = CFixedBytes"
| "category BoolType = CBool"
| "category (ArrayType _ _ _ _ _ _) = CArray"
| "category (ContractType _ _) = CContract"
| "category (StructType _ _ _) = CStruct"
| "category (EnumType _) = CEnum"
| "category (TupleType _) = CTuple"
| "category (FunctionType _ _ _ _) = CFunction"
| "category (MappingType _ _) = CMapping"
| "category (TypeType _) = CTypeType"
| "category (ModifierType _) = CModifier"
| "category (ModuleType _) = CModule"
| "category (MagicType _) = CMagic"
| "category InaccessibleDynamicType = CInaccessibleDynamic"

text \<open>
  What the types read of the definitions they point to. Tuple types are compared by the identity of
  their components, which values do not have; \<open>te_sameComponents\<close> says which components are identical.
\<close>

record TypeEnv =
  te_bases :: "nat \<Rightarrow> nat list"
  te_isLibrary :: "nat \<Rightarrow> bool"
  te_structMembers :: "nat \<Rightarrow> (string \<times> Type) list"
  te_numberOfMembers :: "nat \<Rightarrow> nat"
  te_sameComponents :: "Type option list \<Rightarrow> Type option list \<Rightarrow> bool"

section \<open>Numbers\<close>

definition numerator :: "rat \<Rightarrow> int" where "numerator v = fst (quotient_of v)"

definition denominator :: "rat \<Rightarrow> int" where "denominator v = snd (quotient_of v)"

text \<open>Division and remainder of big integers truncate towards zero.\<close>

definition truncDiv :: "int \<Rightarrow> int \<Rightarrow> int" where
  "truncDiv a b = sgn a * sgn b * (\<bar>a\<bar> div \<bar>b\<bar>)"

definition truncMod :: "int \<Rightarrow> int \<Rightarrow> int" where
  "truncMod a b = sgn a * (\<bar>a\<bar> mod \<bar>b\<bar>)"

fun mostSignificantBit :: "nat \<Rightarrow> nat" where
  "mostSignificantBit n = (if n \<le> 1 then 0 else Suc (mostSignificantBit (n div 2)))"

declare mostSignificantBit.simps [simp del]

definition fitsPrecisionExp :: "nat \<Rightarrow> nat \<Rightarrow> bool" where
  "fitsPrecisionExp b e =
     (if b = 0 then True
      else let msb = mostSignificantBit b
           in if msb = 0 then True else if msb > 4096 then False else e * (msb + 1) \<le> 4096)"

definition fitsPrecisionBase2 :: "nat \<Rightarrow> nat \<Rightarrow> bool" where
  "fitsPrecisionBase2 mantissa e =
     (if mantissa = 0 then True
      else let msb = mostSignificantBit mantissa
           in if msb > 4096 then False else msb + e + 1 \<le> 4096)"

section \<open>Ranges\<close>

definition isAddress :: "IntegerModifier \<Rightarrow> bool" where "isAddress m \<longleftrightarrow> m = AddressInt"

definition isSigned :: "IntegerModifier \<Rightarrow> bool" where "isSigned m \<longleftrightarrow> m = SignedInt"

definition mkIntegerType :: "nat \<Rightarrow> IntegerModifier \<Rightarrow> Type res" where
  "mkIntegerType bits m =
     assertThrow (isAddress m \<longrightarrow> bits = 160) SolAssert
       (assertThrow (bits > 0 \<and> bits \<le> 256 \<and> bits mod 8 = 0) SolAssert (Inr (IntegerType bits m)))"

definition minValue :: "nat \<Rightarrow> IntegerModifier \<Rightarrow> int" where
  "minValue bits m = (if isSigned m then - (2 ^ (bits - 1)) else 0)"

definition maxValue :: "nat \<Rightarrow> IntegerModifier \<Rightarrow> int" where
  "maxValue bits m = (if isSigned m then 2 ^ (bits - 1) - 1 else 2 ^ bits - 1)"

definition mkFixedPointType :: "nat \<Rightarrow> nat \<Rightarrow> FixedModifier \<Rightarrow> Type res" where
  "mkFixedPointType bits digits m =
     assertThrow (8 \<le> bits \<and> bits \<le> 256 \<and> bits mod 8 = 0 \<and> digits \<le> 80) SolAssert
       (Inr (FixedPointType bits digits m))"

definition maxIntegerValue :: "nat \<Rightarrow> nat \<Rightarrow> FixedModifier \<Rightarrow> int" where
  "maxIntegerValue bits digits m =
     truncDiv (2 ^ (bits - (if m = SignedFixed then 1 else 0)) - 1) (10 ^ digits)"

definition minIntegerValue :: "nat \<Rightarrow> nat \<Rightarrow> FixedModifier \<Rightarrow> int" where
  "minIntegerValue bits digits m =
     (if m = SignedFixed then truncDiv (- (2 ^ (bits - 1))) (10 ^ digits) else 0)"

definition mkFixedBytesType :: "nat \<Rightarrow> Type res" where
  "mkFixedBytesType n = assertThrow (n > 0 \<and> n \<le> 32) SolAssert (Inr (FixedBytesType n))"

section \<open>Rational constants\<close>

definition isFractional :: "rat \<Rightarrow> bool" where "isFractional v \<longleftrightarrow> denominator v \<noteq> 1"

text \<open>The smallest integer type; the value is shifted to make room for the sign.\<close>

definition integerType :: "rat \<Rightarrow> Type option" where
  "integerType v =
     (let value = numerator v;
          negative = value < 0;
          value = (if negative then (0 - value - 1) * 2 else value)
      in if value > 2 ^ 256 - 1 then None
         else Some (IntegerType (max (bytesRequired (nat value)) 1 * 8)
                (if negative then SignedInt else UnsignedInt)))"

function scaleFraction :: "rat \<Rightarrow> rat \<Rightarrow> nat \<Rightarrow> rat \<times> nat" where
  "scaleFraction mx v d =
     (if v * 10 \<le> mx \<and> denominator v \<noteq> 1 \<and> d < 80 then scaleFraction mx (v * 10) (d + 1) else (v, d))"
  by pat_completeness auto

termination by (relation "measure (\<lambda>(mx, v, d). 80 - d)") auto

declare scaleFraction.simps [simp del]

text \<open>
  \<open>bytesRequired\<close> of a big integer ignores its sign, which matters when a tiny negative fraction is
  rounded to zero before the decrement.
\<close>

definition fixedPointType :: "rat \<Rightarrow> Type option" where
  "fixedPointType v =
     (let negative = v < 0;
          mx = (if negative then 2 ^ 255 else 2 ^ 256 - 1)
      in case scaleFraction mx \<bar>v\<bar> 0 of (value, digits) \<Rightarrow>
           if value > mx then None
           else let w = truncDiv (numerator value) (denominator value);
                    w = (if negative then (w - 1) * 2 else w)
                in if w > 2 ^ 256 - 1 then None
                   else Some (FixedPointType (max (bytesRequired (nat \<bar>w\<bar>)) 1 * 8) digits
                          (if negative then SignedFixed else UnsignedFixed)))"

section \<open>Reference types\<close>

fun copyForLocationIfReference :: "DataLocation \<Rightarrow> Type \<Rightarrow> Type" where
  "copyForLocationIfReference loc (ArrayType l p k base dyn len) =
     ArrayType loc False k (copyForLocationIfReference loc base) dyn len"
| "copyForLocationIfReference loc (StructType s l p) = StructType s loc False"
| "copyForLocationIfReference loc t = t"

definition copyForLocation :: "DataLocation \<Rightarrow> bool \<Rightarrow> Type \<Rightarrow> Type" where
  "copyForLocation loc ptr t =
     (case t of
        ArrayType l p k base dyn len \<Rightarrow> ArrayType loc ptr k (copyForLocationIfReference loc base) dyn len
      | StructType s l p \<Rightarrow> StructType s loc ptr
      | _ \<Rightarrow> t)"

definition isReferenceType :: "Type \<Rightarrow> bool" where
  "isReferenceType t = (case t of ArrayType _ _ _ _ _ _ \<Rightarrow> True | StructType _ _ _ \<Rightarrow> True | _ \<Rightarrow> False)"

definition mkByteArrayType :: "DataLocation \<Rightarrow> bool \<Rightarrow> Type" where
  "mkByteArrayType loc isString =
     ArrayType loc True (if isString then StringArray else BytesArray) (FixedBytesType 1) True 0"

definition mkDynamicArrayType :: "DataLocation \<Rightarrow> Type \<Rightarrow> Type" where
  "mkDynamicArrayType loc base = ArrayType loc True OrdinaryArray (copyForLocationIfReference loc base) True 0"

definition mkFixedArrayType :: "DataLocation \<Rightarrow> Type \<Rightarrow> nat \<Rightarrow> Type" where
  "mkFixedArrayType loc base len = ArrayType loc True OrdinaryArray (copyForLocationIfReference loc base) False len"

definition isByteArray :: "ArrayKind \<Rightarrow> bool" where "isByteArray k \<longleftrightarrow> k \<noteq> OrdinaryArray"

definition isStringArray :: "ArrayKind \<Rightarrow> bool" where "isStringArray k \<longleftrightarrow> k = StringArray"

definition dataStoredIn :: "DataLocation \<Rightarrow> Type \<Rightarrow> bool" where
  "dataStoredIn loc t =
     (case t of ArrayType l _ _ _ _ _ \<Rightarrow> l = loc | StructType _ l _ \<Rightarrow> l = loc | MappingType _ _ \<Rightarrow> loc = Storage
      | _ \<Rightarrow> False)"

section \<open>Elementary types\<close>

definition fromElementaryTypeName :: "ElementaryTypeNameToken \<Rightarrow> Type res" where
  "fromElementaryTypeName ty =
     (let token = et_token ty; m = et_firstNumber ty; n = et_secondNumber ty
      in assertThrow (isElementaryTypeName token) SolAssert
        (if token = T_IntM then mkIntegerType m SignedInt
         else if token = T_UIntM then mkIntegerType m UnsignedInt
         else if token = T_BytesM then mkFixedBytesType m
         else if token = T_FixedMxN then mkFixedPointType m n SignedFixed
         else if token = T_UFixedMxN then mkFixedPointType m n UnsignedFixed
         else if token = T_Int then mkIntegerType 256 SignedInt
         else if token = T_UInt then mkIntegerType 256 UnsignedInt
         else if token = T_Fixed then mkFixedPointType 128 18 SignedFixed
         else if token = T_UFixed then mkFixedPointType 128 18 UnsignedFixed
         else if token = T_Byte then mkFixedBytesType 1
         else if token = T_Address then mkIntegerType 160 AddressInt
         else if token = T_Bool then Inr BoolType
         else if token = T_Bytes then Inr (mkByteArrayType Storage False)
         else if token = T_String then Inr (mkByteArrayType Storage True)
         else Inl SolAssert))"

section \<open>Equality\<close>

definition both :: "('a \<Rightarrow> bool) list \<Rightarrow> 'a list \<Rightarrow> bool" where
  "both ps xs \<longleftrightarrow> length ps = length xs \<and> list_all (\<lambda>(p, x). p x) (zip ps xs)"

definition arrayEqual :: "(Type \<Rightarrow> bool) \<Rightarrow> DataLocation \<Rightarrow> bool \<Rightarrow> ArrayKind \<Rightarrow> bool \<Rightarrow> nat \<Rightarrow> Type \<Rightarrow> bool" where
  "arrayEqual baseEqual l p k dyn len t =
     (case t of
        ArrayType l' p' k' base' dyn' len' \<Rightarrow>
          if l \<noteq> l' \<or> p \<noteq> p' \<or> isByteArray k' \<noteq> isByteArray k \<or> isStringArray k' \<noteq> isStringArray k \<or> dyn' \<noteq> dyn
          then False
          else if \<not> baseEqual base' then False else dyn \<or> len = len'
      | _ \<Rightarrow> False)"

definition functionEqual :: "(Type \<Rightarrow> bool) list \<Rightarrow> (Type \<Rightarrow> bool) list \<Rightarrow> FunctionKind \<Rightarrow> FunctionAttributes \<Rightarrow> Type \<Rightarrow> bool" where
  "functionEqual ps rs k a t =
     (case t of
        FunctionType ps' rs' k' a' \<Rightarrow>
          k = k' \<and> f_stateMutability a = f_stateMutability a' \<and> both ps ps' \<and> both rs rs' \<and>
          f_gasSet a = f_gasSet a' \<and> f_valueSet a = f_valueSet a' \<and> f_bound a = f_bound a'
      | _ \<Rightarrow> False)"

fun type_eq :: "TypeEnv \<Rightarrow> Type \<Rightarrow> Type \<Rightarrow> bool" where
  "type_eq env (IntegerType b m) t = (t = IntegerType b m)"
| "type_eq env (FixedPointType b d m) t = (t = FixedPointType b d m)"
| "type_eq env (RationalNumberType v) t = (t = RationalNumberType v)"
| "type_eq env (StringLiteralType v) t = (t = StringLiteralType v)"
| "type_eq env (FixedBytesType n) t = (t = FixedBytesType n)"
| "type_eq env BoolType t = (category t = CBool)"
| "type_eq env (ArrayType l p k base dyn len) t = arrayEqual (type_eq env base) l p k dyn len t"
| "type_eq env (ContractType c s) t = (t = ContractType c s)"
| "type_eq env (StructType s l p) t = (t = StructType s l p)"
| "type_eq env (EnumType e) t = (t = EnumType e)"
| "type_eq env (TupleType cs) t = (case t of TupleType cs' \<Rightarrow> te_sameComponents env cs cs' | _ \<Rightarrow> False)"
| "type_eq env (FunctionType ps rs k a) t = functionEqual (map (type_eq env) ps) (map (type_eq env) rs) k a t"
| "type_eq env (MappingType kt vt) t =
     (case t of MappingType kt' vt' \<Rightarrow> type_eq env kt kt' \<and> type_eq env vt vt' | _ \<Rightarrow> False)"
| "type_eq env (TypeType a) t = (case t of TypeType a' \<Rightarrow> type_eq env a a' | _ \<Rightarrow> False)"
| "type_eq env (ModifierType ps) t = (case t of ModifierType ps' \<Rightarrow> both (map (type_eq env) ps) ps' | _ \<Rightarrow> False)"
| "type_eq env (ModuleType n) t = (t = ModuleType n)"
| "type_eq env (MagicType k) t = (t = MagicType k)"
| "type_eq env InaccessibleDynamicType t = (category t = CInaccessibleDynamic)"

section \<open>Conversions\<close>

definition integerConvertible :: "nat \<Rightarrow> IntegerModifier \<Rightarrow> Type \<Rightarrow> bool" where
  "integerConvertible b m t =
     (case t of
        IntegerType b' m' \<Rightarrow>
          if b' < b then False
          else if isAddress m then isAddress m'
          else if isSigned m then isSigned m'
          else \<not> isSigned m' \<or> b' > b
      | FixedPointType b' d' m' \<Rightarrow>
          if isAddress m then False
          else maxValue b m \<le> maxIntegerValue b' d' m' \<and> minValue b m \<ge> minIntegerValue b' d' m'
      | _ \<Rightarrow> False)"

definition fixedPointConvertible :: "nat \<Rightarrow> nat \<Rightarrow> FixedModifier \<Rightarrow> Type \<Rightarrow> bool" where
  "fixedPointConvertible b d m t =
     (case t of
        FixedPointType b' d' m' \<Rightarrow>
          if b' < b \<or> d' < d then False
          else maxIntegerValue b' d' m' \<ge> maxIntegerValue b d m \<and> minIntegerValue b' d' m' \<le> minIntegerValue b d m
      | _ \<Rightarrow> False)"

definition rationalConvertible :: "rat \<Rightarrow> Type \<Rightarrow> bool" where
  "rationalConvertible v t =
     (case t of
        IntegerType b m \<Rightarrow>
          if v = 0 then True
          else if isFractional v then False
          else let forSignBit = (if isSigned m then 1 else 0)
               in if v > 0 then numerator v \<le> (2 ^ 256 - 1) div 2 ^ (256 - b + forSignBit)
                  else isSigned m \<and> - numerator v \<le> 2 ^ (b - forSignBit)
      | FixedPointType b d m \<Rightarrow>
          (case fixedPointType v of Some (FixedPointType b' d' m') \<Rightarrow> fixedPointConvertible b' d' m' t | _ \<Rightarrow> False)
      | FixedBytesType n \<Rightarrow>
          if isFractional v then False
          else (case integerType v of Some (IntegerType b m) \<Rightarrow> n * 8 \<ge> b | _ \<Rightarrow> False)
      | _ \<Rightarrow> False)"

definition stringLiteralConvertible :: "string \<Rightarrow> Type \<Rightarrow> bool" where
  "stringLiteralConvertible s t =
     (case t of
        FixedBytesType n \<Rightarrow> n \<ge> length s
      | ArrayType l p k base dyn len \<Rightarrow>
          isByteArray k \<and> \<not> (l = Storage \<and> p) \<and>
          \<not> (isStringArray k \<and> \<not> fst (validateUTF8 (map (\<lambda>c. word_of_nat (of_char c)) s)))
      | _ \<Rightarrow> False)"

definition contractConvertible :: "TypeEnv \<Rightarrow> nat \<Rightarrow> bool \<Rightarrow> Type \<Rightarrow> bool" where
  "contractConvertible env c super t =
     (if t = ContractType c super then True
      else case t of
        IntegerType b m \<Rightarrow> isAddress m
      | ContractType c' super' \<Rightarrow>
          let bases = te_bases env c
          in if super \<and> length bases \<le> 1 then False
             else c' \<in> set (if super then drop 1 bases else bases)
      | _ \<Rightarrow> False)"

text \<open>The components of a tuple, given by their conversions, against the targets with wildcards.\<close>

definition tupleConvertible :: "(Type \<Rightarrow> bool) option list \<Rightarrow> Type option list \<Rightarrow> bool" where
  "tupleConvertible cs ts =
     (if ts = [] then cs = []
      else let front = hd ts \<noteq> None; back = last ts \<noteq> None;
               minNumValues = (if \<not> back \<or> \<not> front then length ts - 1 else length ts);
               fillRight = \<not> back \<or> front;
               dir = (\<lambda>n i. if fillRight then i else n - i - 1)
           in if length cs \<noteq> length ts \<and> \<not> front \<and> \<not> back then False
              else if length cs < minNumValues then False
              else if length cs > length ts \<and> front \<and> back then False
              else list_all (\<lambda>i.
                     case (cs ! dir (length cs) i, ts ! dir (length ts) i) of
                       (None, Some t) \<Rightarrow> False
                     | (Some p, Some t) \<Rightarrow> p t
                     | (_, None) \<Rightarrow> True) [0..<min (length ts) (length cs)])"

definition fixedBytesConvertible :: "nat \<Rightarrow> Type \<Rightarrow> bool" where
  "fixedBytesConvertible n t = (case t of FixedBytesType n' \<Rightarrow> n' \<ge> n | _ \<Rightarrow> False)"

text \<open>The conversion of the element type is given.\<close>

definition arrayConvertible :: "TypeEnv \<Rightarrow> (Type \<Rightarrow> bool) \<Rightarrow> DataLocation \<Rightarrow> ArrayKind \<Rightarrow> Type \<Rightarrow> bool \<Rightarrow> nat \<Rightarrow> Type \<Rightarrow> bool" where
  "arrayConvertible env baseConvertible l k base dyn len t =
     (case t of
        ArrayType l' p' k' base' dyn' len' \<Rightarrow>
          if isByteArray k' \<noteq> isByteArray k \<or> isStringArray k' \<noteq> isStringArray k then False
          else if l' = Storage \<and> l \<noteq> Storage \<and> p' then False
          else if l' = CallData \<and> l \<noteq> l' then False
          else if l' = Storage \<and> \<not> p' then
            if \<not> baseConvertible base' then False
            else if dyn' then True else \<not> dyn \<and> len' \<ge> len
          else if \<not> type_eq env (copyForLocationIfReference l base) (copyForLocationIfReference l base') then False
          else if dyn \<noteq> dyn' then False
          else if \<not> dyn \<and> len \<noteq> len' then False
          else True
      | _ \<Rightarrow> False)"

definition structConvertible :: "nat \<Rightarrow> DataLocation \<Rightarrow> Type \<Rightarrow> bool" where
  "structConvertible s l t =
     (case t of
        StructType s' l' p' \<Rightarrow>
          if l' = Storage \<and> l \<noteq> Storage \<and> p' then False
          else if l' = CallData \<and> l \<noteq> l' then False
          else s = s'
      | _ \<Rightarrow> False)"

text \<open>Which of the methods is called is decided by the class of the type.\<close>

fun isImplicitlyConvertibleTo :: "TypeEnv \<Rightarrow> Type \<Rightarrow> Type \<Rightarrow> bool" where
  "isImplicitlyConvertibleTo env (IntegerType b m) t = integerConvertible b m t"
| "isImplicitlyConvertibleTo env (FixedPointType b d m) t = fixedPointConvertible b d m t"
| "isImplicitlyConvertibleTo env (RationalNumberType v) t = rationalConvertible v t"
| "isImplicitlyConvertibleTo env (StringLiteralType s) t = stringLiteralConvertible s t"
| "isImplicitlyConvertibleTo env (FixedBytesType n) t = fixedBytesConvertible n t"
| "isImplicitlyConvertibleTo env (ContractType c super) t = contractConvertible env c super t"
| "isImplicitlyConvertibleTo env (ArrayType l p k base dyn len) t =
     arrayConvertible env (isImplicitlyConvertibleTo env base) l k base dyn len t"
| "isImplicitlyConvertibleTo env (StructType s l p) t = structConvertible s l t"
| "isImplicitlyConvertibleTo env (TupleType cs) t =
     (case t of TupleType ts \<Rightarrow> tupleConvertible (map (map_option (isImplicitlyConvertibleTo env)) cs) ts | _ \<Rightarrow> False)"
| "isImplicitlyConvertibleTo env InaccessibleDynamicType t = False"
| "isImplicitlyConvertibleTo env a t = type_eq env a t"

text \<open>The type of a value that is not constant.\<close>

fun mobileType :: "Type \<Rightarrow> Type option" where
  "mobileType (RationalNumberType v) = (if \<not> isFractional v then integerType v else fixedPointType v)"
| "mobileType (StringLiteralType s) = Some (mkByteArrayType Memory True)"
| "mobileType (ArrayType l p k base dyn len) = Some (copyForLocation l True (ArrayType l p k base dyn len))"
| "mobileType (StructType s l p) = Some (copyForLocation l True (StructType s l p))"
| "mobileType (TupleType cs) =
     (let ms = map (map_option mobileType) cs
      in if list_all (\<lambda>m. m \<noteq> Some None) ms
         then Some (TupleType (map (\<lambda>m. case m of None \<Rightarrow> None | Some t \<Rightarrow> t) ms)) else None)"
| "mobileType t = Some t"

definition commonType :: "TypeEnv \<Rightarrow> Type option \<Rightarrow> Type option \<Rightarrow> Type option" where
  "commonType env a b =
     (case (a, b) of
        (Some a, Some b) \<Rightarrow>
          (case mobileType a of
             Some a' \<Rightarrow>
               if isImplicitlyConvertibleTo env b a' then Some a'
               else (case mobileType b of
                       Some b' \<Rightarrow> if isImplicitlyConvertibleTo env a b' then Some b' else None
                     | None \<Rightarrow> None)
           | None \<Rightarrow>
               (case mobileType b of
                  Some b' \<Rightarrow> if isImplicitlyConvertibleTo env a b' then Some b' else None
                | None \<Rightarrow> None))
      | _ \<Rightarrow> None)"

text \<open>Explicit conversions, by the class of the type converted.\<close>

definition integerExplicit :: "Type \<Rightarrow> bool" where
  "integerExplicit t \<longleftrightarrow> category t \<in> {CInteger, CContract, CEnum, CFixedBytes, CFixedPoint}"

definition fixedPointExplicit :: "Type \<Rightarrow> bool" where
  "fixedPointExplicit t \<longleftrightarrow> category t = CFixedPoint \<or> (case t of IntegerType b m \<Rightarrow> \<not> isAddress m | _ \<Rightarrow> False)"

definition rationalExplicit :: "rat \<Rightarrow> Type \<Rightarrow> bool" where
  "rationalExplicit v t \<longleftrightarrow>
     (case mobileType (RationalNumberType v) of
        Some (IntegerType b m) \<Rightarrow> integerExplicit t
      | Some (FixedPointType b d m) \<Rightarrow> fixedPointExplicit t
      | _ \<Rightarrow> False)"

definition fixedBytesExplicit :: "Type \<Rightarrow> bool" where
  "fixedBytesExplicit t \<longleftrightarrow> category t \<in> {CInteger, CFixedPoint, CFixedBytes}"

definition contractExplicit :: "TypeEnv \<Rightarrow> nat \<Rightarrow> bool \<Rightarrow> Type \<Rightarrow> bool" where
  "contractExplicit env c super t \<longleftrightarrow>
     isImplicitlyConvertibleTo env (ContractType c super) t \<or> category t \<in> {CInteger, CContract}"

definition arrayExplicit :: "TypeEnv \<Rightarrow> DataLocation \<Rightarrow> ArrayKind \<Rightarrow> Type \<Rightarrow> Type \<Rightarrow> bool" where
  "arrayExplicit env l k a t \<longleftrightarrow>
     (if isImplicitlyConvertibleTo env a t then True
      else case t of
        ArrayType l' p' k' base' dyn' len' \<Rightarrow> l' = l \<and> isByteArray k \<and> isByteArray k'
      | _ \<Rightarrow> False)"

definition enumExplicit :: "TypeEnv \<Rightarrow> nat \<Rightarrow> Type \<Rightarrow> bool" where
  "enumExplicit env e t \<longleftrightarrow> type_eq env t (EnumType e) \<or> category t = CInteger"

definition functionExplicit :: "FunctionKind \<Rightarrow> Type \<Rightarrow> bool" where
  "functionExplicit k t \<longleftrightarrow>
     (k = FExternal \<and> (case t of IntegerType b m \<Rightarrow> isAddress m | _ \<Rightarrow> False)) \<or> category t = CFunction"

fun isExplicitlyConvertibleTo :: "TypeEnv \<Rightarrow> Type \<Rightarrow> Type \<Rightarrow> bool" where
  "isExplicitlyConvertibleTo env (IntegerType b m) t = integerExplicit t"
| "isExplicitlyConvertibleTo env (FixedPointType b d m) t = fixedPointExplicit t"
| "isExplicitlyConvertibleTo env (RationalNumberType v) t = rationalExplicit v t"
| "isExplicitlyConvertibleTo env (FixedBytesType n) t = fixedBytesExplicit t"
| "isExplicitlyConvertibleTo env (ContractType c super) t = contractExplicit env c super t"
| "isExplicitlyConvertibleTo env (ArrayType l p k base dyn len) t = arrayExplicit env l k (ArrayType l p k base dyn len) t"
| "isExplicitlyConvertibleTo env (EnumType e) t = enumExplicit env e t"
| "isExplicitlyConvertibleTo env (FunctionType ps rs k a) t = functionExplicit k t"
| "isExplicitlyConvertibleTo env InaccessibleDynamicType t = False"
| "isExplicitlyConvertibleTo env a t = isImplicitlyConvertibleTo env a t"

section \<open>Operators\<close>

definition emptyTuple :: Type where "emptyTuple = TupleType []"

definition deleteOnly :: "Token \<Rightarrow> Type option" where
  "deleteOnly op = (if op = T_Delete then Some emptyTuple else None)"

definition integerUnary :: "Token \<Rightarrow> nat \<Rightarrow> IntegerModifier \<Rightarrow> Type option" where
  "integerUnary op b m =
     (if op = T_Delete then Some emptyTuple
      else if isAddress m then None
      else if op \<in> {T_Add, T_Sub, T_Inc, T_Dec, T_BitNot} then Some (IntegerType b m)
      else None)"

definition fixedPointUnary :: "Token \<Rightarrow> Type \<Rightarrow> Type option" where
  "fixedPointUnary op t =
     (if op = T_Delete then Some emptyTuple
      else if op \<in> {T_Add, T_Sub, T_Inc, T_Dec} then Some t
      else None)"

definition rationalUnary :: "Token \<Rightarrow> rat \<Rightarrow> Type option" where
  "rationalUnary op v =
     (if op = T_BitNot then if isFractional v then None else Some (RationalNumberType (of_int (- numerator v - 1)))
      else if op = T_Add then Some (RationalNumberType v)
      else if op = T_Sub then Some (RationalNumberType (- v))
      else if op = T_After then Some (RationalNumberType v)
      else None)"

definition fixedBytesUnary :: "Token \<Rightarrow> nat \<Rightarrow> Type option" where
  "fixedBytesUnary op n =
     (if op = T_Delete then Some emptyTuple else if op = T_BitNot then Some (FixedBytesType n) else None)"

definition boolUnary :: "Token \<Rightarrow> Type option" where
  "boolUnary op = (if op = T_Delete then Some emptyTuple else if op = T_Not then Some BoolType else None)"

definition contractUnary :: "Token \<Rightarrow> bool \<Rightarrow> Type option" where
  "contractUnary op super = (if super then None else deleteOnly op)"

definition referenceUnary :: "Token \<Rightarrow> DataLocation \<Rightarrow> bool \<Rightarrow> Type option" where
  "referenceUnary op l p =
     (if op \<noteq> T_Delete then None
      else case l of CallData \<Rightarrow> None | Memory \<Rightarrow> Some emptyTuple | Storage \<Rightarrow> if p then None else Some emptyTuple)"

fun unaryOperatorResult :: "Token \<Rightarrow> Type \<Rightarrow> Type option" where
  "unaryOperatorResult op (IntegerType b m) = integerUnary op b m"
| "unaryOperatorResult op (FixedPointType b d m) = fixedPointUnary op (FixedPointType b d m)"
| "unaryOperatorResult op (RationalNumberType v) = rationalUnary op v"
| "unaryOperatorResult op (FixedBytesType n) = fixedBytesUnary op n"
| "unaryOperatorResult op BoolType = boolUnary op"
| "unaryOperatorResult op (ContractType c super) = contractUnary op super"
| "unaryOperatorResult op (ArrayType l p k base dyn len) = referenceUnary op l p"
| "unaryOperatorResult op (StructType s l p) = referenceUnary op l p"
| "unaryOperatorResult op (EnumType e) = deleteOnly op"
| "unaryOperatorResult op (FunctionType ps rs k a) = deleteOnly op"
| "unaryOperatorResult op t = None"

definition isValidShiftAndAmountType :: "Token \<Rightarrow> Type \<Rightarrow> bool" where
  "isValidShiftAndAmountType op t =
     (if op = T_SHR then False
      else case t of
        IntegerType b m \<Rightarrow> \<not> isAddress m
      | RationalNumberType v \<Rightarrow>
          \<not> isFractional v \<and> (case integerType v of Some (IntegerType b m) \<Rightarrow> \<not> isSigned m | _ \<Rightarrow> False)
      | _ \<Rightarrow> False)"

definition integerBinary :: "TypeEnv \<Rightarrow> Token \<Rightarrow> nat \<Rightarrow> IntegerModifier \<Rightarrow> Type \<Rightarrow> Type option" where
  "integerBinary env op b m other =
     (if category other \<notin> {CRationalNumber, CFixedPoint, CInteger} then None
      else if isShiftOp op then
        if isAddress m then None
        else if isValidShiftAndAmountType op other then Some (IntegerType b m) else None
      else case commonType env (Some (IntegerType b m)) (Some other) of
        None \<Rightarrow> None
      | Some common \<Rightarrow>
          if isCompareOp op then Some common
          else if isBooleanOp op then None
          else (case common of
                  IntegerType b' m' \<Rightarrow>
                    if isAddress m' then None else if op = T_Exp \<and> isSigned m' then None else Some common
                | FixedPointType _ _ _ \<Rightarrow> if op = T_Exp then None else Some common
                | _ \<Rightarrow> Some common))"

definition fixedPointBinary :: "TypeEnv \<Rightarrow> Token \<Rightarrow> Type \<Rightarrow> Type \<Rightarrow> Type option" where
  "fixedPointBinary env op t other =
     (case commonType env (Some t) (Some other) of
        None \<Rightarrow> None
      | Some common \<Rightarrow>
          if isCompareOp op then Some common
          else if isBitOp op \<or> isBooleanOp op \<or> op = T_Exp then None
          else Some common)"

text \<open>Dispatch on the type of a number that is not a constant.\<close>

definition numericBinary :: "TypeEnv \<Rightarrow> Token \<Rightarrow> Type \<Rightarrow> Type \<Rightarrow> Type option" where
  "numericBinary env op t other =
     (case t of
        IntegerType b m \<Rightarrow> integerBinary env op b m other
      | FixedPointType b d m \<Rightarrow> fixedPointBinary env op t other
      | _ \<Rightarrow> None)"

definition ratPower :: "rat \<Rightarrow> int \<Rightarrow> rat option" where
  "ratPower v e =
     (if e = 0 then Some 1
      else if numerator v = 0 \<or> v = 1 then Some v
      else if v = - 1 then Some (1 - 2 * of_int (\<bar>e\<bar> mod 2))
      else if \<bar>e\<bar> > 2 ^ 32 - 1 then None
      else let k = nat \<bar>e\<bar>
           in if \<not> fitsPrecisionExp (nat \<bar>numerator v\<bar>) k \<or> \<not> fitsPrecisionExp (nat \<bar>denominator v\<bar>) k then None
              else let n = numerator v ^ k; d = denominator v ^ k
                   in Some (if e \<ge> 0 then of_int n / of_int d else of_int d / of_int n))"

definition ratShiftLeft :: "rat \<Rightarrow> rat \<Rightarrow> rat option" where
  "ratShiftLeft v w =
     (if isFractional v \<or> isFractional w then None
      else if w < 0 then None
      else if w > 2 ^ 32 - 1 then None
      else if numerator v = 0 then Some 0
      else let e = nat (numerator w)
           in if \<not> fitsPrecisionBase2 (nat \<bar>numerator v\<bar>) e then None else Some (of_int (numerator v * 2 ^ e)))"

definition ratShiftRight :: "rat \<Rightarrow> rat \<Rightarrow> rat option" where
  "ratShiftRight v w =
     (if isFractional v \<or> isFractional w then None
      else if w < 0 then None
      else if w > 2 ^ 32 - 1 then None
      else if numerator v = 0 then Some 0
      else let e = nat (numerator w)
           in if e > mostSignificantBit (nat \<bar>numerator v\<bar>) then Some 0
              else Some (of_int (truncDiv (numerator v) (2 ^ e))))"

definition ratBinary :: "Token \<Rightarrow> rat \<Rightarrow> rat \<Rightarrow> rat option" where
  "ratBinary op v w =
     (let fractional = isFractional v \<or> isFractional w
      in if op = T_BitOr then if fractional then None else Some (of_int (or (numerator v) (numerator w)))
         else if op = T_BitXor then if fractional then None else Some (of_int (xor (numerator v) (numerator w)))
         else if op = T_BitAnd then if fractional then None else Some (of_int (and (numerator v) (numerator w)))
         else if op = T_Add then Some (v + w)
         else if op = T_Sub then Some (v - w)
         else if op = T_Mul then Some (v * w)
         else if op = T_Div then if w = 0 then None else Some (v / w)
         else if op = T_Mod then
           if w = 0 then None
           else if fractional then Some (v - of_int (truncDiv (numerator (v / w)) (denominator (v / w))) * w)
           else Some (of_int (truncMod (numerator v) (numerator w)))
         else if op = T_Exp then if isFractional w then None else ratPower v (numerator w)
         else if op = T_SHL then ratShiftLeft v w
         else if op = T_SAR then ratShiftRight v w
         else None)"

definition fitsPrecision :: "rat \<Rightarrow> bool" where
  "fitsPrecision v \<longleftrightarrow>
     \<not> (numerator v \<noteq> 0 \<and>
        max (mostSignificantBit (nat \<bar>numerator v\<bar>)) (mostSignificantBit (nat \<bar>denominator v\<bar>)) > 4096)"

definition rationalBinary :: "TypeEnv \<Rightarrow> Token \<Rightarrow> rat \<Rightarrow> Type \<Rightarrow> Type option" where
  "rationalBinary env op v other =
     (if category other \<in> {CInteger, CFixedPoint} then
        (case commonType env (Some (RationalNumberType v)) (Some other) of
           None \<Rightarrow> None
         | Some common \<Rightarrow> numericBinary env op common other)
      else case other of
        RationalNumberType w \<Rightarrow>
          if isCompareOp op then
            (case (mobileType (RationalNumberType v), mobileType other) of
               (Some v', Some w') \<Rightarrow> numericBinary env op v' w'
             | _ \<Rightarrow> None)
          else (case ratBinary op v w of
                  None \<Rightarrow> None
                | Some r \<Rightarrow> if fitsPrecision r then Some (RationalNumberType r) else None)
      | _ \<Rightarrow> None)"

definition arraySizeOnStack :: "DataLocation \<Rightarrow> bool \<Rightarrow> nat" where
  "arraySizeOnStack l dyn = (if l = CallData then 1 + (if dyn then 1 else 0) else 1)"

definition typeTypeSizeOnStack :: "TypeEnv \<Rightarrow> Type \<Rightarrow> nat" where
  "typeTypeSizeOnStack env t = (case t of ContractType c super \<Rightarrow> if te_isLibrary env c then 1 else 0 | _ \<Rightarrow> 0)"

text \<open>The sizes of the parameters are given.\<close>

definition functionSizeOnStack :: "nat list \<Rightarrow> Type list \<Rightarrow> FunctionKind \<Rightarrow> FunctionAttributes \<Rightarrow> nat" where
  "functionSizeOnStack ps rs k a =
     (let kind = (if k = FSetGas \<or> k = FSetValue
                  then (case rs of FunctionType _ _ k' _ # _ \<Rightarrow> k' | _ \<Rightarrow> k) else k);
          n = (if kind \<in> {FExternal, FCallCode, FDelegateCall} then 2
               else if kind \<in> {FBareCall, FBareCallCode, FBareDelegateCall, FInternal, FArrayPush, FByteArrayPush} then 1
               else 0)
      in n + (if f_gasSet a then 1 else 0) + (if f_valueSet a then 1 else 0) + (if f_bound a then hd ps else 0))"

fun sizeOnStack :: "TypeEnv \<Rightarrow> Type \<Rightarrow> nat" where
  "sizeOnStack env (StringLiteralType s) = 0"
| "sizeOnStack env (ArrayType l p k base dyn len) = arraySizeOnStack l dyn"
| "sizeOnStack env (ContractType c super) = (if super then 0 else 1)"
| "sizeOnStack env (TupleType cs) = sum_list (map (\<lambda>c. case c of None \<Rightarrow> 0 | Some t \<Rightarrow> sizeOnStack env t) cs)"
| "sizeOnStack env (FunctionType ps rs k a) = functionSizeOnStack (map (sizeOnStack env) ps) rs k a"
| "sizeOnStack env (TypeType t) = typeTypeSizeOnStack env t"
| "sizeOnStack env (ModifierType ps) = 0"
| "sizeOnStack env (ModuleType n) = 0"
| "sizeOnStack env (MagicType k) = 0"
| "sizeOnStack env t = 1"

definition fixedBytesBinary :: "TypeEnv \<Rightarrow> Token \<Rightarrow> nat \<Rightarrow> Type \<Rightarrow> Type option" where
  "fixedBytesBinary env op n other =
     (if isShiftOp op then if isValidShiftAndAmountType op other then Some (FixedBytesType n) else None
      else case commonType env (Some (FixedBytesType n)) (Some other) of
        Some (FixedBytesType k) \<Rightarrow> if isCompareOp op \<or> isBitOp op then Some (FixedBytesType k) else None
      | _ \<Rightarrow> None)"

definition boolBinary :: "Token \<Rightarrow> Type \<Rightarrow> Type option" where
  "boolBinary op other =
     (if category other \<noteq> CBool then None
      else if isCompareOp op \<or> op = T_And \<or> op = T_Or then Some other else None)"

definition functionBinary :: "TypeEnv \<Rightarrow> Token \<Rightarrow> Type \<Rightarrow> FunctionKind \<Rightarrow> Type \<Rightarrow> Type option" where
  "functionBinary env op t k other =
     (if category other \<noteq> CFunction \<or> \<not> (op = T_Equal \<or> op = T_NotEqual) then None
      else case other of
        FunctionType ps' rs' k' a' \<Rightarrow>
          if k = FInternal \<and> k' = FInternal \<and> sizeOnStack env t = 1 \<and> sizeOnStack env other = 1
          then commonType env (Some t) (Some other) else None
      | _ \<Rightarrow> None)"

text \<open>Where the class has no method of its own, a common type is enough for comparisons.\<close>

definition comparisonOnly :: "TypeEnv \<Rightarrow> Token \<Rightarrow> Type \<Rightarrow> Type \<Rightarrow> Type option" where
  "comparisonOnly env op t other = (if isCompareOp op then commonType env (Some t) (Some other) else None)"

fun binaryOperatorResult :: "TypeEnv \<Rightarrow> Token \<Rightarrow> Type \<Rightarrow> Type \<Rightarrow> Type option" where
  "binaryOperatorResult env op (IntegerType b m) other = integerBinary env op b m other"
| "binaryOperatorResult env op (FixedPointType b d m) other = fixedPointBinary env op (FixedPointType b d m) other"
| "binaryOperatorResult env op (RationalNumberType v) other = rationalBinary env op v other"
| "binaryOperatorResult env op (FixedBytesType n) other = fixedBytesBinary env op n other"
| "binaryOperatorResult env op BoolType other = boolBinary op other"
| "binaryOperatorResult env op (ContractType c super) other = comparisonOnly env op (ContractType c super) other"
| "binaryOperatorResult env op (EnumType e) other = comparisonOnly env op (EnumType e) other"
| "binaryOperatorResult env op (FunctionType ps rs k a) other = functionBinary env op (FunctionType ps rs k a) k other"
| "binaryOperatorResult env op t other = None"

section \<open>Sizes\<close>

definition isDynamicallySized :: "Type \<Rightarrow> bool" where
  "isDynamicallySized t = (case t of ArrayType _ _ _ _ dyn _ \<Rightarrow> dyn | _ \<Rightarrow> False)"

fun canLiveOutsideStorage :: "Type \<Rightarrow> bool" where
  "canLiveOutsideStorage (RationalNumberType _) = False"
| "canLiveOutsideStorage (StringLiteralType _) = False"
| "canLiveOutsideStorage (ArrayType _ _ _ base _ _) = canLiveOutsideStorage base"
| "canLiveOutsideStorage (ContractType _ super) = (\<not> super)"
| "canLiveOutsideStorage (TupleType _) = False"
| "canLiveOutsideStorage (FunctionType _ _ k _) = (k = FInternal \<or> k = FExternal)"
| "canLiveOutsideStorage (MappingType _ _) = False"
| "canLiveOutsideStorage (TypeType _) = False"
| "canLiveOutsideStorage (ModifierType _) = False"
| "canLiveOutsideStorage InaccessibleDynamicType = False"
| "canLiveOutsideStorage t = True"

fun canBeStored :: "Type \<Rightarrow> bool" where
  "canBeStored (RationalNumberType _) = False"
| "canBeStored (StringLiteralType _) = False"
| "canBeStored (TupleType _) = False"
| "canBeStored (FunctionType _ _ k _) = (k = FInternal \<or> k = FExternal)"
| "canBeStored (TypeType _) = False"
| "canBeStored (ModifierType _) = False"
| "canBeStored (ModuleType _) = False"
| "canBeStored (MagicType _) = False"
| "canBeStored InaccessibleDynamicType = False"
| "canBeStored t = True"

definition enumBytes :: "TypeEnv \<Rightarrow> nat \<Rightarrow> nat" where
  "enumBytes env e = (let n = te_numberOfMembers env e in if n \<le> 1 then 1 else bytesRequired (n - 1))"

fun storageBytes :: "TypeEnv \<Rightarrow> Type \<Rightarrow> nat res" where
  "storageBytes env (IntegerType b m) = Inr (b div 8)"
| "storageBytes env (FixedPointType b d m) = Inr (b div 8)"
| "storageBytes env (FixedBytesType n) = Inr n"
| "storageBytes env BoolType = Inr 1"
| "storageBytes env (ContractType c super) = assertThrow (\<not> super) SolAssert (Inr 20)"
| "storageBytes env (EnumType e) = Inr (enumBytes env e)"
| "storageBytes env (FunctionType ps rs k a) =
     (if k = FExternal then Inr 24 else if k = FInternal then Inr 8 else Inl SolAssert)"
| "storageBytes env t = Inr 32"

text \<open>
  Offsets in storage. What a type needs is its shape: whether it is stored at all, its bytes and its
  slots. The result pairs the index of every stored type with its slot and byte.
\<close>

record StorageShape =
  sh_canBeStored :: bool
  sh_storageBytes :: "nat res"
  sh_storageSize :: "nat res"

record StorageOffsets =
  so_storageSize :: nat
  so_offsets :: "(nat \<times> nat \<times> nat) list"

fun placeTypes :: "nat \<Rightarrow> StorageShape list \<Rightarrow> nat \<Rightarrow> nat \<Rightarrow> ((nat \<times> nat \<times> nat) list \<times> nat \<times> nat) res" where
  "placeTypes i [] slot byte = Inr ([], slot, byte)"
| "placeTypes i (sh # shs) slot byte =
     (if \<not> sh_canBeStored sh then placeTypes (i + 1) shs slot byte
      else bindR (sh_storageBytes sh) (\<lambda>n.
        let (slot, byte) = (if byte + n > 32 then (slot + 1, 0) else (slot, byte))
        in assertThrow (slot < 2 ^ 256) (TypeError ''Object too large for storage.'')
          (bindR (sh_storageSize sh) (\<lambda>size.
             assertThrow (size \<ge> 1) SolAssert
               (let (slot', byte') = (if size = 1 \<and> byte + n \<le> 32 then (slot, byte + n) else (slot + size, 0))
                in bindR (placeTypes (i + 1) shs slot' byte') (\<lambda>(offs, last).
                     Inr ((i, slot, byte) # offs, last)))))))"

definition computeOffsets :: "StorageShape list \<Rightarrow> StorageOffsets res" where
  "computeOffsets shs =
     bindR (placeTypes 0 shs 0 0) (\<lambda>(offs, slot, byte).
       let slot = (if byte > 0 then slot + 1 else slot)
       in assertThrow (slot < 2 ^ 256) (TypeError ''Object too large for storage.'') (Inr \<lparr>so_storageSize = slot, so_offsets = offs\<rparr>))"

definition storageOffset :: "StorageOffsets \<Rightarrow> nat \<Rightarrow> (nat \<times> nat) option" where
  "storageOffset so i = map_of (so_offsets so) i"

text \<open>The members of a struct: outside of storage, those that can only live there are skipped.\<close>

definition structMembers :: "TypeEnv \<Rightarrow> nat \<Rightarrow> DataLocation \<Rightarrow> (string \<times> Type) list" where
  "structMembers env s l =
     map (\<lambda>(name, t). (name, copyForLocationIfReference l t))
       (filter (\<lambda>(name, t). l = Storage \<or> canLiveOutsideStorage t) (te_structMembers env s))"

text \<open>
  The slots of a type. Structs may contain structs; the recursion of the code ends when they are not
  recursive, and the fuel is the depth of nesting it may reach.
\<close>

function storageSize :: "TypeEnv \<Rightarrow> nat \<Rightarrow> Type \<Rightarrow> nat res" where
  "storageSize env n t =
     (case t of
        ArrayType l p k base dyn len \<Rightarrow>
          if dyn then Inr 1
          else bindR (storageBytes env base) (\<lambda>baseBytes.
            bindR (if baseBytes = 0 then Inr 1
                   else if baseBytes < 32 then
                     let itemsPerSlot = 32 div baseBytes in Inr ((len + (itemsPerSlot - 1)) div itemsPerSlot)
                   else bindR (storageSize env n base) (\<lambda>k. Inr (len * k))) (\<lambda>size.
              assertThrow (size < 2 ^ 256) (TypeError ''Array too large for storage.'') (Inr (max 1 size))))
      | StructType s l p \<Rightarrow>
          (case n of
             0 \<Rightarrow> Inl SolAssert
           | Suc n' \<Rightarrow>
               bindR (computeOffsets
                        (map (\<lambda>(name, t). \<lparr>sh_canBeStored = canBeStored t, sh_storageBytes = storageBytes env t,
                               sh_storageSize = storageSize env n' t\<rparr>) (structMembers env s l))) (\<lambda>so.
                 Inr (max 1 (so_storageSize so))))
      | TupleType _ \<Rightarrow> Inl SolAssert
      | TypeType _ \<Rightarrow> Inl SolAssert
      | ModifierType _ \<Rightarrow> Inl SolAssert
      | FunctionType ps rs k a \<Rightarrow> if k = FExternal \<or> k = FInternal then Inr 1 else Inl SolAssert
      | _ \<Rightarrow> Inr 1)"
  by pat_completeness auto

termination by (relation "measures [\<lambda>(env, n, t). n, \<lambda>(env, n, t). size t]") auto

declare storageSize.simps [simp del]

definition typeShape :: "TypeEnv \<Rightarrow> nat \<Rightarrow> Type \<Rightarrow> StorageShape" where
  "typeShape env n t =
     \<lparr>sh_canBeStored = canBeStored t, sh_storageBytes = storageBytes env t, sh_storageSize = storageSize env n t\<rparr>"

subsection \<open>Sizes in calldata\<close>

text \<open>\<open>unsigned\<close> has 32 bits.\<close>

definition roundUp32 :: "nat \<Rightarrow> nat" where "roundUp32 n = (n + 31) div 32 * 32"

function calldataEncodedSize :: "TypeEnv \<Rightarrow> nat \<Rightarrow> bool \<Rightarrow> Type \<Rightarrow> nat res" where
  "calldataEncodedSize env n padded t =
     (case t of
        IntegerType b m \<Rightarrow> Inr (if padded then 32 else b div 8)
      | FixedPointType b d m \<Rightarrow> Inr (if padded then 32 else b div 8)
      | FixedBytesType k \<Rightarrow> Inr (if padded \<and> k > 0 then 32 else k)
      | BoolType \<Rightarrow> Inr (if padded then 32 else 1)
      | ArrayType l p k base dyn len \<Rightarrow>
          if dyn then Inr 32
          else bindR (if isByteArray k then Inr 1 else calldataEncodedSize env n padded base) (\<lambda>m.
            let size = roundUp32 (len * m) in assertThrow (size \<le> 2 ^ 32 - 1) SolAssert (Inr size))
      | ContractType c super \<Rightarrow> assertThrow (\<not> super) SolAssert (Inr (if padded then 32 else 20))
      | EnumType e \<Rightarrow> Inr (if padded then 32 else enumBytes env e)
      | StructType s l p \<Rightarrow>
          (case n of
             0 \<Rightarrow> Inl SolAssert
           | Suc n' \<Rightarrow>
               let ms = structMembers env s l
               in bindR (foldr (\<lambda>(name, t) rest.
                           if \<not> canLiveOutsideStorage t then Inr None
                           else bindR (calldataEncodedSize env n' padded t) (\<lambda>m.
                             if m = 0 then Inr None
                             else bindR rest (\<lambda>r. Inr (map_option (\<lambda>k. m + k) r)))) ms (Inr (Some 0))) (\<lambda>total.
                    Inr (case total of None \<Rightarrow> 0 | Some k \<Rightarrow> k mod 2 ^ 32)))
      | FunctionType ps rs k a \<Rightarrow>
          bindR (storageBytes env t) (\<lambda>m. Inr (if padded then roundUp32 m else m))
      | InaccessibleDynamicType \<Rightarrow> Inr 32
      | _ \<Rightarrow> Inr 0)"
  by pat_completeness auto

termination by (relation "measures [\<lambda>(env, n, padded, t). n, \<lambda>(env, n, padded, t). size t]") auto

declare calldataEncodedSize.simps [simp del]

text \<open>
  Whether a type is encoded dynamically. For structs the members in memory count, which is defined for
  structs that are not recursive.
\<close>

function isDynamicallyEncoded :: "TypeEnv \<Rightarrow> nat \<Rightarrow> Type \<Rightarrow> bool res" where
  "isDynamicallyEncoded env n t =
     (case t of
        ArrayType l p k base dyn len \<Rightarrow> if dyn then Inr True else isDynamicallyEncoded env n base
      | StructType s l p \<Rightarrow>
          (case n of
             0 \<Rightarrow> Inl SolAssert
           | Suc n' \<Rightarrow>
               foldr (\<lambda>(name, t) rest. bindR (isDynamicallyEncoded env n' t) (\<lambda>b. if b then Inr True else rest))
                 (structMembers env s Memory) (Inr False))
      | _ \<Rightarrow> Inr False)"
  by pat_completeness auto

termination by (relation "measures [\<lambda>(env, n, t). n, \<lambda>(env, n, t). size t]") auto

declare isDynamicallyEncoded.simps [simp del]

end
