(* ===== verification/TypeFacts.thy ===== *)
theory TypeFacts
  imports SolidityTypes
begin

text \<open>
  What the conversions between numbers, the smallest type of a constant and the layout of storage
  guarantee: the numbers a type holds, and the bytes of storage a member occupies.
\<close>

section \<open>Values of numeric types\<close>

definition validInteger :: "nat \<Rightarrow> IntegerModifier \<Rightarrow> bool" where
  "validInteger b m \<longleftrightarrow> 0 < b \<and> b \<le> 256 \<and> b mod 8 = 0 \<and> (isAddress m \<longrightarrow> b = 160)"

text \<open>The numbers a type can hold.\<close>

fun typeValues :: "Type \<Rightarrow> rat set" where
  "typeValues (IntegerType b m) = of_int ` {minValue b m .. maxValue b m}"
| "typeValues (FixedPointType b d SignedFixed) = (\<lambda>k. of_int k / 10 ^ d) ` {- (2 ^ (b - 1)) .. 2 ^ (b - 1) - 1}"
| "typeValues (FixedPointType b d UnsignedFixed) = (\<lambda>k. of_int k / 10 ^ d) ` {0 .. 2 ^ b - 1}"
| "typeValues t = {}"

lemma power_le_iff: "(2 :: int) ^ a \<le> 2 ^ b \<longleftrightarrow> a \<le> b"
  by simp

lemma subset_range:
  assumes "lo \<le> (hi :: int)"
  shows "(of_int ` {lo..hi} :: rat set) \<subseteq> of_int ` {lo'..hi'} \<longleftrightarrow> lo' \<le> lo \<and> hi \<le> hi'"
proof -
  have "(of_int ` {lo..hi} :: rat set) \<subseteq> of_int ` {lo'..hi'} \<longleftrightarrow> {lo..hi} \<subseteq> {lo'..hi'}"
    by (rule inj_image_subset_iff) (simp add: inj_on_def)
  then show ?thesis using assms by auto
qed

lemma range_not_empty: "0 < b \<Longrightarrow> minValue b m \<le> maxValue b m"
  by (auto simp: minValue_def maxValue_def)

lemma integer_subset_iff:
  assumes "validInteger b m" "validInteger b' m'" "\<not> isAddress m"
  shows "integerConvertible b m (IntegerType b' m') \<longleftrightarrow> typeValues (IntegerType b m) \<subseteq> typeValues (IntegerType b' m')"
proof -
  have pos: "0 < b" "0 < b'" using assms by (auto simp: validInteger_def)
  have "typeValues (IntegerType b m) \<subseteq> typeValues (IntegerType b' m') \<longleftrightarrow>
      minValue b' m' \<le> minValue b m \<and> maxValue b m \<le> maxValue b' m'"
    using range_not_empty [OF pos(1)] by (simp add: subset_range)
  also have "\<dots> \<longleftrightarrow> integerConvertible b m (IntegerType b' m')"
  proof -
    have below: "(2 :: int) ^ i - 1 < 2 ^ j \<longleftrightarrow> i \<le> j" for i j
      using power_le_iff [of i j] by linarith
    have shifted: "b \<le> b' - Suc 0 \<longleftrightarrow> b < b'" "b - Suc 0 \<le> b' - Suc 0 \<longleftrightarrow> b \<le> b'" using pos by auto
    have p: "(0 :: int) < 2 ^ (b - 1)" "(0 :: int) < 2 ^ (b' - 1)" by simp_all
    show ?thesis
      using assms(3) p
      by (cases m; cases m')
        (auto simp: integerConvertible_def minValue_def maxValue_def isSigned_def isAddress_def below shifted)
  qed
  finally show ?thesis by simp
qed

text \<open>A multiple of a positive number against the truncated bounds.\<close>

lemma le_truncDiv: "0 \<le> a \<Longrightarrow> 0 < c \<Longrightarrow> v \<le> truncDiv a c \<longleftrightarrow> v * c \<le> a"
proof -
  assume "0 \<le> a" "0 < c"
  then have "truncDiv a c = a div c" by (cases "a = 0") (simp_all add: truncDiv_def)
  moreover have "v \<le> a div c \<longleftrightarrow> v * c \<le> a"
  proof
    assume "v \<le> a div c"
    then have "v * c \<le> a div c * c" using \<open>0 < c\<close> by (simp add: mult_right_mono)
    also have "\<dots> \<le> a" using \<open>0 < c\<close> by (simp add: minus_mod_eq_div_mult [symmetric])
    finally show "v * c \<le> a" .
  next
    assume "v * c \<le> a"
    from zdiv_mono1 [OF this \<open>0 < c\<close>] show "v \<le> a div c" using \<open>0 < c\<close> by simp
  qed
  ultimately show ?thesis by simp
qed

lemma truncDiv_le: "0 \<le> a \<Longrightarrow> 0 < c \<Longrightarrow> truncDiv (- a) c \<le> v \<longleftrightarrow> - a \<le> v * c"
proof -
  assume a: "0 \<le> a" "0 < c"
  then have "truncDiv (- a) c = - truncDiv a c" by (simp add: truncDiv_def sgn_minus)
  then show ?thesis using le_truncDiv [OF a, of "- v"] by auto
qed

lemma scaled_mem: "(of_int v :: rat) \<in> (\<lambda>k. of_int k / 10 ^ d) ` {lo..hi} \<longleftrightarrow> lo \<le> v * 10 ^ d \<and> v * 10 ^ d \<le> hi"
proof -
  have "(of_int v :: rat) = of_int k / 10 ^ d \<longleftrightarrow> k = v * 10 ^ d" for k
  proof -
    have "(of_int v :: rat) = of_int k / 10 ^ d \<longleftrightarrow> (of_int (v * 10 ^ d) :: rat) = of_int k"
      by (simp add: field_simps)
    also have "\<dots> \<longleftrightarrow> k = v * 10 ^ d" unfolding of_int_eq_iff by auto
    finally show ?thesis .
  qed
  then show ?thesis by (auto simp: image_iff)
qed

lemma fixed_mem:
  assumes "0 < b"
  shows "of_int v \<in> typeValues (FixedPointType b d m) \<longleftrightarrow> minIntegerValue b d m \<le> v \<and> v \<le> maxIntegerValue b d m"
proof -
  have p: "(0 :: int) \<le> 2 ^ b - 1" "(0 :: int) \<le> 2 ^ (b - 1) - 1" "(0 :: int) \<le> 2 ^ (b - 1)" "(0 :: int) < 10 ^ d" by simp_all
  have nonneg: "0 \<le> v * 10 ^ d \<longleftrightarrow> 0 \<le> v" by (simp add: zero_le_mult_iff) (smt (verit) zero_less_power)
  show ?thesis
  proof (cases m)
    case UnsignedFixed
    then show ?thesis
      using le_truncDiv [OF p(1,4)] nonneg by (simp add: scaled_mem minIntegerValue_def maxIntegerValue_def)
  next
    case SignedFixed
    then show ?thesis
      using le_truncDiv [OF p(2,4)] truncDiv_le [OF p(3,4)] by (simp add: scaled_mem minIntegerValue_def maxIntegerValue_def)
  qed
qed

lemma integer_subset_fixed_iff:
  assumes "validInteger b m" "\<not> isAddress m" "0 < b'"
  shows "integerConvertible b m (FixedPointType b' d' m') \<longleftrightarrow> typeValues (IntegerType b m) \<subseteq> typeValues (FixedPointType b' d' m')"
proof -
  have "minValue b m \<le> maxValue b m" using assms(1) by (auto simp: validInteger_def range_not_empty)
  then have "typeValues (IntegerType b m) \<subseteq> typeValues (FixedPointType b' d' m') \<longleftrightarrow>
      minIntegerValue b' d' m' \<le> minValue b m \<and> maxValue b m \<le> maxIntegerValue b' d' m'"
    by (force simp: image_subset_iff fixed_mem [OF assms(3)] simp del: typeValues.simps(2,3))
  then show ?thesis using assms(2) by (auto simp: integerConvertible_def)
qed

section \<open>Constants\<close>

lemma denominator_one: "\<not> isFractional v \<longleftrightarrow> v = of_int (numerator v)"
proof -
  obtain p q where q: "quotient_of v = (p, q)" by (cases "quotient_of v")
  then have v: "v = of_int p / of_int q" "0 < q" "coprime p q"
    by (simp_all add: quotient_of_div quotient_of_denom_pos quotient_of_coprime)
  show ?thesis
  proof
    assume "\<not> isFractional v"
    then have "q = 1" using q by (simp add: isFractional_def denominator_def)
    then show "v = of_int (numerator v)" using q v(1) by (simp add: numerator_def)
  next
    assume "v = of_int (numerator v)"
    then have "quotient_of v = (numerator v, 1)" by (metis quotient_of_rat_of_int)
    then show "\<not> isFractional v" by (simp add: isFractional_def denominator_def)
  qed
qed

lemma numerator_of_int [simp]: "numerator (of_int k) = k" "denominator (of_int k) = 1" "\<not> isFractional (of_int k)"
  by (simp_all add: numerator_def denominator_def isFractional_def)

lemma mask_bound:
  assumes "validInteger b m"
  shows "(2 ^ 256 - 1) div (2 :: int) ^ (256 - b + (if isSigned m then 1 else 0)) = maxValue b m"
proof -
  let ?s = "if isSigned m then 1 else 0 :: nat"
  have b: "?s \<le> b" "b \<le> 256" using assms by (auto simp: validInteger_def)
  let ?e = "256 - b + ?s"
  have e: "?e \<le> 256" "256 - ?e = b - ?s" using b by auto
  have "(2 :: int) ^ 256 = 2 ^ ?e * 2 ^ (256 - ?e)" using e(1) by (metis le_add_diff_inverse power_add)
  then have "(2 ^ 256 - 1) div (2 :: int) ^ ?e = (2 ^ ?e * 2 ^ (b - ?s) - 1) div 2 ^ ?e" using e by simp
  also have "\<dots> = (2 ^ ?e * (2 ^ (b - ?s) - 1) + (2 ^ ?e - 1)) div 2 ^ ?e" by (simp add: algebra_simps)
  also have "\<dots> = 2 ^ (b - ?s) - 1" by (simp add: div_mult_self4)
  finally show ?thesis by (simp add: maxValue_def)
qed

lemma constant_convertible_iff:
  assumes "validInteger b m"
  shows "rationalConvertible v (IntegerType b m) \<longleftrightarrow> v \<in> typeValues (IntegerType b m)"
proof (cases "isFractional v")
  case True
  then have "v \<noteq> of_int k" for k by (metis numerator_of_int(3))
  moreover from this [of 0] have "v \<noteq> 0" by simp
  ultimately show ?thesis using True by (auto simp: rationalConvertible_def)
next
  case False
  then obtain k where v: "v = of_int k" using denominator_one by blast
  have pos: "0 < b" using assms by (simp add: validInteger_def)
  have zero: "minValue b m \<le> 0" "0 \<le> maxValue b m" using range_not_empty [OF pos, of m] by (auto simp: minValue_def maxValue_def)
  have mem: "v \<in> typeValues (IntegerType b m) \<longleftrightarrow> minValue b m \<le> k \<and> k \<le> maxValue b m" by (auto simp: v)
  consider "k = 0" | "0 < k" | "k < 0" by linarith
  then show ?thesis
  proof cases
    case 1
    then show ?thesis using zero mem by (simp add: rationalConvertible_def v)
  next
    case 2
    then show ?thesis using zero(1) mem mask_bound [OF assms]
      by (simp add: rationalConvertible_def v Let_def)
  next
    case 3
    then show ?thesis using zero(2) mem
      by (auto simp: rationalConvertible_def v Let_def minValue_def)
  qed
qed

subsection \<open>The smallest type of a constant\<close>

lemma bytes_iff: "bytesRequired n \<le> j \<longleftrightarrow> n < 2 ^ (8 * j)"
  by (simp add: bytesRequired_le_iff power_mult)

lemma smallest_bytes:
  assumes "n < 2 ^ 256"
  shows "validInteger (max (bytesRequired n) 1 * 8) m \<or> isAddress m" "n < 2 ^ (max (bytesRequired n) 1 * 8)"
    "validInteger b m' \<Longrightarrow> n < 2 ^ b \<Longrightarrow> max (bytesRequired n) 1 * 8 \<le> b"
proof -
  let ?b = "max (bytesRequired n) 1"
  have "bytesRequired n \<le> 32" using assms bytes_iff [of n 32] by simp
  then show "validInteger (?b * 8) m \<or> isAddress m" by (auto simp: validInteger_def)
  show "n < 2 ^ (?b * 8)" using bytes_iff [of n ?b] by (simp add: mult.commute)
  assume b: "validInteger b m'" "n < 2 ^ b"
  then obtain j where j: "b = 8 * j" "0 < j" unfolding validInteger_def by (metis dvd_eq_mod_eq_0 dvd_def gr0I mult_0_right)
  then show "?b * 8 \<le> b" using b(2) bytes_iff [of n j] by simp
qed

lemma int_below: "0 \<le> k \<Longrightarrow> k < 2 ^ b \<longleftrightarrow> nat k < 2 ^ b" for k :: int
  by (simp add: nat_less_iff)

lemma mem_unsigned: "0 \<le> k \<Longrightarrow> of_int k \<in> typeValues (IntegerType b UnsignedInt) \<longleftrightarrow> nat k < 2 ^ b"
  by (auto simp: minValue_def maxValue_def isSigned_def int_below [symmetric])

lemma mem_signed:
  assumes "k < 0" "0 < b"
  shows "of_int k \<in> typeValues (IntegerType b SignedInt) \<longleftrightarrow> nat ((0 - k - 1) * 2) < 2 ^ b"
proof -
  obtain c where c: "b = Suc c" using assms(2) by (cases b) auto
  have "(0 - k - 1) * 2 < 2 ^ b \<longleftrightarrow> - (2 ^ c) \<le> k" by (auto simp: c)
  moreover have "k \<le> 2 ^ c - 1" using assms(1) by (smt (verit) zero_less_power)
  ultimately show ?thesis
    using assms(1) int_below [of "(0 - k - 1) * 2" b] by (auto simp: minValue_def maxValue_def isSigned_def c)
qed

lemma integerType_smallest:
  fixes k :: int
  shows "case integerType (of_int k) of
      None \<Rightarrow> k \<ge> 2 ^ 256 \<or> k < - (2 ^ 255)
    | Some t \<Rightarrow> \<exists>b m. t = IntegerType b m \<and> validInteger b m \<and> isSigned m = (k < 0) \<and> \<not> isAddress m \<and>
        of_int k \<in> typeValues t \<and>
        (\<forall>b'. validInteger b' m \<and> of_int k \<in> typeValues (IntegerType b' m) \<longrightarrow> b \<le> b')"
proof (cases "k < 0")
  case False
  then show ?thesis
  proof (cases "k \<ge> 2 ^ 256")
    case True
    with False show ?thesis by (simp add: integerType_def Let_def)
  next
    case small: False
    then have n: "nat k < 2 ^ 256" using False by (simp add: nat_less_iff)
    let ?b = "max (bytesRequired (nat k)) 1 * 8"
    have "integerType (of_int k) = Some (IntegerType ?b UnsignedInt)"
      using False small by (simp add: integerType_def Let_def)
    moreover have "validInteger ?b UnsignedInt" using smallest_bytes(1) [OF n, of UnsignedInt] by (simp add: isAddress_def)
    ultimately show ?thesis
      using False smallest_bytes(2,3) [OF n] mem_unsigned [of k]
      by (auto simp: isSigned_def isAddress_def simp del: typeValues.simps)
  qed
next
  case neg: True
  let ?w = "(0 - k - 1) * 2"
  show ?thesis
  proof (cases "?w > 2 ^ 256 - 1")
    case True
    with neg show ?thesis by (simp add: integerType_def Let_def)
  next
    case small: False
    then have n: "nat ?w < 2 ^ 256" using neg by (simp add: nat_less_iff)
    let ?b = "max (bytesRequired (nat ?w)) 1 * 8"
    have "integerType (of_int k) = Some (IntegerType ?b SignedInt)"
      using neg small by (simp add: integerType_def Let_def)
    moreover have "validInteger ?b SignedInt" using smallest_bytes(1) [OF n, of SignedInt] by (simp add: isAddress_def)
    moreover have "of_int k \<in> typeValues (IntegerType b SignedInt) \<longleftrightarrow> nat ?w < 2 ^ b" if "validInteger b m" for b m
      using that mem_signed [OF neg, of b] by (auto simp: validInteger_def simp del: typeValues.simps)
    ultimately show ?thesis
      using neg smallest_bytes(2,3) [OF n] by (auto simp: isSigned_def isAddress_def simp del: typeValues.simps)
  qed
qed

section \<open>Storage layout\<close>

text \<open>
  The bytes of storage a shape occupies start its position on, and the shapes types have: at most 32
  bytes, and whole slots when they need more than one.
\<close>

definition extent :: "StorageShape \<Rightarrow> nat" where
  "extent sh =
     (case (sh_storageBytes sh, sh_storageSize sh) of
        (Inr n, Inr k) \<Rightarrow> if k = 1 then n else 32 * k
      | _ \<Rightarrow> 0)"

definition properShape :: "StorageShape \<Rightarrow> bool" where
  "properShape sh \<longleftrightarrow>
     (\<forall>n. sh_storageBytes sh = Inr n \<longrightarrow> 0 < n \<and> n \<le> 32 \<and> (\<forall>k. sh_storageSize sh = Inr k \<longrightarrow> k = 1 \<or> n = 32))"

definition place :: "nat \<times> nat \<times> nat \<Rightarrow> nat" where
  "place e = (case e of (i, slot, byte) \<Rightarrow> 32 * slot + byte)"

definition laidOut :: "(nat \<Rightarrow> StorageShape) \<Rightarrow> nat \<Rightarrow> nat \<Rightarrow> (nat \<times> nat \<times> nat) list \<Rightarrow> bool" where
  "laidOut f start limit es \<longleftrightarrow>
     sorted_wrt (\<lambda>d e. place d + extent (f (fst d)) \<le> place e) es \<and>
     (\<forall>e\<in>set es. start \<le> place e \<and> place e + extent (f (fst e)) \<le> limit \<and>
        (case e of (i, slot, byte) \<Rightarrow> byte < 32 \<and> (\<forall>n. sh_storageBytes (f i) = Inr n \<longrightarrow> byte + n \<le> 32)))"

lemma laidOut_mono: "laidOut f start limit es \<Longrightarrow> start' \<le> start \<Longrightarrow> laidOut f start' limit es"
  by (fastforce simp: laidOut_def)

lemma placeTypes_laidOut:
  assumes "placeTypes i shs slot byte = Inr (es, slot', byte')" "list_all (\<lambda>sh. sh_canBeStored sh \<longrightarrow> properShape sh) shs"
    "byte \<le> 32" "\<And>j. j < length shs \<Longrightarrow> f (i + j) = shs ! j"
  shows "laidOut f (32 * slot + byte) (32 * slot' + byte') es \<and> 32 * slot + byte \<le> 32 * slot' + byte' \<and> byte' \<le> 32 \<and>
    map fst es = filter (\<lambda>j. sh_canBeStored (f j)) [i..<i + length shs]"
  using assms
proof (induction shs arbitrary: i slot byte es)
  case Nil
  then show ?case by (simp add: laidOut_def)
next
  case (Cons sh shs)
  have f: "f i = sh" "\<And>j. j < length shs \<Longrightarrow> f (Suc i + j) = shs ! j"
    using Cons.prems(4) [of 0] Cons.prems(4) [of "Suc j" for j] by auto
  have up: "[i..<i + length (sh # shs)] = i # [Suc i..<Suc i + length shs]" by (simp add: upt_rec)
  show ?case
  proof (cases "sh_canBeStored sh")
    case False
    with Cons.prems(1) have p: "placeTypes (Suc i) shs slot byte = Inr (es, slot', byte')" by simp
    from Cons.prems(2) have ps: "list_all (\<lambda>sh. sh_canBeStored sh \<longrightarrow> properShape sh) shs" by simp
    show ?thesis using Cons.IH [OF p ps Cons.prems(3) f(2)] False f(1) unfolding up by simp
  next
    case True
    from Cons.prems(1) True obtain n k s b es' sl by1 where e: "sh_storageBytes sh = Inr n"
      "(s, b) = (if byte + n > 32 then (slot + 1, 0) else (slot, byte))" "sh_storageSize sh = Inr k" "k \<ge> 1"
      "(sl, by1) = (if k = 1 \<and> b + n \<le> 32 then (s, b + n) else (s + k, 0))"
      "placeTypes (Suc i) shs sl by1 = Inr (es', slot', byte')" "es = (i, s, b) # es'"
      by (auto simp: assertThrow_def Let_def split: prod.splits if_splits)
    from Cons.prems(2) True have proper: "0 < n" "n \<le> 32" "k = 1 \<or> n = 32" using e(1,3) by (auto simp: properShape_def)
    have b: "b + n \<le> 32" "32 * slot + byte \<le> 32 * s + b" using e(2) proper Cons.prems(3) by (auto split: if_splits)
    have by1: "by1 \<le> 32" "32 * s + b + extent sh \<le> 32 * sl + by1"
      using e(1,3,5) b proper by (auto simp: extent_def split: if_splits)
    from Cons.IH [OF e(6) _ by1(1) f(2)] Cons.prems(2)
    have IH: "laidOut f (32 * sl + by1) (32 * slot' + byte') es'" "32 * sl + by1 \<le> 32 * slot' + byte'" "byte' \<le> 32"
      "map fst es' = filter (\<lambda>j. sh_canBeStored (f j)) [Suc i..<Suc i + length shs]" by auto
    have "b < 32" using b(1) proper(1) by simp
    then have head: "case (i, s, b) of (i, slot, byte) \<Rightarrow> byte < 32 \<and> (\<forall>n. sh_storageBytes (f i) = Inr n \<longrightarrow> byte + n \<le> 32)"
      using b(1) e(1) f(1) by simp
    have place: "place (i, s, b) = 32 * s + b" by (simp add: place_def)
    have "laidOut f (32 * slot + byte) (32 * slot' + byte') ((i, s, b) # es')"
      using IH(1,2) by1(2) b(2) head place f(1) by (fastforce simp: laidOut_def)
    then show ?thesis using IH(2-4) by1(2) b(2) f(1) True unfolding up e(7) by simp
  qed
qed

theorem computeOffsets_laidOut:
  assumes "computeOffsets shs = Inr so" "list_all (\<lambda>sh. sh_canBeStored sh \<longrightarrow> properShape sh) shs"
  shows "laidOut (\<lambda>i. shs ! i) 0 (32 * so_storageSize so) (so_offsets so)"
    "map fst (so_offsets so) = filter (\<lambda>i. sh_canBeStored (shs ! i)) [0..<length shs]"
proof -
  from assms(1) obtain es slot byte where p: "placeTypes 0 shs 0 0 = Inr (es, slot, byte)"
    "so = \<lparr>so_storageSize = (if byte > 0 then slot + 1 else slot), so_offsets = es\<rparr>"
    by (auto simp: computeOffsets_def assertThrow_def Let_def split: prod.splits if_splits)
  from placeTypes_laidOut [OF p(1) assms(2), of "\<lambda>i. shs ! i"]
  have l: "laidOut (\<lambda>i. shs ! i) 0 (32 * slot + byte) es" "byte \<le> 32"
    "map fst es = filter (\<lambda>i. sh_canBeStored (shs ! i)) [0..<length shs]" by auto
  have "32 * slot + byte \<le> 32 * so_storageSize so" using l(2) p(2) by simp
  then show "laidOut (\<lambda>i. shs ! i) 0 (32 * so_storageSize so) (so_offsets so)"
    using l(1) p(2) by (fastforce simp: laidOut_def)
  show "map fst (so_offsets so) = filter (\<lambda>i. sh_canBeStored (shs ! i)) [0..<length shs]" using l(3) p(2) by simp
qed

text \<open>The shapes of the types of the language are proper.\<close>

definition storableType :: "TypeEnv \<Rightarrow> Type \<Rightarrow> bool" where
  "storableType env t =
     (case t of
        IntegerType b m \<Rightarrow> validInteger b m
      | FixedPointType b d m \<Rightarrow> 8 \<le> b \<and> b \<le> 256
      | FixedBytesType n \<Rightarrow> 0 < n \<and> n \<le> 32
      | EnumType e \<Rightarrow> te_numberOfMembers env e \<le> 2 ^ 256
      | _ \<Rightarrow> True)"

lemma enumBytes_bounds: "te_numberOfMembers env e \<le> 2 ^ 256 \<Longrightarrow> 0 < enumBytes env e \<and> enumBytes env e \<le> 32"
  using bytes_iff [of "te_numberOfMembers env e - 1" 32] bytesRequired_pos [of "te_numberOfMembers env e - 1"]
  by (auto simp: enumBytes_def Let_def)

lemma typeShape_proper: "storableType env t \<Longrightarrow> sh_canBeStored (typeShape env n t) \<longrightarrow> properShape (typeShape env n t)"
  using enumBytes_bounds [of env]
  by (cases t) (auto simp: typeShape_def properShape_def storableType_def validInteger_def storageSize.simps assertThrow_def)

end
