(* ===== verification/SolidityAst.thy ===== *)
theory SolidityAst
  imports SolidityTypes AssemblyItems
begin

text \<open>
  Model of the syntax tree in libsolidity/ast/AST.h with the annotations the analyses read, and of its
  traversal in AST_accept.h. Nodes carry their identifier and location; a pointer to another node is
  its identifier; a type annotation that is not set is \<open>None\<close>. Of the scope of a variable only what its
  predicates read is kept. The operations of inline assembly are not part of the tree.
\<close>

section \<open>Nodes\<close>

record NodeInfo =
  n_id :: nat
  n_location :: SourceLocation

datatype Visibility = DefaultVisibility | PrivateVisibility | InternalVisibility | PublicVisibility | ExternalVisibility

datatype VariableLocation = DefaultLocation | StorageLocation | MemoryLocation

datatype Scope = NoScope | CallableScope "nat list" "nat list" | BlockScope | ForScope | OtherScope

record ExpressionInfo = NodeInfo +
  e_type :: "Type option"

record VariableInfo = NodeInfo +
  v_name :: string
  v_visibility :: Visibility
  v_isStateVariable :: bool
  v_isIndexed :: bool
  v_isConstant :: bool
  v_location :: VariableLocation
  v_type :: "Type option"
  v_scope :: Scope

datatype Expression =
    Conditional ExpressionInfo Expression Expression Expression
  | Assignment ExpressionInfo Expression Token Expression
  | TupleExpression ExpressionInfo "Expression option list" bool
  | UnaryOperation ExpressionInfo Token Expression bool
  | BinaryOperation ExpressionInfo Expression Token Expression
  | FunctionCall ExpressionInfo Expression "Expression list" "string list"
  | NewExpression ExpressionInfo TypeName
  | MemberAccess ExpressionInfo Expression string
  | IndexAccess ExpressionInfo Expression "Expression option"
  | Identifier ExpressionInfo string "nat option"
  | ElementaryTypeNameExpression ExpressionInfo ElementaryTypeNameToken
  | Literal ExpressionInfo Token string Token
and TypeName =
    ElementaryTypeName NodeInfo ElementaryTypeNameToken
  | UserDefinedTypeName NodeInfo "string list"
  | FunctionTypeName NodeInfo ParameterList ParameterList Visibility StateMutability
  | MappingName NodeInfo TypeName TypeName
  | ArrayTypeName NodeInfo TypeName "Expression option"
and ParameterList = ParameterList NodeInfo "VariableDeclaration list"
and VariableDeclaration = VariableDeclaration VariableInfo "TypeName option" "Expression option"

datatype Statement =
    InlineAssembly NodeInfo
  | Block NodeInfo "Statement list"
  | PlaceholderStatement NodeInfo
  | IfStatement NodeInfo Expression Statement "Statement option"
  | WhileStatement NodeInfo Expression Statement bool
  | ForStatement NodeInfo "Statement option" "Expression option" "Statement option" Statement
  | Continue NodeInfo
  | Break NodeInfo
  | Return NodeInfo "Expression option"
  | Throw NodeInfo
  | EmitStatement NodeInfo Expression
  | VariableDeclarationStatement NodeInfo "VariableDeclaration option list" "Expression option"
  | ExpressionStatement NodeInfo Expression

record ModifierInvocation = NodeInfo +
  mi_name :: Expression
  mi_arguments :: "Expression list option"

record InheritanceSpecifier = NodeInfo +
  is_baseName :: TypeName
  is_arguments :: "Expression list option"

record FunctionDefinition = NodeInfo +
  fd_name :: string
  fd_visibility :: Visibility
  fd_stateMutability :: StateMutability
  fd_isConstructor :: bool
  fd_parameters :: ParameterList
  fd_modifiers :: "ModifierInvocation list"
  fd_returnParameters :: ParameterList
  fd_body :: "Statement option"

record ModifierDefinition = NodeInfo +
  md_name :: string
  md_parameters :: ParameterList
  md_body :: Statement

record EventDefinition = NodeInfo +
  ed_name :: string
  ed_parameters :: ParameterList
  ed_anonymous :: bool

record StructDefinition = NodeInfo +
  sd_name :: string
  sd_members :: "VariableDeclaration list"

record EnumValue = NodeInfo +
  ev_name :: string

record EnumDefinition = NodeInfo +
  en_name :: string
  en_members :: "EnumValue list"

record UsingForDirective = NodeInfo +
  uf_libraryName :: TypeName
  uf_typeName :: "TypeName option"

record PragmaDirective = NodeInfo +
  pr_tokens :: "Token list"
  pr_literals :: "string list"

record ImportDirective = NodeInfo +
  im_path :: string
  im_unitAlias :: string
  im_symbolAliases :: "(Expression \<times> string option) list"

datatype ContractKind = Interface | Contract | Library

datatype SubNode =
    FunctionNode FunctionDefinition
  | VariableNode VariableDeclaration
  | ModifierNode ModifierDefinition
  | EventNode EventDefinition
  | StructNode StructDefinition
  | EnumNode EnumDefinition
  | UsingForNode UsingForDirective

record ContractDefinition = NodeInfo +
  cd_name :: string
  cd_baseContracts :: "InheritanceSpecifier list"
  cd_subNodes :: "SubNode list"
  cd_contractKind :: ContractKind

datatype SourceNode =
    PragmaNode PragmaDirective
  | ImportNode ImportDirective
  | ContractNode ContractDefinition

record SourceUnit = NodeInfo +
  su_nodes :: "SourceNode list"

subsection \<open>Access\<close>

primrec expressionInfo :: "Expression \<Rightarrow> ExpressionInfo" where
  "expressionInfo (Conditional i _ _ _) = i"
| "expressionInfo (Assignment i _ _ _) = i"
| "expressionInfo (TupleExpression i _ _) = i"
| "expressionInfo (UnaryOperation i _ _ _) = i"
| "expressionInfo (BinaryOperation i _ _ _) = i"
| "expressionInfo (FunctionCall i _ _ _) = i"
| "expressionInfo (NewExpression i _) = i"
| "expressionInfo (MemberAccess i _ _) = i"
| "expressionInfo (IndexAccess i _ _) = i"
| "expressionInfo (Identifier i _ _) = i"
| "expressionInfo (ElementaryTypeNameExpression i _) = i"
| "expressionInfo (Literal i _ _ _) = i"

definition expressionType :: "Expression \<Rightarrow> Type option" where
  "expressionType e = e_type (expressionInfo e)"

definition e_location :: "Expression \<Rightarrow> SourceLocation" where
  "e_location e = n_location (expressionInfo e)"

primrec statementInfo :: "Statement \<Rightarrow> NodeInfo" where
  "statementInfo (InlineAssembly i) = i"
| "statementInfo (Block i _) = i"
| "statementInfo (PlaceholderStatement i) = i"
| "statementInfo (IfStatement i _ _ _) = i"
| "statementInfo (WhileStatement i _ _ _) = i"
| "statementInfo (ForStatement i _ _ _ _) = i"
| "statementInfo (Continue i) = i"
| "statementInfo (Break i) = i"
| "statementInfo (Return i _) = i"
| "statementInfo (Throw i) = i"
| "statementInfo (EmitStatement i _) = i"
| "statementInfo (VariableDeclarationStatement i _ _) = i"
| "statementInfo (ExpressionStatement i _) = i"

primrec parameters :: "ParameterList \<Rightarrow> VariableDeclaration list" where
  "parameters (ParameterList i vs) = vs"

primrec variableInfo :: "VariableDeclaration \<Rightarrow> VariableInfo" where
  "variableInfo (VariableDeclaration i t v) = i"

text \<open>\<open>visibility()\<close> of a variable: internal when it is not given.\<close>

definition v_effectiveVisibility :: "VariableInfo \<Rightarrow> Visibility" where
  "v_effectiveVisibility i = (if v_visibility i = DefaultVisibility then InternalVisibility else v_visibility i)"

definition isLocalVariable :: "VariableInfo \<Rightarrow> bool" where
  "isLocalVariable i = (case v_scope i of CallableScope _ _ \<Rightarrow> True | BlockScope \<Rightarrow> True | ForScope \<Rightarrow> True | _ \<Rightarrow> False)"

definition isCallableParameter :: "VariableInfo \<Rightarrow> bool" where
  "isCallableParameter i =
     (case v_scope i of CallableScope ps rs \<Rightarrow> n_id i \<in> set ps \<or> n_id i \<in> set rs | _ \<Rightarrow> False)"

definition isReturnParameter :: "VariableInfo \<Rightarrow> bool" where
  "isReturnParameter i = (case v_scope i of CallableScope ps rs \<Rightarrow> n_id i \<in> set rs | _ \<Rightarrow> False)"

definition isLocalOrReturn :: "VariableInfo \<Rightarrow> bool" where
  "isLocalOrReturn i \<longleftrightarrow> isReturnParameter i \<or> (isLocalVariable i \<and> \<not> isCallableParameter i)"

definition canHaveAutoType :: "VariableInfo \<Rightarrow> bool" where
  "canHaveAutoType i \<longleftrightarrow> isLocalVariable i \<and> \<not> isCallableParameter i"

definition isImplemented :: "FunctionDefinition \<Rightarrow> bool" where
  "isImplemented f \<longleftrightarrow> fd_body f \<noteq> None"

definition isFallback :: "FunctionDefinition \<Rightarrow> bool" where
  "isFallback f \<longleftrightarrow> \<not> fd_isConstructor f \<and> fd_name f = []"

definition isOldStyleConstructor :: "FunctionDefinition \<Rightarrow> bool" where
  "isOldStyleConstructor f \<longleftrightarrow> fd_isConstructor f \<and> fd_name f \<noteq> []"

definition isPayable :: "FunctionDefinition \<Rightarrow> bool" where
  "isPayable f \<longleftrightarrow> fd_stateMutability f = Payable"

definition isLibrary :: "ContractDefinition \<Rightarrow> bool" where
  "isLibrary c \<longleftrightarrow> cd_contractKind c = Library"

definition definedFunctions :: "ContractDefinition \<Rightarrow> FunctionDefinition list" where
  "definedFunctions c = List.map_filter (\<lambda>n. case n of FunctionNode f \<Rightarrow> Some f | _ \<Rightarrow> None) (cd_subNodes c)"

definition stateVariables :: "ContractDefinition \<Rightarrow> VariableInfo list" where
  "stateVariables c =
     List.map_filter (\<lambda>n. case n of VariableNode v \<Rightarrow> Some (variableInfo v) | _ \<Rightarrow> None) (cd_subNodes c)"

definition namePath :: "TypeName \<Rightarrow> string list" where
  "namePath t = (case t of UserDefinedTypeName i p \<Rightarrow> p | _ \<Rightarrow> [])"

definition isHexNumber :: "Token \<Rightarrow> string \<Rightarrow> bool" where
  "isHexNumber token value \<longleftrightarrow> token = T_Number \<and> take 2 value = ''0x''"

definition looksLikeAddress :: "Token \<Rightarrow> string \<Rightarrow> Token \<Rightarrow> bool" where
  "looksLikeAddress token value sub \<longleftrightarrow>
     (if sub \<noteq> T_Illegal then False
      else if \<not> isHexNumber token value then False
      else \<bar>int (length value) - 42\<bar> \<le> 1)"

section \<open>Traversal\<close>

datatype Node =
    NExpression Expression
  | NTypeName TypeName
  | NParameterList ParameterList
  | NVariable VariableDeclaration
  | NStatement Statement
  | NModifierInvocation ModifierInvocation
  | NInheritanceSpecifier InheritanceSpecifier
  | NFunction FunctionDefinition
  | NModifier ModifierDefinition
  | NEvent EventDefinition
  | NStruct StructDefinition
  | NEnumValue EnumValue
  | NEnum EnumDefinition
  | NUsingFor UsingForDirective
  | NPragma PragmaDirective
  | NImport ImportDirective
  | NContract ContractDefinition
  | NSourceUnit SourceUnit

text \<open>
  A visitor: what it does before and after the children of a node; \<open>visit\<close> also says whether to go on
  to the children. Visits of if statements and blocks are given the \<open>accept\<close> of the children as well,
  since a visitor may traverse them itself.
\<close>

record 's Visitor =
  vi_visit :: "Node \<Rightarrow> 's \<Rightarrow> bool \<times> 's"
  vi_endVisit :: "Node \<Rightarrow> 's \<Rightarrow> 's"
  vi_visitIf :: "Statement \<Rightarrow> ('s \<Rightarrow> 's) \<Rightarrow> ('s \<Rightarrow> 's) \<Rightarrow> ('s \<Rightarrow> 's) option \<Rightarrow> 's \<Rightarrow> bool \<times> 's"
  vi_visitBlock :: "Statement \<Rightarrow> (Statement \<times> ('s \<Rightarrow> 's)) list \<Rightarrow> 's \<Rightarrow> bool \<times> 's"

definition around :: "'s Visitor \<Rightarrow> Node \<Rightarrow> ('s \<Rightarrow> 's) \<Rightarrow> 's \<Rightarrow> 's" where
  "around v n children s = (case vi_visit v n s of (go, s') \<Rightarrow> vi_endVisit v n (if go then children s' else s'))"

definition inOrder :: "('s \<Rightarrow> 's) list \<Rightarrow> 's \<Rightarrow> 's" where
  "inOrder fs s = fold (\<lambda>f s. f s) fs s"

definition optional :: "('s \<Rightarrow> 's) option \<Rightarrow> 's \<Rightarrow> 's" where
  "optional f s = (case f of None \<Rightarrow> s | Some g \<Rightarrow> g s)"

text \<open>The \<open>accept\<close> of if statements and of blocks, from the \<open>accept\<close> of their children.\<close>

definition aroundIf :: "'s Visitor \<Rightarrow> Statement \<Rightarrow> ('s \<Rightarrow> 's) \<Rightarrow> ('s \<Rightarrow> 's) \<Rightarrow> ('s \<Rightarrow> 's) option \<Rightarrow> 's \<Rightarrow> 's" where
  "aroundIf v st c t f s =
     (case vi_visitIf v st c t f s of (go, s') \<Rightarrow>
        vi_endVisit v (NStatement st) (if go then inOrder [c, t, optional f] s' else s'))"

definition aroundBlock :: "'s Visitor \<Rightarrow> Statement \<Rightarrow> (Statement \<times> ('s \<Rightarrow> 's)) list \<Rightarrow> 's \<Rightarrow> 's" where
  "aroundBlock v st sts s =
     (case vi_visitBlock v st sts s of (go, s') \<Rightarrow>
        vi_endVisit v (NStatement st) (if go then inOrder (map snd sts) s' else s'))"

primrec acceptExpression :: "'s Visitor \<Rightarrow> Expression \<Rightarrow> 's \<Rightarrow> 's"
  and acceptTypeName :: "'s Visitor \<Rightarrow> TypeName \<Rightarrow> 's \<Rightarrow> 's"
  and acceptParameterList :: "'s Visitor \<Rightarrow> ParameterList \<Rightarrow> 's \<Rightarrow> 's"
  and acceptVariable :: "'s Visitor \<Rightarrow> VariableDeclaration \<Rightarrow> 's \<Rightarrow> 's" where
  "acceptExpression v (Conditional i c t f) =
     around v (NExpression (Conditional i c t f))
       (inOrder [acceptExpression v c, acceptExpression v t, acceptExpression v f])"
| "acceptExpression v (Assignment i l op r) =
     around v (NExpression (Assignment i l op r)) (inOrder [acceptExpression v l, acceptExpression v r])"
| "acceptExpression v (TupleExpression i cs a) =
     around v (NExpression (TupleExpression i cs a)) (inOrder (map optional (map (map_option (acceptExpression v)) cs)))"
| "acceptExpression v (UnaryOperation i op e p) =
     around v (NExpression (UnaryOperation i op e p)) (inOrder [acceptExpression v e])"
| "acceptExpression v (BinaryOperation i l op r) =
     around v (NExpression (BinaryOperation i l op r)) (inOrder [acceptExpression v l, acceptExpression v r])"
| "acceptExpression v (FunctionCall i e args names) =
     around v (NExpression (FunctionCall i e args names)) (inOrder (acceptExpression v e # map (acceptExpression v) args))"
| "acceptExpression v (NewExpression i t) =
     around v (NExpression (NewExpression i t)) (inOrder [acceptTypeName v t])"
| "acceptExpression v (MemberAccess i e m) =
     around v (NExpression (MemberAccess i e m)) (inOrder [acceptExpression v e])"
| "acceptExpression v (IndexAccess i b x) =
     around v (NExpression (IndexAccess i b x))
       (inOrder [acceptExpression v b, optional (map_option (acceptExpression v) x)])"
| "acceptExpression v (Identifier i name d) = around v (NExpression (Identifier i name d)) (inOrder [])"
| "acceptExpression v (ElementaryTypeNameExpression i t) =
     around v (NExpression (ElementaryTypeNameExpression i t)) (inOrder [])"
| "acceptExpression v (Literal i tok val sub) = around v (NExpression (Literal i tok val sub)) (inOrder [])"
| "acceptTypeName v (ElementaryTypeName i t) = around v (NTypeName (ElementaryTypeName i t)) (inOrder [])"
| "acceptTypeName v (UserDefinedTypeName i p) = around v (NTypeName (UserDefinedTypeName i p)) (inOrder [])"
| "acceptTypeName v (FunctionTypeName i ps rs vis m) =
     around v (NTypeName (FunctionTypeName i ps rs vis m)) (inOrder [acceptParameterList v ps, acceptParameterList v rs])"
| "acceptTypeName v (MappingName i k t) =
     around v (NTypeName (MappingName i k t)) (inOrder [acceptTypeName v k, acceptTypeName v t])"
| "acceptTypeName v (ArrayTypeName i b x) =
     around v (NTypeName (ArrayTypeName i b x)) (inOrder [acceptTypeName v b, optional (map_option (acceptExpression v) x)])"
| "acceptParameterList v (ParameterList i vs) =
     around v (NParameterList (ParameterList i vs)) (inOrder (map (acceptVariable v) vs))"
| "acceptVariable v (VariableDeclaration i t e) =
     around v (NVariable (VariableDeclaration i t e))
       (inOrder [optional (map_option (acceptTypeName v) t), optional (map_option (acceptExpression v) e)])"

primrec acceptStatement :: "'s Visitor \<Rightarrow> Statement \<Rightarrow> 's \<Rightarrow> 's" where
  "acceptStatement v (InlineAssembly i) = around v (NStatement (InlineAssembly i)) (inOrder [])"
| "acceptStatement v (Block i ss) = aroundBlock v (Block i ss) (map (\<lambda>st. (st, acceptStatement v st)) ss)"
| "acceptStatement v (PlaceholderStatement i) = around v (NStatement (PlaceholderStatement i)) (inOrder [])"
| "acceptStatement v (IfStatement i c t f) =
     aroundIf v (IfStatement i c t f) (acceptExpression v c) (acceptStatement v t) (map_option (acceptStatement v) f)"
| "acceptStatement v (WhileStatement i c b d) =
     around v (NStatement (WhileStatement i c b d)) (inOrder [acceptExpression v c, acceptStatement v b])"
| "acceptStatement v (ForStatement i a c l b) =
     around v (NStatement (ForStatement i a c l b))
       (inOrder [optional (map_option (acceptStatement v) a), optional (map_option (acceptExpression v) c),
          optional (map_option (acceptStatement v) l), acceptStatement v b])"
| "acceptStatement v (Continue i) = around v (NStatement (Continue i)) (inOrder [])"
| "acceptStatement v (Break i) = around v (NStatement (Break i)) (inOrder [])"
| "acceptStatement v (Return i e) =
     around v (NStatement (Return i e)) (inOrder [optional (map_option (acceptExpression v) e)])"
| "acceptStatement v (Throw i) = around v (NStatement (Throw i)) (inOrder [])"
| "acceptStatement v (EmitStatement i e) = around v (NStatement (EmitStatement i e)) (inOrder [acceptExpression v e])"
| "acceptStatement v (VariableDeclarationStatement i ds e) =
     around v (NStatement (VariableDeclarationStatement i ds e))
       (inOrder (map (\<lambda>d. optional (map_option (acceptVariable v) d)) ds @ [optional (map_option (acceptExpression v) e)]))"
| "acceptStatement v (ExpressionStatement i e) =
     around v (NStatement (ExpressionStatement i e)) (inOrder [acceptExpression v e])"

definition acceptModifierInvocation :: "'s Visitor \<Rightarrow> ModifierInvocation \<Rightarrow> 's \<Rightarrow> 's" where
  "acceptModifierInvocation v m =
     around v (NModifierInvocation m)
       (inOrder (acceptExpression v (mi_name m) #
          (case mi_arguments m of None \<Rightarrow> [] | Some as \<Rightarrow> map (acceptExpression v) as)))"

definition acceptInheritanceSpecifier :: "'s Visitor \<Rightarrow> InheritanceSpecifier \<Rightarrow> 's \<Rightarrow> 's" where
  "acceptInheritanceSpecifier v b =
     around v (NInheritanceSpecifier b)
       (inOrder (acceptTypeName v (is_baseName b) #
          (case is_arguments b of None \<Rightarrow> [] | Some as \<Rightarrow> map (acceptExpression v) as)))"

definition acceptFunction :: "'s Visitor \<Rightarrow> FunctionDefinition \<Rightarrow> 's \<Rightarrow> 's" where
  "acceptFunction v f =
     around v (NFunction f)
       (inOrder ([acceptParameterList v (fd_parameters f), acceptParameterList v (fd_returnParameters f)] @
          map (acceptModifierInvocation v) (fd_modifiers f) @ [optional (map_option (acceptStatement v) (fd_body f))]))"

definition acceptModifier :: "'s Visitor \<Rightarrow> ModifierDefinition \<Rightarrow> 's \<Rightarrow> 's" where
  "acceptModifier v m =
     around v (NModifier m) (inOrder [acceptParameterList v (md_parameters m), acceptStatement v (md_body m)])"

definition acceptEvent :: "'s Visitor \<Rightarrow> EventDefinition \<Rightarrow> 's \<Rightarrow> 's" where
  "acceptEvent v e = around v (NEvent e) (inOrder [acceptParameterList v (ed_parameters e)])"

definition acceptStruct :: "'s Visitor \<Rightarrow> StructDefinition \<Rightarrow> 's \<Rightarrow> 's" where
  "acceptStruct v d = around v (NStruct d) (inOrder (map (acceptVariable v) (sd_members d)))"

definition acceptEnumValue :: "'s Visitor \<Rightarrow> EnumValue \<Rightarrow> 's \<Rightarrow> 's" where
  "acceptEnumValue v e = around v (NEnumValue e) (inOrder [])"

definition acceptEnum :: "'s Visitor \<Rightarrow> EnumDefinition \<Rightarrow> 's \<Rightarrow> 's" where
  "acceptEnum v e = around v (NEnum e) (inOrder (map (acceptEnumValue v) (en_members e)))"

definition acceptUsingFor :: "'s Visitor \<Rightarrow> UsingForDirective \<Rightarrow> 's \<Rightarrow> 's" where
  "acceptUsingFor v u =
     around v (NUsingFor u)
       (inOrder [acceptTypeName v (uf_libraryName u), optional (map_option (acceptTypeName v) (uf_typeName u))])"

definition acceptSubNode :: "'s Visitor \<Rightarrow> SubNode \<Rightarrow> 's \<Rightarrow> 's" where
  "acceptSubNode v n =
     (case n of
        FunctionNode f \<Rightarrow> acceptFunction v f
      | VariableNode d \<Rightarrow> acceptVariable v d
      | ModifierNode m \<Rightarrow> acceptModifier v m
      | EventNode e \<Rightarrow> acceptEvent v e
      | StructNode d \<Rightarrow> acceptStruct v d
      | EnumNode e \<Rightarrow> acceptEnum v e
      | UsingForNode u \<Rightarrow> acceptUsingFor v u)"

definition acceptContract :: "'s Visitor \<Rightarrow> ContractDefinition \<Rightarrow> 's \<Rightarrow> 's" where
  "acceptContract v c =
     around v (NContract c)
       (inOrder (map (acceptInheritanceSpecifier v) (cd_baseContracts c) @ map (acceptSubNode v) (cd_subNodes c)))"

definition acceptSourceNode :: "'s Visitor \<Rightarrow> SourceNode \<Rightarrow> 's \<Rightarrow> 's" where
  "acceptSourceNode v n =
     (case n of
        PragmaNode p \<Rightarrow> around v (NPragma p) (inOrder [])
      | ImportNode i \<Rightarrow> around v (NImport i) (inOrder [])
      | ContractNode c \<Rightarrow> acceptContract v c)"

definition acceptSourceUnit :: "'s Visitor \<Rightarrow> SourceUnit \<Rightarrow> 's \<Rightarrow> 's" where
  "acceptSourceUnit v u = around v (NSourceUnit u) (inOrder (map (acceptSourceNode v) (su_nodes u)))"

end
