(* ===== verification/ErrorReporter.thy ===== *)
theory ErrorReporter
  imports AssemblyItems
begin

text \<open>
  Model of the error list in libsolidity/interface/ErrorReporter.h, ErrorReporter.cpp and
  Exceptions.h. A report that throws \<open>FatalError\<close> has already changed the list, so every operation
  returns the reporter and whether it threw. Secondary locations are kept as given.
\<close>

datatype ErrorType =
    DeclarationErrorT | DocstringParsingErrorT | ParserErrorT | TypeErrorT | SyntaxErrorT | WarningT | SECBITWarningT

record Error =
  er_type :: ErrorType
  er_location :: SourceLocation
  er_secondary :: "(string \<times> SourceLocation) list"
  er_description :: string
  er_secbitTag :: string

definition errorTypeName :: "ErrorType \<Rightarrow> string" where
  "errorTypeName t =
     (case t of
        DeclarationErrorT \<Rightarrow> ''DeclarationError''
      | DocstringParsingErrorT \<Rightarrow> ''DocstringParsingError''
      | ParserErrorT \<Rightarrow> ''ParserError''
      | SyntaxErrorT \<Rightarrow> ''SyntaxError''
      | TypeErrorT \<Rightarrow> ''TypeError''
      | WarningT \<Rightarrow> ''Warning''
      | SECBITWarningT \<Rightarrow> ''SECBITWarning'')"

definition containsErrorOfType :: "Error list \<Rightarrow> ErrorType \<Rightarrow> Error option" where
  "containsErrorOfType errors t = find (\<lambda>e. er_type e = t) errors"

definition containsOnlyWarnings :: "Error list \<Rightarrow> bool" where
  "containsOnlyWarnings errors = list_all (\<lambda>e. \<not> (er_type e \<noteq> WarningT \<and> er_type e \<noteq> SECBITWarningT)) errors"

record Reporter =
  m_errorList :: "Error list"
  m_errorCount :: "32 word"
  m_warningCount :: "32 word"

definition pushError :: "Error \<Rightarrow> Reporter \<Rightarrow> Reporter" where
  "pushError e r = r\<lparr>m_errorList := m_errorList r @ [e]\<rparr>"

definition secbitWarning :: "SourceLocation \<Rightarrow> string \<Rightarrow> string \<Rightarrow> Reporter \<Rightarrow> Reporter" where
  "secbitWarning loc tag desc =
     pushError \<lparr>er_type = SECBITWarningT, er_location = loc, er_secondary = [], er_description = desc, er_secbitTag = tag\<rparr>"

definition plainError :: "ErrorType \<Rightarrow> SourceLocation \<Rightarrow> (string \<times> SourceLocation) list \<Rightarrow> string \<Rightarrow> Error" where
  "plainError t loc sec desc =
     \<lparr>er_type = t, er_location = loc, er_secondary = sec, er_description = desc, er_secbitTag = []\<rparr>"

text \<open>Whether the error should not be stored, and whether the check threw.\<close>

definition checkForExcessiveErrors :: "ErrorType \<Rightarrow> Reporter \<Rightarrow> Reporter \<times> bool \<times> bool" where
  "checkForExcessiveErrors t r =
     (if t = WarningT then
        let r = r\<lparr>m_warningCount := m_warningCount r + 1\<rparr>;
            r' = (if m_warningCount r = 256
                  then pushError (plainError WarningT noLocation [] ''There are more than 256 warnings. Ignoring the rest.'') r
                  else r)
        in (r', m_warningCount r \<ge> 256, False)
      else
        let r = r\<lparr>m_errorCount := m_errorCount r + 1\<rparr>
        in if m_errorCount r > 256
           then (pushError (plainError WarningT noLocation [] ''There are more than 256 errors. Aborting.'') r, False, True)
           else (r, False, False))"

definition report :: "ErrorType \<Rightarrow> SourceLocation \<Rightarrow> (string \<times> SourceLocation) list \<Rightarrow> string \<Rightarrow> Reporter \<Rightarrow> Reporter \<times> bool" where
  "report t loc sec desc r =
     (case checkForExcessiveErrors t r of (r', skip, threw) \<Rightarrow>
        if threw then (r', True)
        else if skip then (r', False)
        else (pushError (plainError t loc sec desc) r', False))"

definition fatalReport :: "ErrorType \<Rightarrow> SourceLocation \<Rightarrow> string \<Rightarrow> Reporter \<Rightarrow> Reporter \<times> bool" where
  "fatalReport t loc desc r = (fst (report t loc [] desc r), True)"

definition reporterWarning :: "SourceLocation \<Rightarrow> string \<Rightarrow> Reporter \<Rightarrow> Reporter \<times> bool" where
  "reporterWarning loc desc = report WarningT loc [] desc"

definition declarationError :: "SourceLocation \<Rightarrow> (string \<times> SourceLocation) list \<Rightarrow> string \<Rightarrow> Reporter \<Rightarrow> Reporter \<times> bool" where
  "declarationError loc sec desc = report DeclarationErrorT loc sec desc"

definition fatalDeclarationError :: "SourceLocation \<Rightarrow> string \<Rightarrow> Reporter \<Rightarrow> Reporter \<times> bool" where
  "fatalDeclarationError loc desc = fatalReport DeclarationErrorT loc desc"

definition parserError :: "SourceLocation \<Rightarrow> string \<Rightarrow> Reporter \<Rightarrow> Reporter \<times> bool" where
  "parserError loc desc = report ParserErrorT loc [] desc"

definition fatalParserError :: "SourceLocation \<Rightarrow> string \<Rightarrow> Reporter \<Rightarrow> Reporter \<times> bool" where
  "fatalParserError loc desc = fatalReport ParserErrorT loc desc"

definition syntaxError :: "SourceLocation \<Rightarrow> string \<Rightarrow> Reporter \<Rightarrow> Reporter \<times> bool" where
  "syntaxError loc desc = report SyntaxErrorT loc [] desc"

definition typeError :: "SourceLocation \<Rightarrow> (string \<times> SourceLocation) list \<Rightarrow> string \<Rightarrow> Reporter \<Rightarrow> Reporter \<times> bool" where
  "typeError loc sec desc = report TypeErrorT loc sec desc"

definition fatalTypeError :: "SourceLocation \<Rightarrow> string \<Rightarrow> Reporter \<Rightarrow> Reporter \<times> bool" where
  "fatalTypeError loc desc = fatalReport TypeErrorT loc desc"

definition docstringParsingError :: "string \<Rightarrow> Reporter \<Rightarrow> Reporter \<times> bool" where
  "docstringParsingError desc = report DocstringParsingErrorT noLocation [] desc"

definition clearErrors :: "Reporter \<Rightarrow> Reporter" where
  "clearErrors r = r\<lparr>m_errorList := []\<rparr>"

section \<open>The list\<close>

lemma secbitWarning_list [simp]:
  "m_errorList (secbitWarning loc tag desc r) =
     m_errorList r @ [\<lparr>er_type = SECBITWarningT, er_location = loc, er_secondary = [], er_description = desc, er_secbitTag = tag\<rparr>]"
  by (simp add: secbitWarning_def pushError_def)

lemma report_grows: "\<exists>es. m_errorList (fst (report t loc sec desc r)) = m_errorList r @ es \<and> length es \<le> 1"
  by (auto simp: report_def checkForExcessiveErrors_def pushError_def Let_def split: if_splits)

end
