(* ===== verification/SecbitChecker.thy ===== *)
theory SecbitChecker
  imports SolidityAst ErrorReporter "HOL-Library.Char_ord" "HOL-Library.List_Lexorder"
begin

text \<open>
  Model of libsolidity/analysis/SECBITChecker.h and SECBITChecker.cpp: the syntax checks of the SECBIT
  extension, a visitor over the syntax tree of SolidityAst. The members of the class are the record
  \<open>CheckerState\<close>; a callback that follows a null pointer or reads past the end of a vector stops the
  traversal, which is then an error. What the callbacks read of the environment (the flag \<open>--erc20\<close>, the
  definitions the types point to, the parents that the \<open>ParentAnnotator\<close> has noted) is the record
  \<open>CheckerEnv\<close>.
\<close>

section \<open>Issues\<close>

definition quoteName :: "string \<Rightarrow> string" where
  "quoteName s = [CHR 0x27] @ s @ [CHR 0x27]"

text \<open>What is reported, with its tag and its description.\<close>

datatype Issue =
    ApproveNoEvent
  | ApproveWithBalanceVerify
  | BadFunctionName string
  | BadEventName string
  | Blockhash
  | ByteArray string
  | Delegatecall
  | DirtyPadding string nat
  | Erc20Mintable
  | Erc20NoDecimals
  | Erc20NoName
  | Erc20NoReturn
  | Erc20NoReturnApprove
  | Erc20NoSymbol
  | Erc20ReturnFalse
  | FixVersion
  | ForcedEther
  | HardcodeAddr
  | IntDiv
  | NoReturn
  | PrivateModifier
  | PullVsPush
  | RedundantFallback
  | RevertVsRequire
  | SendVsTransfer
  | CallVsTransfer
  | ShortAddr
  | Timestamp
  | TransferNoEvent
  | TransferNoRevert
  | TransferFromNoAllowedCheck
  | TxOrigin
  | UnusedReturnValue

primrec issueTag :: "Issue \<Rightarrow> string" where
  "issueTag ApproveNoEvent = ''approve-no-event''"
| "issueTag ApproveWithBalanceVerify = ''approve-with-balance-verify''"
| "issueTag (BadFunctionName name) = ''bad-name''"
| "issueTag (BadEventName name) = ''bad-name''"
| "issueTag Blockhash = ''blockhash''"
| "issueTag (ByteArray name) = ''byte-array''"
| "issueTag Delegatecall = ''delegatecall''"
| "issueTag (DirtyPadding name bits) = ''dirty-padding''"
| "issueTag Erc20Mintable = ''erc20-mintable''"
| "issueTag Erc20NoDecimals = ''erc20-no-decimals''"
| "issueTag Erc20NoName = ''erc20-no-name''"
| "issueTag Erc20NoReturn = ''erc20-no-return''"
| "issueTag Erc20NoReturnApprove = ''erc20-no-return''"
| "issueTag Erc20NoSymbol = ''erc20-no-symbol''"
| "issueTag Erc20ReturnFalse = ''erc20-return-false''"
| "issueTag FixVersion = ''fix-version''"
| "issueTag ForcedEther = ''forced-ether''"
| "issueTag HardcodeAddr = ''hardcode-addr''"
| "issueTag IntDiv = ''int-div''"
| "issueTag NoReturn = ''no-return''"
| "issueTag PrivateModifier = ''private-modifier''"
| "issueTag PullVsPush = ''pull-vs-push''"
| "issueTag RedundantFallback = ''redundant-fallback''"
| "issueTag RevertVsRequire = ''revert-vs-require''"
| "issueTag SendVsTransfer = ''send-vs-transfer''"
| "issueTag CallVsTransfer = ''send-vs-transfer''"
| "issueTag ShortAddr = ''short-addr''"
| "issueTag Timestamp = ''timestamp''"
| "issueTag TransferNoEvent = ''transfer-no-event''"
| "issueTag TransferNoRevert = ''transfer-no-revert''"
| "issueTag TransferFromNoAllowedCheck = ''transferfrom-no-allowed-check''"
| "issueTag TxOrigin = ''tx-origin''"
| "issueTag UnusedReturnValue = ''unused-return-value''"

primrec issueText :: "Issue \<Rightarrow> string" where
  "issueText ApproveNoEvent =
     ''This approve function does not emit 'Approve' event, which is incompatible with an ERC20.''"
| "issueText ApproveWithBalanceVerify =
     ''Adding requirement on the balance of 'msg.sender' could make this function incompatible with an ERC20 'approve'.''"
| "issueText (BadFunctionName name) =
     ''Function name '' @ quoteName name @ '' should start with a lower-case character.''"
| "issueText (BadEventName name) =
     ''Event name '' @ quoteName name @ '' should start with an upper-case character.''"
| "issueText Blockhash =
     ''Return value of 'blockhash()' could be controled by miners.''"
| "issueText (ByteArray name) =
     ''Consider using 'bytes' to reduce gas consumption in the declaration of '' @ quoteName name @ ''.''"
| "issueText Delegatecall =
     quoteName ''delegatecall'' @ '' should be used with caution because it uses the current context.''"
| "issueText (DirtyPadding name bits) =
     quoteName ''msg.data'' @ '' could contain dirty padding because parameter '' @ quoteName name @ '' has a type of '' @ decNat bits @ '' bits.''"
| "issueText Erc20Mintable =
     ''This ERC20 contract could be mintable.''"
| "issueText Erc20NoDecimals =
     ''This ERC20 contract does not have a 'decimals' state variable or a 'decimals()' function.''"
| "issueText Erc20NoName =
     ''This ERC20 contract does not have a 'name' state variable or a 'name()' function.''"
| "issueText Erc20NoReturn =
     ''This ERC20 transfer function is not returning a single bool, which is incompatible with an ERC20.''"
| "issueText Erc20NoReturnApprove =
     ''This ERC20 approve function is not returning a single bool, which is incompatible with an ERC20.''"
| "issueText Erc20NoSymbol =
     ''This ERC20 contract does not have a 'symbol' state variable or a 'symbol()' function.''"
| "issueText Erc20ReturnFalse =
     ''This ERC20 function returns false, which may not be correctly handled by the caller.''"
| "issueText FixVersion =
     ''Consider using exact language version instead.''"
| "issueText ForcedEther =
     ''A condition on 'this.balance' could be circumvented because ether could be forced into a contract via 'selfdestruct'.''"
| "issueText HardcodeAddr =
     ''Hard-coded address should be checked.''"
| "issueText IntDiv =
     ''Integer division should be used with caution.''"
| "issueText NoReturn =
     ''Missing return statement in a function with implicit return parameter.''"
| "issueText PrivateModifier =
     ''Private object is still publicly visible on the chain.''"
| "issueText PullVsPush =
     ''This call may result in exception and make the following logic dead code. Consider using pull for ether transfer instead.''"
| "issueText RedundantFallback =
     ''Fallback function with a single 'Throw' is no longer needed after version 0.4.0. Consider removing this function.''"
| "issueText RevertVsRequire =
     ''Calling 'require()' instead of a conditional 'revert()' could improve readability.''"
| "issueText SendVsTransfer =
     ''Calling 'send()' requires manual exception handling. Consider using 'transfer()' instead.''"
| "issueText CallVsTransfer =
     ''Calling 'call.value()' does not have 2300 gas limit, which could lead to reentrance attack. Consider using 'transfer()' instead.''"
| "issueText ShortAddr =
     ''Missing check on 'msg.data.length' could lead to short-address attack in this ERC20 transfer function.''"
| "issueText Timestamp =
     ''Avoid using 'now' in control expression, since it could be controled by miners.''"
| "issueText TransferNoEvent =
     ''This transfer function does not emit 'Transfer' event, which is incompatible with an ERC20.''"
| "issueText TransferNoRevert =
     ''No revert inside a transfer function, which is incompatible with an ERC20.''"
| "issueText TransferFromNoAllowedCheck =
     ''No requirement on 'allowed' could make this function incompatible with an ERC20 'transferFrom'.''"
| "issueText TxOrigin =
     ''Comparing 'tx.origin' might not have the intended result.''"
| "issueText UnusedReturnValue =
     ''The return value of this call is not used.''"

declare issueText.simps [simp del]

section \<open>State\<close>

record ERC20Properties =
  p_defn :: SourceLocation
  p_hasName :: bool
  p_hasDecimals :: bool
  p_hasSymbol :: bool
  p_mintable :: bool
  p_isBase :: bool

definition noProperties :: ERC20Properties where
  "noProperties = \<lparr>p_defn = noLocation, p_hasName = False, p_hasDecimals = False, p_hasSymbol = False,
     p_mintable = False, p_isBase = False\<rparr>"

record CheckerEnv =
  ce_asERC20 :: bool
  ce_types :: TypeEnv
  ce_depth :: nat
  ce_parent :: "nat \<Rightarrow> Node option"

record CheckerState =
  m_errorReporter :: Reporter
  m_comparisonDepth :: int
  m_dirtyParam :: "VariableInfo option"
  m_hasReturn :: bool
  m_returnFalse :: bool
  m_hasRevert :: bool
  m_callablesWithRevert :: "string set"
  m_conditional :: bool
  m_inERC20 :: bool
  m_hasMsgDataCheck :: bool
  m_hasSenderBalanceCheck :: bool
  m_allowedVars :: "nat set"
  m_hasAllowedCheck :: bool
  m_emitApproval :: bool
  m_emitTransfer :: bool
  m_hasAllowedUnsafeSub :: bool
  m_inLengthAccess :: bool
  m_ERC20Contracts :: "(string \<times> ERC20Properties) list"

definition initialChecker :: "Reporter \<Rightarrow> CheckerState" where
  "initialChecker r =
     \<lparr>m_errorReporter = r, m_comparisonDepth = 0, m_dirtyParam = None, m_hasReturn = False, m_returnFalse = False,
      m_hasRevert = False, m_callablesWithRevert = {}, m_conditional = False, m_inERC20 = False,
      m_hasMsgDataCheck = False, m_hasSenderBalanceCheck = False, m_allowedVars = {}, m_hasAllowedCheck = False,
      m_emitApproval = False, m_emitTransfer = False, m_hasAllowedUnsafeSub = False, m_inLengthAccess = False,
      m_ERC20Contracts = []\<rparr>"

definition warn :: "SourceLocation \<Rightarrow> Issue \<Rightarrow> CheckerState \<Rightarrow> CheckerState" where
  "warn loc i s = s\<lparr>m_errorReporter := secbitWarning loc (issueTag i) (issueText i) (m_errorReporter s)\<rparr>"

definition warnIf :: "bool \<Rightarrow> SourceLocation \<Rightarrow> Issue \<Rightarrow> CheckerState \<Rightarrow> CheckerState" where
  "warnIf c loc i s = (if c then warn loc i s else s)"

section \<open>Patterns\<close>

text \<open>\<open>contains p s\<close> is \<open>s.find(p) != npos\<close>; \<open>firstChar\<close> is \<open>s[0]\<close>, the null character for an empty string.\<close>

fun contains :: "string \<Rightarrow> string \<Rightarrow> bool" where
  "contains p [] \<longleftrightarrow> p = []"
| "contains p (c # s) \<longleftrightarrow> take (length p) (c # s) = p \<or> contains p s"

definition firstChar :: "string \<Rightarrow> char" where
  "firstChar s = (case s of [] \<Rightarrow> CHR 0x00 | c # _ \<Rightarrow> c)"

definition isERC20Name :: "string \<Rightarrow> bool \<Rightarrow> bool" where
  "isERC20Name name asERC20 =
     (let lower = map toLowerAscii name
      in contains ''erc20'' lower \<or> contains ''eip20'' lower \<or>
         (asERC20 \<and> (contains ''token'' lower \<or> contains ''coin'' lower)))"

text \<open>The last name of the path of a base contract.\<close>

definition lastName :: "InheritanceSpecifier \<Rightarrow> string res" where
  "lastName b =
     (let path = namePath (is_baseName b) in if path = [] then Inl UndefinedBehaviour else Inr (last path))"

fun lastNames :: "InheritanceSpecifier list \<Rightarrow> string list res" where
  "lastNames [] = Inr []"
| "lastNames (b # bs) = bindR (lastName b) (\<lambda>n. bindR (lastNames bs) (\<lambda>ns. Inr (n # ns)))"

fun anyERC20Base :: "bool \<Rightarrow> InheritanceSpecifier list \<Rightarrow> bool res" where
  "anyERC20Base asERC20 [] = Inr False"
| "anyERC20Base asERC20 (b # bs) =
     bindR (lastName b) (\<lambda>n. if isERC20Name n asERC20 then Inr True else anyERC20Base asERC20 bs)"

definition isERC20Contract :: "ContractDefinition \<Rightarrow> bool \<Rightarrow> bool res" where
  "isERC20Contract c asERC20 =
     (if isLibrary c then Inr False
      else if list_ex (\<lambda>f. \<not> isImplemented f) (definedFunctions c) then Inr False
      else bindR (anyERC20Base asERC20 (cd_baseContracts c)) (\<lambda>b.
        Inr (b \<or> isERC20Name (cd_name c) asERC20 \<or>
          (asERC20 \<and>
           list_all (\<lambda>n. list_ex (\<lambda>f. fd_name f = n) (definedFunctions c)) [''transfer'', ''transferFrom'', ''approve'']))))"

text \<open>The regular expression \<open>^_?mint.*$\<close>; names hold no line breaks.\<close>

definition mintName :: "string \<Rightarrow> bool" where
  "mintName s \<longleftrightarrow> take 4 s = ''mint'' \<or> take 5 s = ''_mint''"

definition identifierName :: "Expression \<Rightarrow> string option" where
  "identifierName e = (case e of Identifier i name d \<Rightarrow> Some name | _ \<Rightarrow> None)"

definition isMemberAccess :: "Expression \<Rightarrow> string \<Rightarrow> string \<Rightarrow> bool" where
  "isMemberAccess e obj member \<longleftrightarrow>
     (case e of MemberAccess i b m \<Rightarrow> m = member \<and> identifierName b = Some obj | _ \<Rightarrow> False)"

definition isAllowed :: "nat set \<Rightarrow> Expression \<Rightarrow> bool" where
  "isAllowed allowedVars e \<longleftrightarrow>
     (case e of
        Identifier i name d \<Rightarrow> (case d of None \<Rightarrow> False | Some k \<Rightarrow> k \<in> allowedVars)
      | IndexAccess i (IndexAccess j b y) x \<Rightarrow> identifierName b = Some ''allowed''
      | _ \<Rightarrow> False)"

definition isSenderBalance :: "Expression \<Rightarrow> bool" where
  "isSenderBalance e \<longleftrightarrow>
     (case e of
        IndexAccess i b (Some x) \<Rightarrow> identifierName b = Some ''balances'' \<and> isMemberAccess x ''msg'' ''sender''
      | _ \<Rightarrow> False)"

definition isBoundedBy :: "(Expression \<Rightarrow> bool) \<Rightarrow> Expression \<Rightarrow> Token \<Rightarrow> Expression \<Rightarrow> bool" where
  "isBoundedBy p l op r \<longleftrightarrow>
     ((op = T_LessThan \<or> op = T_LessThanOrEqual) \<and> p r) \<or>
     ((op = T_GreaterThan \<or> op = T_GreaterThanOrEqual) \<and> p l)"

definition isSenderBalanceCheck :: "Expression \<Rightarrow> Token \<Rightarrow> Expression \<Rightarrow> bool" where
  "isSenderBalanceCheck = isBoundedBy isSenderBalance"

definition isAllowedCheck :: "nat set \<Rightarrow> Expression \<Rightarrow> Token \<Rightarrow> Expression \<Rightarrow> bool" where
  "isAllowedCheck allowedVars = isBoundedBy (isAllowed allowedVars)"

definition isAddressAccess :: "Expression \<Rightarrow> string \<Rightarrow> bool" where
  "isAddressAccess e member \<longleftrightarrow>
     (case e of
        MemberAccess i b m \<Rightarrow>
          (case expressionType b of Some (IntegerType n md) \<Rightarrow> isAddress md \<and> m = member | _ \<Rightarrow> False)
      | _ \<Rightarrow> False)"

text \<open>A statement \<open>require(x.send(..))\<close> or \<open>require(x.transfer(..))\<close>.\<close>

definition isRequiredSend :: "Statement \<Rightarrow> bool" where
  "isRequiredSend st \<longleftrightarrow>
     (case st of
        ExpressionStatement i (FunctionCall j f [FunctionCall k g args ns] ms) \<Rightarrow>
          identifierName f = Some ''require'' \<and> (isAddressAccess g ''send'' \<or> isAddressAccess g ''transfer'')
      | _ \<Rightarrow> False)"

section \<open>Contracts\<close>

definition properties :: "string \<Rightarrow> CheckerState \<Rightarrow> ERC20Properties" where
  "properties name s = (case map_of (m_ERC20Contracts s) name of None \<Rightarrow> noProperties | Some p \<Rightarrow> p)"

definition setProperties :: "string \<Rightarrow> (ERC20Properties \<Rightarrow> ERC20Properties) \<Rightarrow> CheckerState \<Rightarrow> CheckerState" where
  "setProperties name f s = s\<lparr>m_ERC20Contracts := omap_put name (f (properties name s)) (m_ERC20Contracts s)\<rparr>"

definition inheritProperties :: "string \<Rightarrow> string \<Rightarrow> CheckerState \<Rightarrow> CheckerState" where
  "inheritProperties name baseName s =
     (case map_of (m_ERC20Contracts s) baseName of
        None \<Rightarrow> s
      | Some b \<Rightarrow>
          setProperties baseName (\<lambda>p. p\<lparr>p_isBase := True\<rparr>)
            (setProperties name (\<lambda>p. p\<lparr>p_hasName := p_hasName p \<or> p_hasName b, p_hasDecimals := p_hasDecimals p \<or> p_hasDecimals b,
               p_hasSymbol := p_hasSymbol p \<or> p_hasSymbol b, p_mintable := p_mintable p \<or> p_mintable b\<rparr>) s))"

definition recordERC20 :: "ContractDefinition \<Rightarrow> string list \<Rightarrow> CheckerState \<Rightarrow> CheckerState" where
  "recordERC20 c baseNames s =
     (let names = map v_name (stateVariables c) @ map fd_name (definedFunctions c);
          name = cd_name c
      in fold (inheritProperties name) baseNames
           (setProperties name (\<lambda>p. p\<lparr>p_defn := n_location c, p_hasName := ''name'' \<in> set names,
              p_hasDecimals := ''decimals'' \<in> set names, p_hasSymbol := ''symbol'' \<in> set names,
              p_mintable := list_ex (\<lambda>f. mintName (fd_name f)) (definedFunctions c)\<rparr>) s))"

definition visitContract :: "CheckerEnv \<Rightarrow> ContractDefinition \<Rightarrow> CheckerState \<Rightarrow> (bool \<times> CheckerState) res" where
  "visitContract env c s =
     bindR (isERC20Contract c (ce_asERC20 env)) (\<lambda>inERC20.
       let s = s\<lparr>m_inERC20 := inERC20\<rparr>
       in if cd_name c = ''SafeMath''
          then Inr (False, s\<lparr>m_callablesWithRevert := m_callablesWithRevert s \<union> set (map fd_name (definedFunctions c))\<rparr>)
          else if inERC20
          then bindR (lastNames (cd_baseContracts c)) (\<lambda>baseNames. Inr (True, recordERC20 c baseNames s))
          else Inr (True, s))"

definition endVisitContract :: "CheckerState \<Rightarrow> CheckerState" where
  "endVisitContract s = s\<lparr>m_inERC20 := False\<rparr>"

definition reportERC20PropertyIssues :: "CheckerState \<Rightarrow> CheckerState" where
  "reportERC20PropertyIssues s =
     fold (\<lambda>(name, p) s.
       let s = warnIf (p_mintable p) (p_defn p) Erc20Mintable s
       in if p_isBase p then s
          else warnIf (\<not> p_hasSymbol p) (p_defn p) Erc20NoSymbol
             (warnIf (\<not> p_hasName p) (p_defn p) Erc20NoName
             (warnIf (\<not> p_hasDecimals p) (p_defn p) Erc20NoDecimals s)))
       (m_ERC20Contracts s) s"

section \<open>Functions and modifiers\<close>

definition visitModifier :: "CheckerState \<Rightarrow> CheckerState" where
  "visitModifier s = s\<lparr>m_hasRevert := False\<rparr>"

definition endVisitModifier :: "ModifierDefinition \<Rightarrow> CheckerState \<Rightarrow> CheckerState" where
  "endVisitModifier m s =
     (if m_hasRevert s
      then s\<lparr>m_callablesWithRevert := insert (md_name m) (m_callablesWithRevert s), m_hasRevert := False\<rparr>
      else s)"

definition modifierNames :: "FunctionDefinition \<Rightarrow> string list" where
  "modifierNames f = List.map_filter (\<lambda>m. identifierName (mi_name m)) (fd_modifiers f)"

text \<open>The first parameter whose encoding is shorter than a word, if any.\<close>

fun findDirtyParam :: "CheckerEnv \<Rightarrow> VariableInfo list \<Rightarrow> VariableInfo option res" where
  "findDirtyParam env [] = Inr None"
| "findDirtyParam env (p # ps) =
     (case v_type p of
        None \<Rightarrow> Inl UndefinedBehaviour
      | Some t \<Rightarrow>
          bindR (isDynamicallyEncoded (ce_types env) (ce_depth env) t) (\<lambda>dyn.
            if dyn then findDirtyParam env ps
            else bindR (calldataEncodedSize (ce_types env) (ce_depth env) False t) (\<lambda>n.
              if n < 32 then Inr (Some p) else findDirtyParam env ps)))"

definition visitFunction :: "CheckerEnv \<Rightarrow> FunctionDefinition \<Rightarrow> CheckerState \<Rightarrow> CheckerState res" where
  "visitFunction env f s =
     bindR (findDirtyParam env (map variableInfo (parameters (fd_parameters f)))) (\<lambda>dirty.
       Inr (s\<lparr>m_hasRevert := list_ex (\<lambda>n. n \<in> m_callablesWithRevert s) (modifierNames f),
              m_dirtyParam := (case dirty of None \<Rightarrow> m_dirtyParam s | Some p \<Rightarrow> Some p),
              m_hasAllowedCheck := False, m_hasAllowedUnsafeSub := False, m_hasReturn := False, m_returnFalse := False,
              m_hasSenderBalanceCheck := False, m_emitApproval := False, m_emitTransfer := False, m_allowedVars := {}\<rparr>))"

definition returnParameters :: "FunctionDefinition \<Rightarrow> VariableInfo list" where
  "returnParameters f = map variableInfo (parameters (fd_returnParameters f))"

definition returnsBool :: "FunctionDefinition \<Rightarrow> bool" where
  "returnsBool f \<longleftrightarrow>
     (case returnParameters f of
        [p] \<Rightarrow> (case v_type p of Some t \<Rightarrow> category t = CBool | None \<Rightarrow> False)
      | _ \<Rightarrow> False)"

definition checkTransfer :: "FunctionDefinition \<Rightarrow> CheckerState \<Rightarrow> CheckerState" where
  "checkTransfer f s =
     warnIf (\<not> returnsBool f) (n_location f) Erc20NoReturn
     (warnIf (\<not> m_emitTransfer s) (n_location f) TransferNoEvent
     (warnIf (\<not> m_hasRevert s) (n_location f) TransferNoRevert
     (warnIf (fd_name f = ''transferFrom'' \<and> \<not> m_hasAllowedCheck s \<and> m_hasAllowedUnsafeSub s)
       (n_location f) TransferFromNoAllowedCheck
     (warnIf (''onlyPayloadSize'' \<notin> set (modifierNames f) \<and> \<not> m_hasMsgDataCheck s) (n_location f) ShortAddr s))))"

definition checkApprove :: "FunctionDefinition \<Rightarrow> CheckerState \<Rightarrow> CheckerState" where
  "checkApprove f s =
     warnIf (\<not> returnsBool f) (n_location f) Erc20NoReturnApprove
     (warnIf (\<not> m_emitApproval s) (n_location f) ApproveNoEvent
     (warnIf (m_hasSenderBalanceCheck s) (n_location f) ApproveWithBalanceVerify s))"

definition checkERC20Function :: "FunctionDefinition \<Rightarrow> CheckerState \<Rightarrow> CheckerState" where
  "checkERC20Function f s =
     (let s = (warnIf (m_returnFalse s) (n_location f) Erc20ReturnFalse s)
              \<lparr>m_returnFalse := False\<rparr>
      in if fd_name f = ''transfer'' \<or> fd_name f = ''transferFrom'' then checkTransfer f s
         else if fd_name f = ''approve'' then checkApprove f s
         else s)"

definition clearFunctionFlags :: "CheckerState \<Rightarrow> CheckerState" where
  "clearFunctionFlags s =
     s\<lparr>m_hasMsgDataCheck := False, m_hasSenderBalanceCheck := False, m_hasAllowedCheck := False,
       m_hasAllowedUnsafeSub := False, m_emitApproval := False, m_emitTransfer := False\<rparr>"

definition isThrow :: "Statement \<Rightarrow> bool" where
  "isThrow st \<longleftrightarrow> (case st of Throw i \<Rightarrow> True | _ \<Rightarrow> False)"

text \<open>\<open>body()\<close> asserts that the function has a body.\<close>

definition checkFallback :: "FunctionDefinition \<Rightarrow> CheckerState \<Rightarrow> CheckerState res" where
  "checkFallback f s =
     (if isFallback f
      then (case fd_body f of
              None \<Rightarrow> Inl SolAssert
            | Some body \<Rightarrow>
                Inr (warnIf (case body of Block i [st] \<Rightarrow> isThrow st | _ \<Rightarrow> False) (n_location f) RedundantFallback s))
      else Inr s)"

definition endVisitFunction :: "FunctionDefinition \<Rightarrow> CheckerState \<Rightarrow> CheckerState res" where
  "endVisitFunction f s =
     (let s = clearFunctionFlags (if m_inERC20 s then checkERC20Function f s else s);
          s = warnIf (\<not> m_hasReturn s \<and> isImplemented f \<and> list_ex (\<lambda>p. v_name p = []) (returnParameters f))
                (n_location f) NoReturn s;
          s = s\<lparr>m_dirtyParam := None\<rparr>;
          s = warnIf (isUpperAscii (firstChar (fd_name f)) \<and> \<not> fd_isConstructor f) (n_location f) (BadFunctionName (fd_name f)) s
      in bindR (checkFallback f s) (\<lambda>s.
           Inr (s\<lparr>m_callablesWithRevert := (if m_hasRevert s then {fd_name f} else {}) \<union> m_callablesWithRevert s,
                  m_hasRevert := False\<rparr>)))"

section \<open>Declarations\<close>

text \<open>
  \<open>initialValue()\<close> may be null; the pattern then matches nothing.
\<close>

definition endVisitVariableDeclarationStatement :: "VariableDeclaration option list \<Rightarrow> Expression option \<Rightarrow> CheckerState \<Rightarrow> CheckerState res" where
  "endVisitVariableDeclarationStatement ds e s =
     (case ds of
        [] \<Rightarrow> Inr s
      | None # _ \<Rightarrow> Inl UndefinedBehaviour
      | Some d # _ \<Rightarrow>
          Inr (if isLocalOrReturn (variableInfo d) \<and> (case e of None \<Rightarrow> False | Some e \<Rightarrow> isAllowed (m_allowedVars s) e)
               then s\<lparr>m_allowedVars := insert (n_id (variableInfo d)) (m_allowedVars s)\<rparr> else s))"

definition isByteList :: "Type \<Rightarrow> bool" where
  "isByteList t \<longleftrightarrow>
     (case t of ArrayType l p k base dyn len \<Rightarrow> \<not> isByteArray k \<and> \<not> isStringArray k \<and> base = FixedBytesType 1 | _ \<Rightarrow> False)"

definition endVisitVariableDeclaration :: "VariableInfo \<Rightarrow> CheckerState \<Rightarrow> CheckerState" where
  "endVisitVariableDeclaration i s =
     (let s = warnIf (v_effectiveVisibility i = PrivateVisibility) (n_location i) PrivateModifier s
      in case v_type i of
           None \<Rightarrow> s
         | Some t \<Rightarrow>
             if isCallableParameter i then s
             else warnIf (isByteList t) (n_location i) (ByteArray (v_name i)) s)"

definition endVisitPragma :: "PragmaDirective \<Rightarrow> CheckerState \<Rightarrow> CheckerState res" where
  "endVisitPragma p s =
     (case pr_literals p of
        [] \<Rightarrow> Inl UndefinedBehaviour
      | name # rest \<Rightarrow>
          if name = ''solidity''
          then (case rest of
                  [] \<Rightarrow> Inl UndefinedBehaviour
                | version # _ \<Rightarrow>
                    Inr (warnIf (firstChar version = CHR ''^'') (n_location p) FixVersion s))
          else Inr s)"

definition endVisitEvent :: "EventDefinition \<Rightarrow> CheckerState \<Rightarrow> CheckerState" where
  "endVisitEvent e s =
     warnIf (isLowerAscii (firstChar (ed_name e))) (n_location e) (BadEventName (ed_name e)) s"

section \<open>Expressions and statements\<close>

definition endVisitLiteral :: "ExpressionInfo \<Rightarrow> CheckerState \<Rightarrow> CheckerState" where
  "endVisitLiteral i s =
     warnIf (case e_type i of Some (IntegerType n m) \<Rightarrow> isAddress m | _ \<Rightarrow> False) (n_location i) HardcodeAddr s"

definition visitMemberAccess :: "string \<Rightarrow> CheckerState \<Rightarrow> CheckerState" where
  "visitMemberAccess m s = (if m = ''length'' then s\<lparr>m_inLengthAccess := True\<rparr> else s)"

definition dirtyPadding :: "CheckerEnv \<Rightarrow> SourceLocation \<Rightarrow> VariableInfo \<Rightarrow> CheckerState \<Rightarrow> CheckerState res" where
  "dirtyPadding env loc p s =
     (case v_type p of
        None \<Rightarrow> Inl UndefinedBehaviour
      | Some t \<Rightarrow>
          bindR (calldataEncodedSize (ce_types env) (ce_depth env) False t) (\<lambda>n.
            Inr (warn loc (DirtyPadding (v_name p) (n * 8 mod 2 ^ 32)) s)))"

text \<open>\<open>tx.origin\<close> and \<open>this.balance\<close> inside of a comparison.\<close>

definition warnCondition :: "ExpressionInfo \<Rightarrow> Expression \<Rightarrow> string \<Rightarrow> CheckerState \<Rightarrow> CheckerState" where
  "warnCondition i b m s =
     (if m_comparisonDepth s > 0
      then warnIf (isMemberAccess (MemberAccess i b m) ''this'' ''balance'') (n_location i) ForcedEther
             (warnIf (isMemberAccess (MemberAccess i b m) ''tx'' ''origin'') (n_location i) TxOrigin s)
      else s)"

definition endVisitMemberAccess :: "CheckerEnv \<Rightarrow> ExpressionInfo \<Rightarrow> Expression \<Rightarrow> string \<Rightarrow> CheckerState \<Rightarrow> CheckerState res" where
  "endVisitMemberAccess env i b m s =
     bindR (case m_dirtyParam s of
              Some p \<Rightarrow>
                if \<not> m_inLengthAccess s \<and> isMemberAccess (MemberAccess i b m) ''msg'' ''data''
                then dirtyPadding env (n_location i) p s else Inr s
            | None \<Rightarrow> Inr s) (\<lambda>s.
       Inr (if m = ''length'' then (warnCondition i b m s)\<lparr>m_inLengthAccess := False\<rparr> else warnCondition i b m s))"

definition endVisitIdentifier :: "ExpressionInfo \<Rightarrow> string \<Rightarrow> CheckerState \<Rightarrow> CheckerState" where
  "endVisitIdentifier i name s =
     warnIf (m_comparisonDepth s > 0 \<and> name = ''now'') (n_location i) Timestamp s"

definition endVisitAssignment :: "Expression \<Rightarrow> Token \<Rightarrow> CheckerState \<Rightarrow> CheckerState" where
  "endVisitAssignment l op s =
     (if op = T_AssignSub \<and> isAllowed (m_allowedVars s) l then s\<lparr>m_hasAllowedUnsafeSub := True\<rparr> else s)"

definition visitBinary :: "Expression \<Rightarrow> Token \<Rightarrow> Expression \<Rightarrow> CheckerState \<Rightarrow> CheckerState" where
  "visitBinary l op r s =
     (if isCompareOp op
      then s\<lparr>m_comparisonDepth := m_comparisonDepth s + 1,
             m_hasAllowedCheck := m_hasAllowedCheck s \<or> isAllowed (m_allowedVars s) l \<or> isAllowed (m_allowedVars s) r\<rparr>
      else s)"

definition isIntegerDivision :: "Type option \<Rightarrow> Type option \<Rightarrow> bool" where
  "isIntegerDivision l r \<longleftrightarrow>
     (case (l, r) of
        (Some (IntegerType n m), Some (IntegerType k j)) \<Rightarrow> True
      | (Some (RationalNumberType v), Some (RationalNumberType w)) \<Rightarrow> \<not> isFractional v \<and> \<not> isFractional w
      | _ \<Rightarrow> False)"

definition endVisitBinary :: "ExpressionInfo \<Rightarrow> Expression \<Rightarrow> Token \<Rightarrow> Expression \<Rightarrow> CheckerState \<Rightarrow> CheckerState" where
  "endVisitBinary i l op r s =
     (let s = warnIf (op = T_Div \<and> isIntegerDivision (expressionType l) (expressionType r)) (n_location i) IntDiv s;
          s = (if isCompareOp op then s\<lparr>m_comparisonDepth := m_comparisonDepth s - 1\<rparr> else s)
      in if op = T_Sub \<and> isAllowed (m_allowedVars s) l then s\<lparr>m_hasAllowedUnsafeSub := True\<rparr> else s)"

definition endVisitReturn :: "Expression option \<Rightarrow> CheckerState \<Rightarrow> CheckerState" where
  "endVisitReturn e s =
     s\<lparr>m_returnFalse := m_returnFalse s \<or> (case e of Some (Literal i tok v sub) \<Rightarrow> tok = T_FalseLiteral | _ \<Rightarrow> False),
       m_hasReturn := True\<rparr>"

text \<open>What a call of \<open>Approval\<close> or \<open>Transfer\<close> records, with or without \<open>emit\<close>.\<close>

definition recordEvent :: "Expression \<Rightarrow> CheckerState \<Rightarrow> CheckerState" where
  "recordEvent f s =
     (if identifierName f = Some ''Approval'' then s\<lparr>m_emitApproval := True\<rparr>
      else if identifierName f = Some ''Transfer'' then s\<lparr>m_emitTransfer := True\<rparr>
      else s)"

definition endVisitEmit :: "Expression \<Rightarrow> CheckerState \<Rightarrow> CheckerState" where
  "endVisitEmit e s = (case e of FunctionCall i f args names \<Rightarrow> recordEvent f s | _ \<Rightarrow> s)"

subsection \<open>Calls\<close>

text \<open>\<open>require(msg.data.length ..)\<close>, \<open>require(x < balances[msg.sender])\<close>, \<open>require(x < allowed[y][z])\<close>.\<close>

definition checkRequire :: "Expression list \<Rightarrow> CheckerState \<Rightarrow> CheckerState res" where
  "checkRequire args s =
     (case args of
        [] \<Rightarrow> Inl UndefinedBehaviour
      | BinaryOperation i l op r # _ \<Rightarrow>
          Inr (s\<lparr>m_hasMsgDataCheck := m_hasMsgDataCheck s \<or>
                   (case l of MemberAccess j b m \<Rightarrow> isMemberAccess b ''msg'' ''data'' \<and> m = ''length'' | _ \<Rightarrow> False),
                 m_hasSenderBalanceCheck := m_hasSenderBalanceCheck s \<or> isSenderBalanceCheck l op r,
                 m_hasAllowedCheck := m_hasAllowedCheck s \<or> isAllowedCheck (m_allowedVars s) l op r\<rparr>)
      | _ \<Rightarrow> Inr s)"

definition checkCallKind :: "SourceLocation \<Rightarrow> FunctionKind \<Rightarrow> Expression \<Rightarrow> Expression list \<Rightarrow> CheckerState \<Rightarrow> CheckerState res" where
  "checkCallKind loc k f args s =
     (if k = FDelegateCall \<or> k = FBareDelegateCall
      then Inr (warnIf (case f of MemberAccess i b m \<Rightarrow> m = ''delegatecall'' | _ \<Rightarrow> False) loc Delegatecall s)
      else if k = FSend
      then Inr (warn loc SendVsTransfer s)
      else if k = FRevert
      then Inr (warnIf (m_conditional s) loc RevertVsRequire (s\<lparr>m_hasRevert := True\<rparr>))
      else if k = FRequire then checkRequire args (s\<lparr>m_hasRevert := True\<rparr>)
      else if k = FAssert then Inr (s\<lparr>m_hasRevert := True\<rparr>)
      else if k = FBlockHash
      then Inr (warn loc Blockhash s)
      else Inr s)"

text \<open>A call of something that reverts.\<close>

definition inheritRevert :: "string \<Rightarrow> CheckerState \<Rightarrow> CheckerState" where
  "inheritRevert name s = (if name \<in> m_callablesWithRevert s then s\<lparr>m_hasRevert := True\<rparr> else s)"

definition isExpressionStatement :: "Node option \<Rightarrow> bool" where
  "isExpressionStatement n \<longleftrightarrow> (case n of Some (NStatement (ExpressionStatement i e)) \<Rightarrow> True | _ \<Rightarrow> False)"

definition endVisitCall :: "CheckerEnv \<Rightarrow> ExpressionInfo \<Rightarrow> Expression \<Rightarrow> Expression list \<Rightarrow> CheckerState \<Rightarrow> CheckerState res" where
  "endVisitCall env i f args s =
     (case expressionType f of
        Some (FunctionType ps rets k a) \<Rightarrow>
          (let s = warnIf (rets \<noteq> [] \<and> isExpressionStatement (ce_parent env (n_id i))) (n_location i) UnusedReturnValue s
           in bindR (checkCallKind (n_location i) k f args (recordEvent f s)) (\<lambda>s.
                Inr (case f of
                       Identifier j name d \<Rightarrow> inheritRevert name s
                     | MemberAccess j b m \<Rightarrow>
                         warnIf (m = ''value'' \<and> isAddressAccess b ''call'') (n_location i) CallVsTransfer
                           (inheritRevert m s)
                     | _ \<Rightarrow> s)))
      | _ \<Rightarrow> Inr s)"

section \<open>The visitor\<close>

text \<open>A callback is only run when none before it has stopped the traversal.\<close>

definition checkerVisit :: "CheckerEnv \<Rightarrow> Node \<Rightarrow> CheckerState \<Rightarrow> (bool \<times> CheckerState) res" where
  "checkerVisit env n s =
     (case n of
        NContract c \<Rightarrow> visitContract env c s
      | NFunction f \<Rightarrow> bindR (visitFunction env f s) (\<lambda>s. Inr (True, s))
      | NModifier m \<Rightarrow> Inr (True, visitModifier s)
      | NExpression (BinaryOperation i l op r) \<Rightarrow> Inr (True, visitBinary l op r s)
      | NExpression (MemberAccess i b m) \<Rightarrow> Inr (True, visitMemberAccess m s)
      | _ \<Rightarrow> Inr (True, s))"

definition checkerEndVisit :: "CheckerEnv \<Rightarrow> Node \<Rightarrow> CheckerState \<Rightarrow> CheckerState res" where
  "checkerEndVisit env n s =
     (case n of
        NContract c \<Rightarrow> Inr (endVisitContract s)
      | NFunction f \<Rightarrow> endVisitFunction f s
      | NModifier m \<Rightarrow> Inr (endVisitModifier m s)
      | NPragma p \<Rightarrow> endVisitPragma p s
      | NEvent e \<Rightarrow> Inr (endVisitEvent e s)
      | NVariable d \<Rightarrow> Inr (endVisitVariableDeclaration (variableInfo d) s)
      | NStatement (VariableDeclarationStatement i ds e) \<Rightarrow> endVisitVariableDeclarationStatement ds e s
      | NStatement (Return i e) \<Rightarrow> Inr (endVisitReturn e s)
      | NStatement (EmitStatement i e) \<Rightarrow> Inr (endVisitEmit e s)
      | NExpression (Literal i tok v sub) \<Rightarrow> Inr (endVisitLiteral i s)
      | NExpression (Identifier i name d) \<Rightarrow> Inr (endVisitIdentifier i name s)
      | NExpression (MemberAccess i b m) \<Rightarrow> endVisitMemberAccess env i b m s
      | NExpression (Assignment i l op r) \<Rightarrow> Inr (endVisitAssignment l op s)
      | NExpression (BinaryOperation i l op r) \<Rightarrow> Inr (endVisitBinary i l op r s)
      | NExpression (FunctionCall i f args names) \<Rightarrow> endVisitCall env i f args s
      | _ \<Rightarrow> Inr s)"

text \<open>The condition is visited outside, the branches inside of a conditional.\<close>

definition setConditional :: "bool \<Rightarrow> CheckerState \<Rightarrow> CheckerState" where
  "setConditional b s = s\<lparr>m_conditional := b\<rparr>"

type_synonym CheckerStep = "CheckerState res \<Rightarrow> CheckerState res"

definition visitIf :: "CheckerStep \<Rightarrow> CheckerStep \<Rightarrow> CheckerStep option \<Rightarrow> CheckerStep" where
  "visitIf c t f s =
     map_sum id (setConditional False) (optional f (t (map_sum id (setConditional True) (c s))))"

text \<open>
  The statements of a block. A required send is remembered and not visited; the statement after it
  gives the report, and is not looked at as a send itself.
\<close>

definition warnPull :: "SourceLocation \<Rightarrow> CheckerState \<Rightarrow> CheckerState" where
  "warnPull loc = warn loc PullVsPush"

fun visitStatements :: "SourceLocation option \<Rightarrow> (Statement \<times> CheckerStep) list \<Rightarrow> CheckerStep" where
  "visitStatements send [] s = s"
| "visitStatements (Some loc) ((st, accept) # sts) s = visitStatements None sts (accept (map_sum id (warnPull loc) s))"
| "visitStatements None ((st, accept) # sts) s =
     (if isRequiredSend st then visitStatements (Some (n_location (statementInfo st))) sts s
      else visitStatements None sts (accept s))"

definition checker :: "CheckerEnv \<Rightarrow> CheckerState res Visitor" where
  "checker env =
     \<lparr>vi_visit = (\<lambda>n s. case bindR s (checkerVisit env n) of Inl e \<Rightarrow> (False, Inl e) | Inr (go, s') \<Rightarrow> (go, Inr s')),
      vi_endVisit = (\<lambda>n s. bindR s (checkerEndVisit env n)),
      vi_visitIf = (\<lambda>st c t f s. (False, visitIf c t f s)),
      vi_visitBlock = (\<lambda>st sts s. (False, visitStatements None sts s))\<rparr>"

section \<open>Parents\<close>

text \<open>
  The \<open>ParentAnnotator\<close>: the current parent, and the parent of every node visited so far. The parent of
  the root is the root.
\<close>

primrec nodeInfo :: "Node \<Rightarrow> NodeInfo" where
  "nodeInfo (NExpression e) = NodeInfo.truncate (expressionInfo e)"
| "nodeInfo (NTypeName t) =
     (case t of
        ElementaryTypeName i _ \<Rightarrow> i
      | UserDefinedTypeName i _ \<Rightarrow> i
      | FunctionTypeName i _ _ _ _ \<Rightarrow> i
      | MappingName i _ _ \<Rightarrow> i
      | ArrayTypeName i _ _ \<Rightarrow> i)"
| "nodeInfo (NParameterList ps) = (case ps of ParameterList i vs \<Rightarrow> i)"
| "nodeInfo (NVariable d) = NodeInfo.truncate (variableInfo d)"
| "nodeInfo (NStatement st) = statementInfo st"
| "nodeInfo (NModifierInvocation m) = NodeInfo.truncate m"
| "nodeInfo (NInheritanceSpecifier b) = NodeInfo.truncate b"
| "nodeInfo (NFunction f) = NodeInfo.truncate f"
| "nodeInfo (NModifier m) = NodeInfo.truncate m"
| "nodeInfo (NEvent e) = NodeInfo.truncate e"
| "nodeInfo (NStruct d) = NodeInfo.truncate d"
| "nodeInfo (NEnumValue e) = NodeInfo.truncate e"
| "nodeInfo (NEnum e) = NodeInfo.truncate e"
| "nodeInfo (NUsingFor u) = NodeInfo.truncate u"
| "nodeInfo (NPragma p) = NodeInfo.truncate p"
| "nodeInfo (NImport i) = NodeInfo.truncate i"
| "nodeInfo (NContract c) = NodeInfo.truncate c"
| "nodeInfo (NSourceUnit u) = NodeInfo.truncate u"

record ParentState =
  m_currentParent :: Node
  m_parents :: "(nat \<times> Node) list"

definition visitNode :: "Node \<Rightarrow> ParentState \<Rightarrow> ParentState" where
  "visitNode n p = p\<lparr>m_parents := (n_id (nodeInfo n), m_currentParent p) # m_parents p, m_currentParent := n\<rparr>"

definition endVisitNode :: "Node \<Rightarrow> ParentState \<Rightarrow> ParentState" where
  "endVisitNode n p =
     (case map_of (m_parents p) (n_id (nodeInfo n)) of None \<Rightarrow> p | Some q \<Rightarrow> p\<lparr>m_currentParent := q\<rparr>)"

definition parentAnnotator :: "ParentState Visitor" where
  "parentAnnotator =
     \<lparr>vi_visit = (\<lambda>n p. (True, visitNode n p)), vi_endVisit = endVisitNode,
      vi_visitIf = (\<lambda>st c t f p. (True, visitNode (NStatement st) p)),
      vi_visitBlock = (\<lambda>st sts p. (True, visitNode (NStatement st) p))\<rparr>"

definition annotateParent :: "SourceUnit \<Rightarrow> (nat \<times> Node) list" where
  "annotateParent u =
     m_parents (acceptSourceUnit parentAnnotator u \<lparr>m_currentParent = NSourceUnit u, m_parents = []\<rparr>)"

section \<open>The check\<close>

definition checkSyntax :: "bool \<Rightarrow> TypeEnv \<Rightarrow> nat \<Rightarrow> SourceUnit \<Rightarrow> Reporter \<Rightarrow> (bool \<times> Reporter) res" where
  "checkSyntax asERC20 types depth u r =
     (let env = \<lparr>ce_asERC20 = asERC20, ce_types = types, ce_depth = depth, ce_parent = map_of (annotateParent u)\<rparr>
      in bindR (acceptSourceUnit (checker env) u (Inr (initialChecker r))) (\<lambda>s.
           let s = reportERC20PropertyIssues s
           in Inr (containsOnlyWarnings (m_errorList (m_errorReporter s)), m_errorReporter s)))"

end
