(* ===== verification/AstTraversal.thy ===== *)
theory AstTraversal
  imports SolidityAst
begin

text \<open>
  What can be said of a traversal from what the callbacks do. Two visitors whose callbacks preserve a
  relation of their states preserve it over every part of the tree.
\<close>

section \<open>Simulation\<close>

text \<open>The nodes that occur inside of function bodies and headers.\<close>

primrec inBody :: "Node \<Rightarrow> bool" where
  "inBody (NExpression e) = True"
| "inBody (NTypeName t) = True"
| "inBody (NParameterList ps) = True"
| "inBody (NVariable d) = True"
| "inBody (NStatement st) = True"
| "inBody (NModifierInvocation m) = True"
| "inBody (NInheritanceSpecifier b) = False"
| "inBody (NFunction f) = False"
| "inBody (NModifier m) = False"
| "inBody (NEvent e) = False"
| "inBody (NStruct d) = False"
| "inBody (NEnumValue e) = False"
| "inBody (NEnum e) = False"
| "inBody (NUsingFor u) = False"
| "inBody (NPragma p) = False"
| "inBody (NImport i) = False"
| "inBody (NContract c) = False"
| "inBody (NSourceUnit u) = False"

locale body_simulation =
  fixes v :: "'s Visitor" and w :: "'t Visitor" and R :: "'s \<Rightarrow> 't \<Rightarrow> bool"
  assumes body_law: "inBody n \<Longrightarrow> rel_fun R R c d \<Longrightarrow> rel_fun R R (around v n c) (around w n d)"
    and if_law: "rel_fun R R c c' \<Longrightarrow> rel_fun R R t t' \<Longrightarrow> rel_option (rel_fun R R) f f' \<Longrightarrow>
        rel_fun R R (aroundIf v st c t f) (aroundIf w st c' t' f')"
    and block_law: "list_all2 (rel_prod (=) (rel_fun R R)) fs gs \<Longrightarrow>
        rel_fun R R (aroundBlock v st fs) (aroundBlock w st gs)"
begin

lemma optional_sim: "rel_option (rel_fun R R) f g \<Longrightarrow> rel_fun R R (optional f) (optional g)"
  by (cases f; cases g) (auto simp: optional_def rel_fun_def)

lemma inOrder_sim: "list_all2 (rel_fun R R) fs gs \<Longrightarrow> rel_fun R R (inOrder fs) (inOrder gs)"
proof (induction rule: list_all2_induct)
  case Nil
  show ?case by (simp add: inOrder_def rel_fun_def)
next
  case (Cons f fs g gs)
  then show ?case by (simp add: inOrder_def rel_fun_def)
qed

lemma map_sim: "(\<And>x. x \<in> set xs \<Longrightarrow> rel_fun R R (f x) (g x)) \<Longrightarrow> list_all2 (rel_fun R R) (map f xs) (map g xs)"
  by (induction xs) auto

lemma option_sim: "(\<And>x. o' = Some x \<Longrightarrow> rel_fun R R (f x) (g x)) \<Longrightarrow> rel_option (rel_fun R R) (map_option f o') (map_option g o')"
  by (cases o') auto

lemmas sim_rules = body_law inOrder_sim optional_sim option_sim map_sim list_all2_appendI

lemma expression_sim:
  "rel_fun R R (acceptExpression v e) (acceptExpression w e)"
  "rel_fun R R (acceptTypeName v ty) (acceptTypeName w ty)"
  "rel_fun R R (acceptParameterList v ps) (acceptParameterList w ps)"
  "rel_fun R R (acceptVariable v d) (acceptVariable w d)"
  by (induction e and ty and ps and d)
    (auto intro!: sim_rules simp: option.set_map)

lemma statement_sim: "rel_fun R R (acceptStatement v st) (acceptStatement w st)"
proof (induction st)
  case (Block i ss)
  have "list_all2 (rel_prod (=) (rel_fun R R)) (map (\<lambda>st. (st, acceptStatement v st)) ss) (map (\<lambda>st. (st, acceptStatement w st)) ss)"
    using Block by (induction ss) auto
  then show ?case using Block by (auto intro!: block_law sim_rules)
next
  case (IfStatement i c t f)
  then show ?case by (auto intro!: if_law sim_rules expression_sim simp: option.set_map)
qed (auto intro!: sim_rules expression_sim simp: option.set_map)

lemma modifierInvocation_sim: "rel_fun R R (acceptModifierInvocation v mi) (acceptModifierInvocation w mi)"
  by (auto intro!: sim_rules expression_sim simp: acceptModifierInvocation_def split: option.split)

lemma function_children_sim:
  "rel_fun R R
     (inOrder ([acceptParameterList v (fd_parameters f), acceptParameterList v (fd_returnParameters f)] @
        map (acceptModifierInvocation v) (fd_modifiers f) @ [optional (map_option (acceptStatement v) (fd_body f))]))
     (inOrder ([acceptParameterList w (fd_parameters f), acceptParameterList w (fd_returnParameters f)] @
        map (acceptModifierInvocation w) (fd_modifiers f) @ [optional (map_option (acceptStatement w) (fd_body f))]))"
  by (intro inOrder_sim list_all2_appendI map_sim optional_sim option_sim list.rel_intros
      expression_sim statement_sim modifierInvocation_sim)

end

locale visitor_simulation = body_simulation +
  assumes around_law: "rel_fun R R c d \<Longrightarrow> rel_fun R R (around v n c) (around w n d)"
begin

lemma definition_sim:
  "rel_fun R R (acceptInheritanceSpecifier v b) (acceptInheritanceSpecifier w b)"
  "rel_fun R R (acceptModifier v m) (acceptModifier w m)"
  "rel_fun R R (acceptEvent v ev) (acceptEvent w ev)"
  "rel_fun R R (acceptStruct v sd) (acceptStruct w sd)"
  "rel_fun R R (acceptEnum v en) (acceptEnum w en)"
  "rel_fun R R (acceptUsingFor v u) (acceptUsingFor w u)"
  by (auto intro!: around_law sim_rules expression_sim statement_sim
      simp: acceptInheritanceSpecifier_def acceptModifier_def acceptEvent_def
        acceptStruct_def acceptEnum_def acceptEnumValue_def acceptUsingFor_def split: option.split)

lemma function_sim: "rel_fun R R (acceptFunction v f) (acceptFunction w f)"
  unfolding acceptFunction_def by (intro around_law function_children_sim)

lemma contract_sim: "rel_fun R R (acceptContract v c) (acceptContract w c)"
proof -
  have "rel_fun R R (acceptSubNode v n) (acceptSubNode w n)" for n
    by (cases n) (auto simp: acceptSubNode_def function_sim definition_sim expression_sim)
  then show ?thesis
    unfolding acceptContract_def by (intro around_law inOrder_sim list_all2_appendI map_sim definition_sim)
qed

lemma sourceUnit_sim: "rel_fun R R (acceptSourceUnit v u) (acceptSourceUnit w u)"
proof -
  have "rel_fun R R (acceptSourceNode v n) (acceptSourceNode w n)" for n
    by (cases n) (auto simp: acceptSourceNode_def contract_sim intro!: around_law inOrder_sim)
  then show ?thesis unfolding acceptSourceUnit_def by (intro around_law inOrder_sim map_sim)
qed

end

end
