(* ===== verification/SecbitFacts.thy ===== *)
theory SecbitFacts
  imports SecbitChecker AstTraversal
begin

text \<open>
  What the SECBIT checks report. The contributions of the nodes of a tree are gathered in the order in
  which the checker leaves them, each told whether it lies inside of a comparison; the warnings on
  conditions, and the facts the ERC20 checks of a function rest on, are such contributions.
\<close>

section \<open>Gathering\<close>

text \<open>The statements of a block that the checker visits.\<close>

fun visited :: "bool \<Rightarrow> (Statement \<times> 'a) list \<Rightarrow> 'a list" where
  "visited pending [] = []"
| "visited True ((st, x) # sts) = x # visited False sts"
| "visited False ((st, x) # sts) = (if isRequiredSend st then visited True sts else x # visited False sts)"

primrec gather :: "(bool \<Rightarrow> Node \<Rightarrow> 'a list) \<Rightarrow> Expression \<Rightarrow> bool \<Rightarrow> 'a list"
  and gatherTypeName :: "(bool \<Rightarrow> Node \<Rightarrow> 'a list) \<Rightarrow> TypeName \<Rightarrow> bool \<Rightarrow> 'a list"
  and gatherParameters :: "(bool \<Rightarrow> Node \<Rightarrow> 'a list) \<Rightarrow> ParameterList \<Rightarrow> bool \<Rightarrow> 'a list"
  and gatherVariable :: "(bool \<Rightarrow> Node \<Rightarrow> 'a list) \<Rightarrow> VariableDeclaration \<Rightarrow> bool \<Rightarrow> 'a list" where
  "gather g (Conditional i c t f) b = gather g c b @ gather g t b @ gather g f b @ g b (NExpression (Conditional i c t f))"
| "gather g (Assignment i l op r) b = gather g l b @ gather g r b @ g b (NExpression (Assignment i l op r))"
| "gather g (TupleExpression i cs a) b =
     concat (map (\<lambda>x. case x of None \<Rightarrow> [] | Some f \<Rightarrow> f b) (map (map_option (gather g)) cs)) @ g b (NExpression (TupleExpression i cs a))"
| "gather g (UnaryOperation i op e p) b = gather g e b @ g b (NExpression (UnaryOperation i op e p))"
| "gather g (BinaryOperation i l op r) b =
     gather g l (b \<or> isCompareOp op) @ gather g r (b \<or> isCompareOp op) @ g b (NExpression (BinaryOperation i l op r))"
| "gather g (FunctionCall i e args names) b =
     gather g e b @ concat (map (\<lambda>f. f b) (map (gather g) args)) @ g b (NExpression (FunctionCall i e args names))"
| "gather g (NewExpression i t) b = gatherTypeName g t b @ g b (NExpression (NewExpression i t))"
| "gather g (MemberAccess i e m) b = gather g e b @ g b (NExpression (MemberAccess i e m))"
| "gather g (IndexAccess i e x) b =
     gather g e b @ (case map_option (gather g) x of None \<Rightarrow> [] | Some f \<Rightarrow> f b) @ g b (NExpression (IndexAccess i e x))"
| "gather g (Identifier i name d) b = g b (NExpression (Identifier i name d))"
| "gather g (ElementaryTypeNameExpression i t) b = g b (NExpression (ElementaryTypeNameExpression i t))"
| "gather g (Literal i tok val sub) b = g b (NExpression (Literal i tok val sub))"
| "gatherTypeName g (ElementaryTypeName i t) b = g b (NTypeName (ElementaryTypeName i t))"
| "gatherTypeName g (UserDefinedTypeName i p) b = g b (NTypeName (UserDefinedTypeName i p))"
| "gatherTypeName g (FunctionTypeName i ps rs vis m) b =
     gatherParameters g ps b @ gatherParameters g rs b @ g b (NTypeName (FunctionTypeName i ps rs vis m))"
| "gatherTypeName g (MappingName i k t) b = gatherTypeName g k b @ gatherTypeName g t b @ g b (NTypeName (MappingName i k t))"
| "gatherTypeName g (ArrayTypeName i t x) b =
     gatherTypeName g t b @ (case map_option (gather g) x of None \<Rightarrow> [] | Some f \<Rightarrow> f b) @ g b (NTypeName (ArrayTypeName i t x))"
| "gatherParameters g (ParameterList i vs) b =
     concat (map (\<lambda>f. f b) (map (gatherVariable g) vs)) @ g b (NParameterList (ParameterList i vs))"
| "gatherVariable g (VariableDeclaration i t e) b =
     (case map_option (gatherTypeName g) t of None \<Rightarrow> [] | Some f \<Rightarrow> f b) @
     (case map_option (gather g) e of None \<Rightarrow> [] | Some f \<Rightarrow> f b) @ g b (NVariable (VariableDeclaration i t e))"

definition gatherOption :: "(bool \<Rightarrow> Node \<Rightarrow> 'a list) \<Rightarrow> Expression option \<Rightarrow> 'a list" where
  "gatherOption g e = (case e of None \<Rightarrow> [] | Some e \<Rightarrow> gather g e False)"

primrec gatherStatement :: "(bool \<Rightarrow> Node \<Rightarrow> 'a list) \<Rightarrow> Statement \<Rightarrow> 'a list" where
  "gatherStatement g (InlineAssembly i) = g False (NStatement (InlineAssembly i))"
| "gatherStatement g (Block i ss) =
     concat (visited False (map (\<lambda>st. (st, gatherStatement g st)) ss)) @ g False (NStatement (Block i ss))"
| "gatherStatement g (PlaceholderStatement i) = g False (NStatement (PlaceholderStatement i))"
| "gatherStatement g (IfStatement i c t f) =
     gather g c False @ gatherStatement g t @ (case map_option (gatherStatement g) f of None \<Rightarrow> [] | Some xs \<Rightarrow> xs) @
     g False (NStatement (IfStatement i c t f))"
| "gatherStatement g (WhileStatement i c b d) =
     gather g c False @ gatherStatement g b @ g False (NStatement (WhileStatement i c b d))"
| "gatherStatement g (ForStatement i a c l b) =
     (case map_option (gatherStatement g) a of None \<Rightarrow> [] | Some xs \<Rightarrow> xs) @ gatherOption g c @
     (case map_option (gatherStatement g) l of None \<Rightarrow> [] | Some xs \<Rightarrow> xs) @ gatherStatement g b @
     g False (NStatement (ForStatement i a c l b))"
| "gatherStatement g (Continue i) = g False (NStatement (Continue i))"
| "gatherStatement g (Break i) = g False (NStatement (Break i))"
| "gatherStatement g (Return i e) = gatherOption g e @ g False (NStatement (Return i e))"
| "gatherStatement g (Throw i) = g False (NStatement (Throw i))"
| "gatherStatement g (EmitStatement i e) = gather g e False @ g False (NStatement (EmitStatement i e))"
| "gatherStatement g (VariableDeclarationStatement i ds e) =
     concat (map (\<lambda>d. case d of None \<Rightarrow> [] | Some d \<Rightarrow> gatherVariable g d False) ds) @ gatherOption g e @
     g False (NStatement (VariableDeclarationStatement i ds e))"
| "gatherStatement g (ExpressionStatement i e) = gather g e False @ g False (NStatement (ExpressionStatement i e))"

definition gatherModifierInvocation :: "(bool \<Rightarrow> Node \<Rightarrow> 'a list) \<Rightarrow> ModifierInvocation \<Rightarrow> 'a list" where
  "gatherModifierInvocation g m =
     gather g (mi_name m) False @
     (case mi_arguments m of None \<Rightarrow> [] | Some as \<Rightarrow> concat (map (\<lambda>e. gather g e False) as)) @ g False (NModifierInvocation m)"

text \<open>The children of a function.\<close>

definition gatherFunction :: "(bool \<Rightarrow> Node \<Rightarrow> 'a list) \<Rightarrow> FunctionDefinition \<Rightarrow> 'a list" where
  "gatherFunction g f =
     gatherParameters g (fd_parameters f) False @ gatherParameters g (fd_returnParameters f) False @
     concat (map (gatherModifierInvocation g) (fd_modifiers f)) @
     (case fd_body f of None \<Rightarrow> [] | Some b \<Rightarrow> gatherStatement g b)"

definition gatherSubNode :: "(bool \<Rightarrow> Node \<Rightarrow> 'a list) \<Rightarrow> SubNode \<Rightarrow> 'a list" where
  "gatherSubNode g n =
     (case n of
        FunctionNode f \<Rightarrow> gatherFunction g f @ g False (NFunction f)
      | VariableNode d \<Rightarrow> gatherVariable g d False
      | ModifierNode m \<Rightarrow> gatherParameters g (md_parameters m) False @ gatherStatement g (md_body m) @ g False (NModifier m)
      | EventNode e \<Rightarrow> gatherParameters g (ed_parameters e) False @ g False (NEvent e)
      | StructNode d \<Rightarrow> concat (map (\<lambda>v. gatherVariable g v False) (sd_members d)) @ g False (NStruct d)
      | EnumNode e \<Rightarrow> concat (map (\<lambda>v. g False (NEnumValue v)) (en_members e)) @ g False (NEnum e)
      | UsingForNode u \<Rightarrow>
          gatherTypeName g (uf_libraryName u) False @
          (case uf_typeName u of None \<Rightarrow> [] | Some t \<Rightarrow> gatherTypeName g t False) @ g False (NUsingFor u))"

definition gatherBase :: "(bool \<Rightarrow> Node \<Rightarrow> 'a list) \<Rightarrow> InheritanceSpecifier \<Rightarrow> 'a list" where
  "gatherBase g b =
     gatherTypeName g (is_baseName b) False @
     (case is_arguments b of None \<Rightarrow> [] | Some as \<Rightarrow> concat (map (\<lambda>e. gather g e False) as)) @ g False (NInheritanceSpecifier b)"

text \<open>The library \<open>SafeMath\<close> is not visited.\<close>

definition gatherSourceNode :: "(bool \<Rightarrow> Node \<Rightarrow> 'a list) \<Rightarrow> SourceNode \<Rightarrow> 'a list" where
  "gatherSourceNode g n =
     (case n of
        PragmaNode p \<Rightarrow> g False (NPragma p)
      | ImportNode i \<Rightarrow> g False (NImport i)
      | ContractNode c \<Rightarrow>
          (if cd_name c = ''SafeMath'' then []
           else concat (map (gatherBase g) (cd_baseContracts c)) @ concat (map (gatherSubNode g) (cd_subNodes c))) @
          g False (NContract c))"

definition gatherSourceUnit :: "(bool \<Rightarrow> Node \<Rightarrow> 'a list) \<Rightarrow> SourceUnit \<Rightarrow> 'a list" where
  "gatherSourceUnit g u = concat (map (gatherSourceNode g) (su_nodes u)) @ g False (NSourceUnit u)"

subsection \<open>As a visitor\<close>

definition isComparison :: "Node \<Rightarrow> bool" where
  "isComparison n \<longleftrightarrow> (case n of NExpression (BinaryOperation i l op r) \<Rightarrow> isCompareOp op | _ \<Rightarrow> False)"

text \<open>The state: how many comparisons are open, and what has been gathered.\<close>

definition gatherer :: "(bool \<Rightarrow> Node \<Rightarrow> 'a list) \<Rightarrow> (int \<times> 'a list) Visitor" where
  "gatherer g =
     \<lparr>vi_visit = (\<lambda>n (d, l). (\<not> (case n of NContract c \<Rightarrow> cd_name c = ''SafeMath'' | _ \<Rightarrow> False),
        (if isComparison n then d + 1 else d, l))),
      vi_endVisit = (\<lambda>n (d, l). let d = (if isComparison n then d - 1 else d) in (d, l @ g (d > 0) n)),
      vi_visitIf = (\<lambda>st c t f s. (True, s)),
      vi_visitBlock = (\<lambda>st sts s. (False, inOrder (visited False sts) s))\<rparr>"

lemma inOrder_simps [simp]: "inOrder [] s = s" "inOrder (f # fs) s = inOrder fs (f s)"
  by (simp_all add: inOrder_def)

lemma inOrder_append [simp]: "inOrder (fs @ gs) s = inOrder gs (inOrder fs s)"
  by (simp add: inOrder_def)

lemma inOrder_map_gather:
  "(\<And>x l. x \<in> set xs \<Longrightarrow> f x (d, l) = (d, l @ h x)) \<Longrightarrow> inOrder (map f xs) (d, l) = (d, l @ concat (map h xs))"
  by (induction xs arbitrary: l) simp_all

lemma optional_simps [simp]: "optional None s = s" "optional (Some f) s = f s"
  by (simp_all add: optional_def)

lemma around_gatherer:
  assumes "\<And>l. c ((if isComparison n then d + 1 else d), l) = ((if isComparison n then d + 1 else d), l @ xs)"
    and "case n of NContract c \<Rightarrow> cd_name c \<noteq> ''SafeMath'' | _ \<Rightarrow> True"
  shows "around (gatherer g) n c (d, l) = (d, l @ xs @ g (d > 0) n)"
  using assms(2) assms(1) [of l] by (cases n) (auto simp: around_def gatherer_def Let_def)

lemma gather_expression:
  "0 \<le> d \<Longrightarrow> acceptExpression (gatherer g) e (d, l) = (d, l @ gather g e (d > 0))"
  "0 \<le> d \<Longrightarrow> acceptTypeName (gatherer g) ty (d, l) = (d, l @ gatherTypeName g ty (d > 0))"
  "0 \<le> d \<Longrightarrow> acceptParameterList (gatherer g) ps (d, l) = (d, l @ gatherParameters g ps (d > 0))"
  "0 \<le> d \<Longrightarrow> acceptVariable (gatherer g) v (d, l) = (d, l @ gatherVariable g v (d > 0))"
proof (induction e and ty and ps and v arbitrary: d l and d l and d l and d l)
  case (BinaryOperation i x op y)
  show ?case
    using BinaryOperation.IH(1) [of "d + 1"] BinaryOperation.IH(2) [of "d + 1"]
      BinaryOperation.IH(1) [of d] BinaryOperation.IH(2) [of d] BinaryOperation.prems
    by (cases "isCompareOp op")
      (auto intro!: around_gatherer [THEN trans] simp: isComparison_def)
next
  case (FunctionCall i e args ns)
  then show ?case
    by (auto intro!: around_gatherer [THEN trans] simp: isComparison_def comp_def
        inOrder_map_gather [where h = "\<lambda>x. gather g x (0 < d)"])
next
  case (TupleExpression i cs a)
  then show ?case
    by (auto intro!: around_gatherer [THEN trans] inOrder_map_gather [THEN trans] simp: isComparison_def comp_def split: option.split)
next
  case (IndexAccess i e x)
  then show ?case by (cases x) (auto intro!: around_gatherer [THEN trans] simp: isComparison_def)
next
  case (ArrayTypeName i t x)
  then show ?case by (cases x) (auto intro!: around_gatherer [THEN trans] simp: isComparison_def)
next
  case (ParameterList i vs)
  then show ?case
    by (auto intro!: around_gatherer [THEN trans] simp: isComparison_def comp_def
        inOrder_map_gather [where h = "\<lambda>x. gatherVariable g x (0 < d)"])
next
  case (VariableDeclaration i t e)
  then show ?case by (cases t; cases e) (auto intro!: around_gatherer [THEN trans] simp: isComparison_def)
qed (auto intro!: around_gatherer [THEN trans] simp: isComparison_def)

lemma gatherer_visitIf: "vi_visitIf (gatherer g) st c t f s = (True, s)"
  by (simp add: gatherer_def)

lemmas gather_expression0 = gather_expression [where d = 0, simplified]

lemma gather_optional:
  "optional (map_option (acceptExpression (gatherer g)) e) (0, l) = (0, l @ gatherOption g e)"
  by (cases e) (simp_all add: gatherOption_def gather_expression0)

lemma visited_gather:
  "(\<And>st l. st \<in> set sts \<Longrightarrow> f st (d, l) = (d, l @ h st)) \<Longrightarrow>
   inOrder (visited p (map (\<lambda>st. (st, f st)) sts)) (d, l) = (d, l @ concat (visited p (map (\<lambda>st. (st, h st)) sts)))"
proof (induction sts arbitrary: p l)
  case (Cons st sts)
  then show ?case by (cases p) auto
qed simp

lemma gather_statement: "acceptStatement (gatherer g) st (0, l) = (0, l @ gatherStatement g st)"
proof (induction st arbitrary: l)
  case (Block i ss)
  have "inOrder (visited False (map (\<lambda>st. (st, acceptStatement (gatherer g) st)) ss)) (0, l) =
          (0, l @ concat (visited False (map (\<lambda>st. (st, gatherStatement g st)) ss)))"
    using Block by (intro visited_gather)
  then show ?case by (simp add: aroundBlock_def gatherer_def isComparison_def)
next
  case (IfStatement i c t f)
  then show ?case
    by (cases f) (simp_all add: aroundIf_def gatherer_visitIf gather_expression0, simp_all add: gatherer_def isComparison_def)
next
  case (ForStatement i a c k b)
  then show ?case
    by (cases a; cases k) (auto intro!: around_gatherer [THEN trans] simp: isComparison_def gather_expression0 gather_optional)
next
  case (VariableDeclarationStatement i ds e)
  have "inOrder (map (\<lambda>d. optional (map_option (acceptVariable (gatherer g)) d)) ds) (0, l) =
          (0, l @ concat (map (\<lambda>d. case d of None \<Rightarrow> [] | Some d \<Rightarrow> gatherVariable g d False) ds))" for l
    by (rule inOrder_map_gather) (simp add: gather_expression0 split: option.split)
  then show ?case
    by (auto intro!: around_gatherer [THEN trans] simp: isComparison_def gather_expression0 gather_optional)
qed (auto intro!: around_gatherer [THEN trans] simp: isComparison_def gather_expression0 gather_optional)

lemma gather_modifierInvocation:
  "acceptModifierInvocation (gatherer g) m (0, l) = (0, l @ gatherModifierInvocation g m)"
  unfolding acceptModifierInvocation_def gatherModifierInvocation_def
  by (cases "mi_arguments m")
    (auto intro!: around_gatherer [THEN trans] simp: isComparison_def gather_expression0
      inOrder_map_gather [where h = "\<lambda>e. gather g e False"])

lemma gather_function_children:
  "inOrder ([acceptParameterList (gatherer g) (fd_parameters f), acceptParameterList (gatherer g) (fd_returnParameters f)] @
     map (acceptModifierInvocation (gatherer g)) (fd_modifiers f) @ [optional (map_option (acceptStatement (gatherer g)) (fd_body f))])
     (0, l) = (0, l @ gatherFunction g f)"
  by (cases "fd_body f")
    (simp_all add: gather_expression0 gatherFunction_def gather_statement
      inOrder_map_gather [where h = "gatherModifierInvocation g"] gather_modifierInvocation)

lemma gather_function: "acceptFunction (gatherer g) f (0, l) = (0, l @ gatherFunction g f @ g False (NFunction f))"
proof -
  have "around (gatherer g) (NFunction f) k (0, l) = (0, l @ xs @ g False (NFunction f))" if "\<And>l. k (0, l) = (0, l @ xs)" for k xs
    using around_gatherer [of k "NFunction f" 0 xs g l] that by (simp add: isComparison_def)
  from this [OF gather_function_children] show ?thesis by (simp only: acceptFunction_def)
qed

lemmas gather_parts = isComparison_def gather_expression0 gather_statement gather_function inOrder_map_gather

lemma gather_subNode: "acceptSubNode (gatherer g) n (0, l) = (0, l @ gatherSubNode g n)"
proof (cases n)
  case (EnumNode e)
  have "acceptEnumValue (gatherer g) v (0, l) = (0, l @ g False (NEnumValue v))" for v l
    unfolding acceptEnumValue_def by (auto intro!: around_gatherer [THEN trans] simp: isComparison_def)
  with EnumNode show ?thesis
    by (auto intro!: around_gatherer [THEN trans] simp: acceptSubNode_def gatherSubNode_def acceptEnum_def gather_parts
      inOrder_map_gather [where h = "\<lambda>v. g False (NEnumValue v)"])
next
  case (StructNode d)
  then show ?thesis
    by (auto intro!: around_gatherer [THEN trans] simp: acceptSubNode_def gatherSubNode_def acceptStruct_def gather_parts
      inOrder_map_gather [where h = "\<lambda>v. gatherVariable g v False"])
next
  case (UsingForNode u)
  then show ?thesis
    by (cases "uf_typeName u")
      (auto intro!: around_gatherer [THEN trans] simp: acceptSubNode_def gatherSubNode_def acceptUsingFor_def gather_parts)
qed (auto intro!: around_gatherer [THEN trans]
    simp: acceptSubNode_def gatherSubNode_def acceptModifier_def acceptEvent_def gather_parts)

lemma gather_base: "acceptInheritanceSpecifier (gatherer g) b (0, l) = (0, l @ gatherBase g b)"
  unfolding acceptInheritanceSpecifier_def gatherBase_def
  by (cases "is_arguments b")
    (auto intro!: around_gatherer [THEN trans] simp: gather_parts inOrder_map_gather [where h = "\<lambda>e. gather g e False"])

lemma gather_sourceNode: "acceptSourceNode (gatherer g) n (0, l) = (0, l @ gatherSourceNode g n)"
proof (cases n)
  case (ContractNode c)
  show ?thesis
  proof (cases "cd_name c = ''SafeMath''")
    case True
    then show ?thesis
      by (simp add: ContractNode acceptSourceNode_def acceptContract_def gatherSourceNode_def around_def gatherer_def isComparison_def)
  next
    case False
    then show ?thesis
      by (auto intro!: around_gatherer [THEN trans]
        simp: ContractNode acceptSourceNode_def acceptContract_def gatherSourceNode_def isComparison_def
          inOrder_map_gather [where h = "gatherBase g"] inOrder_map_gather [where h = "gatherSubNode g"] gather_base gather_subNode)
  qed
qed (auto intro!: around_gatherer [THEN trans] simp: acceptSourceNode_def gatherSourceNode_def isComparison_def)

lemma gather_sourceUnit: "acceptSourceUnit (gatherer g) u (0, l) = (0, l @ gatherSourceUnit g u)"
  unfolding acceptSourceUnit_def gatherSourceUnit_def
  by (auto intro!: around_gatherer [THEN trans] simp: isComparison_def
      inOrder_map_gather [where h = "gatherSourceNode g"] gather_sourceNode)

section \<open>The checker gathers\<close>

text \<open>
  A view of the checker's state that the callbacks change as the gatherer does is, at the end of a
  traversal, what has been gathered; nothing is said of a traversal that stopped.
\<close>

definition finished :: "('s \<Rightarrow> 't \<Rightarrow> bool) \<Rightarrow> 's res \<Rightarrow> 't \<Rightarrow> bool" where
  "finished R s t \<longleftrightarrow> (case s of Inl e \<Rightarrow> True | Inr s \<Rightarrow> R s t)"

lemma finished_simps [simp]: "finished R (Inl e) t" "finished R (Inr s) t = R s t"
  by (simp_all add: finished_def)

lemma finished_bindR: "finished R s t \<Longrightarrow> (\<And>s'. s = Inr s' \<Longrightarrow> R s' t \<Longrightarrow> finished Q (f s') t') \<Longrightarrow> finished Q (bindR s f) t'"
  by (cases s) auto

lemma finished_map: "finished R s t \<Longrightarrow> (\<And>s'. R s' t \<Longrightarrow> R (f s') t) \<Longrightarrow> finished R (map_sum id f s) t"
  by (cases s) auto

lemma gatherer_visitBlock: "vi_visitBlock (gatherer g) st sts s = (False, inOrder (visited False sts) s)"
  by (simp add: gatherer_def)

lemma checker_visitIf: "vi_visitIf (checker env) st c t f s = (False, visitIf c t f s)"
  by (simp add: checker_def)

lemma checker_visitBlock: "vi_visitBlock (checker env) st sts s = (False, visitStatements None sts s)"
  by (simp add: checker_def)

locale checker_view =
  fixes env :: CheckerEnv and g :: "bool \<Rightarrow> Node \<Rightarrow> 'a list" and R :: "CheckerState \<Rightarrow> int \<times> 'a list \<Rightarrow> bool" and scope :: "Node \<Rightarrow> bool"
  assumes body_scope: "inBody n \<Longrightarrow> scope n"
    and visit: "scope n \<Longrightarrow> R s t \<Longrightarrow> checkerVisit env n s = Inr (go, s') \<Longrightarrow>
        go = fst (vi_visit (gatherer g) n t) \<and> R s' (snd (vi_visit (gatherer g) n t))"
    and endVisit: "scope n \<Longrightarrow> R s t \<Longrightarrow> checkerEndVisit env n s = Inr s' \<Longrightarrow> R s' (vi_endVisit (gatherer g) n t)"
    and warnPull: "R s t \<Longrightarrow> R (warnPull loc s) t"
    and conditional: "R s t \<Longrightarrow> R (setConditional b s) t"
begin

lemma end_sim: "scope n \<Longrightarrow> finished R s t \<Longrightarrow> finished R (vi_endVisit (checker env) n s) (vi_endVisit (gatherer g) n t)"
  using endVisit by (cases s) (auto simp: checker_def finished_def split: sum.split)

lemma around_sim:
  assumes "scope n" and "rel_fun (finished R) (finished R) c d"
  shows "rel_fun (finished R) (finished R) (around (checker env) n c) (around (gatherer g) n d)"
proof (rule rel_funI)
  fix s t assume st: "finished R s t"
  show "finished R (around (checker env) n c s) (around (gatherer g) n d t)"
  proof (cases "bindR s (checkerVisit env n)")
    case (Inl e)
    then show ?thesis by (simp add: around_def checker_def)
  next
    case (Inr r)
    then obtain s0 go s' where s: "s = Inr s0" "checkerVisit env n s0 = Inr (go, s')" by (cases r) auto
    with st visit [OF assms(1)] have "go = fst (vi_visit (gatherer g) n t)" "finished R (Inr s') (snd (vi_visit (gatherer g) n t))" by auto
    moreover from this assms(2) have "finished R (c (Inr s')) (d (snd (vi_visit (gatherer g) n t)))" by (intro rel_funD [OF assms(2)])
    moreover have "vi_visit (checker env) n s = (go, Inr s')" using s by (simp add: checker_def)
    ultimately show ?thesis
      by (cases "vi_visit (gatherer g) n t") (auto simp: around_def intro!: end_sim [OF assms(1)])
  qed
qed

lemma statements_sim:
  "list_all2 (rel_prod (=) (rel_fun (finished R) (finished R))) fs gs \<Longrightarrow> finished R s t \<Longrightarrow>
   finished R (visitStatements p fs s) (inOrder (visited (p \<noteq> None) gs) t)"
proof (induction p fs s arbitrary: gs t rule: visitStatements.induct)
  case (2 loc st f sts s)
  then obtain h hs where gs: "gs = (st, h) # hs" "rel_fun (finished R) (finished R) f h"
      "list_all2 (rel_prod (=) (rel_fun (finished R) (finished R))) sts hs"
    by (auto simp: list_all2_Cons1)
  have "finished R (f (map_sum id (warnPull loc) s)) (h t)"
    using "2.prems"(2) by (intro rel_funD [OF gs(2)] finished_map warnPull)
  then show ?case using "2.IH" [OF gs(3)] by (simp add: gs(1))
next
  case (3 st f sts s)
  then obtain h hs where gs: "gs = (st, h) # hs" "rel_fun (finished R) (finished R) f h"
      "list_all2 (rel_prod (=) (rel_fun (finished R) (finished R))) sts hs"
    by (auto simp: list_all2_Cons1)
  show ?case
    using "3.IH"(1) [OF _ gs(3) "3.prems"(2)] "3.IH"(2) [OF _ gs(3) rel_funD [OF gs(2) "3.prems"(2)]] by (simp add: gs(1))
qed simp

sublocale view: body_simulation "checker env" "gatherer g" "finished R"
proof unfold_locales
  show "rel_fun (finished R) (finished R) (around (checker env) n c) (around (gatherer g) n d)"
    if "inBody n" "rel_fun (finished R) (finished R) c d" for n c d
    using that by (intro around_sim body_scope)
  show "rel_fun (finished R) (finished R) (aroundIf (checker env) st c t f) (aroundIf (gatherer g) st c' t' f')"
    if c: "rel_fun (finished R) (finished R) c c'" and t: "rel_fun (finished R) (finished R) t t'"
      and f: "rel_option (rel_fun (finished R) (finished R)) f f'" for c c' t t' f f' st
  proof (rule rel_funI)
    fix s r assume "finished R s r"
    then have "finished R (t (map_sum id (setConditional True) (c s))) (t' (c' r))"
      by (intro rel_funD [OF t] finished_map rel_funD [OF c] conditional)
    with f have "finished R (optional f (t (map_sum id (setConditional True) (c s)))) (optional f' (t' (c' r)))"
      by (cases f; cases f') (auto intro: rel_funD)
    then show "finished R (aroundIf (checker env) st c t f s) (aroundIf (gatherer g) st c' t' f' r)"
      by (auto simp: aroundIf_def gatherer_visitIf checker_visitIf visitIf_def
          intro!: end_sim body_scope finished_map conditional)
  qed
  show "rel_fun (finished R) (finished R) (aroundBlock (checker env) st fs) (aroundBlock (gatherer g) st gs)"
    if "list_all2 (rel_prod (=) (rel_fun (finished R) (finished R))) fs gs" for fs gs st
    using statements_sim [OF that, where p = None]
    by (auto simp: aroundBlock_def gatherer_visitBlock checker_visitBlock intro!: rel_funI end_sim body_scope)
qed

end

text \<open>A view of whole units, and not only of what is inside of functions.\<close>

locale unit_view = checker_view +
  assumes scope_all: "scope n"
begin

sublocale whole: visitor_simulation "checker env" "gatherer g" "finished R"
  by unfold_locales (intro around_sim scope_all)

lemma unit_gathers:
  assumes "R s (0, l)" and "acceptSourceUnit (checker env) u (Inr s) = Inr s'"
  shows "R s' (0, l @ gatherSourceUnit g u)"
  using rel_funD [OF whole.sourceUnit_sim [of u], of "Inr s" "(0, l)"] assms by (simp add: gather_sourceUnit)

end

section \<open>Warnings\<close>

text \<open>The warnings with one of some tags, in the order they were reported.\<close>

definition tagLog :: "string set \<Rightarrow> Reporter \<Rightarrow> (string \<times> SourceLocation) list" where
  "tagLog tags r = map (\<lambda>e. (er_secbitTag e, er_location e)) (filter (\<lambda>e. er_secbitTag e \<in> tags) (m_errorList r))"

lemma tagLog_warnIf [simp]:
  "tagLog tags (m_errorReporter (warnIf c loc i s)) =
     tagLog tags (m_errorReporter s) @ (if c \<and> issueTag i \<in> tags then [(issueTag i, loc)] else [])"
  by (simp add: tagLog_def warnIf_def warn_def)

lemma tagLog_warn [simp]:
  "tagLog tags (m_errorReporter (warn loc i s)) =
     tagLog tags (m_errorReporter s) @ (if issueTag i \<in> tags then [(issueTag i, loc)] else [])"
  by (simp add: tagLog_def warn_def)

lemma warn_fields [simp]:
  "m_comparisonDepth (warn loc i s) = m_comparisonDepth s"
  "m_dirtyParam (warn loc i s) = m_dirtyParam s"
  "m_hasReturn (warn loc i s) = m_hasReturn s"
  "m_returnFalse (warn loc i s) = m_returnFalse s"
  "m_hasRevert (warn loc i s) = m_hasRevert s"
  "m_callablesWithRevert (warn loc i s) = m_callablesWithRevert s"
  "m_conditional (warn loc i s) = m_conditional s"
  "m_inERC20 (warn loc i s) = m_inERC20 s"
  "m_hasMsgDataCheck (warn loc i s) = m_hasMsgDataCheck s"
  "m_hasSenderBalanceCheck (warn loc i s) = m_hasSenderBalanceCheck s"
  "m_allowedVars (warn loc i s) = m_allowedVars s"
  "m_hasAllowedCheck (warn loc i s) = m_hasAllowedCheck s"
  "m_emitApproval (warn loc i s) = m_emitApproval s"
  "m_emitTransfer (warn loc i s) = m_emitTransfer s"
  "m_hasAllowedUnsafeSub (warn loc i s) = m_hasAllowedUnsafeSub s"
  "m_inLengthAccess (warn loc i s) = m_inLengthAccess s"
  "m_ERC20Contracts (warn loc i s) = m_ERC20Contracts s"
  by (simp_all add: warn_def)

lemma warnIf_fields [simp]:
  "m_comparisonDepth (warnIf c loc i s) = m_comparisonDepth s"
  "m_dirtyParam (warnIf c loc i s) = m_dirtyParam s"
  "m_hasReturn (warnIf c loc i s) = m_hasReturn s"
  "m_returnFalse (warnIf c loc i s) = m_returnFalse s"
  "m_hasRevert (warnIf c loc i s) = m_hasRevert s"
  "m_callablesWithRevert (warnIf c loc i s) = m_callablesWithRevert s"
  "m_conditional (warnIf c loc i s) = m_conditional s"
  "m_inERC20 (warnIf c loc i s) = m_inERC20 s"
  "m_hasMsgDataCheck (warnIf c loc i s) = m_hasMsgDataCheck s"
  "m_hasSenderBalanceCheck (warnIf c loc i s) = m_hasSenderBalanceCheck s"
  "m_allowedVars (warnIf c loc i s) = m_allowedVars s"
  "m_hasAllowedCheck (warnIf c loc i s) = m_hasAllowedCheck s"
  "m_emitApproval (warnIf c loc i s) = m_emitApproval s"
  "m_emitTransfer (warnIf c loc i s) = m_emitTransfer s"
  "m_hasAllowedUnsafeSub (warnIf c loc i s) = m_hasAllowedUnsafeSub s"
  "m_inLengthAccess (warnIf c loc i s) = m_inLengthAccess s"
  "m_ERC20Contracts (warnIf c loc i s) = m_ERC20Contracts s"
  by (simp_all add: warnIf_def)

lemmas callback_defs =
  checkerVisit_def checkerEndVisit_def visitModifier_def endVisitModifier_def visitFunction_def visitBinary_def
  visitMemberAccess_def endVisitContract_def endVisitEvent_def endVisitVariableDeclaration_def endVisitReturn_def
  endVisitEmit_def endVisitLiteral_def endVisitIdentifier_def endVisitAssignment_def endVisitBinary_def recordEvent_def
  warnPull_def setConditional_def inheritRevert_def

section \<open>Conditions\<close>

definition conditionTags :: "string set" where
  "conditionTags = {''tx-origin'', ''timestamp'', ''forced-ether''}"

text \<open>What is reported of a node, by whether it is inside of a comparison.\<close>

definition conditionUse :: "bool \<Rightarrow> Node \<Rightarrow> (string \<times> SourceLocation) list" where
  "conditionUse compared n =
     (if \<not> compared then []
      else case n of
        NExpression (Identifier i name d) \<Rightarrow> if name = ''now'' then [(''timestamp'', n_location i)] else []
      | NExpression (MemberAccess i e m) \<Rightarrow>
          (if isMemberAccess (MemberAccess i e m) ''tx'' ''origin'' then [(''tx-origin'', n_location i)]
           else if isMemberAccess (MemberAccess i e m) ''this'' ''balance'' then [(''forced-ether'', n_location i)] else [])
      | _ \<Rightarrow> [])"

definition conditionView :: "(string \<times> SourceLocation) list \<Rightarrow> CheckerState \<Rightarrow> int \<times> (string \<times> SourceLocation) list \<Rightarrow> bool" where
  "conditionView before s t \<longleftrightarrow>
     m_comparisonDepth s = fst t \<and> tagLog conditionTags (m_errorReporter s) = before @ snd t"

lemma setProperties_only: "\<exists>m. setProperties name f s = s\<lparr>m_ERC20Contracts := m\<rparr>"
  by (auto simp: setProperties_def)

lemma inheritProperties_only: "\<exists>m. inheritProperties name b s = s\<lparr>m_ERC20Contracts := m\<rparr>"
proof (cases "map_of (m_ERC20Contracts s) b")
  case None
  then show ?thesis by (auto simp: inheritProperties_def intro!: exI [of _ "m_ERC20Contracts s"])
qed (auto simp: inheritProperties_def setProperties_def)

lemma recordERC20_only: "\<exists>m. recordERC20 c bs s = s\<lparr>m_ERC20Contracts := m\<rparr>"
proof -
  have A: "\<exists>m. fold (inheritProperties name) bs s = s\<lparr>m_ERC20Contracts := m\<rparr>" for name s
  proof (induction bs arbitrary: s)
    case Nil
    show ?case by (auto intro!: exI [of _ "m_ERC20Contracts s"])
  next
    case (Cons b bs)
    obtain m where "inheritProperties name b s = s\<lparr>m_ERC20Contracts := m\<rparr>" using inheritProperties_only by blast
    then show ?case using Cons.IH [of "s\<lparr>m_ERC20Contracts := m\<rparr>"] by auto
  qed
  have "\<exists>m. fold (inheritProperties name) bs (setProperties name f s) = s\<lparr>m_ERC20Contracts := m\<rparr>" for name f
    using A [of name "setProperties name f s"] by (auto simp: setProperties_def)
  then show ?thesis by (simp add: recordERC20_def Let_def)
qed

lemma recordERC20_fields [simp]:
  "m_errorReporter (recordERC20 c bs s) = m_errorReporter s"
  "m_comparisonDepth (recordERC20 c bs s) = m_comparisonDepth s"
  "m_dirtyParam (recordERC20 c bs s) = m_dirtyParam s"
  "m_hasReturn (recordERC20 c bs s) = m_hasReturn s"
  "m_returnFalse (recordERC20 c bs s) = m_returnFalse s"
  "m_hasRevert (recordERC20 c bs s) = m_hasRevert s"
  "m_callablesWithRevert (recordERC20 c bs s) = m_callablesWithRevert s"
  "m_conditional (recordERC20 c bs s) = m_conditional s"
  "m_inERC20 (recordERC20 c bs s) = m_inERC20 s"
  "m_hasMsgDataCheck (recordERC20 c bs s) = m_hasMsgDataCheck s"
  "m_hasSenderBalanceCheck (recordERC20 c bs s) = m_hasSenderBalanceCheck s"
  "m_allowedVars (recordERC20 c bs s) = m_allowedVars s"
  "m_hasAllowedCheck (recordERC20 c bs s) = m_hasAllowedCheck s"
  "m_emitApproval (recordERC20 c bs s) = m_emitApproval s"
  "m_emitTransfer (recordERC20 c bs s) = m_emitTransfer s"
  "m_hasAllowedUnsafeSub (recordERC20 c bs s) = m_hasAllowedUnsafeSub s"
  "m_inLengthAccess (recordERC20 c bs s) = m_inLengthAccess s"
  using recordERC20_only [of c bs s] by auto

lemma conditionView_visit:
  assumes "conditionView before s t" and "checkerVisit env n s = Inr (go, s')"
  shows "go = fst (vi_visit (gatherer conditionUse) n t) \<and> conditionView before s' (snd (vi_visit (gatherer conditionUse) n t))"
proof (cases n)
  case (NExpression e)
  then show ?thesis
    using assms by (cases e; cases t) (auto simp: callback_defs gatherer_def isComparison_def conditionView_def)
next
  case (NContract c)
  then show ?thesis
    using assms by (cases t)
      (auto simp: checkerVisit_def gatherer_def isComparison_def conditionView_def visitContract_def Let_def split: if_splits)
qed (use assms in \<open>cases t; auto simp: callback_defs gatherer_def isComparison_def conditionView_def\<close>)+

lemma checkFallback_view:
  assumes "checkFallback f s = Inr s'"
  shows "\<exists>c. s' = warnIf c (n_location f) RedundantFallback s"
  using assms by (auto simp: checkFallback_def warnIf_def split: if_splits option.splits)

lemma endVisitFunction_condition:
  assumes "endVisitFunction f s = Inr s'"
  shows "m_comparisonDepth s' = m_comparisonDepth s \<and>
    tagLog conditionTags (m_errorReporter s') = tagLog conditionTags (m_errorReporter s)"
proof -
  have "m_comparisonDepth (if m_inERC20 s then checkERC20Function f s else s) = m_comparisonDepth s"
      "tagLog conditionTags (m_errorReporter (if m_inERC20 s then checkERC20Function f s else s)) =
       tagLog conditionTags (m_errorReporter s)"
    by (simp_all add: checkERC20Function_def checkTransfer_def checkApprove_def conditionTags_def Let_def)
  with assms show ?thesis
    by (auto simp: endVisitFunction_def clearFunctionFlags_def conditionTags_def Let_def dest!: checkFallback_view split del: if_split)
qed

lemma checkRequire_condition:
  assumes "checkRequire args r = Inr r'"
  shows "m_comparisonDepth r' = m_comparisonDepth r \<and> m_errorReporter r' = m_errorReporter r"
  using assms by (auto simp: checkRequire_def split: list.splits Expression.splits)

lemma checkCallKind_condition:
  assumes "checkCallKind loc k f args r = Inr r'"
  shows "m_comparisonDepth r' = m_comparisonDepth r \<and>
    tagLog conditionTags (m_errorReporter r') = tagLog conditionTags (m_errorReporter r)"
  using assms
  by (auto simp: checkCallKind_def conditionTags_def dest!: checkRequire_condition split: if_splits)

lemma recordEvent_condition [simp]:
  "m_comparisonDepth (recordEvent f s) = m_comparisonDepth s" "m_errorReporter (recordEvent f s) = m_errorReporter s"
  by (simp_all add: recordEvent_def)

lemma inheritRevert_condition [simp]:
  "m_comparisonDepth (inheritRevert f s) = m_comparisonDepth s" "m_errorReporter (inheritRevert f s) = m_errorReporter s"
  by (simp_all add: inheritRevert_def)

lemma endVisitCall_cases:
  assumes "endVisitCall env i f args s = Inr s'"
  obtains "s' = s" "\<And>ps rets k a. expressionType f \<noteq> Some (FunctionType ps rets k a)"
    | ps rets k a r where "expressionType f = Some (FunctionType ps rets k a)"
      "checkCallKind (n_location i) k f args (recordEvent f
         (warnIf (rets \<noteq> [] \<and> isExpressionStatement (ce_parent env (n_id i))) (n_location i) UnusedReturnValue s)) = Inr r"
      "s' = (case f of
               Identifier j name d \<Rightarrow> inheritRevert name r
             | MemberAccess j b m \<Rightarrow>
                 warnIf (m = ''value'' \<and> isAddressAccess b ''call'') (n_location i) CallVsTransfer (inheritRevert m r)
             | _ \<Rightarrow> r)"
  using assms by (auto simp: endVisitCall_def Let_def split: option.splits Type.splits)

lemma endVisitCall_condition:
  assumes "endVisitCall env i f args s = Inr s'"
  shows "m_comparisonDepth s' = m_comparisonDepth s \<and>
    tagLog conditionTags (m_errorReporter s') = tagLog conditionTags (m_errorReporter s)"
  using assms
proof (cases rule: endVisitCall_cases)
  case (2 ps rets k a r)
  then show ?thesis
    by (cases f) (auto simp: conditionTags_def dest!: checkCallKind_condition)
qed simp

lemma dirtyPadding_view: "dirtyPadding env loc p s = Inr r \<Longrightarrow> \<exists>k. r = warn loc (DirtyPadding (v_name p) k) s"
  by (auto simp: dirtyPadding_def split: option.splits)

lemma endVisitMemberAccess_condition:
  assumes "endVisitMemberAccess env i b m s = Inr s'"
  shows "m_comparisonDepth s' = m_comparisonDepth s \<and>
    tagLog conditionTags (m_errorReporter s') =
      tagLog conditionTags (m_errorReporter s) @ conditionUse (m_comparisonDepth s > 0) (NExpression (MemberAccess i b m))"
proof -
  have *: "isMemberAccess (MemberAccess i b m) ''tx'' ''origin'' \<Longrightarrow> \<not> isMemberAccess (MemberAccess i b m) ''this'' ''balance''"
    by (simp add: isMemberAccess_def)
  obtain r where r: "(case m_dirtyParam s of
        Some p \<Rightarrow>
          if \<not> m_inLengthAccess s \<and> isMemberAccess (MemberAccess i b m) ''msg'' ''data''
          then dirtyPadding env (n_location i) p s else Inr s
      | None \<Rightarrow> Inr s) = Inr r"
    and s': "s' = (if m = ''length'' then (warnCondition i b m r)\<lparr>m_inLengthAccess := False\<rparr> else warnCondition i b m r)"
    using assms unfolding endVisitMemberAccess_def bindR_eq_Inr by blast
  from r have "m_comparisonDepth r = m_comparisonDepth s \<and>
      tagLog conditionTags (m_errorReporter r) = tagLog conditionTags (m_errorReporter s)"
    by (auto simp: conditionTags_def split: option.splits if_splits dest!: dirtyPadding_view)
  with s' show ?thesis
    using * by (auto simp: conditionUse_def conditionTags_def warnCondition_def)
qed

lemma conditionView_endVisit:
  assumes "conditionView before s t" and "checkerEndVisit env n s = Inr s'"
  shows "conditionView before s' (vi_endVisit (gatherer conditionUse) n t)"
proof (cases n)
  case (NExpression e)
  show ?thesis
  proof (cases e)
    case (FunctionCall i f args ns)
    then show ?thesis using assms endVisitCall_condition NExpression
      by (cases t) (fastforce simp: checkerEndVisit_def gatherer_def isComparison_def conditionView_def conditionUse_def)
  next
    case (MemberAccess i b m)
    then show ?thesis using assms NExpression endVisitMemberAccess_condition [of env i b m s s']
      by (cases t) (simp add: checkerEndVisit_def gatherer_def isComparison_def conditionView_def)
  qed (use assms NExpression in \<open>cases t; auto simp: callback_defs Let_def gatherer_def isComparison_def conditionView_def
         conditionUse_def conditionTags_def\<close>)+
next
  case (NStatement st)
  then show ?thesis using assms
    by (cases st; cases t) (auto simp: callback_defs gatherer_def isComparison_def conditionView_def conditionUse_def
        conditionTags_def endVisitVariableDeclarationStatement_def split: list.splits option.splits Expression.splits)
next
  case (NFunction f)
  then show ?thesis using assms endVisitFunction_condition [of f s s']
    by (cases t) (auto simp: checkerEndVisit_def gatherer_def isComparison_def conditionView_def conditionUse_def)
next
  case (NPragma p)
  then show ?thesis using assms
    by (cases t) (auto simp: checkerEndVisit_def endVisitPragma_def gatherer_def isComparison_def conditionView_def conditionUse_def
        conditionTags_def split: list.splits if_splits)
qed (use assms in \<open>cases t; auto simp: callback_defs Let_def gatherer_def isComparison_def conditionView_def conditionUse_def
      conditionTags_def split: option.splits\<close>)+

interpretation conditions: unit_view env conditionUse "conditionView before" "\<lambda>n. True" for env before
proof unfold_locales
  show "conditionView before (warnPull loc s) t" if "conditionView before s t" for loc s t
    using that by (simp add: conditionView_def warnPull_def conditionTags_def)
  show "conditionView before (setConditional b s) t" if "conditionView before s t" for b s t
    using that by (simp add: conditionView_def setConditional_def)
qed (use conditionView_visit conditionView_endVisit in blast)+

lemma reportERC20_condition:
  "tagLog conditionTags (m_errorReporter (reportERC20PropertyIssues s)) = tagLog conditionTags (m_errorReporter s)"
proof -
  have "tagLog conditionTags (m_errorReporter (fold (\<lambda>(name, p) s.
       let s = warnIf (p_mintable p) (p_defn p) Erc20Mintable s
       in if p_isBase p then s
          else warnIf (\<not> p_hasSymbol p) (p_defn p) Erc20NoSymbol
             (warnIf (\<not> p_hasName p) (p_defn p) Erc20NoName
             (warnIf (\<not> p_hasDecimals p) (p_defn p) Erc20NoDecimals s))) ps s)) = tagLog conditionTags (m_errorReporter s)" for ps s
    by (induction ps arbitrary: s) (auto simp: Let_def conditionTags_def)
  then show ?thesis by (simp add: reportERC20PropertyIssues_def)
qed

lemma condition_warnings:
  assumes "checkSyntax asERC20 types depth u r = Inr (ok, r')"
  shows "tagLog conditionTags r' = tagLog conditionTags r @ gatherSourceUnit conditionUse u"
proof -
  obtain env s where s: "acceptSourceUnit (checker env) u (Inr (initialChecker r)) = Inr s"
      "r' = m_errorReporter (reportERC20PropertyIssues s)"
    using assms by (auto simp: checkSyntax_def Let_def)
  have "conditionView (tagLog conditionTags r) (initialChecker r) (0, [])"
    by (simp add: conditionView_def initialChecker_def)
  from conditions.unit_gathers [OF this s(1)] s(2) show ?thesis
    by (simp add: conditionView_def reportERC20_condition)
qed

section \<open>Functions\<close>

text \<open>What the checks of a function rest on; the names of the callables known to revert are given.\<close>

datatype Fact = Returns | ReturnsFalse | Reverts | EmitsApproval | EmitsTransfer | ChecksMsgData | ChecksSenderBalance

definition eventFacts :: "Expression \<Rightarrow> Fact list" where
  "eventFacts f =
     (if identifierName f = Some ''Approval'' then [EmitsApproval]
      else if identifierName f = Some ''Transfer'' then [EmitsTransfer] else [])"

definition only :: "bool \<Rightarrow> 'a \<Rightarrow> 'a list" where
  "only c x = (if c then [x] else [])"

definition requireFacts :: "Expression list \<Rightarrow> Fact list" where
  "requireFacts args =
     (case args of
        BinaryOperation i l op r # _ \<Rightarrow>
          only (case l of MemberAccess j b m \<Rightarrow> isMemberAccess b ''msg'' ''data'' \<and> m = ''length'' | _ \<Rightarrow> False) ChecksMsgData @
          only (isSenderBalanceCheck l op r) ChecksSenderBalance
      | _ \<Rightarrow> [])"

definition callsOneOf :: "string set \<Rightarrow> Expression \<Rightarrow> bool" where
  "callsOneOf names f \<longleftrightarrow> (case f of Identifier i n d \<Rightarrow> n \<in> names | MemberAccess i b m \<Rightarrow> m \<in> names | _ \<Rightarrow> False)"

definition functionFact :: "string set \<Rightarrow> bool \<Rightarrow> Node \<Rightarrow> Fact list" where
  "functionFact reverting compared n =
     (case n of
        NStatement (Return i e) \<Rightarrow>
          Returns # only (case e of Some (Literal j tok v sub) \<Rightarrow> tok = T_FalseLiteral | _ \<Rightarrow> False) ReturnsFalse
      | NStatement (EmitStatement i (FunctionCall j f args names)) \<Rightarrow> eventFacts f
      | NExpression (FunctionCall i f args names) \<Rightarrow>
          (case expressionType f of
             Some (FunctionType ps rets k a) \<Rightarrow>
               eventFacts f @ only (k \<in> {FRevert, FRequire, FAssert} \<or> callsOneOf reverting f) Reverts @
               (if k = FRequire then requireFacts args else [])
           | _ \<Rightarrow> [])
      | _ \<Rightarrow> [])"

definition functionTags :: "string set" where
  "functionTags = {''erc20-return-false'', ''short-addr'', ''transfer-no-revert'', ''transfer-no-event'', ''erc20-no-return'',
     ''approve-with-balance-verify'', ''approve-no-event'', ''no-return'', ''bad-name'', ''redundant-fallback''}"

text \<open>A fact that the checker has recorded.\<close>

primrec known :: "Fact \<Rightarrow> CheckerState \<Rightarrow> bool" where
  "known Returns s = m_hasReturn s"
| "known ReturnsFalse s = m_returnFalse s"
| "known Reverts s = m_hasRevert s"
| "known EmitsApproval s = m_emitApproval s"
| "known EmitsTransfer s = m_emitTransfer s"
| "known ChecksMsgData s = m_hasMsgDataCheck s"
| "known ChecksSenderBalance s = m_hasSenderBalanceCheck s"

text \<open>From one state to another nothing changes but that facts are added.\<close>

definition adds :: "Fact list \<Rightarrow> CheckerState \<Rightarrow> CheckerState \<Rightarrow> bool" where
  "adds fs s s' \<longleftrightarrow>
     m_inERC20 s' = m_inERC20 s \<and> m_callablesWithRevert s' = m_callablesWithRevert s \<and>
     tagLog functionTags (m_errorReporter s') = tagLog functionTags (m_errorReporter s) \<and>
     (\<forall>f. known f s' = (known f s \<or> f \<in> set fs))"

end
