(* ===== verification/SecbitFunctions.thy ===== *)
theory SecbitFunctions
  imports SecbitFacts
begin

text \<open>
  The ERC20 checks of a function: the flags the checker has when it leaves a function are the facts
  gathered inside of it, and the warnings on the function follow from them.
\<close>

lemma all_facts:
  "(\<forall>f. P f) \<longleftrightarrow> P Returns \<and> P ReturnsFalse \<and> P Reverts \<and> P EmitsApproval \<and> P EmitsTransfer \<and> P ChecksMsgData \<and> P ChecksSenderBalance"
proof
  assume "P Returns \<and> P ReturnsFalse \<and> P Reverts \<and> P EmitsApproval \<and> P EmitsTransfer \<and> P ChecksMsgData \<and> P ChecksSenderBalance"
  then have "P f" for f by (cases f) simp_all
  then show "\<forall>f. P f" by blast
qed simp

lemma set_only [simp]: "set (only c x) = (if c then {x} else {})"
  by (cases c) (simp_all add: only_def)

lemma adds_trans: "adds fs s s' \<Longrightarrow> adds gs s' s'' \<Longrightarrow> adds (fs @ gs) s s''"
  by (simp add: adds_def disj_assoc)

lemma adds_cong: "set fs = set gs \<Longrightarrow> adds fs s s' = adds gs s s'"
  by (simp add: adds_def)

lemma adds_warnIf: "issueTag i \<notin> functionTags \<Longrightarrow> adds [] s (warnIf c loc i s)"
  by (simp add: adds_def all_facts)

lemma adds_refl: "adds [] s s"
  by (simp add: adds_def)

lemma recordEvent_adds: "adds (eventFacts f) s (recordEvent f s)"
  by (simp add: adds_def recordEvent_def eventFacts_def all_facts)

lemma checkRequire_adds:
  assumes "checkRequire args s = Inr s'"
  shows "adds (requireFacts args) s s'"
proof (cases args)
  case (Cons e es)
  then show ?thesis
    using assms by (cases e) (auto simp: adds_refl checkRequire_def requireFacts_def, simp add: adds_def all_facts)
qed (use assms in \<open>simp add: checkRequire_def\<close>)

lemma checkCallKind_adds:
  assumes "checkCallKind loc k f args s = Inr s'"
  shows "adds (only (k \<in> {FRevert, FRequire, FAssert}) Reverts @ (if k = FRequire then requireFacts args else [])) s s'"
proof (cases "k = FRequire")
  case True
  have "adds [Reverts] s (s\<lparr>m_hasRevert := True\<rparr>)" by (simp add: adds_def all_facts)
  moreover have "adds (requireFacts args) (s\<lparr>m_hasRevert := True\<rparr>) s'"
    using assms True by (intro checkRequire_adds) (simp add: checkCallKind_def)
  ultimately show ?thesis using adds_trans by (fastforce simp: True only_def)
next
  case False
  then show ?thesis using assms
    by (cases k) (simp_all add: checkCallKind_def adds_def functionTags_def all_facts, (elim HOL.subst, simp)+)
qed

lemma inheritRevert_adds: "adds (only (n \<in> m_callablesWithRevert s) Reverts) s (inheritRevert n s)"
  by (simp add: adds_def inheritRevert_def all_facts)

lemma endVisitCall_adds:
  assumes "endVisitCall env i f args s = Inr s'"
  shows "adds (functionFact (m_callablesWithRevert s) b (NExpression (FunctionCall i f args names))) s s'"
  using assms
proof (cases rule: endVisitCall_cases)
  case 1
  then show ?thesis by (simp add: functionFact_def adds_refl split: option.split Type.split)
next
  case (2 ps rets k a r)
  let ?w = "warnIf (rets \<noteq> [] \<and> isExpressionStatement (ce_parent env (n_id i))) (n_location i) UnusedReturnValue s"
  have r: "adds ([] @ eventFacts f @ only (k \<in> {FRevert, FRequire, FAssert}) Reverts @ (if k = FRequire then requireFacts args else [])) s r"
    by (intro adds_trans [OF adds_warnIf adds_trans [OF recordEvent_adds checkCallKind_adds [OF 2(2)]]]) (simp add: functionTags_def)
  then have C: "m_callablesWithRevert r = m_callablesWithRevert s" by (simp add: adds_def)
  have "adds (only (callsOneOf (m_callablesWithRevert s) f) Reverts @ []) r s'"
    using adds_trans [OF inheritRevert_adds adds_warnIf [of CallVsTransfer]] inheritRevert_adds adds_refl
    by (cases f) (simp_all add: 2(3) callsOneOf_def C [symmetric] only_def [of False] functionTags_def)
  from adds_trans [OF r this] show ?thesis
    by (rule iffD1 [OF adds_cong, rotated]) (auto simp: functionFact_def 2(1))
qed

lemma endVisitMemberAccess_adds: "endVisitMemberAccess env i b m s = Inr s' \<Longrightarrow> adds [] s s'"
proof -
  have w: "adds [] s (warnCondition i b m s)" for s
    by (simp add: adds_def warnCondition_def functionTags_def all_facts)
  have l: "adds [] r (if c then s\<lparr>m_inLengthAccess := False\<rparr> else s)" if "adds [] r s" for r s c
    using that by (simp add: adds_def all_facts)
  assume "endVisitMemberAccess env i b m s = Inr s'"
  then obtain r where r: "(case m_dirtyParam s of
        Some p \<Rightarrow>
          if \<not> m_inLengthAccess s \<and> isMemberAccess (MemberAccess i b m) ''msg'' ''data''
          then dirtyPadding env (n_location i) p s else Inr s
      | None \<Rightarrow> Inr s) = Inr r"
    and s': "s' = (if m = ''length'' then (warnCondition i b m r)\<lparr>m_inLengthAccess := False\<rparr> else warnCondition i b m r)"
    unfolding endVisitMemberAccess_def bindR_eq_Inr by blast
  from r have "adds [] s r"
    by (auto simp: adds_def functionTags_def all_facts split: option.splits if_splits dest!: dirtyPadding_view)
  from adds_trans [OF this l [OF w]] show ?thesis by (simp add: s')
qed

lemma binary_adds: "adds [] s (endVisitBinary i l op r s)" "adds [] s (visitBinary l op r s)"
  "adds [] s (endVisitAssignment l op s)" "adds [] s (endVisitIdentifier i name s)" "adds [] s (endVisitLiteral i s)"
  "adds [] s (endVisitVariableDeclaration vi s)"
  by (simp_all add: endVisitBinary_def visitBinary_def endVisitAssignment_def endVisitIdentifier_def endVisitLiteral_def
      endVisitVariableDeclaration_def Let_def adds_def functionTags_def all_facts split: option.split)

lemma variableStatement_adds:
  assumes "endVisitVariableDeclarationStatement ds e s = Inr s'"
  shows "adds [] s s'"
proof -
  have "adds [] s (if c then s\<lparr>m_allowedVars := v\<rparr> else s)" for c v
    by (simp add: adds_def all_facts)
  then show ?thesis
    using assms adds_refl
    by (auto simp: endVisitVariableDeclarationStatement_def split: list.splits option.splits simp del: if_split)
qed

lemma checkerVisit_adds:
  assumes "inBody n" and "checkerVisit env n s = Inr (go, s')"
  shows "adds [] s s'"
proof (cases n)
  case (NExpression e)
  then show ?thesis
    using assms binary_adds(2)
    by (cases e) (auto simp: checkerVisit_def visitMemberAccess_def adds_refl, simp_all add: adds_def all_facts)
qed (use assms in \<open>auto simp: checkerVisit_def adds_refl\<close>)

lemma checkerVisit_goes: "inBody n \<Longrightarrow> checkerVisit env n s = Inr (go, s') \<Longrightarrow> go"
  by (cases n) (auto simp: checkerVisit_def split: Expression.splits)

lemma checkerEndVisit_adds:
  assumes "inBody n" and "checkerEndVisit env n s = Inr s'"
  shows "adds (functionFact (m_callablesWithRevert s) b n) s s'"
proof (cases n)
  case (NExpression e)
  show ?thesis
  proof (cases e)
    case (FunctionCall i f args names)
    then show ?thesis using assms NExpression endVisitCall_adds by (simp add: checkerEndVisit_def)
  next
    case (MemberAccess i x m)
    then show ?thesis using assms NExpression endVisitMemberAccess_adds by (simp add: checkerEndVisit_def functionFact_def)
  next
    case (BinaryOperation i l op r)
    then show ?thesis using assms NExpression binary_adds(1) by (auto simp: checkerEndVisit_def functionFact_def)
  qed (use assms NExpression binary_adds in \<open>auto simp: checkerEndVisit_def functionFact_def adds_refl\<close>)
next
  case (NStatement st)
  show ?thesis
  proof (cases st)
    case (Return i e)
    then show ?thesis using assms NStatement
      by (auto simp: checkerEndVisit_def functionFact_def endVisitReturn_def adds_def all_facts only_def)
  next
    case (EmitStatement i e)
    then show ?thesis using assms NStatement recordEvent_adds
      by (cases e) (auto simp: checkerEndVisit_def functionFact_def endVisitEmit_def adds_refl)
  next
    case (VariableDeclarationStatement i ds e)
    then show ?thesis using assms NStatement
      using variableStatement_adds by (simp add: checkerEndVisit_def functionFact_def)
  qed (use assms NStatement in \<open>auto simp: checkerEndVisit_def functionFact_def adds_refl\<close>)
next
  case (NVariable d)
  then show ?thesis using assms
    using binary_adds(6) by (auto simp: checkerEndVisit_def functionFact_def)
qed (use assms in \<open>auto simp: checkerEndVisit_def functionFact_def adds_refl\<close>)

text \<open>What has been gathered inside of a function are the facts added since it was entered.\<close>

definition functionView :: "CheckerState \<Rightarrow> CheckerState \<Rightarrow> int \<times> Fact list \<Rightarrow> bool" where
  "functionView s0 s t \<longleftrightarrow> adds (snd t) s0 s"

interpretation facts: checker_view env "functionFact (m_callablesWithRevert s0)" "functionView s0" inBody for env s0
proof unfold_locales
  fix n s t go s' assume "inBody n" "functionView s0 s t" "checkerVisit env n s = Inr (go, s')"
  then show "go = fst (vi_visit (gatherer (functionFact (m_callablesWithRevert s0))) n t) \<and>
      functionView s0 s' (snd (vi_visit (gatherer (functionFact (m_callablesWithRevert s0))) n t))"
    using checkerVisit_adds [of n env s go s'] adds_trans [of "snd t" s0 s "[]" s'] checkerVisit_goes [of n env s go s']
    by (cases n; cases t) (simp_all add: gatherer_def functionView_def)
next
  fix n s t s' assume "inBody n" "functionView s0 s t" "checkerEndVisit env n s = Inr s'"
  moreover from this have "m_callablesWithRevert s = m_callablesWithRevert s0" by (simp add: functionView_def adds_def)
  ultimately show "functionView s0 s' (vi_endVisit (gatherer (functionFact (m_callablesWithRevert s0))) n t)"
    using adds_trans checkerEndVisit_adds [of n env s s'] by (cases t) (simp add: functionView_def gatherer_def Let_def)
next
  show "functionView s0 (warnPull loc s) t" if "functionView s0 s t" for s t loc
    using that by (simp add: functionView_def adds_def warnPull_def functionTags_def all_facts)
  show "functionView s0 (setConditional b s) t" if "functionView s0 s t" for s t b
    using that by (simp add: functionView_def adds_def setConditional_def all_facts)
qed

text \<open>The warnings on a function, from the facts on it and on its modifiers.\<close>

definition hasModifier :: "string set \<Rightarrow> FunctionDefinition \<Rightarrow> bool" where
  "hasModifier names f \<longleftrightarrow> (\<exists>n \<in> set (modifierNames f). n \<in> names)"

definition transferWarnings :: "Fact set \<Rightarrow> FunctionDefinition \<Rightarrow> string list" where
  "transferWarnings facts f =
     only (\<not> hasModifier {''onlyPayloadSize''} f \<and> ChecksMsgData \<notin> facts) ''short-addr'' @
     only (Reverts \<notin> facts) ''transfer-no-revert'' @
     only (EmitsTransfer \<notin> facts) ''transfer-no-event'' @
     only (\<not> returnsBool f) ''erc20-no-return''"

definition approveWarnings :: "Fact set \<Rightarrow> FunctionDefinition \<Rightarrow> string list" where
  "approveWarnings facts f =
     only (ChecksSenderBalance \<in> facts) ''approve-with-balance-verify'' @
     only (EmitsApproval \<notin> facts) ''approve-no-event'' @
     only (\<not> returnsBool f) ''erc20-no-return''"

definition functionWarnings :: "bool \<Rightarrow> Fact set \<Rightarrow> FunctionDefinition \<Rightarrow> string list" where
  "functionWarnings inERC20 facts f =
     (if inERC20
      then only (ReturnsFalse \<in> facts) ''erc20-return-false'' @
        (if fd_name f \<in> {''transfer'', ''transferFrom''} then transferWarnings facts f
         else if fd_name f = ''approve'' then approveWarnings facts f else [])
      else []) @
     only (Returns \<notin> facts \<and> isImplemented f \<and> list_ex (\<lambda>p. v_name p = []) (returnParameters f)) ''no-return'' @
     only (isUpperAscii (firstChar (fd_name f)) \<and> \<not> fd_isConstructor f) ''bad-name'' @
     only (isFallback f \<and> (case fd_body f of Some (Block i [Throw j]) \<Rightarrow> True | _ \<Rightarrow> False)) ''redundant-fallback''"

text \<open>The facts the checker has on a function when it leaves it.\<close>

definition functionFacts :: "CheckerState \<Rightarrow> FunctionDefinition \<Rightarrow> Fact set" where
  "functionFacts s f =
     set (gatherFunction (functionFact (m_callablesWithRevert s)) f) \<union>
     (if hasModifier (m_callablesWithRevert s) f then {Reverts} else {}) \<union>
     (if m_hasMsgDataCheck s then {ChecksMsgData} else {})"

definition at_location :: "SourceLocation \<Rightarrow> string list \<Rightarrow> (string \<times> SourceLocation) list" where
  "at_location loc tags = map (\<lambda>t. (t, loc)) tags"

lemma at_location_simps [simp]:
  "at_location loc [] = []" "at_location loc (xs @ ys) = at_location loc xs @ at_location loc ys"
  "at_location loc (only c t) = (if c then [(t, loc)] else [])"
  by (simp_all add: at_location_def only_def)

lemma checkERC20_log:
  "tagLog functionTags (m_errorReporter (checkERC20Function f s)) =
     tagLog functionTags (m_errorReporter s) @ at_location (n_location f)
       (only (m_returnFalse s) ''erc20-return-false'' @
        (if fd_name f \<in> {''transfer'', ''transferFrom''} then transferWarnings {x. known x s} f
         else if fd_name f = ''approve'' then approveWarnings {x. known x s} f else []))"
  by (simp add: checkERC20Function_def checkTransfer_def checkApprove_def transferWarnings_def approveWarnings_def
      functionTags_def Let_def hasModifier_def)

text \<open>The checks at the end of a function, from the facts of the state.\<close>

lemma endVisitFunction_log:
  assumes "endVisitFunction f s = Inr s'"
  shows "tagLog functionTags (m_errorReporter s') =
      tagLog functionTags (m_errorReporter s) @ at_location (n_location f) (functionWarnings (m_inERC20 s) {x. known x s} f)"
    and "m_callablesWithRevert s' = m_callablesWithRevert s \<union> (if m_hasRevert s then {fd_name f} else {})"
proof -
  define c where "c = (if m_inERC20 s then checkERC20Function f s else s)"
  have c: "m_hasReturn c = m_hasReturn s" "m_hasRevert c = m_hasRevert s" "m_callablesWithRevert c = m_callablesWithRevert s"
    by (simp_all add: c_def checkERC20Function_def checkTransfer_def checkApprove_def Let_def)
  define r where "r = warnIf (isUpperAscii (firstChar (fd_name f)) \<and> \<not> fd_isConstructor f) (n_location f) (BadFunctionName (fd_name f))
      ((warnIf (\<not> m_hasReturn s \<and> isImplemented f \<and> list_ex (\<lambda>p. v_name p = []) (returnParameters f))
        (n_location f) NoReturn (clearFunctionFlags c))\<lparr>m_dirtyParam := None\<rparr>)"
  obtain q where q: "checkFallback f r = Inr q"
    and s': "s' = q\<lparr>m_callablesWithRevert := (if m_hasRevert q then {fd_name f} else {}) \<union> m_callablesWithRevert q, m_hasRevert := False\<rparr>"
    using assms by (auto simp: endVisitFunction_def Let_def r_def c_def [symmetric] clearFunctionFlags_def c)
  have throw: "(case b of Block i [st] \<Rightarrow> isThrow st | _ \<Rightarrow> False) = (case b of Block i [Throw j] \<Rightarrow> True | _ \<Rightarrow> False)" for b
    by (simp add: isThrow_def split: Statement.split list.split)
  have fb: "q = warnIf (isFallback f \<and> (case fd_body f of Some (Block i [Throw j]) \<Rightarrow> True | _ \<Rightarrow> False)) (n_location f) RedundantFallback r"
    using q by (auto simp: checkFallback_def throw warnIf_def split: option.splits if_splits)
  show "m_callablesWithRevert s' = m_callablesWithRevert s \<union> (if m_hasRevert s then {fd_name f} else {})"
    by (simp add: s' fb r_def clearFunctionFlags_def c)
  have "tagLog functionTags (m_errorReporter c) = tagLog functionTags (m_errorReporter s) @ at_location (n_location f)
      (if m_inERC20 s then only (m_returnFalse s) ''erc20-return-false'' @
        (if fd_name f \<in> {''transfer'', ''transferFrom''} then transferWarnings {x. known x s} f
         else if fd_name f = ''approve'' then approveWarnings {x. known x s} f else []) else [])"
    by (simp add: c_def checkERC20_log)
  then show "tagLog functionTags (m_errorReporter s') =
      tagLog functionTags (m_errorReporter s) @ at_location (n_location f) (functionWarnings (m_inERC20 s) {x. known x s} f)"
    by (simp add: s' fb r_def clearFunctionFlags_def functionWarnings_def functionTags_def)
qed

lemma function_warnings:
  assumes "acceptFunction (checker env) f (Inr s) = Inr s'"
  shows "tagLog functionTags (m_errorReporter s') =
      tagLog functionTags (m_errorReporter s) @ at_location (n_location f) (functionWarnings (m_inERC20 s) (functionFacts s f) f)"
    and "m_callablesWithRevert s' = m_callablesWithRevert s \<union> (if Reverts \<in> functionFacts s f then {fd_name f} else {})"
proof -
  obtain s1 where s1: "visitFunction env f s = Inr s1"
    using assms by (cases "visitFunction env f s") (auto simp: acceptFunction_def around_def checker_def checkerVisit_def)
  let ?k = "inOrder ([acceptParameterList (checker env) (fd_parameters f), acceptParameterList (checker env) (fd_returnParameters f)] @
      map (acceptModifierInvocation (checker env)) (fd_modifiers f) @ [optional (map_option (acceptStatement (checker env)) (fd_body f))])"
  obtain s2 where s2: "?k (Inr s1) = Inr s2" "endVisitFunction f s2 = Inr s'"
    using assms s1 by (cases "?k (Inr s1)") (auto simp: acceptFunction_def around_def checker_def checkerVisit_def checkerEndVisit_def)
  have fields: "m_inERC20 s1 = m_inERC20 s" "m_callablesWithRevert s1 = m_callablesWithRevert s" "m_errorReporter s1 = m_errorReporter s"
      "m_hasReturn s1 = False" "m_returnFalse s1 = False" "m_emitApproval s1 = False" "m_emitTransfer s1 = False"
      "m_hasSenderBalanceCheck s1 = False" "m_hasMsgDataCheck s1 = m_hasMsgDataCheck s"
      "m_hasRevert s1 = hasModifier (m_callablesWithRevert s) f"
    using s1 by (auto simp: visitFunction_def hasModifier_def list_ex_iff)
  have "functionView s1 s1 (0, [])" by (simp add: functionView_def adds_refl)
  with rel_funD [OF facts.view.function_children_sim [of s1 env f], of "Inr s1" "(0, [])"] s2(1)
  have "adds (gatherFunction (functionFact (m_callablesWithRevert s)) f) s1 s2"
    by (simp add: gather_function_children [simplified] functionView_def fields)
  then have a: "m_inERC20 s2 = m_inERC20 s" "m_callablesWithRevert s2 = m_callablesWithRevert s"
      "tagLog functionTags (m_errorReporter s2) = tagLog functionTags (m_errorReporter s)"
      "\<And>x. known x s2 = (known x s1 \<or> x \<in> set (gatherFunction (functionFact (m_callablesWithRevert s)) f))"
    by (simp_all add: adds_def fields)
  have k: "known x s2 \<longleftrightarrow> x \<in> functionFacts s f" for x
    unfolding a(4) by (cases x) (simp_all add: functionFacts_def fields)
  from k [of Reverts] have "m_hasRevert s2 \<longleftrightarrow> Reverts \<in> functionFacts s f" by simp
  moreover from k have "{x. known x s2} = functionFacts s f" by simp
  ultimately
  show "tagLog functionTags (m_errorReporter s') =
      tagLog functionTags (m_errorReporter s) @ at_location (n_location f) (functionWarnings (m_inERC20 s) (functionFacts s f) f)"
    and "m_callablesWithRevert s' = m_callablesWithRevert s \<union> (if Reverts \<in> functionFacts s f then {fd_name f} else {})"
    using endVisitFunction_log [OF s2(2)] a(1-3) by simp_all
qed

end
