(* ===== verification/SecbitVerdict.thy ===== *)
theory SecbitVerdict
  imports SecbitFunctions
begin

text \<open>The checker only adds warnings of its own, so its verdict is the one of the errors before it.\<close>

section \<open>The verdict\<close>

text \<open>One error list continues another with SECBIT warnings only.\<close>

definition growing :: "Reporter \<Rightarrow> Reporter \<Rightarrow> bool" where
  "growing r r' \<longleftrightarrow> (\<exists>ws. m_errorList r' = m_errorList r @ ws \<and> (\<forall>w \<in> set ws. er_type w = SECBITWarningT))"

lemma growing_refl [simp]: "growing r r"
  by (simp add: growing_def)

lemma growing_trans: "growing r r' \<Longrightarrow> growing r' r'' \<Longrightarrow> growing r r''"
  unfolding growing_def by (metis Un_iff append_assoc set_append)

lemma growing_warn [simp]: "growing r (m_errorReporter s) \<Longrightarrow> growing r (m_errorReporter (warn loc i s))"
  by (rule growing_trans) (auto simp: warn_def growing_def)

lemma growing_warnIf [simp]: "growing r (m_errorReporter s) \<Longrightarrow> growing r (m_errorReporter (warnIf c loc i s))"
  by (simp add: warnIf_def)

lemma growing_verdict: "growing r r' \<Longrightarrow> containsOnlyWarnings (m_errorList r') = containsOnlyWarnings (m_errorList r)"
  by (auto simp: growing_def containsOnlyWarnings_def list_all_iff)

lemma visit_grows:
  assumes "checkerVisit env n s = Inr (go, s')"
  shows "growing (m_errorReporter s) (m_errorReporter s')"
proof (cases n)
  case (NExpression e)
  then show ?thesis
    using assms by (cases e) (auto simp: callback_defs)
next
  case (NContract c)
  then show ?thesis
    using assms by (auto simp: checkerVisit_def visitContract_def Let_def split: if_splits)
qed (use assms in \<open>auto simp: callback_defs\<close>)

lemma checkERC20_grows: "growing (m_errorReporter s) (m_errorReporter (checkERC20Function f s))"
  by (simp add: checkERC20Function_def checkTransfer_def checkApprove_def Let_def)

lemma endVisitFunction_grows:
  assumes "endVisitFunction f s = Inr s'"
  shows "growing (m_errorReporter s) (m_errorReporter s')"
proof -
  have "growing (m_errorReporter s) (m_errorReporter (if m_inERC20 s then checkERC20Function f s else s))"
    by (simp add: checkERC20_grows)
  with assms show ?thesis
    by (auto simp: endVisitFunction_def clearFunctionFlags_def Let_def dest!: checkFallback_view simp del: if_split)
qed

lemma endVisitCall_grows:
  assumes "endVisitCall env i f args s = Inr s'"
  shows "growing (m_errorReporter s) (m_errorReporter s')"
  using assms
proof (cases rule: endVisitCall_cases)
  case (2 ps rets k a r)
  have "growing (m_errorReporter x) (m_errorReporter y)" if "checkCallKind loc k f args x = Inr y" for loc x y
    using that by (auto simp: checkCallKind_def dest!: checkRequire_condition split: if_splits)
  from this [OF 2(2)] have "growing (m_errorReporter s) (m_errorReporter r)"
    using growing_trans [OF growing_warnIf [OF growing_refl]] by (simp only: recordEvent_condition)
  with 2(3) show ?thesis by (cases f) simp_all
qed simp

lemma endVisitMemberAccess_grows:
  assumes "endVisitMemberAccess env i b m s = Inr s'"
  shows "growing (m_errorReporter s) (m_errorReporter s')"
proof -
  have *: "growing (m_errorReporter r) (m_errorReporter (warnCondition i b m r))" for r
    by (simp add: warnCondition_def)
  obtain r where r: "(case m_dirtyParam s of
        Some p \<Rightarrow>
          if \<not> m_inLengthAccess s \<and> isMemberAccess (MemberAccess i b m) ''msg'' ''data''
          then dirtyPadding env (n_location i) p s else Inr s
      | None \<Rightarrow> Inr s) = Inr r"
    and s': "s' = (if m = ''length'' then (warnCondition i b m r)\<lparr>m_inLengthAccess := False\<rparr> else warnCondition i b m r)"
    using assms unfolding endVisitMemberAccess_def bindR_eq_Inr by blast
  from r have "growing (m_errorReporter s) (m_errorReporter r)"
    by (auto split: option.splits if_splits dest!: dirtyPadding_view)
  from growing_trans [OF this *] show ?thesis by (auto simp: s')
qed

lemma endVisit_grows:
  assumes "checkerEndVisit env n s = Inr s'"
  shows "growing (m_errorReporter s) (m_errorReporter s')"
proof (cases n)
  case (NExpression e)
  then show ?thesis
    using assms endVisitCall_grows endVisitMemberAccess_grows
    by (cases e) (auto simp: checkerEndVisit_def endVisitLiteral_def endVisitIdentifier_def endVisitAssignment_def endVisitBinary_def Let_def)
next
  case (NStatement st)
  then show ?thesis
    using assms by (cases st)
      (auto simp: checkerEndVisit_def endVisitReturn_def endVisitEmit_def endVisitVariableDeclarationStatement_def
        split: list.splits option.splits Expression.splits)
next
  case (NFunction f)
  then show ?thesis using assms endVisitFunction_grows by (simp add: checkerEndVisit_def)
next
  case (NPragma p)
  then show ?thesis using assms by (auto simp: checkerEndVisit_def endVisitPragma_def split: list.splits if_splits)
qed (use assms in \<open>auto simp: callback_defs Let_def split: option.splits\<close>)

definition growingView :: "Reporter \<Rightarrow> CheckerState \<Rightarrow> int \<times> unit list \<Rightarrow> bool" where
  "growingView r s t \<longleftrightarrow> growing r (m_errorReporter s)"

interpretation growth: unit_view env "\<lambda>b n. [] :: unit list" "growingView r" "\<lambda>n. True" for env r
proof unfold_locales
  fix n s t go s' assume st: "growingView r s t" "checkerVisit env n s = Inr (go, s')"
  have "go = fst (vi_visit (gatherer (\<lambda>b n. [] :: unit list)) n t)"
    using st(2) by (cases n; cases t) (auto simp: checkerVisit_def visitContract_def Let_def gatherer_def split: Expression.splits if_splits)
  then show "go = fst (vi_visit (gatherer (\<lambda>b n. [] :: unit list)) n t) \<and>
      growingView r s' (snd (vi_visit (gatherer (\<lambda>b n. [] :: unit list)) n t))"
    using st growing_trans visit_grows by (auto simp: growingView_def)
next
  show "growingView r s' (vi_endVisit (gatherer (\<lambda>b n. [] :: unit list)) n t)"
    if "growingView r s t" "checkerEndVisit env n s = Inr s'" for n s t s'
    using that growing_trans endVisit_grows by (auto simp: growingView_def)
qed (auto simp: growingView_def warnPull_def setConditional_def)

lemma reportERC20_grows: "growing (m_errorReporter s) (m_errorReporter (reportERC20PropertyIssues s))"
proof -
  have *: "growing r (m_errorReporter s) \<Longrightarrow> growing r (m_errorReporter (fold (\<lambda>(name, p) s.
       let s = warnIf (p_mintable p) (p_defn p) Erc20Mintable s
       in if p_isBase p then s
          else warnIf (\<not> p_hasSymbol p) (p_defn p) Erc20NoSymbol
             (warnIf (\<not> p_hasName p) (p_defn p) Erc20NoName
             (warnIf (\<not> p_hasDecimals p) (p_defn p) Erc20NoDecimals s))) ps s))" for r ps s
    by (induction ps arbitrary: s) (auto simp: Let_def)
  from * [OF growing_refl] show ?thesis by (simp add: reportERC20PropertyIssues_def)
qed

lemma checker_grows:
  assumes "checkSyntax asERC20 types depth u r = Inr (ok, r')"
  shows "growing r r'" and "ok = containsOnlyWarnings (m_errorList r)"
proof -
  obtain env s where s: "acceptSourceUnit (checker env) u (Inr (initialChecker r)) = Inr s"
      "r' = m_errorReporter (reportERC20PropertyIssues s)" "ok = containsOnlyWarnings (m_errorList r')"
    using assms by (auto simp: checkSyntax_def Let_def)
  have "growingView r (initialChecker r) (0, [])" by (simp add: growingView_def initialChecker_def)
  from growth.unit_gathers [OF this s(1)] show g: "growing r r'"
    using growing_trans reportERC20_grows by (auto simp: growingView_def s(2))
  from growing_verdict [OF g] show "ok = containsOnlyWarnings (m_errorList r)" by (simp add: s(3))
qed

text \<open>A check returns when its traversal does, whatever the parents are.\<close>

lemma checkSyntax_returns:
  assumes "\<And>p. \<not> (case acceptSourceUnit (checker \<lparr>ce_asERC20 = a, ce_types = t, ce_depth = d, ce_parent = p\<rparr>) u
      (Inr (initialChecker r)) of Inl e \<Rightarrow> True | Inr s \<Rightarrow> False)"
  shows "\<exists>ok r'. checkSyntax a t d u r = Inr (ok, r')"
  using assms [of "map_of (annotateParent u)"] by (auto simp: checkSyntax_def Let_def split: sum.splits)

end
