(* ===== verification/Spec2Isabelle.thy ===== *)
theory Spec2Isabelle
  imports JuliaHoisting ScannerFacts UTF8 StringUtils Peephole Rules ConstantOptimiser JumpdestRemover BlockDeduplicator LinkerObject SemVer SHA3 AssemblyLayout AssemblyBuild TypeFacts SecbitVerdict
begin

text \<open>
  This repository is a Solidity compiler (the libraries libdevcore, libevmasm, libjulia, libsolidity and
  the programs around them) with an additional syntax check of smart contracts, the SECBIT checker. The
  theories of this directory model the parts of it that are named below, one component per theory, as
  executable functions; the theorems of this file are the properties that make the components correct.

  THE PARTS OF THE PROGRAM. The scanner (libsolidity/parsing/Scanner, Token) turns a source into tokens
  for the parser, which builds the syntax tree (libsolidity/ast). The analyses write annotations into the
  tree; among them are the types (ast/Types), the check of version pragmas (analysis/SemVerHandler) and
  the SECBIT checker (analysis/SECBITChecker), and all of them report to one list of errors
  (interface/ErrorReporter). Inline assembly has a tree of its own (inlineasm/AsmData), on which the Julia
  optimiser works (libjulia/optimiser). The code generator emits assembly items into an assembly
  (libevmasm/AssemblyItem, Assembly). The assembly is optimised: the jump destination remover, the
  peephole optimiser, the block deduplicator and the constant optimiser rewrite the items, the
  simplification rules rewrite expressions, and all are guided by the classification of instructions
  (Instruction, SemanticInformation) and by the gas meter. At the end the items are assembled into byte
  code with tags, data and sub-assemblies resolved, and libraries are linked into it (LinkerObject). The
  hashes, byte and text conversions, UTF-8 validation and name suggestions of libdevcore serve all of it.

  HOW THE MODEL READS THE CODE. A class is a record of its members and a method a function that takes the
  record and returns the new one; an enumeration is a datatype or, where the code computes with it, a word
  of its width; u256 is a word of 256 bits, a template integer its value. A fallible operation returns
  res, a sum of the error (the exception of the code, or UndefinedBehaviour where it would follow a null
  pointer or read outside of a container) and the result; bindR sequences it, and assertThrow is the
  assertion of the code. An ordered map or set is a sorted list under the comparison of its keys. Loops
  are recursive functions whose termination is proved. Library functions that the code calls and that are
  not in the repository are parameters: the number parser of boost (lexical_cast), the hash in the
  component that only needs one. Prelude holds these types and the lemmas all theories share, among them
  the locale ordered_map and its interpretation on the map that the models use.

  THE ASSEMBLER AND ITS OPTIMISERS (src/libevmasm).
  Instructions models Instruction.h and .cpp: opcodes, the two tables, the walk over byte code.
  AssemblyItems models AssemblyItem and SourceLocation: items, their order, size and stack effect.
  SemanticInfo models SemanticInformation. GasMeter models EVMVersion, the gas constants and the sums of
  gas. Evm is a specification and no translation of the code: a stack machine on items with the EVM
  meaning of the arithmetic instructions, where the values of tags and data and every other instruction
  are parameters of which env_ok states what the instruction table documents. Its run is bounded by the
  number of jumps, None if that is not enough; the theorems hold for every bound.
  Peephole models PeepholeOptimiser.cpp. The locale window_method states what the pass relies on for a
  method that looks at a fixed number of items, its sublocale relation to peephole_method gives the
  general contract, and each of the ten methods of the code is an interpretation. The lemmas lead to C1
  (the outcome of a program is kept) and C12 (the loop around the pass ends).
  Rules models RuleList.h, SimplificationRules and the part of ExpressionClasses that patterns look at:
  the whole list of rules is shown to keep the value of expressions (C6), and the search returns (C13).
  ConstantOptimiser models ConstantOptimiser.cpp; the recursion of findRepresentation ends as its
  constants shrink; the routines are correct, not dearer, and replace constants safely (C14 to C16).
  JumpdestRemover and BlockDeduplicator model the files of these names (C17, C18; C7, C23). The loop of
  the deduplicator ends because every round moves pushed tags to earlier positions, for distinct tags.
  AssemblyCode models building and assembling in Assembly.h and .cpp, AssemblyLayout proves what lies where
  in the code that is assembled (C8, C9), AssemblyBuild treats the appending of items and assemblies and
  the width of tags (C31). LinkerObject models linking (C24, C25).

  THE JULIA OPTIMISER (src/libjulia/optimiser, src/libsolidity/inlineasm/AsmData.h).
  JuliaAst models the tree, ASTWalker (a walker or modifier is a record of its virtual operators, each
  given the behaviour of the base class) and the expressions of ASTCopier. JuliaTools models NameCollector,
  NameDispenser, SyntacticalEquality, Semantics, Metrics, Utilities, Substitution, FunctionHoister,
  FunctionGrouper and MainFunction. JuliaOptimiser models UnusedPruner (its loop ends as a weight of the
  tree and of the references decreases) and ExpressionInliner with InlinableExpressionFunctionFinder.
  JuliaSemantics is a specification and no translation of the code: an interpreter of the tree on a world
  of its own, where an instruction is a parameter (machineOk and machineStable say what the code means by
  movable). Its fuel n bounds the depth of calls and the rounds of each loop and ends in NoFuel; the
  theorems hold for every n, with the same n before and after. JuliaFacts shows what the walkers compute;
  JuliaPruning that a tree without unneeded declarations (slim) simulates the original one, JuliaPruner
  that the pruner leaves such a tree (C2, C37); JuliaInliner that calls replaced by values are simulated,
  and that the inliner replaces them so (C3); JuliaInlining treats syntactical equality and new names
  (C38, C39), JuliaHoisting the three passes that move functions (C40). These theorems are stated for
  strict assembly (strictBlock): no labels, stack assignments or instructions that stand as
  statements, as the optimiser demands.

  THE FRONT END (src/libsolidity).
  Tokens models Token.h and .cpp. Scanner models Scanner.h and .cpp: the character stream, comments,
  literals, operators and the scanner with its look-ahead. The locale scan_loop is a loop over a class of
  characters and is interpreted on every such loop of the code; scanner_moves is a relation that the steps
  of the scanner keep, interpreted once for the position and once for the text that is read;
  recording_loop is a loop that stores what it reads. ScannerFacts shows C10, C11 and C36. Positions of
  the code are of type int, so sources have less than 2 to the 31 characters there.
  SemVer models SemVerHandler (C29, C30).
  SolidityTypes models Types.h and .cpp: ranges, conversions, operators, sizes and storage layout;
  TypeFacts shows C32 to C34. ErrorReporter models the list of errors.
  SolidityAst models the tree of AST.h with the annotations that the analyses read and its traversal by
  AST_accept.h. AstTraversal holds the locales of a relation that a visitor preserves (body_simulation and
  visitor_simulation). SecbitChecker models SECBITChecker.h and .cpp with every callback. SecbitFacts and
  SecbitFunctions relate the checker to a visitor that only gathers facts (the locales checker_view and
  unit_view and their interpretations): its warnings are a function of the facts (C4, C5); SecbitVerdict
  shows that it only warns (C35).

  CONVERSIONS AND HASHES (src/libdevcore).
  DevCore models CommonData and the signed conversions of Common.h (C21 and facts at the end); UTF8 models
  UTF8.cpp against Table 3-7 of the Unicode standard (C19); StringUtils the string distance (C20); SHA3 the
  Keccak permutation and the sponge, against FIPS 202 (C26, C27).

  WHAT IS NOT MODELLED. The common subexpression elimination of the assembler (KnownState,
  ExpressionClasses, ControlFlowGraph, PathGasMeter), the gas estimate and the loop of Assembly.cpp over all
  optimisers that rest on it; the stages of the Julia optimiser that track values (DataFlowAnalyzer and its
  descendants, ExpressionSimplifier), the full inliner, the disambiguator and the back end; the parsers of
  Solidity and inline assembly; name resolution, type checking and the other analyses; code generation;
  the SMT encoding, whose solvers are outside of the repository; the drivers and their JSON and text
  formats; input and output; the LLL compiler. They are left out for their size or because they are
  input and output; no modelled definition stands for any of them.
\<close>

text \<open>
  C1. A call of PeepholeOptimiser::optimise keeps the outcome of the program on every input: a run that ends by a halting instruction, within any number of jumps, ends the same way, with the same arguments and the same world, on the optimised items. The machine's other instructions are a parameter, of which only the instruction table's documentation is assumed.
\<close>

theorem peephole_keeps_outcome:
  assumes env: "env_ok env" and tags: "tags_ok env P"
    and opt: "peephole_optimise \<lparr>p_items = P, p_optimisedItems = []\<rparr> = Inr (changed, p)"
    and run: "run env P n P s w = Some r" and ok: "r \<noteq> Failed"
  shows "run env (p_items p) n (p_items p) s w = Some r"
proof -
  from peephole_optimise_cases [of env P] opt obtain ys
    where "pass env P ys" "p_items p = P \<or> p_items p = ys" by (auto split: bool.splits)
  with pass_sound [OF env tags _ ok run] run show ?thesis by auto
qed

theorem peephole_keeps_outcome_witness:
  "\<exists>p. peephole_optimise \<lparr>p_items = [pushItem 7, pushItem 7, opItem POP noLocation, opItem STOP noLocation],
       p_optimisedItems = []\<rparr> = Inr (True, p) \<and>
     run simpleEnv (p_items p) 0 (p_items p) [] () = Some (Halted STOP [] ())"
proof -
  let ?P = "[pushItem 7, pushItem 7, opItem POP noLocation, opItem STOP noLocation]"
  let ?Q = "[pushItem 7, opItem DUP1 noLocation, opItem POP noLocation, opItem STOP noLocation]"
  have opt: "peephole_optimise \<lparr>p_items = ?P, p_optimisedItems = []\<rparr> =
      Inr (True, \<lparr>p_items = ?Q, p_optimisedItems = []\<rparr>)" by code_simp
  have tags: "tags_ok simpleEnv ?P" by code_simp
  have run: "run simpleEnv ?P 0 ?P [] () = Some (Halted STOP [] ())" by code_simp
  from peephole_keeps_outcome [OF simpleEnv_ok tags opt run] opt show ?thesis by simp
qed

text \<open>
  C2. On strict assembly the unused pruner returns (its loop ends and no assertion on the reference counts fails), and the program it leaves does what the original one does: for every machine whose movable instructions leave the world alone and whose POP takes a value, every run of the original program that is not stuck and does not run out of fuel is a run of the pruned one with the same outcome and world.
\<close>

theorem pruner_keeps_programs:
  assumes "strictBlock b" "machineOk M"
  shows "\<exists>b'. runUntilStabilised b = Inr b' \<and> strictBlock b' \<and>
    (\<forall>n w. runProgram M n b w \<in> {runProgram M n b' w, Stuck, NoFuel})"
  using pruning_returns [OF assms(1), of M] assms(2) by (auto simp: runLe_eq)

theorem pruner_keeps_programs_witness:
  "\<exists>b'. runUntilStabilised (AsmBlock noLocation [AsmVariableDeclaration noLocation [\<lparr>tn_location = noLocation, tn_name = ''x'', tn_type = ''''\<rparr>] (Some (AsmFunctionalInstruction noLocation ADD [AsmLiteralExpression \<lparr>al_location = noLocation, al_kind = NumberLiteral, al_value = ''1'', al_type = ''''\<rparr>, AsmLiteralExpression \<lparr>al_location = noLocation, al_kind = NumberLiteral, al_value = ''2'', al_type = ''''\<rparr>])),
    AsmVariableDeclaration noLocation [\<lparr>tn_location = noLocation, tn_name = ''y'', tn_type = ''''\<rparr>] (Some (AsmIdentifierExpression \<lparr>ai_location = noLocation, ai_name = ''x''\<rparr>)),
    AsmFunctionDefinition noLocation ''f'' [\<lparr>tn_location = noLocation, tn_name = ''a'', tn_type = ''''\<rparr>] [\<lparr>tn_location = noLocation, tn_name = ''r'', tn_type = ''''\<rparr>] (AsmBlock noLocation [AsmAssignment noLocation [\<lparr>ai_location = noLocation, ai_name = ''r''\<rparr>] (AsmIdentifierExpression \<lparr>ai_location = noLocation, ai_name = ''a''\<rparr>)]),
    AsmExpressionStatement noLocation (AsmFunctionalInstruction noLocation SSTORE [AsmLiteralExpression \<lparr>al_location = noLocation, al_kind = NumberLiteral, al_value = ''0'', al_type = ''''\<rparr>, AsmLiteralExpression \<lparr>al_location = noLocation, al_kind = NumberLiteral, al_value = ''7'', al_type = ''''\<rparr>])]) = Inr b' \<and>
     runProgram logMachine 1 b' [] = Done () [7]"
proof -
  let ?b = "AsmBlock noLocation [AsmVariableDeclaration noLocation [\<lparr>tn_location = noLocation, tn_name = ''x'', tn_type = ''''\<rparr>] (Some (AsmFunctionalInstruction noLocation ADD [AsmLiteralExpression \<lparr>al_location = noLocation, al_kind = NumberLiteral, al_value = ''1'', al_type = ''''\<rparr>, AsmLiteralExpression \<lparr>al_location = noLocation, al_kind = NumberLiteral, al_value = ''2'', al_type = ''''\<rparr>])),
    AsmVariableDeclaration noLocation [\<lparr>tn_location = noLocation, tn_name = ''y'', tn_type = ''''\<rparr>] (Some (AsmIdentifierExpression \<lparr>ai_location = noLocation, ai_name = ''x''\<rparr>)),
    AsmFunctionDefinition noLocation ''f'' [\<lparr>tn_location = noLocation, tn_name = ''a'', tn_type = ''''\<rparr>] [\<lparr>tn_location = noLocation, tn_name = ''r'', tn_type = ''''\<rparr>] (AsmBlock noLocation [AsmAssignment noLocation [\<lparr>ai_location = noLocation, ai_name = ''r''\<rparr>] (AsmIdentifierExpression \<lparr>ai_location = noLocation, ai_name = ''a''\<rparr>)]),
    AsmExpressionStatement noLocation (AsmFunctionalInstruction noLocation SSTORE [AsmLiteralExpression \<lparr>al_location = noLocation, al_kind = NumberLiteral, al_value = ''0'', al_type = ''''\<rparr>, AsmLiteralExpression \<lparr>al_location = noLocation, al_kind = NumberLiteral, al_value = ''7'', al_type = ''''\<rparr>])]"
  have "strictBlock ?b" by simp
  from pruner_keeps_programs [OF this machineOk_logMachine] obtain b' where
    "runUntilStabilised ?b = Inr b'" "runProgram logMachine 1 ?b [] \<in> {runProgram logMachine 1 b' [], Stuck, NoFuel}" by blast
  moreover have "runProgram logMachine 1 ?b [] = Done () [7]" by code_simp
  ultimately show ?thesis by auto
qed

text \<open>
  C3. On strict assembly with unique function names and calls that fit their functions the expression inliner returns, and the program it leaves does what the original one does: for every machine whose movable instructions give the same values in every world and leave it alone, every run of the original program that is not stuck and does not run out of fuel is a run of the inlined one with the same outcome and world.
\<close>

theorem inliner_keeps_programs:
  assumes "strictBlock b" "uniqueFunctions b" "fitBlock (map_of (definedBlock b)) b" "machineOk M" "machineStable M"
  shows "\<exists>b'. inlineExpressions b = Inr b' \<and> (\<forall>n w. runProgram M n b w \<in> {runProgram M n b' w, Stuck, NoFuel})"
  using inlining_keeps [OF assms(1-3), of M] assms(4,5) by (auto simp: runLe_eq)

theorem inliner_keeps_programs_witness:
  "\<exists>b'. inlineExpressions (AsmBlock noLocation [AsmFunctionDefinition noLocation ''f'' [\<lparr>tn_location = noLocation, tn_name = ''a'', tn_type = ''''\<rparr>] [\<lparr>tn_location = noLocation, tn_name = ''r'', tn_type = ''''\<rparr>] (AsmBlock noLocation [AsmAssignment noLocation [\<lparr>ai_location = noLocation, ai_name = ''r''\<rparr>] (AsmFunctionalInstruction noLocation ADD [AsmIdentifierExpression \<lparr>ai_location = noLocation, ai_name = ''a''\<rparr>, AsmLiteralExpression \<lparr>al_location = noLocation, al_kind = NumberLiteral, al_value = ''1'', al_type = ''''\<rparr>])]),
    AsmExpressionStatement noLocation (AsmFunctionalInstruction noLocation SSTORE [AsmLiteralExpression \<lparr>al_location = noLocation, al_kind = NumberLiteral, al_value = ''0'', al_type = ''''\<rparr>, AsmFunctionCall noLocation \<lparr>ai_location = noLocation, ai_name = ''f''\<rparr> [AsmLiteralExpression \<lparr>al_location = noLocation, al_kind = NumberLiteral, al_value = ''41'', al_type = ''''\<rparr>]])]) = Inr b' \<and> runProgram logMachine 2 b' [] = Done () [42]"
proof -
  let ?b = "AsmBlock noLocation [AsmFunctionDefinition noLocation ''f'' [\<lparr>tn_location = noLocation, tn_name = ''a'', tn_type = ''''\<rparr>] [\<lparr>tn_location = noLocation, tn_name = ''r'', tn_type = ''''\<rparr>] (AsmBlock noLocation [AsmAssignment noLocation [\<lparr>ai_location = noLocation, ai_name = ''r''\<rparr>] (AsmFunctionalInstruction noLocation ADD [AsmIdentifierExpression \<lparr>ai_location = noLocation, ai_name = ''a''\<rparr>, AsmLiteralExpression \<lparr>al_location = noLocation, al_kind = NumberLiteral, al_value = ''1'', al_type = ''''\<rparr>])]),
    AsmExpressionStatement noLocation (AsmFunctionalInstruction noLocation SSTORE [AsmLiteralExpression \<lparr>al_location = noLocation, al_kind = NumberLiteral, al_value = ''0'', al_type = ''''\<rparr>, AsmFunctionCall noLocation \<lparr>ai_location = noLocation, ai_name = ''f''\<rparr> [AsmLiteralExpression \<lparr>al_location = noLocation, al_kind = NumberLiteral, al_value = ''41'', al_type = ''''\<rparr>]])]"
  have "strictBlock ?b" "uniqueFunctions ?b" "fitBlock (map_of (definedBlock ?b)) ?b"
    by (simp_all add: uniqueFunctions_def fitsCall_def)
  from inliner_keeps_programs [OF this machineOk_logMachine machineStable_logMachine] obtain b' where
    "inlineExpressions ?b = Inr b'" "runProgram logMachine 2 ?b [] \<in> {runProgram logMachine 2 b' [], Stuck, NoFuel}" by blast
  moreover have "runProgram logMachine 2 ?b [] = Done () [42]" by code_simp
  ultimately show ?thesis by auto
qed

text \<open>
  C4. The SECBIT checker reports timestamp, tx-origin and forced-ether exactly for the uses of now, tx.origin and this.balance that lie inside of a comparison, each with its location and in the order of the traversal; nested comparisons make no difference. Outside of its reach are the library SafeMath and required sends in blocks.
\<close>

theorem condition_warnings_exact:
  assumes "checkSyntax asERC20 types depth u r = Inr (ok, r')"
  shows "tagLog conditionTags r' = tagLog conditionTags r @ gatherSourceUnit conditionUse u"
  using assms by (rule condition_warnings)

theorem condition_warnings_exact_witness:
  "\<exists>ok r'. checkSyntax False \<lparr>te_bases = \<lambda>_. [], te_isLibrary = \<lambda>_. False, te_structMembers = \<lambda>_. [], te_numberOfMembers = \<lambda>_. 0, te_sameComponents = \<lambda>_ _. False\<rparr> 0
      \<lparr>n_id = 1, n_location = noLocation, su_nodes = [ContractNode \<lparr>n_id = 2, n_location = noLocation, cd_name = ''C'', cd_baseContracts = [],
        cd_subNodes = [FunctionNode \<lparr>n_id = 3, n_location = noLocation, fd_name = ''f'', fd_visibility = PublicVisibility, fd_stateMutability = NonPayable,
          fd_isConstructor = False, fd_parameters = ParameterList \<lparr>n_id = 4, n_location = noLocation\<rparr> [], fd_modifiers = [],
          fd_returnParameters = ParameterList \<lparr>n_id = 5, n_location = noLocation\<rparr> [],
          fd_body = Some (Block \<lparr>n_id = 6, n_location = noLocation\<rparr> [ExpressionStatement \<lparr>n_id = 7, n_location = noLocation\<rparr>
             (BinaryOperation \<lparr>n_id = 8, n_location = noLocation, e_type = None\<rparr> (Identifier \<lparr>n_id = 9, n_location = noLocation, e_type = None\<rparr> ''x'' None) T_LessThan (Identifier \<lparr>n_id = 10, n_location = noLocation, e_type = None\<rparr> ''now'' None))])\<rparr>], cd_contractKind = Contract\<rparr>]\<rparr>
      \<lparr>m_errorList = [], m_errorCount = 0, m_warningCount = 0\<rparr> = Inr (ok, r') \<and>
     tagLog conditionTags r' = [(''timestamp'', noLocation)]"
proof -
  let ?r = "\<lparr>m_errorList = [], m_errorCount = 0, m_warningCount = 0\<rparr>"
  let ?u = "\<lparr>n_id = 1, n_location = noLocation, su_nodes = [ContractNode \<lparr>n_id = 2, n_location = noLocation, cd_name = ''C'', cd_baseContracts = [],
        cd_subNodes = [FunctionNode \<lparr>n_id = 3, n_location = noLocation, fd_name = ''f'', fd_visibility = PublicVisibility, fd_stateMutability = NonPayable,
          fd_isConstructor = False, fd_parameters = ParameterList \<lparr>n_id = 4, n_location = noLocation\<rparr> [], fd_modifiers = [],
          fd_returnParameters = ParameterList \<lparr>n_id = 5, n_location = noLocation\<rparr> [],
          fd_body = Some (Block \<lparr>n_id = 6, n_location = noLocation\<rparr> [ExpressionStatement \<lparr>n_id = 7, n_location = noLocation\<rparr>
             (BinaryOperation \<lparr>n_id = 8, n_location = noLocation, e_type = None\<rparr> (Identifier \<lparr>n_id = 9, n_location = noLocation, e_type = None\<rparr> ''x'' None) T_LessThan (Identifier \<lparr>n_id = 10, n_location = noLocation, e_type = None\<rparr> ''now'' None))])\<rparr>], cd_contractKind = Contract\<rparr>]\<rparr>"
  have "\<not> (case acceptSourceUnit (checker \<lparr>ce_asERC20 = False, ce_types = \<lparr>te_bases = \<lambda>_. [], te_isLibrary = \<lambda>_. False, te_structMembers = \<lambda>_. [], te_numberOfMembers = \<lambda>_. 0, te_sameComponents = \<lambda>_ _. False\<rparr>, ce_depth = 0, ce_parent = p\<rparr>) ?u (Inr (initialChecker ?r)) of Inl e \<Rightarrow> True | Inr r \<Rightarrow> False)" for p
    by code_simp
  then obtain ok r' where r: "checkSyntax False \<lparr>te_bases = \<lambda>_. [], te_isLibrary = \<lambda>_. False, te_structMembers = \<lambda>_. [], te_numberOfMembers = \<lambda>_. 0, te_sameComponents = \<lambda>_ _. False\<rparr> 0 ?u ?r = Inr (ok, r')"
    using checkSyntax_returns by blast
  have "gatherSourceUnit conditionUse ?u = [(''timestamp'', noLocation)]" by code_simp
  with condition_warnings_exact [OF r] r show ?thesis by (auto simp: tagLog_def)
qed



text \<open>
  C6. The simplification rule that the optimiser finds for an expression, applied to what its groups matched, has the value of the expression, for every assignment of values to the expression classes that agrees with their representatives. Addresses are taken to have 160 bits.
\<close>

theorem simplification_keeps_value:
  assumes "repsOk ext val reps" "sem_ok ext" "Rules_init = Inr table"
    and "findFirstMatch table e reps = Inr (Some (r, groups))" "r_action r groups = Inr q"
  shows "patVal ext (groupVal val groups) q = exprVal ext val e"
  using assms by (rule findFirstMatch_sound)

theorem simplification_keeps_value_witness:
  "\<exists>r groups q. findFirstMatch (\<lambda>i. filter (\<lambda>r. p_instruction (r_pattern r) = i) ruleList)
       \<lparr>e_id = - 1, e_item = Some (opItem ADD noLocation), e_arguments = [0, 0], e_sequenceNumber = 0\<rparr>
       [\<lparr>e_id = 0, e_item = Some (pushItem 5), e_arguments = [], e_sequenceNumber = 0\<rparr>] = Inr (Some (r, groups)) \<and>
     r_action r groups = Inr q \<and> patVal (\<lambda>i q vs. 0) (groupVal (\<lambda>i. 5) groups) q = 10"
proof -
  let ?rep = "\<lparr>e_id = 0, e_item = Some (pushItem 5), e_arguments = [], e_sequenceNumber = 0\<rparr>"
  let ?e = "\<lparr>e_id = - 1, e_item = Some (opItem ADD noLocation), e_arguments = [0, 0], e_sequenceNumber = 0\<rparr>"
  let ?table = "\<lambda>i. filter (\<lambda>r. p_instruction (r_pattern r) = i) ruleList"
  let ?rule = "mkRule (opP ADD [pat_A, pat_B]) (act2 pat_A pat_B (\<lambda>a b. valP (a + b))) False"
  let ?g = "[Suc 0 \<mapsto> ?rep, 2 \<mapsto> ?rep]"
  have "\<exists>rs. ?table ADD = ?rule # rs"
    by (simp add: simplificationRuleList_def constantRules_def mkRule_def opP_def)
  then obtain rs where rs: "?table ADD = ?rule # rs" by blast
  have match: "pattern_matches (opP ADD [pat_A, pat_B]) ?e [?rep] (\<lambda>k. None) = Inr (True, ?g)"
    by (simp add: opP_def pat_A_def pat_B_def setMatchGroup_def typeP_def matchesBaseItem_def bindGroup_def
        representative_def)
  have found: "findFirstMatch ?table ?e [?rep] = Inr (Some (?rule, ?g))"
    unfolding findFirstMatch_def using rs match
    by (simp add: item_instruction_def mkRule_def)
  have act: "r_action ?rule ?g = Inr (valP 10)"
    by (simp add: mkRule_def act2_def pattern_d_def matchGroupValue_def item_data_def)
  have reps: "repsOk (\<lambda>i q vs. 0) (\<lambda>i. 5) [?rep]" by (simp add: repsOk_def repOk_def exprVal_def)
  have sem: "sem_ok (\<lambda>i q vs. 0)" by (simp add: sem_ok_def)
  from simplification_keeps_value [OF reps sem Rules_init_eq found act] found act show ?thesis
    by (intro exI [of _ ?rule] exI [of _ ?g] exI [of _ "valP 10"]) (simp add: exprVal_def)
qed

text \<open>
  C7. On items whose tags are distinct and below 2 to the 64, the deduplication loop ends. It reports a change exactly when the items changed; only the data of pushed tags changes; every replaced tag leads to a tag at an earlier position; and no replaced tag is pushed any more.
\<close>

theorem deduplication_returns:
  assumes "tagsUnique items"
  shows "\<exists>changed items' repl. deduplicate items = Some (Inr (changed, items', repl)) \<and>
    changed = (items' \<noteq> items) \<and> list_all2 sameButTags items items' \<and>
    list_all (\<lambda>i. \<not> hits repl i) items' \<and> leadsBack items repl"
  using deduplicate_returns [OF assms] unfolding deduplicated_def by blast

theorem deduplication_returns_witness:
  "\<exists>changed items' repl. deduplicate [mkItem Tag 1 noLocation, opItem STOP noLocation, mkItem Tag 2 noLocation, opItem STOP noLocation,
      mkItem PushTag 2 noLocation] = Some (Inr (changed, items', repl)) \<and> list_all (\<lambda>i. \<not> hits repl i) items'"
proof -
  have "tagsUnique [mkItem Tag 1 noLocation, opItem STOP noLocation, mkItem Tag 2 noLocation, opItem STOP noLocation,
      mkItem PushTag 2 noLocation]" by (simp add: tagsUnique_def isTag_def mkItem_def)
  from deduplication_returns [OF this] show ?thesis by blast
qed



text \<open>
  C9. In assembled code, pushing a tag of the same assembly (other than the error tag 0) pushes a position inside the code at which the byte is JUMPDEST, namely the place of the item that carries the tag; the position fits the bytes reserved for it.
\<close>

theorem jump_targets_assembled:
  assumes "assembleState s subs = Inr r" "distinct (map fst (m_dataItems s))" "length subs < 2 ^ 64"
    "k < length (m_items s)" "m_type (m_items s ! k) = PushTag" "ownTag (m_items s ! k)" "tagNumber (m_items s ! k) \<noteq> 0"
  shows "\<exists>c w v j. holds (lo_bytecode (r_object r)) (offset c (m_items s) k) (pushOpcode w # toBigEndian w v) \<and>
    fromBigEndian (toBigEndian w v) = v \<and> v < length (lo_bytecode (r_object r)) \<and>
    lo_bytecode (r_object r) ! v = JUMPDEST \<and> v = offset c (m_items s) j \<and>
    j < length (m_items s) \<and> m_type (m_items s ! j) = Tag \<and> tagNumber (m_items s ! j) = tagNumber (m_items s ! k)"
  using assembled_tag [OF assms] by metis

theorem jump_targets_assembled_witness:
  "\<exists>r v. assembleState (asm_state emptyAssembly \<lparr>m_usedTags := 2,
       m_items := [mkItem PushTag 1 noLocation, opItem JUMP noLocation, mkItem Tag 1 noLocation]\<rparr>) [] = Inr r \<and>
     v < length (lo_bytecode (r_object r)) \<and> lo_bytecode (r_object r) ! v = JUMPDEST"
proof -
  let ?s = "asm_state emptyAssembly \<lparr>m_usedTags := 2,
       m_items := [mkItem PushTag 1 noLocation, opItem JUMP noLocation, mkItem Tag 1 noLocation]\<rparr>"
  have "\<not> (case assembleState ?s [] of Inl e \<Rightarrow> True | Inr r \<Rightarrow> False)" by code_simp
  then obtain r where r: "assembleState ?s [] = Inr r" by (auto split: sum.splits)
  have "ownTag (m_items ?s ! 0)" "tagNumber (m_items ?s ! 0) \<noteq> 0" by code_simp+
  with jump_targets_assembled [OF r, of 0] show ?thesis using r
    by (auto simp: emptyAssembly_def mkItem_def)
qed

text \<open>
  C10. Started on any source of less than 2^31 characters, the scanner never raises an error of its own and comes to the end of the source: every call of next returns, and after as many calls as there are characters (or more) the current token is EOS.
\<close>

theorem scanner_reaches_end:
  assumes "length src < 2 ^ 31"
  shows "\<exists>st. scanner_resetTo lexical_cast \<lparr>cs_source = src, cs_position = p\<rparr> name before = Inr st \<and>
    (\<forall>k. \<exists>st'. nexts lexical_cast k st = Inr st' \<and> (length src \<le> k \<longrightarrow> currentToken st' = T_EOS))"
  using scanner_reset_ok [OF assms] nexts_ok nexts_end by metis

theorem scanner_reaches_end_witness:
  "\<exists>st st'. scanner_resetTo (\<lambda>_. None) \<lparr>cs_source = ''/* x'', cs_position = 0\<rparr> [] (scannerAt []) = Inr st \<and>
     nexts (\<lambda>_. None) 4 st = Inr st' \<and> currentToken st' = T_EOS"
proof -
  have "length ''/* x'' < 2 ^ 31" "length ''/* x'' \<le> 4" by simp_all
  with scanner_reaches_end [of "''/* x''" "\<lambda>_. None" 0 "[]" "scannerAt []"] show ?thesis by metis
qed

text \<open>
  C11. After any number of calls of next, the current and the look-ahead token lie in the source one after the other; a token covers at least one character unless it is EOS, which stands at the end; and a token that is not an error is spelled by the characters it covers: an operator or keyword by its own string, an identifier, type or number by its literal, a string by its quotes.
\<close>

theorem tokens_spelled_by_source:
  assumes "length src < 2 ^ 31"
  shows "\<exists>st st'. scanner_resetTo lexical_cast \<lparr>cs_source = src, cs_position = p\<rparr> name before = Inr st \<and>
    nexts lexical_cast k st = Inr st' \<and>
    placed lexical_cast src (sc_currentToken st') \<and> placed lexical_cast src (sc_nextToken st') \<and>
    loc_end (currentLocation st') \<le> loc_start (peekLocation st')"
  using scanner_reset_ok [OF assms, of lexical_cast p name before] nexts_ok [of lexical_cast src _ k]
  by (fastforce simp: scannerOk_def currentLocation_def peekLocation_def)

theorem tokens_spelled_by_source_witness:
  "\<exists>st'. nexts (\<lambda>_. None) 1 (case scanner_resetTo (\<lambda>_. None) \<lparr>cs_source = ''a>>>=1'', cs_position = 0\<rparr> [] (scannerAt []) of
       Inr st \<Rightarrow> st | Inl _ \<Rightarrow> scannerAt []) = Inr st' \<and>
     placed (\<lambda>_. None) ''a>>>=1'' (sc_currentToken st')"
proof -
  have "length ''a>>>=1'' < 2 ^ 31" by simp
  from tokens_spelled_by_source [OF this, of "\<lambda>_. None" 0 "[]" "scannerAt []" 1] show ?thesis by auto
qed

text \<open>
  C12. On defined items optimise returns, and when it reports a change the new items are smaller in a well-founded order (length, then bytes, then items that are not POP), still defined, with the same tags in the same order. So the loop that calls it until it reports no change ends.
\<close>

theorem peephole_progress:
  assumes "definedItems P"
  shows "wf passMeasure \<and> (\<exists>changed p. peephole_optimise \<lparr>p_items = P, p_optimisedItems = []\<rparr> = Inr (changed, p) \<and>
    definedItems (p_items p) \<and> filter isTag (p_items p) = filter isTag P \<and>
    (if changed then (p_items p, P) \<in> passMeasure else p_items p = P))"
  using assms
proof (cases rule: peephole_optimise_returns [where env = simpleEnv])
  case (kept p)
  then show ?thesis using assms wf_passMeasure by auto
next
  case (replaced ys)
  then show ?thesis using wf_passMeasure pass_tags by force
qed

theorem peephole_progress_witness:
  "\<exists>p. peephole_optimise \<lparr>p_items = [pushItem 7, pushItem 7], p_optimisedItems = []\<rparr> = Inr (True, p) \<and>
     (p_items p, [pushItem 7, pushItem 7]) \<in> passMeasure"
proof -
  have "definedItems [pushItem 7, pushItem 7]" by simp
  moreover have "peephole_optimise \<lparr>p_items = [pushItem 7, pushItem 7], p_optimisedItems = []\<rparr> =
      Inr (True, \<lparr>p_items = [pushItem 7, opItem DUP1 noLocation], p_optimisedItems = []\<rparr>)" by code_simp
  ultimately show ?thesis using peephole_progress [of "[pushItem 7, pushItem 7]"] by auto
qed



text \<open>
  C14. For every constant the search of ComputeMethod returns a routine, the check of that routine succeeds so that the constructor does not throw, and running the routine on the machine pushes the constant when the stack has room for the routine's items.
\<close>

theorem constant_routine_correct:
  fixes env :: "'w evm_env"
  shows "\<exists>r. compute_init ps v = Inr r \<and> checkRepresentation v r \<and>
    (\<forall>s w. length s + length r \<le> stackLimit \<longrightarrow> execItems env r s w = Some (v # s, w))"
proof -
  obtain r where r: "compute_init ps v = Inr r" "computes r v" using compute_init_ok by blast
  then have items: "list_all routineItem r" and res: "\<And>s. checkItems r s = Some (v # s)" by (simp_all add: computes_def)
  show ?thesis
    by (intro exI [of _ r] conjI allI impI r(1) computes_check [OF r(2)] routine_exec [OF items res])
qed

theorem constant_routine_correct_witness:
  "\<exists>r. compute_init \<lparr>isCreation = False, runs = 1, multiplicity = 1, evmVersion = Byzantium\<rparr> 0x7f = Inr r \<and>
     execItems simpleEnv r [] () = Some ([0x7f], ())"
proof -
  let ?ps = "\<lparr>isCreation = False, runs = 1, multiplicity = 1, evmVersion = Byzantium\<rparr>"
  have "compute_init ?ps 0x7f = Inr [pushItem 0x7f]"
    by (simp add: compute_init_def findRepresentation.simps checkRepresentation_def)
  with constant_routine_correct [of ?ps "0x7f" simpleEnv] show ?thesis by (auto simp: stackLimit_def)
qed

text \<open>
  C15. A routine found for a constant whose complement is not shorter never needs more gas than pushing the constant.
\<close>

theorem constant_routine_not_dearer:
  assumes "\<not> bytesRequired (unat (not v)) < bytesRequired (unat v)"
  shows "\<exists>r n g g'. findRepresentation ps v maxSteps = Inr (r, n) \<and> compute_gasNeeded ps r = Inr g \<and>
    compute_gasNeeded ps [pushItem v] = Inr g' \<and> g \<le> g'"
  using findRepresentation_ok [of ps v maxSteps] assms by blast

theorem constant_routine_not_dearer_witness:
  "\<exists>r n g g'. findRepresentation \<lparr>isCreation = False, runs = 1, multiplicity = 1, evmVersion = Byzantium\<rparr> 0x100000000000000000000000000000000 10000 = Inr (r, n) \<and>
    compute_gasNeeded \<lparr>isCreation = False, runs = 1, multiplicity = 1, evmVersion = Byzantium\<rparr> r = Inr g \<and>
    compute_gasNeeded \<lparr>isCreation = False, runs = 1, multiplicity = 1, evmVersion = Byzantium\<rparr> [pushItem 0x100000000000000000000000000000000] = Inr g' \<and> g \<le> g'"
proof (rule constant_routine_not_dearer)
  have "(0x100000000000000000000000000000000 :: u256) \<le> not 0x100000000000000000000000000000000" by simp
  then show "\<not> bytesRequired (unat (not (0x100000000000000000000000000000000 :: u256)))
      < bytesRequired (unat (0x100000000000000000000000000000000 :: u256))"
    unfolding not_less word_le_nat_alt by (rule bytesRequired_mono)
qed




text \<open>
  C18. JumpdestRemover::optimise keeps the items in order, keeps every item that is not a tag and every tag that is pushed in this assembly or referenced from outside, and reports whether something was removed.
\<close>

theorem jumpdest_removal_exact:
  assumes "jumpdest_optimise outside P = Inr (changed, Q)"
  shows "\<exists>refs. Q = filter (\<lambda>i. m_type i \<noteq> Tag \<or> ucast (m_data i) \<in> refs) P \<and> outside \<subseteq> refs \<and>
    (\<forall>i\<in>set P. m_type i = PushTag \<and> splitForeignPushTag i = Inr (- 1, ucast (m_data i)) \<longrightarrow> ucast (m_data i) \<in> refs) \<and>
    changed = (Q \<noteq> P)"
proof -
  from jumpdest_optimise_filter [OF assms] obtain refs where "Q = filter (keepItem refs) P" "outside \<subseteq> refs"
    "\<forall>i\<in>set P. m_type i = PushTag \<and> ownTag i \<longrightarrow> tagId i \<in> refs" "changed = (Q \<noteq> P)" by blast
  then show ?thesis by (intro exI [of _ refs]) (auto simp: keepItem_def [abs_def] tagId_def ownTag_def)
qed

theorem jumpdest_removal_exact_witness:
  "\<exists>refs :: 64 word set. [opItem STOP noLocation] = filter (\<lambda>i. m_type i \<noteq> Tag \<or> ucast (m_data i) \<in> refs)
     [mkItem Tag 3 noLocation, opItem STOP noLocation] \<and> {} \<subseteq> refs"
proof -
  have "jumpdest_optimise {} [mkItem Tag 3 noLocation, opItem STOP noLocation] = Inr (True, [opItem STOP noLocation])"
    by code_simp
  from jumpdest_removal_exact [OF this] show ?thesis by blast
qed

text \<open>
  C19. validateUTF8 accepts a byte string exactly when it is a sequence of well-formed UTF-8 characters in the sense of Table 3-7 of the Unicode standard.
\<close>

theorem utf8_validation_exact: "fst (validateUTF8 input) \<longleftrightarrow> utf8_string input"
  by (rule validateUTF8_iff)

text \<open>
  C20. stringDistance, which keeps three rows of its table, computes the recursively defined optimal string alignment distance; it is symmetric, at most the longer length, and zero exactly for equal strings.
\<close>

theorem string_distance_exact:
  "stringDistance a b = osa a b (length a) (length b) \<and> stringDistance a b = stringDistance b a \<and>
   stringDistance a b \<le> max (length a) (length b) \<and> (stringDistance a b = 0 \<longleftrightarrow> a = b)"
  using stringDistance_osa [of a b] stringDistance_osa [of b a] osa_sym [of a b "length a" "length b"]
    osa_le_max [of a b "length a" "length b"] stringDistance_eq_0_iff [of a b] by simp

text \<open>
  C21. Bytes written by toHex, with or without the prefix, are read back by fromHex.
\<close>

theorem hex_round_trip: "fromHex (toHex bs 2 prefix) throw = Inr bs"
  by (rule fromHex_toHex)

text \<open>
  C22. Walking over byte code that was written one instruction after the other, each followed by its operand in as many bytes as the instruction table says, visits exactly those instructions with those operands.
\<close>

theorem bytecode_walk_round_trip:
  assumes "\<forall>(i, d)\<in>set ps. unat d < 256 ^ additionalBytes i"
  shows "eachInstruction (concat (map encodeInstruction ps)) = ps"
  using assms by (rule eachInstruction_encode)

theorem bytecode_walk_round_trip_witness:
  "eachInstruction (concat (map encodeInstruction [(PUSH2, 0x1234), (STOP, 0)])) = [(PUSH2, 0x1234 :: u256), (STOP, 0)]"
proof (rule bytecode_walk_round_trip)
  have "additionalBytes PUSH2 = 2" "additionalBytes STOP = 0" by code_simp+
  then show "\<forall>(i, d)\<in>set [(PUSH2, 0x1234 :: u256), (STOP, 0)]. unat d < 256 ^ additionalBytes i" by simp
qed

text \<open>
  C23. A search for duplicate blocks, with its iterators, its lexicographic comparison and its ordered set, replaces exactly the tags that have an earlier tag with the same content (the items up to the end of the block without tags, with pushes of the block's own tag identified), and it replaces them by such a tag.
\<close>

theorem duplicates_found_exactly:
  "(map_of (findDuplicates items 0 [] []) k \<noteq> None) = (\<exists>v. duplicate items k v) \<and>
   (case map_of (findDuplicates items 0 [] []) k of None \<Rightarrow> True | Some v \<Rightarrow> duplicate items k v)"
proof -
  have sound: "duplicate items k v" if "map_of (findDuplicates items 0 [] []) k = Some v" for v
    using findDuplicates_sound [OF _ that] by simp
  moreover have "map_of (findDuplicates items 0 [] []) k \<noteq> None" if "duplicate items k v" for v
    using that findDuplicates_complete [of "[]" items 0] by (fastforce simp: duplicate_def)
  ultimately show ?thesis by (auto split: option.split)
qed

text \<open>
  C24. For an object whose references lie inside the code without overlapping, and addresses of 20 bytes: linking keeps the size, writes the address of every matched library at its reference, leaves every other byte alone, keeps exactly the references without a match, keeps the references separate, and linking again changes nothing.
\<close>

theorem linking_exact:
  assumes "linkable obj" "\<forall>a\<in>snd ` set libs. length a = 20"
  shows "linkable (link libs obj) \<and> length (lo_bytecode (link libs obj)) = length (lo_bytecode obj) \<and>
    (\<forall>(pos, name)\<in>set (lo_linkReferences obj). \<forall>address. matchLibrary name libs = Some address \<longrightarrow>
       take 20 (drop pos (lo_bytecode (link libs obj))) = address) \<and>
    (\<forall>i<length (lo_bytecode obj).
       (\<forall>(pos, name)\<in>set (lo_linkReferences obj). matchLibrary name libs = None \<or> i < pos \<or> pos + 20 \<le> i) \<longrightarrow>
       lo_bytecode (link libs obj) ! i = lo_bytecode obj ! i) \<and>
    lo_linkReferences (link libs obj) = filter (\<lambda>(pos, name). matchLibrary name libs = None) (lo_linkReferences obj) \<and>
    link libs (link libs obj) = link libs obj"
  using link_exact [OF assms] link_eq(1) [OF assms(1)] by blast

theorem linking_exact_witness:
  "take 20 (drop 1 (lo_bytecode (link [(''L'', replicate 20 7)]
      \<lparr>lo_bytecode = 0x73 # replicate 20 0, lo_linkReferences = [(1, ''a:L'')]\<rparr>))) = replicate 20 7"
proof -
  let ?obj = "\<lparr>lo_bytecode = 0x73 # replicate 20 0, lo_linkReferences = [(1, ''a:L'')]\<rparr>"
  have "linkable ?obj" by (simp add: linkable_def)
  moreover have "\<forall>a\<in>snd ` set [(''L'', replicate 20 (7 :: byte))]. length a = 20" by simp
  moreover have "matchLibrary ''a:L'' [(''L'', replicate 20 7)] = Some (replicate 20 7)" by code_simp
  ultimately show ?thesis using linking_exact [of ?obj "[(''L'', replicate 20 7)]"] by simp
qed

text \<open>
  C25. The hex text of an object with separate references has two characters for each byte and shows, at every reference, a placeholder of forty characters with the name of the library; without references it reads back as the byte code. Appending objects keeps references separate and shifts the appended ones.
\<close>

theorem placeholders_shown:
  assumes "linkable obj" "linkable other"
  shows "length (lo_toHex obj) = 2 * length (lo_bytecode obj) \<and>
    (\<forall>(pos, name)\<in>set (lo_linkReferences obj). take 40 (drop (2 * pos) (lo_toHex obj)) = placeholder name) \<and>
    (lo_linkReferences obj = [] \<longrightarrow> fromHex (lo_toHex obj) WhenError.Throw = Inr (lo_bytecode obj)) \<and>
    linkable (lo_append obj other) \<and>
    lo_linkReferences (lo_append obj other) =
      lo_linkReferences obj @ map (apfst (\<lambda>pos. pos + length (lo_bytecode obj))) (lo_linkReferences other)"
  using toHex_exact [OF assms(1)] linkable_append [OF assms] lo_append_eq [OF assms] by auto

theorem placeholders_shown_witness:
  "take 40 (drop 2 (lo_toHex \<lparr>lo_bytecode = 0x73 # replicate 20 0, lo_linkReferences = [(1, ''L'')]\<rparr>)) = placeholder ''L''"
proof -
  let ?obj = "\<lparr>lo_bytecode = 0x73 # replicate 20 0, lo_linkReferences = [(1, ''L'')]\<rparr>"
  have "linkable ?obj" by (simp add: linkable_def)
  from placeholders_shown [OF this this] show ?thesis by simp
qed

text \<open>
  C26. The unrolled permutation, which moves the lanes along a chain through one array, is the composition of the step mappings theta, rho, pi, chi and iota of FIPS 202 over 24 rounds, with the rotation offsets of the standard's walk and the round constants of its shift register.
\<close>

theorem keccak_permutation_standard:
  assumes "length a = 25"
  shows "keccakf a = of_lanes (spec_keccakf (lane_at a)) \<and>
    RC = map (\<lambda>i. spec_RC (take 7 (drop (7 * i) (lfsr_bits 168 (True # replicate 7 False))))) [0..<24]"
  using keccakf_equiv [OF assms] RC_equiv by blast

theorem keccak_permutation_standard_witness:
  "keccakf (replicate 25 0) = of_lanes (spec_keccakf (lane_at (replicate 25 0)))"
  using keccak_permutation_standard [of "replicate 25 0"] by simp



text \<open>
  C28. Every sized elementary type (bytes, int, uint, fixed, ufixed with admissible sizes) is read back from its name with its sizes, for a number parser that reads decimal numbers that fit into an int.
\<close>

theorem sized_type_round_trip:
  assumes "lexical_ok lexical_cast" "sizedType tok m n"
  shows "\<exists>s. et_toString \<lparr>et_token = tok, et_firstNumber = m, et_secondNumber = n\<rparr> False = Inr s \<and>
    fromIdentifierOrKeyword lexical_cast s = (tok, m, n)"
  using assms by (rule type_token_printed_read)

theorem sized_type_round_trip_witness:
  "\<exists>s. et_toString \<lparr>et_token = T_UFixedMxN, et_firstNumber = 128, et_secondNumber = 18\<rparr> False = Inr s \<and>
    fromIdentifierOrKeyword (\<lambda>s. if decVal s < 2 ^ 31 then Some (int (decVal s)) else None) s = (T_UFixedMxN, 128, 18)"
  using sized_type_round_trip [of "\<lambda>s. if decVal s < 2 ^ 31 then Some (int (decVal s)) else None" T_UFixedMxN 128 18]
  by (simp add: lexical_ok_def sizedType_def)

text \<open>
  C29. A component with a prefix and three numbers accepts exactly the versions its prefix stands for, with a prerelease before its release: equal, smaller, greater, the same minor release for a tilde, and the same major release (or the same minor one below 1.0.0) for a caret. Numbers are below 2 to the 31, where the signed difference does not wrap.
\<close>

theorem semver_match_exact:
  assumes "list_all (\<lambda>w. w < 2 ^ 31) [a, b, c, x, y, z]"
    and "prefix \<in> {T_Assign, T_LessThan, T_LessThanOrEqual, T_GreaterThan, T_GreaterThanOrEqual, T_BitNot, T_BitXor}"
    and "sv_numbers v = [a, b, c]" "sv_numbers ver = [x, y, z]"
  shows "mc_matches \<lparr>mc_prefix = prefix, mc_version = ver, mc_levelsPresent = 3\<rparr> v = Inr (acceptedBy prefix [x, y, z] v)"
  using assms by (rule component_matches)

theorem semver_match_exact_witness:
  "mc_matches \<lparr>mc_prefix = T_BitXor, mc_version = sv_default\<lparr>sv_numbers := [0, 4, 24]\<rparr>, mc_levelsPresent = 3\<rparr>
     (sv_default\<lparr>sv_numbers := [0, 4, 25]\<rparr>) = Inr True"
proof -
  have "acceptedBy T_BitXor [0, 4, 24] (sv_default\<lparr>sv_numbers := [0, 4, 25]\<rparr>)"
    by (simp add: acceptedBy_def versionLess_def sv_default_def isPrerelease_def)
  then show ?thesis
    using semver_match_exact [of 0 4 25 0 4 24 T_BitXor "sv_default\<lparr>sv_numbers := [0, 4, 25]\<rparr>" "sv_default\<lparr>sv_numbers := [0, 4, 24]\<rparr>"]
    by (simp add: sv_default_def)
qed



text \<open>
  C31. The size computation returns the size for the least tag width, from the given one on, whose bytes can hold it, and that width is never more than four bytes or the given one.
\<close>

theorem size_settles_least_width:
  assumes "asm_bytesRequired s t = Inr n"
  shows "\<exists>w\<ge>t. w \<le> max t 4 \<and> codeSize s w = Inr n \<and> bytesRequired n \<le> w \<and>
    (\<forall>v. t \<le> v \<and> v < w \<longrightarrow> (\<exists>m. codeSize s v = Inr m \<and> v < bytesRequired m))"
  using assms by (rule asm_bytesRequired_least)

theorem size_settles_least_width_witness:
  "\<exists>w\<ge>1. w \<le> max 1 4 \<and> codeSize (asm_state emptyAssembly) w = Inr 1"
proof -
  have "asm_bytesRequired (asm_state emptyAssembly) 1 = Inr 1" by code_simp
  from size_settles_least_width [OF this] show ?thesis by blast
qed



text \<open>
  C33. The integer type chosen for an integer constant is signed exactly when the constant is negative, holds the constant, and is the smallest such type; no type is chosen exactly when the constant is outside of the 256-bit ranges.
\<close>

theorem constant_type_smallest:
  fixes k :: int
  shows "case integerType (of_int k) of
      None \<Rightarrow> k \<ge> 2 ^ 256 \<or> k < - (2 ^ 255)
    | Some t \<Rightarrow> \<exists>b m. t = IntegerType b m \<and> validInteger b m \<and> isSigned m = (k < 0) \<and> \<not> isAddress m \<and>
        of_int k \<in> typeValues t \<and>
        \<not> (\<exists>b'. validInteger b' m \<and> of_int k \<in> typeValues (IntegerType b' m) \<and> b' < b)"
proof (cases "integerType (of_int k)")
  case (Some t)
  with integerType_smallest [of k] obtain b m where "t = IntegerType b m" "validInteger b m" "isSigned m = (k < 0)" "\<not> isAddress m"
      "of_int k \<in> typeValues t" "\<And>b'. validInteger b' m \<Longrightarrow> of_int k \<in> typeValues (IntegerType b' m) \<Longrightarrow> b \<le> b'"
    by auto
  then show ?thesis by (simp add: Some del: typeValues.simps) (metis leD)
qed (use integerType_smallest [of k] in simp)

text \<open>
  C34. The places computed for a list of types (as the members of a struct or the state variables of a contract) follow one another without overlap inside the slots the whole takes; what shares a slot does not cross its end, and exactly the types that can be stored are given a place.
\<close>

theorem storage_layout_disjoint:
  assumes "computeOffsets (map (typeShape env n) ts) = Inr so" "list_all (storableType env) ts"
  shows "laidOut (\<lambda>i. map (typeShape env n) ts ! i) 0 (32 * so_storageSize so) (so_offsets so) \<and>
    map fst (so_offsets so) = filter (\<lambda>i. canBeStored (ts ! i)) [0..<length ts]"
proof -
  have "list_all (\<lambda>sh. sh_canBeStored sh \<longrightarrow> properShape sh) (map (typeShape env n) ts)"
    using assms(2) typeShape_proper by (auto simp: list_all_iff)
  moreover have "filter (\<lambda>i. sh_canBeStored (map (typeShape env n) ts ! i)) [0..<length ts] =
      filter (\<lambda>i. canBeStored (ts ! i)) [0..<length ts]"
    by (rule filter_cong) (auto simp: typeShape_def)
  ultimately show ?thesis using computeOffsets_laidOut [OF assms(1)] by simp
qed

theorem storage_layout_disjoint_witness:
  "\<exists>so. computeOffsets (map (typeShape \<lparr>te_bases = \<lambda>_. [], te_isLibrary = \<lambda>_. False, te_structMembers = \<lambda>_. [], te_numberOfMembers = \<lambda>_. 0, te_sameComponents = \<lambda>_ _. False\<rparr> 0) [BoolType, IntegerType 256 UnsignedInt, IntegerType 160 AddressInt]) = Inr so \<and>
     map fst (so_offsets so) = [0, 1, 2] \<and> so_storageSize so = 3"
proof -
  have "computeOffsets (map (typeShape \<lparr>te_bases = \<lambda>_. [], te_isLibrary = \<lambda>_. False, te_structMembers = \<lambda>_. [], te_numberOfMembers = \<lambda>_. 0, te_sameComponents = \<lambda>_ _. False\<rparr> 0) [BoolType, IntegerType 256 UnsignedInt, IntegerType 160 AddressInt]) =
      Inr \<lparr>so_storageSize = 3, so_offsets = [(0, 0, 0), (1, 1, 0), (2, 2, 0)]\<rparr>"
    by (simp add: computeOffsets_def typeShape_def storageSize.simps Let_def assertThrow_def)
  moreover from storage_layout_disjoint [OF this] have "map fst [(0, 0, 0), (1, 1, 0), (2 :: nat, 2 :: nat, 0 :: nat)] = [0, 1, 2]"
    by (simp add: storableType_def validInteger_def isAddress_def)
  ultimately show ?thesis by simp
qed

text \<open>
  C35. The SECBIT checker keeps every error reported before it, in order, and appends only SECBIT warnings; so its verdict is whether the errors before it were only warnings.
\<close>

theorem secbit_checker_only_warns:
  assumes "checkSyntax asERC20 types depth u r = Inr (ok, r')"
  shows "(\<exists>ws. m_errorList r' = m_errorList r @ ws \<and> list_all (\<lambda>w. er_type w = SECBITWarningT) ws) \<and>
    ok = containsOnlyWarnings (m_errorList r)"
  using checker_grows [OF assms] by (auto simp: growing_def list_all_iff)

theorem secbit_checker_only_warns_witness:
  "\<exists>r'. checkSyntax False \<lparr>te_bases = \<lambda>_. [], te_isLibrary = \<lambda>_. False, te_structMembers = \<lambda>_. [], te_numberOfMembers = \<lambda>_. 0, te_sameComponents = \<lambda>_ _. False\<rparr> 0
      \<lparr>n_id = 1, n_location = noLocation, su_nodes = [ContractNode \<lparr>n_id = 2, n_location = noLocation, cd_name = ''C'', cd_baseContracts = [],
        cd_subNodes = [FunctionNode \<lparr>n_id = 3, n_location = noLocation, fd_name = ''f'', fd_visibility = PublicVisibility, fd_stateMutability = NonPayable,
          fd_isConstructor = False, fd_parameters = ParameterList \<lparr>n_id = 4, n_location = noLocation\<rparr> [], fd_modifiers = [],
          fd_returnParameters = ParameterList \<lparr>n_id = 5, n_location = noLocation\<rparr> [],
          fd_body = Some (Block \<lparr>n_id = 6, n_location = noLocation\<rparr> [ExpressionStatement \<lparr>n_id = 7, n_location = noLocation\<rparr>
             (BinaryOperation \<lparr>n_id = 8, n_location = noLocation, e_type = None\<rparr> (Identifier \<lparr>n_id = 9, n_location = noLocation, e_type = None\<rparr> ''x'' None) T_LessThan (Identifier \<lparr>n_id = 10, n_location = noLocation, e_type = None\<rparr> ''now'' None))])\<rparr>], cd_contractKind = Contract\<rparr>]\<rparr>
      \<lparr>m_errorList = [], m_errorCount = 0, m_warningCount = 0\<rparr> = Inr (True, r')"
proof -
  let ?r = "\<lparr>m_errorList = [], m_errorCount = 0, m_warningCount = 0\<rparr>"
  let ?u = "\<lparr>n_id = 1, n_location = noLocation, su_nodes = [ContractNode \<lparr>n_id = 2, n_location = noLocation, cd_name = ''C'', cd_baseContracts = [],
        cd_subNodes = [FunctionNode \<lparr>n_id = 3, n_location = noLocation, fd_name = ''f'', fd_visibility = PublicVisibility, fd_stateMutability = NonPayable,
          fd_isConstructor = False, fd_parameters = ParameterList \<lparr>n_id = 4, n_location = noLocation\<rparr> [], fd_modifiers = [],
          fd_returnParameters = ParameterList \<lparr>n_id = 5, n_location = noLocation\<rparr> [],
          fd_body = Some (Block \<lparr>n_id = 6, n_location = noLocation\<rparr> [ExpressionStatement \<lparr>n_id = 7, n_location = noLocation\<rparr>
             (BinaryOperation \<lparr>n_id = 8, n_location = noLocation, e_type = None\<rparr> (Identifier \<lparr>n_id = 9, n_location = noLocation, e_type = None\<rparr> ''x'' None) T_LessThan (Identifier \<lparr>n_id = 10, n_location = noLocation, e_type = None\<rparr> ''now'' None))])\<rparr>], cd_contractKind = Contract\<rparr>]\<rparr>"
  have "\<not> (case acceptSourceUnit (checker \<lparr>ce_asERC20 = False, ce_types = \<lparr>te_bases = \<lambda>_. [], te_isLibrary = \<lambda>_. False, te_structMembers = \<lambda>_. [], te_numberOfMembers = \<lambda>_. 0, te_sameComponents = \<lambda>_ _. False\<rparr>, ce_depth = 0, ce_parent = p\<rparr>) ?u (Inr (initialChecker ?r)) of Inl e \<Rightarrow> True | Inr r \<Rightarrow> False)" for p
    by code_simp
  then obtain ok r' where r: "checkSyntax False \<lparr>te_bases = \<lambda>_. [], te_isLibrary = \<lambda>_. False, te_structMembers = \<lambda>_. [], te_numberOfMembers = \<lambda>_. 0, te_sameComponents = \<lambda>_ _. False\<rparr> 0 ?u ?r = Inr (ok, r')"
    using checkSyntax_returns by blast
  from secbit_checker_only_warns [OF r] r show ?thesis by (auto simp: containsOnlyWarnings_def)
qed

text \<open>
  C36. Any string, written between two quotes with its printable characters as they are and every other one (and the quote and the backslash) as two hexadecimal digits after backslash x, is scanned as one string literal that holds the string again, and the scanner stands behind the closing quote.
\<close>

theorem string_literal_round_trip:
  assumes "q = CHR 0x22 \<or> q = CHR 0x27"
  shows "\<exists>st. scanString (scannerAt (q # concat (map (escapeChar q) s) @ q # w)) = Inr (T_StringLiteral, st) \<and>
    peekLiteral st = s \<and> unread st = w"
  using scanString_escaped [OF scannerAt_held(1) scannerAt_held(2) assms] by (fastforce simp: peekLiteral_def scannedLiteral_def)

theorem string_literal_round_trip_witness:
  "\<exists>st. scanString (scannerAt (CHR 0x22 # concat (map (escapeChar CHR 0x22) [CHR 0x22, CHR 0xE9]) @ [CHR 0x22, CHR '';''])) =
     Inr (T_StringLiteral, st) \<and> peekLiteral st = [CHR 0x22, CHR 0xE9] \<and> unread st = '';''"
  using string_literal_round_trip [of "CHR 0x22" "[CHR 0x22, CHR 0xE9]" "'';''"] by simp

text \<open>
  C37. What the unused pruner leaves is needed: in its result every function is referred to, and every declaration of variables declares one that is referred to, or several ones with a value that is not movable.
\<close>

theorem pruner_leaves_needed:
  assumes "strictBlock b" "runUntilStabilised b = Inr b'"
  shows "tidyBlock (\<lambda>n. 0 < refsBlock n b') b'"
  by (rule pruning_tidies [OF assms])

theorem pruner_leaves_needed_witness:
  "\<exists>b'. runUntilStabilised (AsmBlock noLocation [AsmVariableDeclaration noLocation [\<lparr>tn_location = noLocation, tn_name = ''x'', tn_type = ''''\<rparr>] (Some (AsmFunctionalInstruction noLocation ADD [AsmLiteralExpression \<lparr>al_location = noLocation, al_kind = NumberLiteral, al_value = ''1'', al_type = ''''\<rparr>, AsmLiteralExpression \<lparr>al_location = noLocation, al_kind = NumberLiteral, al_value = ''2'', al_type = ''''\<rparr>])),
    AsmVariableDeclaration noLocation [\<lparr>tn_location = noLocation, tn_name = ''y'', tn_type = ''''\<rparr>] (Some (AsmIdentifierExpression \<lparr>ai_location = noLocation, ai_name = ''x''\<rparr>)),
    AsmFunctionDefinition noLocation ''f'' [\<lparr>tn_location = noLocation, tn_name = ''a'', tn_type = ''''\<rparr>] [\<lparr>tn_location = noLocation, tn_name = ''r'', tn_type = ''''\<rparr>] (AsmBlock noLocation [AsmAssignment noLocation [\<lparr>ai_location = noLocation, ai_name = ''r''\<rparr>] (AsmIdentifierExpression \<lparr>ai_location = noLocation, ai_name = ''a''\<rparr>)]),
    AsmExpressionStatement noLocation (AsmFunctionalInstruction noLocation SSTORE [AsmLiteralExpression \<lparr>al_location = noLocation, al_kind = NumberLiteral, al_value = ''0'', al_type = ''''\<rparr>, AsmLiteralExpression \<lparr>al_location = noLocation, al_kind = NumberLiteral, al_value = ''7'', al_type = ''''\<rparr>])]) = Inr b' \<and> tidyBlock (\<lambda>n. 0 < refsBlock n b') b'"
proof -
  let ?b = "AsmBlock noLocation [AsmVariableDeclaration noLocation [\<lparr>tn_location = noLocation, tn_name = ''x'', tn_type = ''''\<rparr>] (Some (AsmFunctionalInstruction noLocation ADD [AsmLiteralExpression \<lparr>al_location = noLocation, al_kind = NumberLiteral, al_value = ''1'', al_type = ''''\<rparr>, AsmLiteralExpression \<lparr>al_location = noLocation, al_kind = NumberLiteral, al_value = ''2'', al_type = ''''\<rparr>])),
    AsmVariableDeclaration noLocation [\<lparr>tn_location = noLocation, tn_name = ''y'', tn_type = ''''\<rparr>] (Some (AsmIdentifierExpression \<lparr>ai_location = noLocation, ai_name = ''x''\<rparr>)),
    AsmFunctionDefinition noLocation ''f'' [\<lparr>tn_location = noLocation, tn_name = ''a'', tn_type = ''''\<rparr>] [\<lparr>tn_location = noLocation, tn_name = ''r'', tn_type = ''''\<rparr>] (AsmBlock noLocation [AsmAssignment noLocation [\<lparr>ai_location = noLocation, ai_name = ''r''\<rparr>] (AsmIdentifierExpression \<lparr>ai_location = noLocation, ai_name = ''a''\<rparr>)]),
    AsmExpressionStatement noLocation (AsmFunctionalInstruction noLocation SSTORE [AsmLiteralExpression \<lparr>al_location = noLocation, al_kind = NumberLiteral, al_value = ''0'', al_type = ''''\<rparr>, AsmLiteralExpression \<lparr>al_location = noLocation, al_kind = NumberLiteral, al_value = ''7'', al_type = ''''\<rparr>])]"
  have "strictBlock ?b" by simp
  then show ?thesis using pruner_leaves_needed pruning_returns by blast
qed

text \<open>
  C38. Two expressions are syntactically equal exactly if they are the same once all locations are erased; so syntactical equality is an equivalence, and looks at instructions, names, kinds, values and types of literals and the number of arguments.
\<close>

theorem syntactical_equality_exact:
  "syntacticallyEqual e e' = (unlocated e = unlocated e') \<and> equivp syntacticallyEqual"
  by (auto simp: syntactical_equality(1) intro!: equivpI reflpI sympI transpI)

text \<open>
  C39. The name dispenser returns: the name is the prefix or the prefix with an underscore and a number, it is not empty and not one of the names used before, and it is used from then on.
\<close>

theorem new_names_fresh:
  "\<exists>name. newName prefix names = Some (name, name # names) \<and> name \<noteq> [] \<and> name \<notin> set names \<and>
    (\<exists>k. name = (if k = 0 then prefix else prefix @ ''_'' @ decNat k))"
  using newName_fresh [of prefix names] by (simp add: triedName_def)



section \<open>Further facts\<close>

text \<open>
  The compact big-endian bytes of a number are as many as bytesRequired says but at least the minimum, and read back as the number; a number takes at most k bytes exactly when it is below 256 to the k.
\<close>

theorem big_endian_round_trip:
  "length (toCompactBigEndian v mn) = max mn (bytesRequired v) \<and> fromBigEndian (toCompactBigEndian v mn) = v \<and>
   (bytesRequired v \<le> k \<longleftrightarrow> v < 256 ^ k)"
proof -
  have "v < 256 ^ max mn (bytesRequired v)" using bytesRequired_le_iff [of v "max mn (bytesRequired v)"] by simp
  then have "fromBigEndian (toCompactBigEndian v mn) = v"
    using fromBigEndian_toBigEndian by (simp add: toCompactBigEndian_def)
  then show ?thesis using bytesRequired_le_iff by simp
qed

text \<open>
  A sub-assembly id and a tag packed into a push tag are what splitForeignPushTag returns, with the id -1 for a tag of the assembly itself.
\<close>

theorem sub_tag_round_trip:
  assumes "setPushTagSubIdAndTag i sub tg = Inr j"
  shows "splitForeignPushTag j = Inr (sub, tg)"
  using assms by (rule setPushTag_split)

theorem sub_tag_round_trip_witness:
  "\<exists>j. setPushTagSubIdAndTag (mkItem PushTag 0 noLocation) 2 5 = Inr j \<and> splitForeignPushTag j = Inr (2, 5)"
proof -
  obtain j where "setPushTagSubIdAndTag (mkItem PushTag 0 noLocation) 2 5 = Inr j"
    by (simp add: setPushTagSubIdAndTag_def isTagItem_def item_setData_def mkItem_def)
  with sub_tag_round_trip [OF this] show ?thesis by blast
qed

text \<open>
  Adding gas consumptions is addition of numbers that becomes infinite when it reaches 2 to the 256 or an argument is infinite; so it is associative and commutative, and never makes an estimate smaller.
\<close>

theorem gas_sum_saturates:
  "gas_amount (gas_add a b) = amount_add (gas_amount a) (gas_amount b) \<and>
   gas_amount (gas_add (gas_add a b) c) = gas_amount (gas_add a (gas_add b c)) \<and>
   gas_amount (gas_add a b) = gas_amount (gas_add b a) \<and> amount_le (gas_amount a) (gas_amount (gas_add a b))"
  unfolding gas_add_amount using amount_add_assoc amount_add_commute amount_le_add by blast

text \<open>
  No opcode and no mnemonic occurs twice, the table of mnemonics lists exactly the instructions of the table of properties under their names, and an instruction is valid exactly when the table has it.
\<close>

theorem instruction_tables_agree:
  "distinct (map fst c_instructionInfo) \<and> distinct (map fst c_instructions) \<and>
   set c_instructions = (\<lambda>(i, info). (info_name info, i)) ` set c_instructionInfo \<and>
   (isValidInstruction i \<longleftrightarrow> (i, instructionInfo i) \<in> set c_instructionInfo)"
  using distinct_opcodes distinct_names set_c_instructions isValidInstruction_iff by blast

text \<open>
  The comparison of assembly items is a strict total order up to the equality that ignores source locations: of any two items exactly one is smaller or they are equal, and smaller is transitive.
\<close>

theorem item_order_strict:
  "((itemLess a b \<and> \<not> itemEq a b \<and> \<not> itemLess b a) \<or> (\<not> itemLess a b \<and> itemEq a b \<and> \<not> itemLess b a) \<or>
    (\<not> itemLess a b \<and> \<not> itemEq a b \<and> itemLess b a)) \<and> transp itemLess \<and> equivp itemEq"
  using itemLess_trichotomy [of a b] itemLess_trans itemEq_equivp by (auto simp: transp_def)

text \<open>
  The checksummed form of an address is its own checksummed form and passes the checksum test, strict or not, for every hash function.
\<close>

theorem checksummed_address_passes:
  assumes "getChecksummedAddress hash addr = Inr c"
  shows "getChecksummedAddress hash c = Inr c \<and> passesAddressChecksum hash c strict = Inr True"
  using getChecksummedAddress_idem [OF assms] passesAddressChecksum_checksummed [OF assms] by blast

theorem checksummed_address_passes_witness:
  "passesAddressChecksum (\<lambda>s. replicate 32 0xff) (''0x'' @ replicate 40 CHR ''A'') True = Inr True"
proof -
  have "getChecksummedAddress (\<lambda>s. replicate 32 0xff) (''0x'' @ replicate 40 CHR ''a'') = Inr (''0x'' @ replicate 40 CHR ''A'')"
    by code_simp
  from checksummed_address_passes [OF this] show ?thesis by blast
qed

text \<open>
  u2s is the two's complement reading of a word, s2u reduces modulo 2 to the 256, and s2u undoes u2s.
\<close>

theorem signed_conversion_round_trip: "u2s u = sint u \<and> s2u i = word_of_int i \<and> s2u (u2s u) = u"
  by (simp add: u2s_eq_sint s2u_eq)

text \<open>
  Whatever identifier is scanned and whatever the number parser returns, a token classified as an elementary type passes the assertions of ElementaryTypeNameToken.
\<close>

theorem type_tokens_accepted:
  assumes "fromIdentifierOrKeyword lexical_cast literal = (tok, m, n)" "isElementaryTypeName tok"
  shows "assertDetails tok m n = Inr \<lparr>et_token = tok, et_firstNumber = m, et_secondNumber = n\<rparr>"
  using assms by (rule type_token_accepted)

theorem type_tokens_accepted_witness:
  "assertDetails T_Address 0 0 = Inr \<lparr>et_token = T_Address, et_firstNumber = 0, et_secondNumber = 0\<rparr>"
proof -
  have "fromIdentifierOrKeyword (\<lambda>s. None) ''address'' = (T_Address, 0, 0)" by code_simp
  moreover have "isElementaryTypeName T_Address" by (simp add: isElementaryTypeName_def)
  ultimately show ?thesis by (rule type_tokens_accepted)
qed

text \<open>
  Appending one assembly to another keeps the invariant that every placed tag is below the counter and placed only once, as long as the counters do not overflow: the deposits add up, the subs follow those of the first, and the items, renumbered, follow its items.
\<close>

theorem append_keeps_tags:
  assumes "asmTagsOk a" "asmTagsOk b"
    "unat (m_usedTags (asm_state a)) + unat (m_usedTags (asm_state b)) < 2 ^ 32"
    "appendAssembly b a = Inr r"
  shows "asmTagsOk r \<and> m_deposit (asm_state r) = m_deposit (asm_state a) + m_deposit (asm_state b) \<and>
    m_subs r = m_subs a @ m_subs b \<and>
    (\<exists>is. list_all2 sameButLocation (map (renumber a) (m_items (asm_state b))) is \<and>
      m_items (asm_state r) = m_items (asm_state a) @ is)"
  using assms by (rule appendAssembly_tags)

theorem append_keeps_tags_witness:
  "\<exists>r. appendAssembly (onState (\<lambda>s. s\<lparr>m_usedTags := 2, m_items := [mkItem Tag 1 noLocation]\<rparr>) emptyAssembly)
        (onState (\<lambda>s. s\<lparr>m_usedTags := 2, m_items := [mkItem Tag 1 noLocation]\<rparr>) emptyAssembly) = Inr r \<and> asmTagsOk r"
proof -
  let ?a = "onState (\<lambda>s. s\<lparr>m_usedTags := 2, m_items := [mkItem Tag 1 noLocation]\<rparr>) emptyAssembly"
  have ok: "asmTagsOk ?a" by code_simp
  have "\<not> (case appendAssembly ?a ?a of Inl e \<Rightarrow> True | Inr r \<Rightarrow> False)" by code_simp
  then obtain r where r: "appendAssembly ?a ?a = Inr r" by (auto split: sum.splits)
  have "unat (m_usedTags (asm_state ?a)) + unat (m_usedTags (asm_state ?a)) < 2 ^ 32" by simp
  from append_keeps_tags [OF ok ok this r] r show ?thesis by blast
qed

end
